(* ===== verification/Krust_Prelude.thy ===== *)
theory Krust_Prelude
  imports Main "HOL-Library.Word"
begin

text \<open>
  Shared vocabulary of the development: the machine integer types of the
  kernel, the checked and saturating operations of Rust's unsigned integers,
  the \<^verbatim>\<open>while index < N\<close> scans over fixed-size tables, and
  the lemmas about them that the component theories use.

  A Rust \<^verbatim>\<open>&mut self -> Result<T, E>\<close> operation is a
  function into \<^verbatim>\<open>state \<times> (E + T)\<close>: the state that is
  left behind is part of the result on the error paths too.
\<close>

unbundle bit_operations_syntax

type_synonym u8 = "8 word"
type_synonym u16 = "16 word"
type_synonym u32 = "32 word"
type_synonym u64 = "64 word"
type_synonym ('e, 'a) result = "'e + 'a"

named_theorems krust_defs \<open>definitions of the operations, for unfolding in component proofs\<close>

section \<open>Rust integer operations\<close>

definition u64_max :: u64 where
  "u64_max = - 1"

definition checked_add :: "'a::len word \<Rightarrow> 'a word \<Rightarrow> 'a word option" where
  "checked_add a b = (if a + b < a then None else Some (a + b))"

definition checked_sub :: "'a::len word \<Rightarrow> 'a word \<Rightarrow> 'a word option" where
  "checked_sub a b = (if a < b then None else Some (a - b))"

definition checked_mul :: "'a::len word \<Rightarrow> 'a word \<Rightarrow> 'a word option" where
  "checked_mul a b = (if unat a * unat b < 2 ^ LENGTH('a) then Some (a * b) else None)"

definition saturating_add :: "'a::len word \<Rightarrow> 'a word \<Rightarrow> 'a word" where
  "saturating_add a b = (if a + b < a then - 1 else a + b)"

definition saturating_sub :: "'a::len word \<Rightarrow> 'a word \<Rightarrow> 'a word" where
  "saturating_sub a b = (if a < b then 0 else a - b)"

definition saturating_mul :: "'a::len word \<Rightarrow> 'a word \<Rightarrow> 'a word" where
  "saturating_mul a b = (if unat a * unat b < 2 ^ LENGTH('a) then a * b else - 1)"

lemma add_wraps_iff_unat:
  fixes a b :: "'a::len word"
  shows "a + b < a \<longleftrightarrow> 2 ^ LENGTH('a) \<le> unat a + unat b"
proof -
  have "a \<le> a + b \<longleftrightarrow> unat a + unat b < 2 ^ LENGTH('a)"
    using no_olen_add_nat [of a b] by simp
  then show ?thesis
    by (metis not_le)
qed

lemma checked_add_Some:
  fixes a b :: "'a::len word"
  shows "checked_add a b = Some c \<longleftrightarrow> unat a + unat b < 2 ^ LENGTH('a) \<and> unat c = unat a + unat b"
proof (cases "unat a + unat b < 2 ^ LENGTH('a)")
  case True
  then have "\<not> a + b < a" and "unat (a + b) = unat a + unat b"
    using unat_add_lem [of a b] by (simp_all add: add_wraps_iff_unat)
  with True show ?thesis
    by (auto simp: checked_add_def word_unat_eq_iff)
next
  case False
  then show ?thesis
    by (simp add: checked_add_def add_wraps_iff_unat)
qed

lemma checked_add_None:
  fixes a b :: "'a::len word"
  shows "checked_add a b = None \<longleftrightarrow> 2 ^ LENGTH('a) \<le> unat a + unat b"
  by (simp add: checked_add_def add_wraps_iff_unat)

lemma unat_all_ones: "unat (- 1 :: 'a::len word) = 2 ^ LENGTH('a) - 1"
  by transfer (simp add: take_bit_minus_one_eq_mask mask_eq_exp_minus_1 nat_diff_distrib nat_power_eq)

lemma unat_saturating_add:
  fixes a b :: "'a::len word"
  shows "unat (saturating_add a b) = min (unat a + unat b) (2 ^ LENGTH('a) - 1)"
proof (cases "a + b < a")
  case True
  then show ?thesis
    by (simp add: saturating_add_def add_wraps_iff_unat unat_all_ones)
next
  case False
  then have "unat a + unat b < 2 ^ LENGTH('a)"
    by (simp add: add_wraps_iff_unat)
  with False show ?thesis
    using unat_add_lem [of a b] by (simp add: saturating_add_def)
qed

lemma unat_saturating_sub [simp]:
  "unat (saturating_sub a b) = unat a - unat b"
  by (simp add: saturating_sub_def word_less_nat_alt unat_sub_if_size)

lemma unat_increment:
  fixes a :: "'a::len word"
  assumes "a \<noteq> - 1"
  shows "unat (a + 1) = Suc (unat a)"
proof -
  from assms have "1 + a \<noteq> 0"
    by (metis add.commute eq_neg_iff_add_eq_0)
  then show ?thesis
    using unatSuc [of a] by (simp add: add.commute)
qed

lemma less_increment:
  fixes a b :: "'a::len word"
  assumes "a \<noteq> - 1"
  shows "b < a + 1 \<longleftrightarrow> b \<le> a"
  using unat_increment [OF assms] by (simp add: word_less_nat_alt word_le_nat_alt less_Suc_eq_le)

lemma unat_u64_bound: "unat (x :: u64) < 2 ^ 64"
proof -
  have "unat x < 2 ^ LENGTH(64)"
    by (rule unsigned_less)
  then show ?thesis
    by simp
qed

lemma unat_take_bit: "unat (take_bit n x) = unat (x :: 'a::len word) mod 2 ^ n"
  by (simp only: unsigned_take_bit_eq take_bit_nat_def)

lemma and_not_mask:
  fixes x :: "'a::len word"
  shows "x AND NOT (mask n) = x - take_bit n x"
proof -
  have "x AND NOT (mask n) = push_bit n (drop_bit n x)"
    by (rule bit_word_eqI) (auto simp: bit_simps)
  then show ?thesis
    using bits_ident [of n x] by (simp add: eq_diff_eq)
qed

lemma unat_and_not_mask:
  fixes x :: "'a::len word"
  shows "unat (x AND NOT (mask n)) = unat x - unat x mod 2 ^ n"
proof -
  have "take_bit n x \<le> x"
    by (simp add: word_le_nat_alt unat_take_bit)
  then show ?thesis
    by (simp add: and_not_mask unat_sub unat_take_bit)
qed

section \<open>Table scans\<close>

text \<open>
  \<^verbatim>\<open>first_index\<close> is the loop
  \<^verbatim>\<open>while i < N { if p(xs[i]) { return Some(i) } i += 1 }\<close>, and
  \<^verbatim>\<open>first_some\<close> the same loop returning what the matching
  branch computes.
\<close>

fun first_index :: "('a \<Rightarrow> bool) \<Rightarrow> 'a list \<Rightarrow> nat option" where
  "first_index p [] = None"
| "first_index p (x # xs) = (if p x then Some 0 else map_option Suc (first_index p xs))"

fun first_some :: "('a \<Rightarrow> 'b option) \<Rightarrow> 'a list \<Rightarrow> 'b option" where
  "first_some f [] = None"
| "first_some f (x # xs) = (case f x of Some y \<Rightarrow> Some y | None \<Rightarrow> first_some f xs)"

lemma first_index_Some:
  "first_index p xs = Some i \<longleftrightarrow> i < length xs \<and> p (xs ! i) \<and> (\<forall>j < i. \<not> p (xs ! j))"
proof (induction xs arbitrary: i)
  case (Cons x xs)
  then show ?case
    by (cases i) (simp_all add: All_less_Suc2)
qed simp

lemma first_index_None:
  "first_index p xs = None \<longleftrightarrow> (\<forall>x \<in> set xs. \<not> p x)"
  by (induction xs) auto

lemma first_index_SomeD:
  assumes "first_index p xs = Some i"
  shows "i < length xs" and "p (xs ! i)" and "j < i \<Longrightarrow> \<not> p (xs ! j)"
  using assms by (auto simp: first_index_Some)

lemma first_index_ex:
  "(\<exists>i. first_index p xs = Some i) \<longleftrightarrow> (\<exists>x \<in> set xs. p x)"
  using first_index_None [of p xs] by auto

lemma first_some_None:
  "first_some f xs = None \<longleftrightarrow> (\<forall>x \<in> set xs. f x = None)"
  by (induction xs) (auto split: option.splits)

lemma first_some_SomeD:
  "first_some f xs = Some y \<Longrightarrow> \<exists>x \<in> set xs. f x = Some y"
  by (induction xs) (auto split: option.splits)

lemma first_some_nthD:
  "first_some f xs = Some y \<Longrightarrow> \<exists>k < length xs. f (xs ! k) = Some y \<and> (\<forall>j < k. f (xs ! j) = None)"
proof (induction xs)
  case (Cons x xs)
  show ?case
  proof (cases "f x")
    case None
    with Cons obtain k where "k < length xs" "f (xs ! k) = Some y" "\<forall>j < k. f (xs ! j) = None"
      by auto
    with None show ?thesis
      by (intro exI [of _ "Suc k"]) (auto simp: less_Suc_eq_0_disj)
  next
    case (Some z)
    with Cons.prems show ?thesis
      by (intro exI [of _ 0]) simp
  qed
qed simp

lemma first_some_unique:
  assumes "x \<in> set xs" "f x = Some y"
    and unique: "\<And>x' y'. x' \<in> set xs \<Longrightarrow> f x' = Some y' \<Longrightarrow> y' = y"
  shows "first_some f xs = Some y"
proof -
  from assms(1,2) have "first_some f xs \<noteq> None"
    by (auto simp: first_some_None)
  then obtain y' where y': "first_some f xs = Some y'"
    by blast
  from first_some_SomeD [OF this] have "y' = y"
    using unique by blast
  with y' show ?thesis
    by simp
qed

lemma nth_update:
  "(xs[i := y]) ! j = (if i = j \<and> i < length xs then y else xs ! j)"
  by (cases "i < length xs") (simp_all add: nth_list_update list_update_beyond)

lemma saturating_add_ge: "(a :: 'a::len word) \<le> saturating_add a b"
  by (auto simp: saturating_add_def not_less)

lemma less_saturating_inc:
  "(a :: 'a::len word) \<noteq> - 1 \<Longrightarrow> a < saturating_add a 1"
  using less_increment [of a a] by (simp add: saturating_add_def order_less_not_sym)

section \<open>Counting the occupied slots of a table\<close>

definition occupied :: "'a option list \<Rightarrow> nat" where
  "occupied xs = length (filter (\<lambda>x. x \<noteq> None) xs)"

lemma occupied_le_length: "occupied xs \<le> length xs"
  by (simp add: occupied_def)

lemma occupied_fill:
  "\<lbrakk>i < length xs; xs ! i = None\<rbrakk> \<Longrightarrow> occupied (xs[i := Some v]) = Suc (occupied xs)"
proof (induction xs arbitrary: i)
  case (Cons x xs)
  then show ?case
    by (cases i) (simp_all add: occupied_def)
qed simp

lemma occupied_clear:
  assumes "i < length xs" "xs ! i = Some v"
  shows "Suc (occupied (xs[i := None])) = occupied xs"
proof -
  have "occupied ((xs[i := None])[i := Some v]) = Suc (occupied (xs[i := None]))"
    using assms by (intro occupied_fill) simp_all
  moreover have "(xs[i := None])[i := Some v] = xs"
    using assms by (simp add: list_update_same_conv)
  ultimately show ?thesis
    by simp
qed

lemma occupied_clear_diff:
  assumes "i < length xs" "xs ! i \<noteq> None"
  shows "occupied (xs[i := None]) = occupied xs - 1"
  using assms occupied_clear [of i xs] by fastforce

lemma occupied_full_iff:
  "occupied xs = length xs \<longleftrightarrow> None \<notin> set xs"
proof (induction xs)
  case (Cons x xs)
  moreover have "occupied xs \<noteq> Suc (length xs)"
    by (metis occupied_le_length Suc_n_not_le_n)
  ultimately show ?case
    by (cases x) (simp_all add: occupied_def)
qed (simp add: occupied_def)

lemma occupied_replicate_None [simp]: "occupied (replicate n None) = 0"
  by (simp add: occupied_def)

end
