(* ===== verification/Slot_Table.thy ===== *)
theory Slot_Table
  imports Krust_Prelude
begin

text \<open>
  The interface of the fixed-size slot tables of the kernel.  Arenas,
  capability spaces, per-process file handles, open file descriptions and
  byte-range locks are all arrays of options in which an allocation takes the
  first empty slot.  The locale states that contract once; the arena and the
  file-handle tables interpret it on their own operations.
\<close>

definition first_free :: "'a option list \<Rightarrow> nat option" where
  "first_free xs = first_index (\<lambda>x. x = None) xs"

lemma first_free_Some:
  assumes "first_free xs = Some i"
  shows "i < length xs" and "xs ! i = None"
  using assms by (auto simp: first_free_def first_index_Some)

lemma first_free_None: "first_free xs = None \<longleftrightarrow> None \<notin> set xs"
  by (auto simp: first_free_def first_index_None) (metis not_None_eq)

locale slot_allocator =
  fixes table :: "'s \<Rightarrow> 'v option list"
    and alloc :: "'s \<Rightarrow> 'v \<Rightarrow> ('s \<times> nat) option"
  assumes alloc_None: "alloc s v = None \<longleftrightarrow> None \<notin> set (table s)"
    and alloc_Some: "alloc s v = Some (s', i) \<Longrightarrow>
      first_free (table s) = Some i \<and> table s' = (table s)[i := Some v]"
begin

lemma alloc_slot:
  assumes "alloc s v = Some (s', i)"
  shows "i < length (table s)" "table s ! i = None" "table s' = (table s)[i := Some v]"
  using alloc_Some [OF assms] by (auto dest: first_free_Some)

lemma alloc_length:
  assumes "alloc s v = Some (s', i)"
  shows "length (table s') = length (table s)"
  using alloc_slot [OF assms] by simp

lemma alloc_occupied:
  assumes "alloc s v = Some (s', i)"
  shows "occupied (table s') = Suc (occupied (table s))"
  using alloc_slot [OF assms] by (simp add: occupied_fill)

lemma alloc_lookup:
  assumes "alloc s v = Some (s', i)"
  shows "table s' ! i = Some v"
  using alloc_slot [OF assms] by simp

lemma alloc_frame:
  assumes "alloc s v = Some (s', i)" and "j \<noteq> i"
  shows "table s' ! j = table s ! j"
  using alloc_slot [OF assms(1)] assms(2) by simp

lemma alloc_succeeds_iff:
  "(\<exists>s' i. alloc s v = Some (s', i)) \<longleftrightarrow> occupied (table s) < length (table s)"
proof -
  have "alloc s v \<noteq> None \<longleftrightarrow> occupied (table s) \<noteq> length (table s)"
    by (simp only: alloc_None occupied_full_iff not_not)
  then show ?thesis
    using occupied_le_length [of "table s"] by auto
qed

fun alloc_all :: "'s \<Rightarrow> 'v list \<Rightarrow> 's option" where
  "alloc_all s [] = Some s"
| "alloc_all s (v # vs) = (case alloc s v of Some (s', i) \<Rightarrow> alloc_all s' vs | None \<Rightarrow> None)"

lemma alloc_all_capacity:
  "(\<exists>s'. alloc_all s vs = Some s') \<longleftrightarrow> occupied (table s) + length vs \<le> length (table s)"
proof (induction vs arbitrary: s)
  case Nil
  then show ?case
    by (simp add: occupied_le_length)
next
  case (Cons v vs)
  show ?case
  proof (cases "alloc s v")
    case None
    then have "\<not> occupied (table s) < length (table s)"
      using alloc_succeeds_iff [of s v] by auto
    with None show ?thesis
      by simp
  next
    case (Some p)
    then show ?thesis
      using Cons.IH [of "fst p"] alloc_occupied [of s v "fst p" "snd p"]
        alloc_length [of s v "fst p" "snd p"]
      by (simp add: split_beta)
  qed
qed

end

end
