(* ===== verification/Arena.thy ===== *)
theory Arena
  imports Slot_Table
begin

text \<open>
  The typed arena with generation-checked handles and the bump allocator of
  \<^verbatim>\<open>src/kernel/krust/src/arena.rs\<close>.  The const parameter
  \<^verbatim>\<open>N\<close> of \<^verbatim>\<open>TypedArena<T, N>\<close> is the length of
  the slot list.
\<close>

section \<open>Typed arena\<close>

datatype arena_error = ArenaFull | ArenaInvalidHandle | ArenaSlotEmpty

record arena_handle =
  handle_index :: nat
  handle_generation :: u64

record 'a arena_slot =
  slot_value :: "'a option"
  slot_generation :: u64

record 'a arena =
  arena_slots :: "'a arena_slot list"
  arena_live :: nat

definition arena_slot_empty :: "'a arena_slot" where
  "arena_slot_empty = \<lparr>slot_value = None, slot_generation = 1\<rparr>"

definition arena_new :: "nat \<Rightarrow> 'a arena" where
  "arena_new n = \<lparr>arena_slots = replicate n arena_slot_empty, arena_live = 0\<rparr>"

definition arena_alloc :: "'a arena \<Rightarrow> 'a \<Rightarrow> 'a arena \<times> (arena_error, arena_handle) result" where
  "arena_alloc a v =
    (case first_index (\<lambda>s. slot_value s = None) (arena_slots a) of
      Some i \<Rightarrow>
        (a\<lparr>arena_slots := (arena_slots a)[i := (arena_slots a ! i)\<lparr>slot_value := Some v\<rparr>],
           arena_live := arena_live a + 1\<rparr>,
         Inr \<lparr>handle_index = i, handle_generation = slot_generation (arena_slots a ! i)\<rparr>)
    | None \<Rightarrow> (a, Inl ArenaFull))"

definition arena_free :: "'a arena \<Rightarrow> arena_handle \<Rightarrow> 'a arena \<times> (arena_error, unit) result" where
  "arena_free a h =
    (let i = handle_index h; s = arena_slots a ! i in
      if length (arena_slots a) \<le> i \<or> slot_generation s \<noteq> handle_generation h
      then (a, Inl ArenaInvalidHandle)
      else if slot_value s = None then (a, Inl ArenaSlotEmpty)
      else (a\<lparr>arena_slots := (arena_slots a)
                [i := \<lparr>slot_value = None, slot_generation = saturating_add (slot_generation s) 1\<rparr>],
              arena_live := arena_live a - 1\<rparr>, Inr ()))"

definition arena_table :: "'a arena \<Rightarrow> 'a option list" where
  "arena_table a = map slot_value (arena_slots a)"

definition arena_inv :: "'a arena \<Rightarrow> bool" where
  "arena_inv a \<longleftrightarrow> arena_live a = occupied (arena_table a)"

text \<open>The successful part of \<^verbatim>\<open>alloc\<close>, as the slot-table interface has it.\<close>

definition arena_alloc_slot :: "'a arena \<Rightarrow> 'a \<Rightarrow> ('a arena \<times> nat) option" where
  "arena_alloc_slot a v =
    (case arena_alloc a v of (a', Inr h) \<Rightarrow> Some (a', handle_index h) | _ \<Rightarrow> None)"

lemma first_free_arena_table:
  "first_free (arena_table a) = first_index (\<lambda>s. slot_value s = None) (arena_slots a)"
proof -
  have "first_index p (map f xs) = first_index (\<lambda>x. p (f x)) xs" for p and f :: "'b \<Rightarrow> 'c" and xs
    by (induction xs) simp_all
  then show ?thesis
    by (simp add: first_free_def arena_table_def)
qed

interpretation arena_tbl: slot_allocator arena_table arena_alloc_slot
proof
  show "arena_alloc_slot a v = None \<longleftrightarrow> None \<notin> set (arena_table a)" for a :: "'a arena" and v
    by (simp add: arena_alloc_slot_def arena_alloc_def first_free_None [symmetric]
        first_free_arena_table split: option.split)
next
  show "first_free (arena_table a) = Some i \<and> arena_table a' = (arena_table a)[i := Some v]"
    if "arena_alloc_slot a v = Some (a', i)" for a :: "'a arena" and v a' i
    using that
    by (auto simp: arena_alloc_slot_def arena_alloc_def first_free_arena_table split: option.splits)
      (simp add: arena_table_def map_update)
qed

inductive arena_step :: "'a arena \<Rightarrow> 'a arena \<Rightarrow> bool" where
  step_alloc: "arena_step a (fst (arena_alloc a v))"
| step_free: "arena_step a (fst (arena_free a h))"

definition generation_at :: "'a arena \<Rightarrow> nat \<Rightarrow> u64" where
  "generation_at a i = slot_generation (arena_slots a ! i)"

lemma arena_alloc_cases:
  obtains (full) "arena_alloc a v = (a, Inl ArenaFull)" "None \<notin> set (arena_table a)"
  | (ok) i where "arena_alloc a v =
      (a\<lparr>arena_slots := (arena_slots a)[i := (arena_slots a ! i)\<lparr>slot_value := Some v\<rparr>],
         arena_live := arena_live a + 1\<rparr>,
       Inr \<lparr>handle_index = i, handle_generation = generation_at a i\<rparr>)"
      "i < length (arena_slots a)" "slot_value (arena_slots a ! i) = None"
proof (cases "first_index (\<lambda>s. slot_value s = None) (arena_slots a)")
  case None
  then have "None \<notin> set (arena_table a)"
    by (simp add: first_free_arena_table [symmetric] first_free_None)
  with None show thesis
    by (intro full) (simp_all add: arena_alloc_def)
next
  case (Some i)
  then show thesis
    using first_index_SomeD(1,2) [OF Some]
    by (intro ok [of i]) (simp_all add: arena_alloc_def generation_at_def)
qed

lemma arena_step_generation:
  assumes "arena_step a b"
  shows "length (arena_slots b) = length (arena_slots a)"
    and "i < length (arena_slots a) \<Longrightarrow> generation_at a i \<le> generation_at b i"
proof -
  have alloc: "length (arena_slots (fst (arena_alloc a v))) = length (arena_slots a)
      \<and> generation_at (fst (arena_alloc a v)) i = generation_at a i" for v
    by (cases rule: arena_alloc_cases [of a v])
      (auto simp: generation_at_def nth_update)
  have free: "length (arena_slots (fst (arena_free a h))) = length (arena_slots a)
      \<and> generation_at a i \<le> generation_at (fst (arena_free a h)) i" for h
    by (simp add: arena_free_def generation_at_def nth_update saturating_add_ge Let_def)
  from assms show "length (arena_slots b) = length (arena_slots a)"
    by cases (simp_all add: alloc free)
  from assms show "generation_at a i \<le> generation_at b i" if "i < length (arena_slots a)"
    by cases (simp_all add: alloc free)
qed

lemma arena_steps_generation:
  assumes "arena_step\<^sup>*\<^sup>* a b"
  shows "length (arena_slots b) = length (arena_slots a)
    \<and> (\<forall>i < length (arena_slots a). generation_at a i \<le> generation_at b i)"
  using assms
proof (induction rule: rtranclp_induct)
  case (step b c)
  then show ?case
    using arena_step_generation [of b c] by (metis order_trans)
qed simp

lemma arena_free_cases:
  obtains (bad) "arena_free a h = (a, Inl ArenaInvalidHandle)"
      "\<not> (handle_index h < length (arena_slots a) \<and> generation_at a (handle_index h) = handle_generation h)"
  | (unused) "arena_free a h = (a, Inl ArenaSlotEmpty)" "handle_index h < length (arena_slots a)"
      "generation_at a (handle_index h) = handle_generation h"
      "slot_value (arena_slots a ! handle_index h) = None"
  | (ok) "arena_free a h =
      (a\<lparr>arena_slots := (arena_slots a)[handle_index h :=
           \<lparr>slot_value = None, slot_generation = saturating_add (handle_generation h) 1\<rparr>],
         arena_live := arena_live a - 1\<rparr>, Inr ())"
      "handle_index h < length (arena_slots a)"
      "generation_at a (handle_index h) = handle_generation h"
      "slot_value (arena_slots a ! handle_index h) \<noteq> None"
proof -
  let ?valid = "handle_index h < length (arena_slots a) \<and> generation_at a (handle_index h) = handle_generation h"
  consider "\<not> ?valid" | "?valid" "slot_value (arena_slots a ! handle_index h) = None"
    | "?valid" "slot_value (arena_slots a ! handle_index h) \<noteq> None"
    by blast
  then show thesis
  proof cases
    case 1
    then show ?thesis
      by (intro bad) (simp_all add: arena_free_def generation_at_def Let_def not_less)
  next
    case 2
    then show ?thesis
      by (intro unused) (simp_all add: arena_free_def generation_at_def Let_def)
  next
    case 3
    then show ?thesis
      by (intro ok) (simp_all add: arena_free_def generation_at_def Let_def)
  qed
qed

lemma arena_table_update:
  "arena_table (a\<lparr>arena_slots := (arena_slots a)[i := s], arena_live := n\<rparr>)
    = (arena_table a)[i := slot_value s]"
  by (simp add: arena_table_def map_update)

lemma arena_table_length [simp]: "length (arena_table a) = length (arena_slots a)"
  by (simp add: arena_table_def)

lemma arena_table_nth:
  "i < length (arena_slots a) \<Longrightarrow> arena_table a ! i = slot_value (arena_slots a ! i)"
  by (simp add: arena_table_def)

text \<open>
  The \<^verbatim>\<open>live\<close> counter of an arena is the number of its occupied
  slots after every sequence of allocations and frees of a fresh arena, and
  an allocation is refused, with \<^verbatim>\<open>Full\<close> and no change, exactly
  when all \<^verbatim>\<open>N\<close> slots are live.
\<close>

theorem arena_live_count:
  assumes "arena_step\<^sup>*\<^sup>* (arena_new n) a"
  shows "arena_live a = occupied (arena_table a) \<and> arena_live a \<le> n
    \<and> (arena_alloc a v = (a, Inl ArenaFull) \<longleftrightarrow> arena_live a = n)"
proof -
  have len: "length (arena_table a) = n"
    using arena_steps_generation [OF assms] by (simp add: arena_new_def)
  have inv: "arena_live a = occupied (arena_table a)"
    using assms
  proof (induction rule: rtranclp_induct)
    case base
    then show ?case
      by (simp add: arena_new_def arena_table_def arena_slot_empty_def)
  next
    case (step b c)
    from step.hyps(2) show ?case
    proof cases
      case (step_alloc v)
      with step.IH show ?thesis
        by (cases rule: arena_alloc_cases [of b v])
          (simp_all add: arena_table_update occupied_fill arena_table_nth)
    next
      case (step_free h)
      with step.IH show ?thesis
        by (cases rule: arena_free_cases [of b h])
          (simp_all add: arena_table_update occupied_clear_diff arena_table_nth)
    qed
  qed
  have "arena_alloc a v = (a, Inl ArenaFull) \<longleftrightarrow> None \<notin> set (arena_table a)"
    unfolding arena_tbl.alloc_None [of a v, symmetric]
    by (auto simp: arena_alloc_slot_def arena_alloc_def split: option.splits)
  then show ?thesis
    using inv len occupied_le_length [of "arena_table a"] occupied_full_iff [of "arena_table a"]
    by simp
qed

theorem arena_live_count_witness:
  "arena_live (fst (arena_alloc (arena_new 2) CHR ''a'')) = 1
    \<and> arena_alloc (fst (arena_alloc (arena_new 1) CHR ''a'')) CHR ''b''
        = (fst (arena_alloc (arena_new 1) CHR ''a''), Inl ArenaFull)"
proof -
  have "arena_step\<^sup>*\<^sup>* (arena_new n) (fst (arena_alloc (arena_new n) CHR ''a''))" for n
    by (blast intro: step_alloc)
  from arena_live_count [OF this [of 2]] arena_live_count [OF this [of 1], of "CHR ''b''"]
  show ?thesis
    by (simp add: arena_alloc_def arena_new_def arena_slot_empty_def arena_table_def occupied_def
        numeral_2_eq_2)
qed

text \<open>
  C39: A handle is never honoured again once it has been freed: whatever
  allocations and frees follow, freeing it a second time answers
  \<^verbatim>\<open>InvalidHandle\<close> and changes nothing, even when the slot has been
  handed out again.  The one exception is a slot whose generation counter is
  already saturated.
\<close>

theorem arena_stale_handle_rejected:
  assumes "arena_free a h = (a1, Inr ())" and "handle_generation h \<noteq> u64_max"
    and "arena_step\<^sup>*\<^sup>* a1 a2"
  shows "arena_free a2 h = (a2, Inl ArenaInvalidHandle)"
proof -
  have "generation_at a1 (handle_index h) = saturating_add (handle_generation h) 1"
    and "handle_index h < length (arena_slots a1)"
    using assms(1) by (cases rule: arena_free_cases [of a h]; auto simp: generation_at_def)+
  moreover from assms(2) have "handle_generation h < saturating_add (handle_generation h) 1"
    by (simp add: less_saturating_inc u64_max_def)
  ultimately have "handle_generation h < generation_at a2 (handle_index h)"
    using arena_steps_generation [OF assms(3)] by (metis order_less_le_trans)
  then show ?thesis
    by (cases rule: arena_free_cases [of a2 h]) auto
qed

theorem arena_stale_handle_rejected_witness:
  "\<exists>a0 a1 a2. arena_alloc (arena_new 1 :: nat arena) 5 = (a0, Inr \<lparr>handle_index = 0, handle_generation = 1\<rparr>)
    \<and> arena_free a0 \<lparr>handle_index = 0, handle_generation = 1\<rparr> = (a1, Inr ())
    \<and> arena_alloc a1 9 = (a2, Inr \<lparr>handle_index = 0, handle_generation = 2\<rparr>)
    \<and> arena_free a2 \<lparr>handle_index = 0, handle_generation = 1\<rparr> = (a2, Inl ArenaInvalidHandle)"
proof -
  let ?h = "\<lparr>handle_index = 0, handle_generation = 1\<rparr>"
  let ?a0 = "\<lparr>arena_slots = [\<lparr>slot_value = Some (5 :: nat), slot_generation = 1\<rparr>], arena_live = 1\<rparr>"
  let ?a1 = "\<lparr>arena_slots = [\<lparr>slot_value = None, slot_generation = 2\<rparr>], arena_live = 0\<rparr> :: nat arena"
  let ?a2 = "\<lparr>arena_slots = [\<lparr>slot_value = Some (9 :: nat), slot_generation = 2\<rparr>], arena_live = 1\<rparr>"
  have alloc: "arena_alloc (arena_new 1) 5 = (?a0, Inr ?h)"
    "arena_alloc ?a1 9 = (?a2, Inr \<lparr>handle_index = 0, handle_generation = 2\<rparr>)"
    by (simp_all add: arena_alloc_def arena_new_def arena_slot_empty_def)
  have free: "arena_free ?a0 ?h = (?a1, Inr ())"
    by (simp add: arena_free_def saturating_add_def)
  have "arena_step\<^sup>*\<^sup>* ?a1 ?a2"
    using step_alloc [of ?a1 9] alloc by auto
  from arena_stale_handle_rejected [OF free _ this] alloc free show ?thesis
    by (auto simp: u64_max_def)
qed

section \<open>Kernel heap\<close>

record kernel_heap =
  heap_base :: u64
  heap_length :: u64
  heap_next :: u64

definition kernel_heap_new :: "u64 \<Rightarrow> u64 \<Rightarrow> kernel_heap" where
  "kernel_heap_new base len = \<lparr>heap_base = base, heap_length = len, heap_next = base\<rparr>"

definition align_up :: "u64 \<Rightarrow> u64 \<Rightarrow> u64" where
  "align_up value align =
    (let remainder = value mod align in
      if remainder = 0 then value else saturating_add value (align - remainder))"

definition kernel_heap_alloc :: "kernel_heap \<Rightarrow> u64 \<Rightarrow> u64 \<Rightarrow> kernel_heap \<times> u64 option" where
  "kernel_heap_alloc h bytes align0 =
    (let align = max align0 1; start = align_up (heap_next h) align in
      case checked_add start bytes of
        None \<Rightarrow> (h, None)
      | Some e \<Rightarrow>
          (case checked_add (heap_base h) (heap_length h) of
            None \<Rightarrow> (h, None)
          | Some limit \<Rightarrow> if limit < e then (h, None) else (h\<lparr>heap_next := e\<rparr>, Some start)))"

lemma nat_align_up_dvd:
  fixes v al :: nat
  assumes "0 < al"
  shows "al dvd v + (al - v mod al)"
proof -
  have "v + (al - v mod al) = v div al * al + al"
    using assms mod_less_divisor [OF assms, of v] by (metis add.assoc div_mult_mod_eq le_add_diff_inverse less_imp_le_nat)
  then show ?thesis
    by simp
qed

lemma align_up_ge: "value \<le> align_up value align"
  by (simp add: align_up_def Let_def saturating_add_ge)

lemma align_up_aligned:
  assumes "0 < align" and "align_up value align \<noteq> u64_max"
  shows "unat align dvd unat (align_up value align)"
proof (cases "value mod align = 0")
  case True
  then show ?thesis
    by (simp add: align_up_def unat_mod [symmetric] mod_eq_0_iff_dvd [symmetric])
next
  case False
  have pos: "0 < unat align"
    using assms(1) by (simp add: word_less_nat_alt)
  have le: "value mod align \<le> align"
    using pos by (simp add: word_le_nat_alt unat_mod)
  have gap: "unat (align - value mod align) = unat align - unat value mod unat align"
    using le by (simp add: unat_sub unat_mod)
  have "unat (align_up value align) \<noteq> 2 ^ 64 - 1"
    using assms(2) by (simp add: u64_max_def word_unat_eq_iff unat_all_ones)
  then have "unat (align_up value align) = unat value + (unat align - unat value mod unat align)"
    using False gap by (simp add: align_up_def Let_def unat_saturating_add min_def split: if_splits)
  then show ?thesis
    using nat_align_up_dvd [OF pos] by simp
qed

lemma kernel_heap_alloc_Some:
  assumes "kernel_heap_alloc h bytes align0 = (h', Some s)"
  shows "unat (heap_next h) \<le> unat s" "unat (heap_next h') = unat s + unat bytes"
    and "unat (heap_next h') \<le> unat (heap_base h) + unat (heap_length h)"
    and "heap_base h' = heap_base h" "heap_length h' = heap_length h"
    and "0 < bytes \<Longrightarrow> unat (max align0 1) dvd unat s"
proof -
  from assms obtain e limit where
    s: "s = align_up (heap_next h) (max align0 1)" and e: "checked_add s bytes = Some e"
    and limit: "checked_add (heap_base h) (heap_length h) = Some limit"
    and le: "e \<le> limit" and h': "h' = h\<lparr>heap_next := e\<rparr>"
    by (auto simp: kernel_heap_alloc_def Let_def split: option.splits if_splits)
  show "unat (heap_next h) \<le> unat s"
    using s align_up_ge by (simp add: word_le_nat_alt)
  show "unat (heap_next h') = unat s + unat bytes"
    using e h' by (simp add: checked_add_Some)
  show "unat (heap_next h') \<le> unat (heap_base h) + unat (heap_length h)"
    using limit le h' by (simp add: checked_add_Some word_le_nat_alt)
  show "heap_base h' = heap_base h" "heap_length h' = heap_length h"
    using h' by simp_all
  show "unat (max align0 1) dvd unat s" if "0 < bytes"
  proof -
    have "s \<noteq> u64_max"
      using e that by (auto simp: checked_add_Some u64_max_def unat_all_ones word_less_nat_alt)
    moreover have "0 < max align0 (1 :: u64)"
      by (simp add: less_max_iff_disj)
    ultimately show ?thesis
      using align_up_aligned s by blast
  qed
qed

text \<open>A sequence of heap requests, with the regions the successful ones obtain.\<close>

fun kernel_heap_allocs :: "kernel_heap \<Rightarrow> (u64 \<times> u64) list \<Rightarrow> (u64 \<times> u64 \<times> u64) list" where
  "kernel_heap_allocs h [] = []"
| "kernel_heap_allocs h ((bytes, align0) # reqs) =
    (case kernel_heap_alloc h bytes align0 of
      (h', Some s) \<Rightarrow> (s, bytes, align0) # kernel_heap_allocs h' reqs
    | (h', None) \<Rightarrow> kernel_heap_allocs h' reqs)"

definition regions_ordered :: "u64 \<times> u64 \<times> u64 \<Rightarrow> u64 \<times> u64 \<times> u64 \<Rightarrow> bool" where
  "regions_ordered r1 r2 \<longleftrightarrow> unat (fst r1) + unat (fst (snd r1)) \<le> unat (fst r2)"

lemma kernel_heap_alloc_None:
  "kernel_heap_alloc h bytes align0 = (h', None) \<Longrightarrow> h' = h"
  by (auto simp: kernel_heap_alloc_def Let_def split: option.splits if_splits)

lemma kernel_heap_allocs_bounds:
  assumes "(s, bytes, align0) \<in> set (kernel_heap_allocs h reqs)"
  shows "unat (heap_next h) \<le> unat s
    \<and> unat s + unat bytes \<le> unat (heap_base h) + unat (heap_length h)
    \<and> (0 < bytes \<longrightarrow> unat (max align0 1) dvd unat s)"
  using assms
proof (induction h reqs rule: kernel_heap_allocs.induct)
  case (2 h b al reqs)
  show ?case
  proof (cases "kernel_heap_alloc h b al")
    case (Pair h' r)
    then show ?thesis
    proof (cases r)
      case None
      with Pair 2 show ?thesis
        using kernel_heap_alloc_None [of h b al h'] by auto
    next
      case (Some t)
      note step = kernel_heap_alloc_Some [of h b al h' t]
      from Pair Some "2.prems" consider "s = t" "bytes = b" "align0 = al"
        | "(s, bytes, align0) \<in> set (kernel_heap_allocs h' reqs)"
        by auto
      then show ?thesis
      proof cases
        case 2
        with "2.IH" Pair Some have "unat (heap_next h') \<le> unat s
            \<and> unat s + unat bytes \<le> unat (heap_base h') + unat (heap_length h')
            \<and> (0 < bytes \<longrightarrow> unat (max align0 1) dvd unat s)"
          by simp
        with step Pair Some show ?thesis
          by simp
      qed (use step Pair Some in simp)
    qed
  qed
qed simp

text \<open>
  C40: The regions that any sequence of requests obtains from a kernel heap lie
  inside the heap, start at a multiple of the requested alignment (zero-sized
  requests apart) and never overlap: each one ends before every later one
  starts, with no wrap-around of the 64-bit addresses.
\<close>

theorem kernel_heap_regions_disjoint:
  "sorted_wrt regions_ordered (kernel_heap_allocs (kernel_heap_new base len) reqs)
   \<and> list_all (\<lambda>(s, bytes, align0). unat base \<le> unat s \<and> unat s + unat bytes \<le> unat base + unat len
        \<and> (bytes = 0 \<or> unat (max align0 1) dvd unat s))
      (kernel_heap_allocs (kernel_heap_new base len) reqs)"
proof -
  have "sorted_wrt regions_ordered (kernel_heap_allocs h reqs)" for h
  proof (induction h reqs rule: kernel_heap_allocs.induct)
    case (2 h b al reqs)
    obtain h' r where alloc: "kernel_heap_alloc h b al = (h', r)"
      by fastforce
    have "regions_ordered (t, b, al) x"
      if "r = Some t" "x \<in> set (kernel_heap_allocs h' reqs)" for t x
      using that kernel_heap_alloc_Some(2) [of h b al h' t] alloc
        kernel_heap_allocs_bounds [of "fst x" "fst (snd x)" "snd (snd x)" h' reqs]
      by (simp add: regions_ordered_def)
    with alloc 2 show ?case
      by (auto split: option.splits)
  qed simp
  moreover have "list_all (\<lambda>(s, bytes, align0). unat base \<le> unat s
      \<and> unat s + unat bytes \<le> unat base + unat len \<and> (bytes = 0 \<or> unat (max align0 1) dvd unat s))
      (kernel_heap_allocs (kernel_heap_new base len) reqs)"
    using kernel_heap_allocs_bounds [of _ _ _ "kernel_heap_new base len" reqs]
    by (fastforce simp: list_all_iff kernel_heap_new_def word_gt_0)
  ultimately show ?thesis
    by blast
qed

end
