(* ===== verification/Kernel_Types.thy ===== *)
theory Kernel_Types
  imports Krust_Prelude
begin

text \<open>
  Identifiers, errors and limits shared by the kernel components
  (\<^verbatim>\<open>kernel/error.rs\<close>, \<^verbatim>\<open>kernel/object.rs\<close>,
  \<^verbatim>\<open>kernel/process.rs\<close>, \<^verbatim>\<open>ipc.rs\<close> and the
  rights of \<^verbatim>\<open>capability.rs\<close>).  The newtypes over
  \<^verbatim>\<open>u64\<close> are synonyms, and \<^verbatim>\<open>&'static str\<close> is
  \<^typ>\<open>string\<close>.
\<close>

type_synonym object_id = u64
type_synonym process_id = u64
type_synonym vfs_node_id = u64
type_synonym file_description_id = u64

datatype init_error = ObjectTableFull | ProcessTableFull | CapabilityTableFull | InvalidBootManifest

datatype ipc_error =
    BadCapability | InvalidUserBuffer | MessageTooLarge | Empty
  | VfsPermission | VfsBadPath | VfsNotFound | VfsNotDirectory | VfsNotFile | VfsBusy
  | VfsBadHandle | VfsUnsupported | VfsNoSpace | VfsExists

definition process_id_empty :: process_id where
  "process_id_empty = 0"

definition as_bytes :: "string \<Rightarrow> u8 list" where
  "as_bytes s = map of_char s"

section \<open>Rights\<close>

definition RIGHT_READ :: u64 where "RIGHT_READ = push_bit 0 1"
definition RIGHT_WRITE :: u64 where "RIGHT_WRITE = push_bit 1 1"
definition RIGHT_MAP :: u64 where "RIGHT_MAP = push_bit 2 1"
definition RIGHT_EXECUTE :: u64 where "RIGHT_EXECUTE = push_bit 3 1"
definition RIGHT_SEND :: u64 where "RIGHT_SEND = push_bit 4 1"
definition RIGHT_RECEIVE :: u64 where "RIGHT_RECEIVE = push_bit 5 1"
definition RIGHT_CONTROL :: u64 where "RIGHT_CONTROL = push_bit 6 1"
definition RIGHT_ALLOCATE :: u64 where "RIGHT_ALLOCATE = push_bit 7 1"
definition RIGHT_SNAPSHOT :: u64 where "RIGHT_SNAPSHOT = push_bit 8 1"
definition RIGHT_RESTORE :: u64 where "RIGHT_RESTORE = push_bit 9 1"
definition RIGHT_BIND :: u64 where "RIGHT_BIND = push_bit 10 1"
definition RIGHT_LISTEN :: u64 where "RIGHT_LISTEN = push_bit 11 1"
definition RIGHT_DELEGATE :: u64 where "RIGHT_DELEGATE = push_bit 12 1"
definition RIGHT_REVOKE :: u64 where "RIGHT_REVOKE = push_bit 13 1"
definition RIGHT_INSPECT :: u64 where "RIGHT_INSPECT = push_bit 14 1"
definition RIGHT_CREATE :: u64 where "RIGHT_CREATE = push_bit 15 1"
definition RIGHT_START :: u64 where "RIGHT_START = push_bit 16 1"
definition RIGHT_KILL :: u64 where "RIGHT_KILL = push_bit 17 1"
definition RIGHT_WAIT :: u64 where "RIGHT_WAIT = push_bit 18 1"
definition RIGHT_DERIVE :: u64 where "RIGHT_DERIVE = push_bit 19 1"
definition RIGHT_SEAL :: u64 where "RIGHT_SEAL = push_bit 20 1"
definition RIGHT_UNSEAL :: u64 where "RIGHT_UNSEAL = push_bit 21 1"
definition RIGHT_INSPECT_METADATA :: u64 where "RIGHT_INSPECT_METADATA = push_bit 22 1"
definition RIGHT_RESOLVE :: u64 where "RIGHT_RESOLVE = push_bit 23 1"
definition RIGHT_UNLINK :: u64 where "RIGHT_UNLINK = push_bit 24 1"
definition RIGHT_RENAME :: u64 where "RIGHT_RENAME = push_bit 25 1"
definition RIGHT_MOUNT :: u64 where "RIGHT_MOUNT = push_bit 26 1"

lemmas right_defs =
  RIGHT_READ_def RIGHT_WRITE_def RIGHT_MAP_def RIGHT_EXECUTE_def
  RIGHT_SEND_def RIGHT_RECEIVE_def RIGHT_CONTROL_def RIGHT_ALLOCATE_def
  RIGHT_SNAPSHOT_def RIGHT_RESTORE_def RIGHT_BIND_def RIGHT_LISTEN_def
  RIGHT_DELEGATE_def RIGHT_REVOKE_def RIGHT_INSPECT_def RIGHT_CREATE_def
  RIGHT_START_def RIGHT_KILL_def RIGHT_WAIT_def RIGHT_DERIVE_def
  RIGHT_SEAL_def RIGHT_UNSEAL_def RIGHT_INSPECT_METADATA_def RIGHT_RESOLVE_def
  RIGHT_UNLINK_def RIGHT_RENAME_def RIGHT_MOUNT_def

text \<open>A right set \<^verbatim>\<open>b\<close> contains no right that \<^verbatim>\<open>a\<close> lacks.\<close>

definition rights_subset :: "u64 \<Rightarrow> u64 \<Rightarrow> bool" where
  "rights_subset b a \<longleftrightarrow> b AND NOT a = 0"

lemma rights_subset_bits: "rights_subset b a \<longleftrightarrow> (\<forall>n. bit b n \<longrightarrow> bit a n)"
proof -
  have "n < 64" if "bit b n" for n
    using bit_imp_le_length [OF that] by simp
  then show ?thesis
    by (auto simp: rights_subset_def bit_eq_iff bit_and_iff bit_not_iff)
qed

lemma rights_subset_refl [simp]: "rights_subset a a"
  by (simp add: rights_subset_bits)

lemma rights_subset_trans [trans]:
  "rights_subset c b \<Longrightarrow> rights_subset b a \<Longrightarrow> rights_subset c a"
  by (simp add: rights_subset_bits)

lemma rights_subset_and [simp]:
  "rights_subset (a AND b) a" "rights_subset (a AND b) b"
  by (simp_all add: rights_subset_bits bit_and_iff)

lemma has_rights_iff: "a AND r = r \<longleftrightarrow> rights_subset r (a :: u64)"
proof -
  have "n < 64" if "bit r n" for n
    using bit_imp_le_length [OF that] by simp
  then show ?thesis
    by (auto simp: rights_subset_bits bit_eq_iff bit_and_iff)
qed

section \<open>Status values\<close>

definition STATUS_OK :: u64 where "STATUS_OK = 0"
definition STATUS_BAD_CAPABILITY :: u64 where "STATUS_BAD_CAPABILITY = u64_max - 1"
definition STATUS_BAD_BUFFER :: u64 where "STATUS_BAD_BUFFER = u64_max - 2"
definition STATUS_TIMEOUT :: u64 where "STATUS_TIMEOUT = u64_max - 9"
definition STATUS_PROCESS_FAULT :: u64 where "STATUS_PROCESS_FAULT = u64_max - 10"
definition STATUS_VFS_BAD_HANDLE :: u64 where "STATUS_VFS_BAD_HANDLE = u64_max - 38"
definition STATUS_VFS_UNSUPPORTED :: u64 where "STATUS_VFS_UNSUPPORTED = u64_max - 39"

end
