(* ===== verification/Fifo_Queue.thy ===== *)
theory Fifo_Queue
  imports Krust_Prelude
begin

text \<open>
  The interface of a bounded queue with selective receive: a producer appends
  until the capacity is reached, and a consumer takes the oldest entry it is
  eligible for.  The message queues of endpoints and network ports interpret
  it; the ordering and conservation laws of whole histories are proved here
  once.
\<close>

datatype 'x queue_op = Put 'x | Get

text \<open>
  A history: the final queue, the entries accepted by \<^verbatim>\<open>put\<close> and
  the entries delivered by \<^verbatim>\<open>get\<close>, each in order.
\<close>

fun queue_run :: "('q \<Rightarrow> 'x \<Rightarrow> 'q option) \<Rightarrow> ('x \<Rightarrow> 'm) \<Rightarrow> ('q \<Rightarrow> ('q \<times> 'm) option)
    \<Rightarrow> 'q \<Rightarrow> 'x queue_op list \<Rightarrow> 'q \<times> 'm list \<times> 'm list" where
  "queue_run put msg get q [] = (q, [], [])"
| "queue_run put msg get q (Put x # ops) =
    (case put q x of
      None \<Rightarrow> queue_run put msg get q ops
    | Some q' \<Rightarrow> (let (qf, acc, del) = queue_run put msg get q' ops in (qf, msg x # acc, del)))"
| "queue_run put msg get q (Get # ops) =
    (case get q of
      None \<Rightarrow> queue_run put msg get q ops
    | Some (q', m) \<Rightarrow> (let (qf, acc, del) = queue_run put msg get q' ops in (qf, acc, m # del)))"

locale fifo_queue =
  fixes contents :: "'q \<Rightarrow> 'm list"
    and invar :: "'q \<Rightarrow> bool"
    and capacity :: nat
    and put :: "'q \<Rightarrow> 'x \<Rightarrow> 'q option"
    and msg :: "'x \<Rightarrow> 'm"
    and eligible :: "'m \<Rightarrow> bool"
    and get :: "'q \<Rightarrow> ('q \<times> 'm) option"
  assumes bounded: "invar q \<Longrightarrow> length (contents q) \<le> capacity"
    and put_None: "invar q \<Longrightarrow> put q x = None \<longleftrightarrow> length (contents q) = capacity"
    and put_Some: "invar q \<Longrightarrow> put q x = Some q' \<Longrightarrow> invar q' \<and> contents q' = contents q @ [msg x]"
    and get_None: "invar q \<Longrightarrow> get q = None \<longleftrightarrow> filter eligible (contents q) = []"
    and get_Some: "invar q \<Longrightarrow> get q = Some (q', m) \<Longrightarrow> invar q' \<and> eligible m
      \<and> (\<exists>xs ys. contents q = xs @ m # ys \<and> filter eligible xs = [] \<and> contents q' = xs @ ys)"
begin

lemma get_filter:
  assumes "invar q" and "get q = Some (q', m)"
  shows "invar q'" and "filter eligible (contents q) = m # filter eligible (contents q')"
    and "filter (\<lambda>m. \<not> eligible m) (contents q') = filter (\<lambda>m. \<not> eligible m) (contents q)"
  using get_Some [OF assms] by auto

lemma run_fifo:
  assumes "invar q" and "queue_run put msg get q ops = (qf, acc, del)"
  shows "invar qf \<and> del @ filter eligible (contents qf) = filter eligible (contents q @ acc)
    \<and> filter (\<lambda>m. \<not> eligible m) (contents qf) = filter (\<lambda>m. \<not> eligible m) (contents q @ acc)"
  using assms
proof (induction ops arbitrary: q acc del)
  case Nil
  then show ?case
    by simp
next
  case (Cons op ops)
  show ?case
  proof (cases op)
    case (Put x)
    show ?thesis
    proof (cases "put q x")
      case None
      with Put Cons show ?thesis
        by simp
    next
      case (Some q')
      obtain acc' where run: "queue_run put msg get q' ops = (qf, acc', del)" "acc = msg x # acc'"
        using Cons.prems(2) Put Some by (auto split: prod.splits)
      from put_Some [OF Cons.prems(1) Some] Cons.IH [OF _ run(1)] run(2) show ?thesis
        by simp
    qed
  next
    case Get
    show ?thesis
    proof (cases "get q")
      case None
      with Get Cons show ?thesis
        by simp
    next
      case (Some p)
      then obtain q' m where get: "get q = Some (q', m)"
        by (cases p) simp
      obtain del' where run: "queue_run put msg get q' ops = (qf, acc, del')" "del = m # del'"
        using Cons.prems(2) Get get by (auto split: prod.splits)
      from get_filter [OF Cons.prems(1) get] Cons.IH [OF _ run(1)] run(2) show ?thesis
        by simp
    qed
  qed
qed

end

end
