(* ===== verification/Transport.thy ===== *)
theory Transport
  imports Kernel_Types Fifo_Queue
begin

text \<open>
  Messages, the bounded message queue and the IPC endpoint of
  \<^verbatim>\<open>kernel/transport.rs\<close>.  The queue is the array of four
  message slots with its length, the shift loop of \<^verbatim>\<open>remove_at\<close>
  included; the lemmas show that it implements a list.
\<close>

section \<open>Messages and queues\<close>

definition MAX_MESSAGE_BYTES :: nat where "MAX_MESSAGE_BYTES = 512"
definition MESSAGE_QUEUE_CAPACITY :: nat where "MESSAGE_QUEUE_CAPACITY = 4"

record ipc_message =
  msg_sender :: process_id
  msg_len :: nat
  msg_bytes :: "u8 list"

definition ipc_message_empty :: ipc_message where
  "ipc_message_empty =
    \<lparr>msg_sender = process_id_empty, msg_len = 0, msg_bytes = replicate MAX_MESSAGE_BYTES 0\<rparr>"

definition u64_le_at :: "ipc_message \<Rightarrow> nat \<Rightarrow> u64 option" where
  "u64_le_at m offset =
    (if msg_len m < offset + 8 then None
     else let b = (\<lambda>i. ucast (msg_bytes m ! (offset + i)) :: u64) in
       Some (b 0 OR push_bit 8 (b 1) OR push_bit 16 (b 2) OR push_bit 24 (b 3)
         OR push_bit 32 (b 4) OR push_bit 40 (b 5) OR push_bit 48 (b 6) OR push_bit 56 (b 7)))"

record message_queue =
  mq_messages :: "ipc_message list"
  mq_len :: nat

definition message_queue_empty :: message_queue where
  "message_queue_empty =
    \<lparr>mq_messages = replicate MESSAGE_QUEUE_CAPACITY ipc_message_empty, mq_len = 0\<rparr>"

definition make_message :: "process_id \<Rightarrow> u8 list \<Rightarrow> nat \<Rightarrow> ipc_message" where
  "make_message sender bytes len =
    \<lparr>msg_sender = sender, msg_len = len,
     msg_bytes = take len bytes @ replicate (MAX_MESSAGE_BYTES - len) 0\<rparr>"

definition mq_enqueue :: "message_queue \<Rightarrow> process_id \<Rightarrow> u8 list \<Rightarrow> nat
    \<Rightarrow> message_queue \<times> (ipc_error, unit) result" where
  "mq_enqueue q sender bytes len =
    (if mq_len q = MESSAGE_QUEUE_CAPACITY then (q, Inl MessageTooLarge)
     else (q\<lparr>mq_messages := (mq_messages q)[mq_len q := make_message sender bytes len],
             mq_len := mq_len q + 1\<rparr>, Inr ()))"

function shift_down :: "ipc_message list \<Rightarrow> nat \<Rightarrow> nat \<Rightarrow> ipc_message list" where
  "shift_down ms n i = (if i + 1 < n then shift_down (ms[i := ms ! (i + 1)]) n (i + 1) else ms)"
  by auto
termination by (relation "measure (\<lambda>(ms, n, i). n - i)") auto

declare shift_down.simps [simp del]

definition remove_at :: "message_queue \<Rightarrow> nat \<Rightarrow> message_queue \<times> ipc_message" where
  "remove_at q i =
    (q\<lparr>mq_messages := (shift_down (mq_messages q) (mq_len q) i)[mq_len q - 1 := ipc_message_empty],
       mq_len := mq_len q - 1\<rparr>, mq_messages q ! i)"

definition live_messages :: "message_queue \<Rightarrow> ipc_message list" where
  "live_messages q = take (mq_len q) (mq_messages q)"

definition has_message_for :: "message_queue \<Rightarrow> process_id \<Rightarrow> bool" where
  "has_message_for q receiver = list_ex (\<lambda>m. msg_sender m \<noteq> receiver) (live_messages q)"

definition remove_first :: "(ipc_message \<Rightarrow> bool) \<Rightarrow> message_queue \<Rightarrow> message_queue \<times> ipc_message option" where
  "remove_first p q =
    (case first_index p (live_messages q) of
      Some i \<Rightarrow> (let (q', m) = remove_at q i in (q', Some m))
    | None \<Rightarrow> (q, None))"

definition dequeue_for :: "message_queue \<Rightarrow> process_id \<Rightarrow> message_queue \<times> ipc_message option" where
  "dequeue_for q receiver = remove_first (\<lambda>m. msg_sender m \<noteq> receiver) q"

definition has_transaction_reply_for :: "message_queue \<Rightarrow> process_id \<Rightarrow> u64 \<Rightarrow> bool" where
  "has_transaction_reply_for q receiver t =
    list_ex (\<lambda>m. msg_sender m \<noteq> receiver \<and> u64_le_at m 0 = Some t) (live_messages q)"

definition dequeue_transaction_reply_for ::
    "message_queue \<Rightarrow> process_id \<Rightarrow> u64 \<Rightarrow> message_queue \<times> ipc_message option" where
  "dequeue_transaction_reply_for q receiver t =
    remove_first (\<lambda>m. msg_sender m \<noteq> receiver \<and> u64_le_at m 0 = Some t) q"

definition remove_transaction_from_sender ::
    "message_queue \<Rightarrow> process_id \<Rightarrow> u64 \<Rightarrow> message_queue \<times> bool" where
  "remove_transaction_from_sender q sender t =
    (case remove_first (\<lambda>m. msg_sender m = sender \<and> u64_le_at m 0 = Some t) q of
      (q', Some m) \<Rightarrow> (q', True)
    | (q', None) \<Rightarrow> (q', False))"

function remove_all_loop :: "process_id \<Rightarrow> message_queue \<Rightarrow> nat \<Rightarrow> nat \<Rightarrow> message_queue \<times> nat" where
  "remove_all_loop sender q index removed =
    (if index < mq_len q then
       if msg_sender (mq_messages q ! index) = sender
       then remove_all_loop sender (fst (remove_at q index)) index (removed + 1)
       else remove_all_loop sender q (index + 1) removed
     else (q, removed))"
  by auto
termination
  by (relation "measure (\<lambda>(sender, q, index, removed). mq_len q - index)") (auto simp: remove_at_def)

declare remove_all_loop.simps [simp del]

definition mq_remove_all_from_sender :: "message_queue \<Rightarrow> process_id \<Rightarrow> message_queue \<times> nat" where
  "mq_remove_all_from_sender q sender = remove_all_loop sender q 0 0"

definition dequeue_fifo :: "message_queue \<Rightarrow> message_queue \<times> ipc_message option" where
  "dequeue_fifo q =
    (if mq_len q = 0 then (q, None) else (let (q', m) = remove_at q 0 in (q', Some m)))"

section \<open>Endpoints\<close>

record ipc_endpoint =
  ep_id :: object_id
  ep_name :: string
  ep_owner :: process_id
  ep_queue :: message_queue

definition ipc_endpoint_new :: "object_id \<Rightarrow> string \<Rightarrow> process_id \<Rightarrow> ipc_endpoint" where
  "ipc_endpoint_new i n own =
    \<lparr>ep_id = i, ep_name = n, ep_owner = own, ep_queue = message_queue_empty\<rparr>"

definition ep_enqueue :: "ipc_endpoint \<Rightarrow> process_id \<Rightarrow> u8 list \<Rightarrow> nat
    \<Rightarrow> ipc_endpoint \<times> (ipc_error, unit) result" where
  "ep_enqueue e sender bytes len =
    (let (q, r) = mq_enqueue (ep_queue e) sender bytes len in (e\<lparr>ep_queue := q\<rparr>, r))"

definition ep_has_message_for :: "ipc_endpoint \<Rightarrow> process_id \<Rightarrow> bool" where
  "ep_has_message_for e receiver = has_message_for (ep_queue e) receiver"

definition ep_dequeue_for :: "ipc_endpoint \<Rightarrow> process_id \<Rightarrow> ipc_endpoint \<times> ipc_message option" where
  "ep_dequeue_for e receiver =
    (let (q, r) = dequeue_for (ep_queue e) receiver in (e\<lparr>ep_queue := q\<rparr>, r))"

definition has_vfs_state_reply_for :: "ipc_endpoint \<Rightarrow> process_id \<Rightarrow> u64 \<Rightarrow> bool" where
  "has_vfs_state_reply_for e receiver t = has_transaction_reply_for (ep_queue e) receiver t"

definition dequeue_vfs_state_reply_for ::
    "ipc_endpoint \<Rightarrow> process_id \<Rightarrow> u64 \<Rightarrow> ipc_endpoint \<times> ipc_message option" where
  "dequeue_vfs_state_reply_for e receiver t =
    (let (q, r) = dequeue_transaction_reply_for (ep_queue e) receiver t in (e\<lparr>ep_queue := q\<rparr>, r))"

definition remove_vfs_state_request :: "ipc_endpoint \<Rightarrow> process_id \<Rightarrow> u64 \<Rightarrow> ipc_endpoint \<times> bool" where
  "remove_vfs_state_request e sender t =
    (let (q, r) = remove_transaction_from_sender (ep_queue e) sender t in (e\<lparr>ep_queue := q\<rparr>, r))"

definition ep_remove_all_from_sender :: "ipc_endpoint \<Rightarrow> process_id \<Rightarrow> ipc_endpoint \<times> nat" where
  "ep_remove_all_from_sender e sender =
    (let (q, r) = mq_remove_all_from_sender (ep_queue e) sender in (e\<lparr>ep_queue := q\<rparr>, r))"

section \<open>The queue implements a list\<close>

definition mq_inv :: "message_queue \<Rightarrow> bool" where
  "mq_inv q \<longleftrightarrow> length (mq_messages q) = MESSAGE_QUEUE_CAPACITY \<and> mq_len q \<le> MESSAGE_QUEUE_CAPACITY
    \<and> drop (mq_len q) (mq_messages q) = replicate (MESSAGE_QUEUE_CAPACITY - mq_len q) ipc_message_empty"

lemma length_live_messages [simp]: "mq_inv q \<Longrightarrow> length (live_messages q) = mq_len q"
  by (simp add: mq_inv_def live_messages_def)

lemma length_shift_down [simp]: "length (shift_down ms n i) = length ms"
  by (induction ms n i rule: shift_down.induct) (subst shift_down.simps, simp)

lemma shift_down_nth:
  assumes "n \<le> length ms" "j < length ms"
  shows "shift_down ms n i ! j = (if i \<le> j \<and> j + 1 < n then ms ! (j + 1) else ms ! j)"
  using assms
proof (induction ms n i arbitrary: j rule: shift_down.induct)
  case (1 ms n i)
  show ?case
  proof (cases "i + 1 < n")
    case True
    with "1.IH" [of j] "1.prems" show ?thesis
      by (subst shift_down.simps) (auto simp: nth_list_update)
  next
    case False
    then show ?thesis
      by (subst shift_down.simps) auto
  qed
qed

lemma remove_at_refines:
  assumes "mq_inv q" and "i < mq_len q"
  shows "live_messages (fst (remove_at q i)) = take i (live_messages q) @ drop (Suc i) (live_messages q)"
    and "snd (remove_at q i) = live_messages q ! i"
    and "mq_inv (fst (remove_at q i))"
proof -
  let ?ms = "mq_messages q" and ?n = "mq_len q"
  let ?ms' = "(shift_down ?ms ?n i)[?n - 1 := ipc_message_empty]"
  have n: "?n \<le> length ?ms" "length ?ms = MESSAGE_QUEUE_CAPACITY"
    and rest: "\<And>j. ?n \<le> j \<Longrightarrow> j < MESSAGE_QUEUE_CAPACITY \<Longrightarrow> ?ms ! j = ipc_message_empty"
    using assms(1) unfolding mq_inv_def
    by (auto, metis add_diff_inverse_nat diff_less_mono linorder_not_less nth_drop nth_replicate)
  show "live_messages (fst (remove_at q i)) = take i (live_messages q) @ drop (Suc i) (live_messages q)"
    using assms n
    by (intro nth_equalityI)
      (auto simp: remove_at_def live_messages_def shift_down_nth nth_append nth_update min_def split: if_splits)
  show "snd (remove_at q i) = live_messages q ! i"
    using assms by (simp add: remove_at_def live_messages_def)
  have "drop (?n - 1) ?ms' = replicate (MESSAGE_QUEUE_CAPACITY - (?n - 1)) ipc_message_empty"
    using assms n rest
    by (intro nth_equalityI) (auto simp: nth_update shift_down_nth)
  then show "mq_inv (fst (remove_at q i))"
    using assms n by (simp add: remove_at_def mq_inv_def)
qed

lemma mq_inv_empty: "mq_inv message_queue_empty"
  by (simp add: mq_inv_def message_queue_empty_def)

lemma live_messages_empty [simp]: "live_messages message_queue_empty = []"
  by (simp add: live_messages_def message_queue_empty_def)

lemma mq_enqueue_full:
  "mq_len q = MESSAGE_QUEUE_CAPACITY \<Longrightarrow> mq_enqueue q s b n = (q, Inl MessageTooLarge)"
  by (simp add: mq_enqueue_def)

lemma mq_enqueue_refines:
  assumes "mq_inv q" and "mq_len q \<noteq> MESSAGE_QUEUE_CAPACITY"
  shows "snd (mq_enqueue q s b n) = Inr ()"
    and "live_messages (fst (mq_enqueue q s b n)) = live_messages q @ [make_message s b n]"
    and "mq_inv (fst (mq_enqueue q s b n))"
proof -
  have lt: "mq_len q < length (mq_messages q)"
    using assms by (simp add: mq_inv_def)
  show "snd (mq_enqueue q s b n) = Inr ()"
    using assms(2) by (simp add: mq_enqueue_def)
  show "live_messages (fst (mq_enqueue q s b n)) = live_messages q @ [make_message s b n]"
    using assms(2) lt by (simp add: mq_enqueue_def live_messages_def take_Suc_conv_app_nth)
  have "drop (Suc (mq_len q)) (mq_messages q) = tl (drop (mq_len q) (mq_messages q))"
    by (simp add: drop_Suc tl_drop)
  then show "mq_inv (fst (mq_enqueue q s b n))"
    using assms lt
    by (cases "MESSAGE_QUEUE_CAPACITY - mq_len q") (auto simp: mq_enqueue_def mq_inv_def)
qed

lemma remove_first_cases:
  assumes "mq_inv q"
  obtains (none) "remove_first p q = (q, None)" "filter p (live_messages q) = []"
  | (some) q' m xs ys where "remove_first p q = (q', Some m)" "mq_inv q'" "p m"
      "live_messages q = xs @ m # ys" "filter p xs = []" "live_messages q' = xs @ ys"
proof (cases "first_index p (live_messages q)")
  case None
  then have "filter p (live_messages q) = []"
    by (simp add: first_index_None filter_empty_conv)
  with None show thesis
    by (intro none) (simp_all add: remove_first_def)
next
  case (Some i)
  let ?c = "live_messages q"
  note i = first_index_SomeD [OF Some]
  have "i < mq_len q"
    using i(1) assms by simp
  note r = remove_at_refines [OF assms this]
  have "filter p (take i ?c) = []"
    using i(3) by (auto simp: filter_empty_conv in_set_conv_nth)
  moreover have "?c = take i ?c @ ?c ! i # drop (Suc i) ?c"
    using i(1) by (rule id_take_nth_drop)
  ultimately show thesis
    using r i(2) Some
    by (intro some [of "fst (remove_at q i)" "?c ! i" "take i ?c" "drop (Suc i) ?c"])
      (simp_all add: remove_first_def split_beta)
qed

definition mq_put :: "message_queue \<Rightarrow> process_id \<times> u8 list \<times> nat \<Rightarrow> message_queue option" where
  "mq_put q x = (case x of (s, b, n) \<Rightarrow>
    (case mq_enqueue q s b n of (q', Inr _) \<Rightarrow> Some q' | (q', Inl _) \<Rightarrow> None))"

definition mq_msg :: "process_id \<times> u8 list \<times> nat \<Rightarrow> ipc_message" where
  "mq_msg x = (case x of (s, b, n) \<Rightarrow> make_message s b n)"

definition mq_get :: "(message_queue \<Rightarrow> message_queue \<times> ipc_message option)
    \<Rightarrow> message_queue \<Rightarrow> (message_queue \<times> ipc_message) option" where
  "mq_get f q = (case f q of (q', Some m) \<Rightarrow> Some (q', m) | (q', None) \<Rightarrow> None)"

lemma mq_put_None: "mq_inv q \<Longrightarrow> mq_put q x = None \<longleftrightarrow> length (live_messages q) = MESSAGE_QUEUE_CAPACITY"
  by (auto simp: mq_put_def mq_enqueue_def split: prod.splits)

lemma mq_put_Some:
  assumes "mq_inv q" "mq_put q x = Some q'"
  shows "mq_inv q' \<and> live_messages q' = live_messages q @ [mq_msg x]"
proof -
  obtain s b n where x: "x = (s, b, n)"
    by (cases x)
  from assms have "mq_len q \<noteq> MESSAGE_QUEUE_CAPACITY"
    by (auto simp: mq_put_def mq_enqueue_def x)
  from mq_enqueue_refines [OF assms(1) this, of s b n] assms(2) show ?thesis
    by (auto simp: mq_put_def mq_msg_def x split: prod.splits sum.splits)
qed

lemma mq_get_remove_first:
  assumes "mq_inv q"
  shows "mq_get (remove_first p) q = None \<longleftrightarrow> filter p (live_messages q) = []"
    and "mq_get (remove_first p) q = Some (q', m) \<Longrightarrow> mq_inv q' \<and> p m
      \<and> (\<exists>xs ys. live_messages q = xs @ m # ys \<and> filter p xs = [] \<and> live_messages q' = xs @ ys)"
  by (cases rule: remove_first_cases [OF assms, of p]; force simp: mq_get_def)+

lemma dequeue_fifo_remove_first: "mq_inv q \<Longrightarrow> dequeue_fifo q = remove_first (\<lambda>m. True) q"
  using length_live_messages [of q]
  by (cases "live_messages q") (auto simp: dequeue_fifo_def remove_first_def)

lemma fifo_queue_remove_first:
  "fifo_queue live_messages mq_inv MESSAGE_QUEUE_CAPACITY mq_put mq_msg p (mq_get (remove_first p))"
proof
  show "length (live_messages q) \<le> MESSAGE_QUEUE_CAPACITY" if "mq_inv q" for q
    using that by simp (simp add: mq_inv_def)
qed (fact mq_put_None mq_put_Some mq_get_remove_first)+

interpretation recv: fifo_queue live_messages mq_inv MESSAGE_QUEUE_CAPACITY mq_put mq_msg
  "\<lambda>m. msg_sender m \<noteq> receiver" "mq_get (\<lambda>q. dequeue_for q receiver)" for receiver
  unfolding dequeue_for_def by (rule fifo_queue_remove_first)

interpretation reply: fifo_queue live_messages mq_inv MESSAGE_QUEUE_CAPACITY mq_put mq_msg
  "\<lambda>m. msg_sender m \<noteq> receiver \<and> u64_le_at m 0 = Some t"
  "mq_get (\<lambda>q. dequeue_transaction_reply_for q receiver t)" for receiver t
  unfolding dequeue_transaction_reply_for_def by (rule fifo_queue_remove_first)

lemma mq_get_dequeue_fifo: "mq_inv q \<Longrightarrow> mq_get dequeue_fifo q = mq_get (remove_first (\<lambda>m. True)) q"
  by (simp add: mq_get_def dequeue_fifo_remove_first)

interpretation fifo: fifo_queue live_messages mq_inv MESSAGE_QUEUE_CAPACITY mq_put mq_msg
  "\<lambda>m. True" "mq_get dequeue_fifo"
proof
  show "mq_get dequeue_fifo q = None \<longleftrightarrow> filter (\<lambda>m. True) (live_messages q) = []" if "mq_inv q" for q
    unfolding mq_get_dequeue_fifo [OF that] by (rule mq_get_remove_first(1) [OF that])
next
  fix q q' m
  assume q: "mq_inv q" "mq_get dequeue_fifo q = Some (q', m)"
  then have "mq_get (remove_first (\<lambda>m. True)) q = Some (q', m)"
    by (simp only: mq_get_dequeue_fifo)
  then show "mq_inv q' \<and> True \<and> (\<exists>xs ys. live_messages q = xs @ m # ys
      \<and> filter (\<lambda>m. True) xs = [] \<and> live_messages q' = xs @ ys)"
    by (rule mq_get_remove_first(2) [OF q(1)])
qed (fact recv.bounded mq_put_None mq_put_Some)+

lemma remove_all_loop_refines:
  assumes "mq_inv q" and "index \<le> mq_len q"
  shows "mq_inv (fst (remove_all_loop s q index removed))
    \<and> live_messages (fst (remove_all_loop s q index removed)) =
        take index (live_messages q) @ filter (\<lambda>m. msg_sender m \<noteq> s) (drop index (live_messages q))
    \<and> snd (remove_all_loop s q index removed) =
        removed + length (filter (\<lambda>m. msg_sender m = s) (drop index (live_messages q)))"
  using assms
proof (induction s q index removed rule: remove_all_loop.induct)
  case (1 s q index removed)
  let ?c = "live_messages q"
  show ?case
  proof (cases "index < mq_len q")
    case True
    have nth: "mq_messages q ! index = ?c ! index"
      using True by (simp add: live_messages_def)
    have drop: "drop index ?c = ?c ! index # drop (Suc index) ?c"
      using True "1.prems"(1) by (simp add: Cons_nth_drop_Suc)
    show ?thesis
    proof (cases "msg_sender (mq_messages q ! index) = s")
      case match: True
      note r = remove_at_refines [OF "1.prems"(1) True]
      have len: "index \<le> mq_len (fst (remove_at q index))"
        using True by (simp add: remove_at_def)
      have "take index (live_messages (fst (remove_at q index))) = take index ?c"
        and "drop index (live_messages (fst (remove_at q index))) = drop (Suc index) ?c"
        using r(1) True "1.prems"(1) by simp_all
      with "1.IH"(1) [OF True match r(3) len] match True nth drop show ?thesis
        by (subst (1 2 3) remove_all_loop.simps) simp
    next
      case other: False
      have take: "take (index + 1) ?c = take index ?c @ [?c ! index]"
        using True "1.prems"(1) by (simp add: take_Suc_conv_app_nth)
      from "1.IH"(2) [OF True other "1.prems"(1)] True other nth drop take show ?thesis
        by (subst (1 2 3) remove_all_loop.simps) simp
    qed
  next
    case False
    with "1.prems" show ?thesis
      by (subst (1 2 3) remove_all_loop.simps) simp
  qed
qed

section \<open>Properties\<close>

text \<open>
  C14: Whatever sequence of sends and receives a queue sees, the receiver gets
  exactly the accepted messages that it did not send itself, in the order in
  which they were accepted, none lost, duplicated or reordered: the delivered
  messages followed by the eligible ones still queued are the eligible accepted
  ones.  Its own messages stay queued in order, and the queue never holds more
  than its four slots.
\<close>

theorem endpoint_delivery_fifo:
  "case queue_run mq_put mq_msg (mq_get (\<lambda>q. dequeue_for q receiver)) message_queue_empty ops of
    (q, accepted, delivered) \<Rightarrow>
      delivered @ filter (\<lambda>m. msg_sender m \<noteq> receiver) (live_messages q)
        = filter (\<lambda>m. msg_sender m \<noteq> receiver) accepted
    \<and> filter (\<lambda>m. msg_sender m = receiver) (live_messages q)
        = filter (\<lambda>m. msg_sender m = receiver) accepted
    \<and> length (live_messages q) \<le> MESSAGE_QUEUE_CAPACITY"
proof -
  obtain q accepted delivered where run:
    "queue_run mq_put mq_msg (mq_get (\<lambda>q. dequeue_for q receiver)) message_queue_empty ops
      = (q, accepted, delivered)"
    by (metis prod_cases3)
  from recv.run_fifo [OF mq_inv_empty run] recv.bounded [of q] run show ?thesis
    by simp
qed

text \<open>
  The poll operations tell the truth: a queue reports a message for a
  receiver exactly when the next receive delivers one (from another sender),
  and reports a transaction reply exactly when the next reply receive delivers
  a message with that transaction id.
\<close>

theorem queue_poll_agrees:
  "(has_message_for q receiver
      \<longleftrightarrow> (\<exists>m. snd (dequeue_for q receiver) = Some m \<and> msg_sender m \<noteq> receiver))
   \<and> (has_transaction_reply_for q receiver t
      \<longleftrightarrow> (\<exists>m. snd (dequeue_transaction_reply_for q receiver t) = Some m
            \<and> msg_sender m \<noteq> receiver \<and> u64_le_at m 0 = Some t))"
proof -
  have "list_ex p (live_messages q) \<longleftrightarrow> (\<exists>m. snd (remove_first p q) = Some m \<and> p m)" for p
  proof (cases "first_index p (live_messages q)")
    case None
    then have "\<not> list_ex p (live_messages q)"
      by (auto simp: first_index_None list_ex_iff)
    with None show ?thesis
      by (simp add: remove_first_def)
  next
    case (Some i)
    note i = first_index_SomeD [OF Some]
    from i have "list_ex p (live_messages q)"
      unfolding list_ex_iff by (meson nth_mem)
    moreover from i have "mq_messages q ! i = live_messages q ! i"
      by (simp add: live_messages_def)
    ultimately show ?thesis
      using i Some by (simp add: remove_first_def remove_at_def)
  qed
  then show ?thesis
    by (simp add: has_message_for_def dequeue_for_def has_transaction_reply_for_def
        dequeue_transaction_reply_for_def)
qed

text \<open>
  Tearing down a sender removes all of its queued messages from an
  endpoint, keeps every other message in order, reports how many it removed and
  leaves a well-formed queue.
\<close>

theorem remove_all_from_sender_exact:
  assumes "mq_inv (ep_queue e)"
  shows "live_messages (ep_queue (fst (ep_remove_all_from_sender e s)))
      = filter (\<lambda>m. msg_sender m \<noteq> s) (live_messages (ep_queue e))
    \<and> snd (ep_remove_all_from_sender e s)
      = length (filter (\<lambda>m. msg_sender m = s) (live_messages (ep_queue e)))
    \<and> mq_inv (ep_queue (fst (ep_remove_all_from_sender e s)))"
  using remove_all_loop_refines [OF assms, of 0 s 0]
  by (simp add: ep_remove_all_from_sender_def mq_remove_all_from_sender_def split_beta)

theorem remove_all_from_sender_exact_witness:
  "let q0 = fst (mq_enqueue message_queue_empty 7 (replicate 512 1) 3);
       q1 = fst (mq_enqueue q0 9 (replicate 512 2) 4);
       e = (ipc_endpoint_new 1 ''log'' 2)\<lparr>ep_queue := fst (mq_enqueue q1 7 (replicate 512 3) 5)\<rparr>
   in map msg_sender (live_messages (ep_queue e)) = [7, 9, 7]
    \<and> map msg_sender (live_messages (ep_queue (fst (ep_remove_all_from_sender e 7)))) = [9]
    \<and> snd (ep_remove_all_from_sender e 7) = 2"
proof -
  let ?q0 = "fst (mq_enqueue message_queue_empty 7 (replicate 512 1) 3)"
  let ?q1 = "fst (mq_enqueue ?q0 9 (replicate 512 2) 4)"
  let ?q2 = "fst (mq_enqueue ?q1 7 (replicate 512 3) 5)"
  let ?e = "(ipc_endpoint_new 1 ''log'' 2)\<lparr>ep_queue := ?q2\<rparr>"
  have len: "mq_len message_queue_empty = 0" "mq_len ?q0 = 1" "mq_len ?q1 = 2"
    by (simp_all add: message_queue_empty_def mq_enqueue_def MESSAGE_QUEUE_CAPACITY_def)
  note cap = MESSAGE_QUEUE_CAPACITY_def
  have q0: "mq_inv ?q0" "live_messages ?q0 = [make_message 7 (replicate 512 1) 3]"
    using mq_enqueue_refines [OF mq_inv_empty, of 7 "replicate 512 1" 3] len cap by simp_all
  have q1: "mq_inv ?q1" "live_messages ?q1 = live_messages ?q0 @ [make_message 9 (replicate 512 2) 4]"
    using mq_enqueue_refines [OF q0(1), of 9 "replicate 512 2" 4] len cap by simp_all
  have q2: "mq_inv ?q2" "live_messages ?q2 = live_messages ?q1 @ [make_message 7 (replicate 512 3) 5]"
    using mq_enqueue_refines [OF q1(1), of 7 "replicate 512 3" 5] len cap by simp_all
  have "map msg_sender (live_messages ?q2) = [7, 9, 7]"
    using q0 q1 q2 by (simp add: make_message_def)
  with remove_all_from_sender_exact [of ?e 7] q0 q1 q2 show ?thesis
    by (simp add: Let_def make_message_def)
qed

end
