(* ===== verification/Vfs_Path.thy ===== *)
theory Vfs_Path
  imports Kernel_Types
begin

text \<open>
  Path and name handling of the virtual file system
  (\<^verbatim>\<open>vfs/path.rs\<close>, \<^verbatim>\<open>vfs/namespace.rs\<close>,
  \<^verbatim>\<open>ipc/vfs_paths.rs\<close>): the byte-level validators with their
  scanning loops, the split of a path into parent and child, and the
  resolution of a path under a mount root.  The lemmas relate the validators to
  the grammar of canonical paths and show that resolution stays under the root.
\<close>

definition MAX_VFS_PATH_BYTES :: nat where "MAX_VFS_PATH_BYTES = 128"
definition MAX_VFS_NAME_BYTES :: nat where "MAX_VFS_NAME_BYTES = 64"

abbreviation slash :: u8 where "slash \<equiv> 0x2F"
abbreviation dot :: u8 where "dot \<equiv> 0x2E"

section \<open>Names\<close>

record vfs_name =
  name_bytes :: "u8 list"
  name_len :: nat

definition vfs_name_empty :: vfs_name where
  "vfs_name_empty = \<lparr>name_bytes = replicate MAX_VFS_NAME_BYTES 0, name_len = 0\<rparr>"

definition vfs_name_from_bytes :: "u8 list \<Rightarrow> (unit, vfs_name) result" where
  "vfs_name_from_bytes value =
    (if value = [] \<or> MAX_VFS_NAME_BYTES < length value then Inl ()
     else if value = [slash] then Inr (vfs_name_empty\<lparr>name_bytes := (name_bytes vfs_name_empty)[0 := slash], name_len := 1\<rparr>)
     else if list_ex (\<lambda>b. b = slash \<or> b = 0) value then Inl ()
     else Inr \<lparr>name_bytes = value @ replicate (MAX_VFS_NAME_BYTES - length value) 0, name_len = length value\<rparr>)"

definition vfs_name_from_static :: "string \<Rightarrow> (init_error, vfs_name) result" where
  "vfs_name_from_static value =
    (case vfs_name_from_bytes (as_bytes value) of Inl _ \<Rightarrow> Inl InvalidBootManifest | Inr n \<Rightarrow> Inr n)"

definition vfs_name_from_user_component :: "u8 list \<Rightarrow> (ipc_error, vfs_name) result" where
  "vfs_name_from_user_component value =
    (if value = [dot] \<or> value = [dot, dot] then Inl VfsBadPath
     else case vfs_name_from_bytes value of Inl _ \<Rightarrow> Inl BadCapability | Inr n \<Rightarrow> Inr n)"

definition vfs_name_as_bytes :: "vfs_name \<Rightarrow> u8 list" where
  "vfs_name_as_bytes n = take (name_len n) (name_bytes n)"

section \<open>Path validation\<close>

function component_end :: "u8 list \<Rightarrow> nat \<Rightarrow> nat option" where
  "component_end path e =
    (if e < length path \<and> path ! e \<noteq> slash
     then if path ! e = 0 then None else component_end path (e + 1)
     else Some e)"
  by auto
termination by (relation "measure (\<lambda>(path, e). length path - e)") auto

declare component_end.simps [simp del]

lemma component_end_ge: "component_end path s = Some e \<Longrightarrow> s \<le> e"
proof (induction path s rule: component_end.induct)
  case (1 path s)
  then show ?case
    by (subst (asm) (2) component_end.simps) (auto split: if_splits)
qed

function components_ok :: "u8 list \<Rightarrow> nat \<Rightarrow> bool" where
  "components_ok path start =
    (if start < length path then
       (case component_end path start of
         None \<Rightarrow> False
       | Some e \<Rightarrow>
           if e = start \<or> MAX_VFS_NAME_BYTES < e - start
             \<or> take (e - start) (drop start path) = [dot]
             \<or> take (e - start) (drop start path) = [dot, dot]
           then False else components_ok path (e + 1))
     else True)"
  by auto
termination
  by (relation "measure (\<lambda>(path, start). length path - start)") (auto dest: component_end_ge)

declare components_ok.simps [simp del]

definition valid_vfs_root_path :: "u8 list \<Rightarrow> bool" where
  "valid_vfs_root_path path =
    (if path = [] \<or> path ! 0 \<noteq> slash \<or> (1 < length path \<and> path ! (length path - 1) = slash) then False
     else if path = [slash] then True
     else components_ok path 1)"

definition validate_vfs_absolute_path :: "u8 list \<Rightarrow> (ipc_error, unit) result" where
  "validate_vfs_absolute_path path =
    (if length path < 2 \<or> path ! 0 \<noteq> slash \<or> path ! (length path - 1) = slash then Inl VfsBadPath
     else if components_ok path 1 then Inr () else Inl VfsBadPath)"

fun last_slash :: "u8 list \<Rightarrow> nat \<Rightarrow> nat" where
  "last_slash path 0 = 0"
| "last_slash path (Suc s) = (if path ! s = slash then s else last_slash path s)"

definition split_vfs_parent_child :: "u8 list \<Rightarrow> (ipc_error, u8 list \<times> u8 list) result" where
  "split_vfs_parent_child path =
    (case validate_vfs_absolute_path path of
      Inl e \<Rightarrow> Inl e
    | Inr _ \<Rightarrow>
        (let s = last_slash path (length path) in
          if s = 0 then Inr (take 1 path, drop 1 path) else Inr (take s path, drop (s + 1) path)))"

section \<open>Paths and their resolution\<close>

record vfs_path =
  path_bytes :: "u8 list"
  path_len :: nat

definition vfs_path_empty :: vfs_path where
  "vfs_path_empty = \<lparr>path_bytes = replicate MAX_VFS_PATH_BYTES 0, path_len = 0\<rparr>"

definition vfs_path_of_bytes :: "u8 list \<Rightarrow> vfs_path" where
  "vfs_path_of_bytes p = \<lparr>path_bytes = p @ replicate (MAX_VFS_PATH_BYTES - length p) 0, path_len = length p\<rparr>"

definition vfs_path_from_root_path :: "u8 list \<Rightarrow> (ipc_error, vfs_path) result" where
  "vfs_path_from_root_path path =
    (if MAX_VFS_PATH_BYTES < length path \<or> \<not> valid_vfs_root_path path then Inl VfsBadPath
     else Inr (vfs_path_of_bytes path))"

definition vfs_path_from_boot_root_path :: "string \<Rightarrow> (init_error, vfs_path) result" where
  "vfs_path_from_boot_root_path path =
    (if MAX_VFS_PATH_BYTES < length path \<or> \<not> valid_vfs_root_path (as_bytes path) then Inl InvalidBootManifest
     else Inr (vfs_path_of_bytes (as_bytes path)))"

definition vfs_path_as_bytes :: "vfs_path \<Rightarrow> u8 list" where
  "vfs_path_as_bytes p = take (path_len p) (path_bytes p)"

definition resolve_vfs_path_under_root :: "vfs_path \<Rightarrow> u8 list \<Rightarrow> (ipc_error, vfs_path) result" where
  "resolve_vfs_path_under_root root path =
    (if path = [slash] then Inr root
     else case validate_vfs_absolute_path path of
       Inl e \<Rightarrow> Inl e
     | Inr _ \<Rightarrow>
         if vfs_path_as_bytes root = [slash] then vfs_path_from_root_path path
         else if MAX_VFS_PATH_BYTES < path_len root + length path then Inl VfsBadPath
         else Inr (vfs_path_of_bytes (vfs_path_as_bytes root @ path)))"

definition vfs_authority_path_covers :: "u8 list \<Rightarrow> u8 list \<Rightarrow> bool" where
  "vfs_authority_path_covers authority path =
    (if authority = [slash] then path \<noteq> [] \<and> path ! 0 = slash
     else if authority = path then True
     else length authority < length path \<and> take (length authority) path = authority
       \<and> path ! length authority = slash)"

section \<open>The grammar of canonical paths\<close>

definition valid_component :: "u8 list \<Rightarrow> bool" where
  "valid_component c \<longleftrightarrow> c \<noteq> [] \<and> length c \<le> MAX_VFS_NAME_BYTES \<and> 0 \<notin> set c \<and> slash \<notin> set c
    \<and> c \<noteq> [dot] \<and> c \<noteq> [dot, dot]"

definition join_components :: "u8 list list \<Rightarrow> u8 list" where
  "join_components cs = concat (map (\<lambda>c. slash # c) cs)"

lemma join_components_simps [simp]:
  "join_components [] = []"
  "join_components (c # cs) = slash # c @ join_components cs"
  "join_components (cs @ ds) = join_components cs @ join_components ds"
  by (simp_all add: join_components_def)

lemma component_end_eq:
  "component_end path s =
    (let c = takeWhile (\<lambda>b. b \<noteq> slash) (drop s path) in if 0 \<in> set c then None else Some (s + length c))"
proof (induction path s rule: component_end.induct)
  case (1 path s)
  show ?case
  proof (cases "s < length path \<and> path ! s \<noteq> slash")
    case True
    then have "drop s path = path ! s # drop (s + 1) path"
      by (simp add: Cons_nth_drop_Suc)
    with 1 True show ?thesis
      by (subst component_end.simps) (auto simp: Let_def)
  next
    case False
    then have "takeWhile (\<lambda>b. b \<noteq> slash) (drop s path) = []"
      by (cases "s < length path") (simp_all add: Cons_nth_drop_Suc [symmetric])
    with False show ?thesis
      by (subst component_end.simps) auto
  qed
qed

lemma takeWhile_neq:
  assumes "z \<notin> set c"
  shows "takeWhile (\<lambda>b. b \<noteq> z) c = c" "takeWhile (\<lambda>b. b \<noteq> z) (c @ z # d) = c"
  using assms by (induction c) auto

lemma takeWhile_join:
  assumes "slash \<notin> set c"
  shows "takeWhile (\<lambda>b. b \<noteq> slash) (c @ join_components cs) = c"
  by (cases cs) (simp_all only: join_components_simps append_Nil2 takeWhile_neq [OF assms])

lemma components_ok_step:
  fixes path :: "u8 list" and start :: nat
  defines "c \<equiv> takeWhile (\<lambda>b. b \<noteq> slash) (drop start path)"
  assumes "start < length path"
  shows "components_ok path start \<longleftrightarrow> valid_component c \<and> components_ok path (start + length c + 1)"
proof -
  have "take (length c) (drop start path) = c"
    unfolding c_def by (rule takeWhile_eq_take [symmetric])
  moreover have "slash \<notin> set c"
    by (auto simp: c_def dest: set_takeWhileD)
  moreover have "component_end path start = (if 0 \<in> set c then None else Some (start + length c))"
    by (simp add: component_end_eq c_def Let_def)
  ultimately show ?thesis
    using assms(2) by (subst components_ok.simps) (auto simp: valid_component_def not_less)
qed

lemma join_suffix_iff:
  fixes s :: "u8 list"
  defines "c \<equiv> takeWhile (\<lambda>b. b \<noteq> slash) s" and "r \<equiv> dropWhile (\<lambda>b. b \<noteq> slash) s"
  shows "(\<exists>cs. list_all valid_component cs \<and> slash # s = join_components cs) \<longleftrightarrow>
    valid_component c \<and> (\<exists>cs. list_all valid_component cs \<and> r = join_components cs)" (is "?L \<longleftrightarrow> ?R")
proof
  have s: "s = c @ r"
    by (simp add: c_def r_def)
  show ?R if ?L
  proof -
    from that obtain cs0 where cs0: "list_all valid_component cs0" "slash # s = join_components cs0"
      by blast
    then obtain d ds where cs: "cs0 = d # ds"
      by (cases cs0) auto
    have "c = d"
      using cs0 cs takeWhile_join [of d ds] by (simp add: c_def valid_component_def)
    with cs0 cs s show ?thesis
      by auto
  qed
  show ?L if ?R
  proof -
    from that obtain cs where "list_all valid_component (c # cs) \<and> slash # s = join_components (c # cs)"
      using s by auto
    then show ?thesis
      by blast
  qed
qed

lemma components_ok_iff:
  assumes "path \<noteq> []" "last path \<noteq> slash"
  shows "components_ok path start \<longleftrightarrow>
    (drop start path = [] \<or> (\<exists>cs. list_all valid_component cs \<and> slash # drop start path = join_components cs))"
proof (induction "length path - start" arbitrary: start rule: less_induct)
  case less
  let ?s = "drop start path" and ?P = "\<lambda>b. b \<noteq> slash"
  let ?c = "takeWhile ?P ?s" and ?r = "dropWhile ?P ?s"
  show ?case
  proof (cases "start < length path")
    case True
    have rest: "drop (start + length ?c + 1) path = drop 1 ?r"
      by (simp add: dropWhile_eq_drop add.commute [of start])
    have "last ?s \<noteq> slash"
      using assms True by simp
    then have not_last: "?r \<noteq> [slash]"
      by (metis last_appendR last_ConsL list.distinct(1) takeWhile_dropWhile_id)
    have head: "?r \<noteq> [] \<Longrightarrow> ?r = slash # drop 1 ?r"
      using hd_dropWhile [of ?P ?s] by (cases ?r) auto
    have IH: "components_ok path (start + length ?c + 1) \<longleftrightarrow> drop 1 ?r = []
        \<or> (\<exists>cs. list_all valid_component cs \<and> slash # drop 1 ?r = join_components cs)"
      using less [of "start + length ?c + 1"] True rest by auto
    have "components_ok path (start + length ?c + 1) \<longleftrightarrow>
        (\<exists>cs. list_all valid_component cs \<and> ?r = join_components cs)"
    proof (cases "?r = []")
      case True
      then have "\<exists>cs. list_all valid_component cs \<and> ?r = join_components cs"
        by (intro exI [of _ "[]"]) simp
      moreover have "components_ok path (start + length ?c + 1)"
        unfolding IH True by simp
      ultimately show ?thesis
        by blast
    next
      case False
      with head not_last IH show ?thesis
        by metis
    qed
    with True show ?thesis
      by (simp add: components_ok_step join_suffix_iff)
  qed (subst components_ok.simps, simp)
qed

lemma valid_vfs_root_path_grammar:
  "valid_vfs_root_path path \<longleftrightarrow>
    path = [slash] \<or> (\<exists>cs. cs \<noteq> [] \<and> list_all valid_component cs \<and> path = join_components cs)"
proof -
  have last_valid: "last (join_components cs) \<noteq> slash"
    if "cs \<noteq> []" "list_all valid_component cs" for cs
    using that
  proof (induction cs)
    case (Cons c cs)
    then show ?case
      by (cases cs) (auto simp: valid_component_def dest: last_in_set)
  qed simp
  show ?thesis
  proof (cases "path = [] \<or> path = [slash] \<or> path ! 0 \<noteq> slash \<or> last path = slash")
    case True
    then have "\<not> (\<exists>cs. cs \<noteq> [] \<and> list_all valid_component cs \<and> path = join_components cs)"
      using last_valid by (auto simp: neq_Nil_conv) (fastforce simp: valid_component_def)
    with True show ?thesis
      by (auto simp: valid_vfs_root_path_def last_conv_nth Suc_lessI neq_Nil_conv)
  next
    case False
    then obtain b p where p: "path = slash # p" "p \<noteq> []" "last path \<noteq> slash"
      by (cases path) auto
    have "(\<exists>cs. list_all valid_component cs \<and> path = join_components cs) \<longleftrightarrow>
        (\<exists>cs. cs \<noteq> [] \<and> list_all valid_component cs \<and> path = join_components cs)"
      using p by (metis join_components_simps(1) list.distinct(1))
    with p components_ok_iff [of path 1] show ?thesis
      by (simp add: valid_vfs_root_path_def last_conv_nth)
  qed
qed

lemma validate_vfs_absolute_path_iff:
  "validate_vfs_absolute_path path = Inr u \<longleftrightarrow> valid_vfs_root_path path \<and> path \<noteq> [slash]"
proof -
  have "length path < 2 \<longleftrightarrow> path = [] \<or> (\<exists>b. path = [b])"
    by (cases path rule: remdups_adj.cases) auto
  then show ?thesis
    by (auto simp: validate_vfs_absolute_path_def valid_vfs_root_path_def)
qed

lemma validate_vfs_absolute_path_cases:
  "validate_vfs_absolute_path path = (if valid_vfs_root_path path \<and> path \<noteq> [slash] then Inr () else Inl VfsBadPath)"
  using validate_vfs_absolute_path_iff [of path "()"] by (auto simp: validate_vfs_absolute_path_def)

lemma last_slash_append:
  assumes "slash \<notin> set c"
  shows "last_slash (p @ slash # c) (length (p @ slash # c)) = length p"
proof -
  have "last_slash (p @ slash # c) (length p + 1 + k) = length p" if "k \<le> length c" for k
    using that
  proof (induction k)
    case (Suc k)
    have "c ! k \<noteq> slash"
      using assms Suc.prems by (metis Suc_le_eq nth_mem)
    moreover have "(p @ slash # c) ! (length p + 1 + k) = c ! k"
      by (simp add: nth_append)
    ultimately show ?case
      using Suc by simp
  qed simp
  from this [of "length c"] show ?thesis
    by simp
qed

definition path_append :: "u8 list \<Rightarrow> u8 list \<Rightarrow> u8 list" where
  "path_append parent child = (if parent = [slash] then slash # child else parent @ slash # child)"

lemma join_valid_not_slash:
  "cs \<noteq> [] \<Longrightarrow> list_all valid_component cs \<Longrightarrow> join_components cs \<noteq> [slash] \<and> join_components cs \<noteq> []"
  by (cases cs) (auto simp: valid_component_def)

lemma valid_path_snoc:
  "valid_vfs_root_path path \<and> path \<noteq> [slash] \<longleftrightarrow>
    (\<exists>ds c. list_all valid_component ds \<and> valid_component c \<and> path = join_components ds @ slash # c)"
proof
  assume "valid_vfs_root_path path \<and> path \<noteq> [slash]"
  then obtain cs where "cs \<noteq> []" "list_all valid_component cs" "path = join_components cs"
    by (auto simp: valid_vfs_root_path_grammar)
  then show "\<exists>ds c. list_all valid_component ds \<and> valid_component c \<and> path = join_components ds @ slash # c"
    by (intro exI [of _ "butlast cs"] exI [of _ "last cs"])
      (metis append_butlast_last_id join_components_simps list_all_append list.pred_inject(2) append_Nil2)
next
  assume "\<exists>ds c. list_all valid_component ds \<and> valid_component c \<and> path = join_components ds @ slash # c"
  then obtain ds c where d: "list_all valid_component ds" "valid_component c"
    "path = join_components (ds @ [c])"
    by auto
  then have v: "list_all valid_component (ds @ [c])"
    by simp
  have "valid_vfs_root_path path"
    unfolding valid_vfs_root_path_grammar using d(3) v by (metis snoc_eq_iff_butlast)
  moreover have "path \<noteq> [slash]"
    unfolding d(3) using join_valid_not_slash [OF _ v] by simp
  ultimately show "valid_vfs_root_path path \<and> path \<noteq> [slash]"
    by simp
qed

lemma valid_parent_iff:
  "valid_vfs_root_path p \<longleftrightarrow>
    (\<exists>ds. list_all valid_component ds \<and> p = (if ds = [] then [slash] else join_components ds))"
  unfolding valid_vfs_root_path_grammar by (metis list.pred_inject(1))

lemma path_append_join:
  "list_all valid_component ds \<Longrightarrow>
    path_append (if ds = [] then [slash] else join_components ds) c = join_components ds @ slash # c"
  using join_valid_not_slash [of ds] by (simp add: path_append_def)

lemma split_join:
  assumes "list_all valid_component ds" "valid_component c"
  shows "split_vfs_parent_child (join_components ds @ slash # c)
    = Inr (if ds = [] then [slash] else join_components ds, c)"
proof -
  have "\<exists>ds' c'. list_all valid_component ds' \<and> valid_component c'
      \<and> join_components ds @ slash # c = join_components ds' @ slash # c'"
    using assms by blast
  then have "validate_vfs_absolute_path (join_components ds @ slash # c) = Inr ()"
    unfolding validate_vfs_absolute_path_iff valid_path_snoc .
  moreover have "join_components ds = [] \<longleftrightarrow> ds = []"
    by (cases ds) auto
  ultimately show ?thesis
    using last_slash_append [of c "join_components ds"] assms(2)
    by (simp add: split_vfs_parent_child_def valid_component_def Let_def)
qed

lemma split_path_append:
  assumes "valid_vfs_root_path p" "valid_component c"
  shows "split_vfs_parent_child (path_append p c) = Inr (p, c)"
proof -
  obtain ds where ds: "list_all valid_component ds" "p = (if ds = [] then [slash] else join_components ds)"
    using assms(1) unfolding valid_parent_iff by blast
  show ?thesis
    unfolding ds(2) path_append_join [OF ds(1)] by (rule split_join [OF ds(1) assms(2)])
qed

text \<open>
  C35: The byte-scanning validator of mount-root paths accepts exactly the
  canonical absolute paths: the root itself, or a non-empty sequence of
  components, each preceded by a slash, each of 1 to 64 bytes, free of NUL and
  slash, and none of them \<^verbatim>\<open>.\<close> or \<^verbatim>\<open>..\<close>.
\<close>

theorem valid_vfs_root_path_iff:
  "valid_vfs_root_path path \<longleftrightarrow>
    path = [slash] \<or> (\<exists>cs. cs \<noteq> [] \<and> list_all valid_component cs \<and> path = join_components cs)"
  by (rule valid_vfs_root_path_grammar)

text \<open>
  C36: Splitting a path and joining it again are inverse: the split succeeds
  with a given parent and child exactly when the parent is a canonical path,
  the child a valid component and the path is the child appended to the parent;
  every other input is refused with \<^verbatim>\<open>VfsBadPath\<close>.
\<close>

theorem split_vfs_parent_child_roundtrip:
  "(split_vfs_parent_child path = Inr (parent, child) \<longleftrightarrow>
      valid_vfs_root_path parent \<and> valid_component child \<and> path = path_append parent child)
   \<and> (split_vfs_parent_child path = Inl e \<longleftrightarrow>
      e = VfsBadPath \<and> \<not> (\<exists>p c. valid_vfs_root_path p \<and> valid_component c \<and> path = path_append p c))"
proof (cases "valid_vfs_root_path path \<and> path \<noteq> [slash]")
  case True
  then obtain ds c where d: "list_all valid_component ds" "valid_component c"
    "path = join_components ds @ slash # c"
    unfolding valid_path_snoc by blast
  let ?p = "if ds = [] then [slash] else join_components ds"
  have split: "split_vfs_parent_child path = Inr (?p, c)"
    unfolding d(3) by (rule split_join [OF d(1,2)])
  have ok: "valid_vfs_root_path ?p" "path = path_append ?p c"
    using d path_append_join [OF d(1)] valid_parent_iff by auto
  have "parent = ?p \<and> child = c"
    if "valid_vfs_root_path parent" "valid_component child" "path = path_append parent child"
    using split_path_append [OF that(1,2)] split unfolding that(3) by simp
  with split ok d(2) show ?thesis
    by auto
next
  case False
  then have fail: "split_vfs_parent_child path = Inl VfsBadPath"
    by (auto simp: split_vfs_parent_child_def validate_vfs_absolute_path_cases)
  then have "\<not> (valid_vfs_root_path p \<and> valid_component c \<and> path = path_append p c)" for p c
    using split_path_append [of p c] by auto
  with fail show ?thesis
    by auto
qed

definition vfs_path_wf :: "vfs_path \<Rightarrow> bool" where
  "vfs_path_wf p \<longleftrightarrow> length (path_bytes p) = MAX_VFS_PATH_BYTES \<and> path_len p \<le> MAX_VFS_PATH_BYTES
    \<and> valid_vfs_root_path (vfs_path_as_bytes p)"

lemma vfs_path_of_bytes_as_bytes [simp]: "vfs_path_as_bytes (vfs_path_of_bytes p) = p"
  by (simp add: vfs_path_as_bytes_def vfs_path_of_bytes_def)

lemma vfs_path_of_bytes_wf:
  "length p \<le> MAX_VFS_PATH_BYTES \<Longrightarrow> valid_vfs_root_path p \<Longrightarrow> vfs_path_wf (vfs_path_of_bytes p)"
  by (simp add: vfs_path_wf_def) (simp add: vfs_path_of_bytes_def)

lemma valid_path_concat:
  assumes "valid_vfs_root_path r" "r \<noteq> [slash]" "valid_vfs_root_path p" "p \<noteq> [slash]"
  shows "valid_vfs_root_path (r @ p)" and "vfs_authority_path_covers r (r @ p)"
proof -
  from assms obtain cs ds where cs: "cs \<noteq> []" "list_all valid_component cs" "r = join_components cs"
    and ds: "ds \<noteq> []" "list_all valid_component ds" "p = join_components ds"
    unfolding valid_vfs_root_path_grammar by auto
  then have "list_all valid_component (cs @ ds) \<and> r @ p = join_components (cs @ ds) \<and> cs @ ds \<noteq> []"
    by simp
  then show "valid_vfs_root_path (r @ p)"
    unfolding valid_vfs_root_path_grammar by blast
  show "vfs_authority_path_covers r (r @ p)"
    using ds assms(2) by (cases ds) (auto simp: vfs_authority_path_covers_def nth_append)
qed

text \<open>
  C19: Path resolution is confined: whatever absolute path is resolved under a
  mount root, the result is a well-formed canonical path that the root's
  authority covers, so no input escapes the root.
\<close>

theorem resolve_under_root_confined:
  assumes "vfs_path_wf root" and "resolve_vfs_path_under_root root path = Inr r"
  shows "vfs_path_wf r \<and> vfs_authority_path_covers (vfs_path_as_bytes root) (vfs_path_as_bytes r)"
proof (cases "path = [slash]")
  case True
  with assms have "r = root" and "valid_vfs_root_path (vfs_path_as_bytes root)"
    by (simp_all add: resolve_vfs_path_under_root_def vfs_path_wf_def)
  with assms(1) show ?thesis
    by (auto simp: vfs_authority_path_covers_def valid_vfs_root_path_def split: if_splits)
next
  case False
  with assms(2) have path: "valid_vfs_root_path path" "path \<noteq> [slash]"
    by (auto simp: resolve_vfs_path_under_root_def validate_vfs_absolute_path_cases split: if_splits)
  have root: "valid_vfs_root_path (vfs_path_as_bytes root)" "length (vfs_path_as_bytes root) = path_len root"
    using assms(1) by (simp_all add: vfs_path_wf_def) (simp add: vfs_path_as_bytes_def)
  show ?thesis
  proof (cases "vfs_path_as_bytes root = [slash]")
    case True
    with assms(2) path have "r = vfs_path_of_bytes path" "length path \<le> MAX_VFS_PATH_BYTES"
      by (auto simp: resolve_vfs_path_under_root_def vfs_path_from_root_path_def
          validate_vfs_absolute_path_cases split: if_splits)
    with True path vfs_path_of_bytes_wf [of path] show ?thesis
      by (auto simp: vfs_authority_path_covers_def valid_vfs_root_path_def split: if_splits)
  next
    case False
    with assms(2) path have "r = vfs_path_of_bytes (vfs_path_as_bytes root @ path)"
      "path_len root + length path \<le> MAX_VFS_PATH_BYTES"
      by (auto simp: resolve_vfs_path_under_root_def validate_vfs_absolute_path_cases split: if_splits)
    with valid_path_concat [OF root(1) False path] root(2) show ?thesis
      by (simp add: vfs_path_of_bytes_wf)
  qed
qed

theorem resolve_under_root_confined_witness:
  "\<exists>r. resolve_vfs_path_under_root (vfs_path_of_bytes (as_bytes ''/srv'')) (as_bytes ''/etc'') = Inr r
    \<and> vfs_path_wf r \<and> vfs_authority_path_covers (as_bytes ''/srv'') (vfs_path_as_bytes r)
    \<and> vfs_path_as_bytes r = as_bytes ''/srv/etc''"
proof -
  have valid: "valid_vfs_root_path (as_bytes ''/srv'')" "valid_vfs_root_path (as_bytes ''/etc'')"
    by code_simp+
  then have wf: "vfs_path_wf (vfs_path_of_bytes (as_bytes ''/srv''))"
    by (intro vfs_path_of_bytes_wf) (simp_all add: as_bytes_def MAX_VFS_PATH_BYTES_def)
  have "resolve_vfs_path_under_root (vfs_path_of_bytes (as_bytes ''/srv'')) (as_bytes ''/etc'')
      = Inr (vfs_path_of_bytes (as_bytes ''/srv/etc''))"
    using valid
    by (simp add: resolve_vfs_path_under_root_def validate_vfs_absolute_path_cases as_bytes_def
        vfs_path_of_bytes_def [of "[_, _, _, _]"] MAX_VFS_PATH_BYTES_def)
      (simp add: vfs_path_of_bytes_def MAX_VFS_PATH_BYTES_def vfs_path_as_bytes_def)
  with resolve_under_root_confined [OF wf this] show ?thesis
    by simp
qed

end
