(* ===== verification/Kernel_Objects.thy ===== *)
theory Kernel_Objects
  imports Transport Vfs_Path
begin

text \<open>
  The kernel objects a capability can name: the object structs of
  \<^verbatim>\<open>kernel/object.rs\<close>, \<^verbatim>\<open>device/object.rs\<close>,
  \<^verbatim>\<open>device/network.rs\<close> and \<^verbatim>\<open>vfs/namespace.rs\<close>
  with their constructors, and the enum over them.
\<close>

section \<open>Boot, store, state and control objects\<close>

record boot_module_object =
  bm_id :: object_id
  bm_name :: string
  bm_base :: u64
  bm_length :: u64

record store_object =
  so_id :: object_id
  so_name :: string
  so_base :: u64
  so_length :: u64
  so_hash :: string

record boot_state_volume_config =
  svc_id :: string
  svc_owner :: string
  svc_schema_version :: string
  svc_storage_class :: string
  svc_migration_policy :: string
  svc_retention_policy :: string
  svc_sharing_policy :: string

record state_volume_object =
  sv_id :: object_id
  sv_name :: string
  sv_owner :: string
  sv_schema_version :: string
  sv_storage_class :: string
  sv_migration_policy :: string
  sv_retention_policy :: string
  sv_sharing_policy :: string

definition state_volume_object_new :: "object_id \<Rightarrow> boot_state_volume_config \<Rightarrow> state_volume_object" where
  "state_volume_object_new i state =
    \<lparr>sv_id = i, sv_name = svc_id state, sv_owner = svc_owner state,
     sv_schema_version = svc_schema_version state, sv_storage_class = svc_storage_class state,
     sv_migration_policy = svc_migration_policy state, sv_retention_policy = svc_retention_policy state,
     sv_sharing_policy = svc_sharing_policy state\<rparr>"

record process_control_object =
  pc_id :: object_id
  pc_name :: string

record secret_object =
  sec_id :: object_id
  sec_name :: string
  sec_value :: "u8 list"

section \<open>Device objects\<close>

record timer_object =
  tm_id :: object_id
  tm_name :: string

record network_port_object =
  np_id :: object_id
  np_name :: string
  np_queue :: message_queue

definition network_port_object_new :: "object_id \<Rightarrow> string \<Rightarrow> network_port_object" where
  "network_port_object_new i n = \<lparr>np_id = i, np_name = n, np_queue = message_queue_empty\<rparr>"

definition enqueue_udp :: "network_port_object \<Rightarrow> process_id \<Rightarrow> u8 list \<Rightarrow> nat
    \<Rightarrow> network_port_object \<times> (ipc_error, unit) result" where
  "enqueue_udp p sender bytes len =
    (let (q, r) = mq_enqueue (np_queue p) sender bytes len in (p\<lparr>np_queue := q\<rparr>, r))"

definition dequeue_udp :: "network_port_object \<Rightarrow> network_port_object \<times> ipc_message option" where
  "dequeue_udp p = (let (q, r) = dequeue_fifo (np_queue p) in (p\<lparr>np_queue := q\<rparr>, r))"

definition has_pending_udp :: "network_port_object \<Rightarrow> bool" where
  "has_pending_udp p \<longleftrightarrow> 0 < mq_len (np_queue p)"

record io_port_range_object =
  io_id :: object_id
  io_name :: string
  io_base :: u64
  io_length :: u64

record mmio_region_object =
  mmio_id :: object_id
  mmio_name :: string
  mmio_base :: u64
  mmio_length :: u64

record framebuffer_object =
  fb_id :: object_id
  fb_name :: string
  fb_physical_base :: u64
  fb_length :: u64
  fb_width :: u64
  fb_height :: u64
  fb_pitch :: u64
  fb_bpp :: u16
  fb_red_mask_size :: u8
  fb_red_mask_shift :: u8
  fb_green_mask_size :: u8
  fb_green_mask_shift :: u8
  fb_blue_mask_size :: u8
  fb_blue_mask_shift :: u8

record interrupt_line_object =
  il_id :: object_id
  il_name :: string
  il_line :: u64
  il_pending_count :: u64
  il_delivered_count :: u64
  il_spurious_count :: u64

definition interrupt_line_object_new :: "object_id \<Rightarrow> string \<Rightarrow> u64 \<Rightarrow> interrupt_line_object" where
  "interrupt_line_object_new i n l =
    \<lparr>il_id = i, il_name = n, il_line = l, il_pending_count = 0, il_delivered_count = 0,
     il_spurious_count = 0\<rparr>"

record dma_region_object =
  dma_id :: object_id
  dma_name :: string
  dma_base :: u64
  dma_length :: u64
  dma_mapped_by :: process_id
  dma_map_count :: u64
  dma_release_count :: u64

definition dma_region_object_new :: "object_id \<Rightarrow> string \<Rightarrow> u64 \<Rightarrow> u64 \<Rightarrow> dma_region_object" where
  "dma_region_object_new i n base len =
    \<lparr>dma_id = i, dma_name = n, dma_base = base, dma_length = len, dma_mapped_by = process_id_empty,
     dma_map_count = 0, dma_release_count = 0\<rparr>"

record pci_device_object =
  pci_id :: object_id
  pci_name :: string
  pci_kind :: string

record virtio_device_object =
  vio_id :: object_id
  vio_name :: string
  vio_transport :: string
  vio_owner :: process_id
  vio_queue_size :: u16
  vio_avail_idx :: u16
  vio_used_idx :: u16
  vio_submissions :: u64
  vio_completions :: u64
  vio_timeouts :: u64
  vio_reset_count :: u64
  vio_last_error :: string

definition virtio_device_object_new :: "object_id \<Rightarrow> string \<Rightarrow> string \<Rightarrow> virtio_device_object" where
  "virtio_device_object_new i n transport =
    \<lparr>vio_id = i, vio_name = n, vio_transport = transport, vio_owner = process_id_empty,
     vio_queue_size = 0, vio_avail_idx = 0, vio_used_idx = 0, vio_submissions = 0,
     vio_completions = 0, vio_timeouts = 0, vio_reset_count = 0, vio_last_error = ''none''\<rparr>"

section \<open>Namespace, root and mount objects\<close>

definition MAX_NAMESPACE_ENTRIES :: nat where "MAX_NAMESPACE_ENTRIES = 4"

record namespace_entry =
  ne_path :: string
  ne_object :: object_id
  ne_rights :: u64

record namespace_object =
  ns_id :: object_id
  ns_name :: string
  ns_entries :: "namespace_entry option list"
  ns_entry_count :: nat

definition namespace_resolve_entry :: "namespace_object \<Rightarrow> u8 list \<Rightarrow> namespace_entry option" where
  "namespace_resolve_entry ns path =
    first_some (\<lambda>e. case e of Some entry \<Rightarrow> if as_bytes (ne_path entry) = path then Some entry else None
                     | None \<Rightarrow> None)
      (take (ns_entry_count ns) (ns_entries ns))"

datatype vfs_mount_source_kind =
    MountRoot | MountStore | MountState | MountDevice | MountProc | MountVertexFs
  | MountServiceFs | MountStateFs | MountVolatile | MountUnknown

record vfs_mount_source =
  ms_kind :: vfs_mount_source_kind
  ms_id :: u64

definition mount_source_kind :: "string \<Rightarrow> vfs_mount_source_kind" where
  "mount_source_kind source =
    (if source = ''rootfs'' then MountRoot
     else if source = ''storefs'' then MountStore
     else if source = ''devfs'' then MountDevice
     else if source = ''procfs'' then MountProc
     else if source = ''vertexfs'' then MountVertexFs
     else if source = ''servicefs'' then MountServiceFs
     else if source = ''statefs'' then MountStateFs
     else if source = ''volatilefs'' \<or> source = ''state:volatile'' then MountVolatile
     else if take 6 source = ''state:'' then MountState
     else MountUnknown)"

definition vfs_mount_source_from_label :: "string \<Rightarrow> vfs_node_id \<Rightarrow> vfs_mount_source" where
  "vfs_mount_source_from_label source root_node = \<lparr>ms_kind = mount_source_kind source, ms_id = root_node\<rparr>"

fun vfs_mount_source_kind_label :: "vfs_mount_source_kind \<Rightarrow> string" where
  "vfs_mount_source_kind_label MountRoot = ''root''"
| "vfs_mount_source_kind_label MountStore = ''store''"
| "vfs_mount_source_kind_label MountState = ''state''"
| "vfs_mount_source_kind_label MountDevice = ''device''"
| "vfs_mount_source_kind_label MountProc = ''proc''"
| "vfs_mount_source_kind_label MountVertexFs = ''vertexfs''"
| "vfs_mount_source_kind_label MountServiceFs = ''servicefs''"
| "vfs_mount_source_kind_label MountStateFs = ''statefs''"
| "vfs_mount_source_kind_label MountVolatile = ''volatile''"
| "vfs_mount_source_kind_label MountUnknown = ''unknown''"

record vfs_root_object =
  vr_id :: object_id
  vr_name :: string
  vr_root_path :: vfs_path
  vr_derived :: bool

record vfs_mount_object =
  vm_id :: object_id
  vm_name :: string
  vm_root_node :: vfs_node_id
  vm_root_path :: vfs_path
  vm_source :: string
  vm_source_info :: vfs_mount_source
  vm_flags :: u64
  vm_dynamic :: bool
  vm_owner :: process_id

definition vfs_mount_object_new :: "object_id \<Rightarrow> string \<Rightarrow> vfs_node_id \<Rightarrow> vfs_path \<Rightarrow> string \<Rightarrow> u64
    \<Rightarrow> bool \<Rightarrow> process_id \<Rightarrow> vfs_mount_object" where
  "vfs_mount_object_new i n node path source flags dynamic own =
    \<lparr>vm_id = i, vm_name = n, vm_root_node = node, vm_root_path = path, vm_source = source,
     vm_source_info = vfs_mount_source_from_label source node, vm_flags = flags,
     vm_dynamic = dynamic, vm_owner = own\<rparr>"

section \<open>The object enum\<close>

datatype kernel_object =
    IpcEndpoint ipc_endpoint
  | BootModule boot_module_object
  | StoreObject store_object
  | StateVolume state_volume_object
  | Timer timer_object
  | NetworkPort network_port_object
  | IoPortRange io_port_range_object
  | MmioRegion mmio_region_object
  | Framebuffer framebuffer_object
  | InterruptLine interrupt_line_object
  | DmaRegion dma_region_object
  | PciDevice pci_device_object
  | VirtioDevice virtio_device_object
  | Namespace namespace_object
  | VfsRoot vfs_root_object
  | VfsMount vfs_mount_object
  | ProcessControl process_control_object
  | Secret secret_object

fun kernel_object_id :: "kernel_object \<Rightarrow> object_id" where
  "kernel_object_id (IpcEndpoint x) = ep_id x"
| "kernel_object_id (BootModule x) = bm_id x"
| "kernel_object_id (StoreObject x) = so_id x"
| "kernel_object_id (StateVolume x) = sv_id x"
| "kernel_object_id (Timer x) = tm_id x"
| "kernel_object_id (NetworkPort x) = np_id x"
| "kernel_object_id (IoPortRange x) = io_id x"
| "kernel_object_id (MmioRegion x) = mmio_id x"
| "kernel_object_id (Framebuffer x) = fb_id x"
| "kernel_object_id (InterruptLine x) = il_id x"
| "kernel_object_id (DmaRegion x) = dma_id x"
| "kernel_object_id (PciDevice x) = pci_id x"
| "kernel_object_id (VirtioDevice x) = vio_id x"
| "kernel_object_id (Namespace x) = ns_id x"
| "kernel_object_id (VfsRoot x) = vr_id x"
| "kernel_object_id (VfsMount x) = vm_id x"
| "kernel_object_id (ProcessControl x) = pc_id x"
| "kernel_object_id (Secret x) = sec_id x"

end
