(* ===== verification/Id_Map.thy ===== *)
theory Id_Map
  imports Krust_Prelude
begin

text \<open>
  The interface of a table that names its entries by ever-increasing 64-bit
  ids: an insertion stores the entry under the next id, and no id below the
  counter is given out again.  The object table interprets it for each of its
  ways of adding an object.
\<close>

locale id_map =
  fixes lookup :: "'s \<Rightarrow> u64 \<Rightarrow> 'o option"
    and invar :: "'s \<Rightarrow> bool"
    and next_id :: "'s \<Rightarrow> u64"
    and insert_new :: "'s \<Rightarrow> (u64 \<Rightarrow> 'o) \<Rightarrow> ('s \<times> u64) option"
    and good :: "(u64 \<Rightarrow> 'o) \<Rightarrow> bool"
  assumes lookup_below: "invar s \<Longrightarrow> lookup s i = Some x \<Longrightarrow> i < next_id s"
    and insert_new_Some: "invar s \<Longrightarrow> good mk \<Longrightarrow> next_id s \<noteq> u64_max \<Longrightarrow> insert_new s mk = Some (s', i) \<Longrightarrow>
      invar s' \<and> i = next_id s \<and> next_id s' = next_id s + 1 \<and> lookup s' = (lookup s)(i \<mapsto> mk i)"
begin

lemma insert_fresh:
  assumes "invar s" "good mk" "next_id s \<noteq> u64_max" "insert_new s mk = Some (s', i)"
  shows "lookup s i = None"
proof (rule ccontr)
  assume "lookup s i \<noteq> None"
  then have "i < next_id s"
    using lookup_below [OF assms(1)] by auto
  with insert_new_Some [OF assms] show False
    by simp
qed

lemma insert_lookup:
  assumes "invar s" "good mk" "next_id s \<noteq> u64_max" "insert_new s mk = Some (s', i)"
  shows "lookup s' i = Some (mk i)" and "j \<noteq> i \<Longrightarrow> lookup s' j = lookup s j"
  using insert_new_Some [OF assms] by simp_all

lemma insert_keeps:
  assumes "invar s" "good mk" "next_id s \<noteq> u64_max" "insert_new s mk = Some (s', i)"
    and "lookup s j = Some x"
  shows "lookup s' j = Some x"
  using insert_fresh [OF assms(1-4)] insert_lookup(2) [OF assms(1-4)] assms(5) by (cases "j = i") auto

text \<open>Inserting a sequence of entries; the ids are returned in order.\<close>

fun insert_all :: "'s \<Rightarrow> (u64 \<Rightarrow> 'o) list \<Rightarrow> ('s \<times> u64 list) option" where
  "insert_all s [] = Some (s, [])"
| "insert_all s (mk # mks) =
    (case insert_new s mk of
      None \<Rightarrow> None
    | Some (s', i) \<Rightarrow> (case insert_all s' mks of None \<Rightarrow> None | Some (sf, is) \<Rightarrow> Some (sf, i # is)))"

lemma insert_all_distinct:
  assumes "invar s" "list_all good mks" "unat (next_id s) + length mks < 2 ^ 64"
    and "insert_all s mks = Some (sf, is)"
  shows "invar sf \<and> distinct is \<and> (\<forall>i \<in> set is. next_id s \<le> i)
    \<and> (\<forall>j x. lookup s j = Some x \<longrightarrow> lookup sf j = Some x)"
  using assms
proof (induction mks arbitrary: s "is")
  case (Cons mk mks)
  then obtain s' i js where step: "insert_new s mk = Some (s', i)"
    and rest: "insert_all s' mks = Some (sf, js)" "is = i # js"
    by (auto split: option.splits)
  have good: "good mk" "list_all good mks"
    using Cons.prems(2) by simp_all
  have max: "next_id s \<noteq> u64_max"
    using Cons.prems(3) by (auto simp: u64_max_def unat_all_ones)
  note new = insert_new_Some [OF Cons.prems(1) good(1) max step]
  have "unat (next_id s') = Suc (unat (next_id s))"
    using new max by (simp add: unat_increment u64_max_def)
  then have IH: "invar sf \<and> distinct js \<and> (\<forall>i \<in> set js. next_id s' \<le> i)
      \<and> (\<forall>j x. lookup s' j = Some x \<longrightarrow> lookup sf j = Some x)"
    using Cons.IH [of s' js] Cons.prems(3) new good(2) rest(1) by simp
  have lt: "next_id s < next_id s'"
    using new max less_increment [of "next_id s" "next_id s"] by (simp add: u64_max_def)
  show ?case
    using IH lt new rest insert_keeps [OF Cons.prems(1) good(1) max step] by fastforce
qed simp

end

end
