(* ===== verification/Object_Table.thy ===== *)
theory Object_Table
  imports Kernel_Objects Id_Map
begin

text \<open>
  The kernel object table of \<^verbatim>\<open>kernel/object_table.rs\<close>.  The array
  \<^verbatim>\<open>objects\<close> and its \<^verbatim>\<open>count\<close> are the list of the
  first \<^verbatim>\<open>count\<close> slots: no operation reads a slot beyond them.  A
  \<^verbatim>\<open>&mut\<close> reference returned by a \<^verbatim>\<open>get_..._mut\<close>
  function is the index of the slot it borrows.  The lemmas show that the
  table implements a finite map from ids to objects, with fresh ids, and that
  every typed getter is a typed view of that map.
\<close>

definition MAX_OBJECTS :: nat where "MAX_OBJECTS = 128"
definition BOOT_ENDPOINT_ID :: u64 where "BOOT_ENDPOINT_ID = 1"

record object_table =
  ot_objects :: "kernel_object option list"
  ot_next_id :: u64

definition ot_new :: object_table where
  "ot_new = \<lparr>ot_objects = [], ot_next_id = BOOT_ENDPOINT_ID\<rparr>"

definition ot_reset :: "object_table \<Rightarrow> object_table" where
  "ot_reset t = t\<lparr>ot_objects := [], ot_next_id := BOOT_ENDPOINT_ID\<rparr>"

section \<open>Insertion\<close>

definition insert_object :: "object_table \<Rightarrow> kernel_object \<Rightarrow> object_table \<times> (init_error, unit) result" where
  "insert_object t obj =
    (case first_index (\<lambda>x. x = None) (ot_objects t) of
      Some i \<Rightarrow> (t\<lparr>ot_objects := (ot_objects t)[i := Some obj]\<rparr>, Inr ())
    | None \<Rightarrow>
        if length (ot_objects t) = MAX_OBJECTS then (t, Inl ObjectTableFull)
        else (t\<lparr>ot_objects := ot_objects t @ [Some obj]\<rparr>, Inr ()))"

text \<open>The body shared by the \<^verbatim>\<open>add_...\<close> functions that append at \<^verbatim>\<open>count\<close>.\<close>

definition append_object :: "'e \<Rightarrow> object_table \<Rightarrow> (object_id \<Rightarrow> kernel_object)
    \<Rightarrow> object_table \<times> ('e, object_id) result" where
  "append_object full t mk =
    (if length (ot_objects t) = MAX_OBJECTS then (t, Inl full)
     else (t\<lparr>ot_next_id := ot_next_id t + 1, ot_objects := ot_objects t @ [Some (mk (ot_next_id t))]\<rparr>,
           Inr (ot_next_id t)))"

definition add_endpoint_owned :: "object_table \<Rightarrow> string \<Rightarrow> process_id
    \<Rightarrow> object_table \<times> (init_error, object_id) result" where
  "add_endpoint_owned t name own =
    (let i = ot_next_id t in
      case insert_object t (IpcEndpoint (ipc_endpoint_new i name own)) of
        (t', Inl e) \<Rightarrow> (t', Inl e)
      | (t', Inr _) \<Rightarrow> (t'\<lparr>ot_next_id := ot_next_id t' + 1\<rparr>, Inr i))"

definition add_endpoint :: "object_table \<Rightarrow> string \<Rightarrow> object_table \<times> (init_error, object_id) result" where
  "add_endpoint t name = add_endpoint_owned t name process_id_empty"

definition add_boot_module :: "object_table \<Rightarrow> string \<Rightarrow> u64 \<Rightarrow> u64
    \<Rightarrow> object_table \<times> (init_error, object_id) result" where
  "add_boot_module t name base len = append_object ObjectTableFull t (\<lambda>i. BootModule \<lparr>bm_id = i, bm_name = name, bm_base = base, bm_length = len\<rparr>)"

definition add_store_object :: "object_table \<Rightarrow> string \<Rightarrow> u64 \<Rightarrow> u64 \<Rightarrow> string
    \<Rightarrow> object_table \<times> (init_error, object_id) result" where
  "add_store_object t name base len hash = append_object ObjectTableFull t (\<lambda>i. StoreObject \<lparr>so_id = i, so_name = name, so_base = base, so_length = len, so_hash = hash\<rparr>)"

definition add_state_volume :: "object_table \<Rightarrow> boot_state_volume_config
    \<Rightarrow> object_table \<times> (init_error, object_id) result" where
  "add_state_volume t state = append_object ObjectTableFull t (\<lambda>i. StateVolume (state_volume_object_new i state))"

definition add_timer :: "object_table \<Rightarrow> string
    \<Rightarrow> object_table \<times> (init_error, object_id) result" where
  "add_timer t name = append_object ObjectTableFull t (\<lambda>i. Timer \<lparr>tm_id = i, tm_name = name\<rparr>)"

definition add_network_port :: "object_table \<Rightarrow> string
    \<Rightarrow> object_table \<times> (init_error, object_id) result" where
  "add_network_port t name = append_object ObjectTableFull t (\<lambda>i. NetworkPort (network_port_object_new i name))"

definition add_io_port :: "object_table \<Rightarrow> string \<Rightarrow> u64 \<Rightarrow> u64
    \<Rightarrow> object_table \<times> (init_error, object_id) result" where
  "add_io_port t name base len = append_object ObjectTableFull t (\<lambda>i. IoPortRange \<lparr>io_id = i, io_name = name, io_base = base, io_length = len\<rparr>)"

definition add_mmio_region :: "object_table \<Rightarrow> string \<Rightarrow> u64 \<Rightarrow> u64
    \<Rightarrow> object_table \<times> (init_error, object_id) result" where
  "add_mmio_region t name base len = append_object ObjectTableFull t (\<lambda>i. MmioRegion \<lparr>mmio_id = i, mmio_name = name, mmio_base = base, mmio_length = len\<rparr>)"

definition add_framebuffer :: "object_table \<Rightarrow> string \<Rightarrow> u64 \<Rightarrow> u64 \<Rightarrow> u64 \<Rightarrow> u64 \<Rightarrow> u64 \<Rightarrow> u16
    \<Rightarrow> u8 \<Rightarrow> u8 \<Rightarrow> u8 \<Rightarrow> u8 \<Rightarrow> u8 \<Rightarrow> u8 \<Rightarrow> object_table \<times> (init_error, object_id) result" where
  "add_framebuffer t name base len width height pitch bpp rsize rshift gsize gshift bsize bshift =
    append_object ObjectTableFull t (\<lambda>i. Framebuffer
      \<lparr>fb_id = i, fb_name = name, fb_physical_base = base, fb_length = len, fb_width = width,
       fb_height = height, fb_pitch = pitch, fb_bpp = bpp, fb_red_mask_size = rsize,
       fb_red_mask_shift = rshift, fb_green_mask_size = gsize, fb_green_mask_shift = gshift,
       fb_blue_mask_size = bsize, fb_blue_mask_shift = bshift\<rparr>)"

definition add_interrupt_line :: "object_table \<Rightarrow> string \<Rightarrow> u64
    \<Rightarrow> object_table \<times> (init_error, object_id) result" where
  "add_interrupt_line t name line = append_object ObjectTableFull t (\<lambda>i. InterruptLine (interrupt_line_object_new i name line))"

definition add_dma_region :: "object_table \<Rightarrow> string \<Rightarrow> u64 \<Rightarrow> u64
    \<Rightarrow> object_table \<times> (init_error, object_id) result" where
  "add_dma_region t name base len = append_object ObjectTableFull t (\<lambda>i. DmaRegion (dma_region_object_new i name base len))"

definition add_pci_device :: "object_table \<Rightarrow> string \<Rightarrow> string
    \<Rightarrow> object_table \<times> (init_error, object_id) result" where
  "add_pci_device t name kind = append_object ObjectTableFull t (\<lambda>i. PciDevice \<lparr>pci_id = i, pci_name = name, pci_kind = kind\<rparr>)"

definition add_virtio_device :: "object_table \<Rightarrow> string \<Rightarrow> string
    \<Rightarrow> object_table \<times> (init_error, object_id) result" where
  "add_virtio_device t name transport = append_object ObjectTableFull t (\<lambda>i. VirtioDevice (virtio_device_object_new i name transport))"

definition add_namespace :: "object_table \<Rightarrow> string \<Rightarrow> namespace_entry option list \<Rightarrow> nat
    \<Rightarrow> object_table \<times> (init_error, object_id) result" where
  "add_namespace t name entries n = append_object ObjectTableFull t (\<lambda>i. Namespace \<lparr>ns_id = i, ns_name = name, ns_entries = entries, ns_entry_count = n\<rparr>)"

definition add_vfs_root :: "object_table \<Rightarrow> string \<Rightarrow> string
    \<Rightarrow> object_table \<times> (init_error, object_id) result" where
  "add_vfs_root t name root_path =
    (if length (ot_objects t) = MAX_OBJECTS then (t, Inl ObjectTableFull)
     else case vfs_path_from_boot_root_path root_path of
       Inl e \<Rightarrow> (t, Inl e)
     | Inr path \<Rightarrow> append_object ObjectTableFull t (\<lambda>i. VfsRoot
         \<lparr>vr_id = i, vr_name = name, vr_root_path = path, vr_derived = False\<rparr>))"

definition add_derived_vfs_root :: "object_table \<Rightarrow> vfs_path
    \<Rightarrow> object_table \<times> (ipc_error, object_id) result" where
  "add_derived_vfs_root t path = append_object BadCapability t (\<lambda>i. VfsRoot
      \<lparr>vr_id = i, vr_name = ''vfs-root:derived'', vr_root_path = path, vr_derived = True\<rparr>)"

definition add_vfs_mount :: "object_table \<Rightarrow> string \<Rightarrow> vfs_node_id \<Rightarrow> vfs_path \<Rightarrow> string \<Rightarrow> u64 \<Rightarrow> bool
    \<Rightarrow> process_id \<Rightarrow> object_table \<times> (init_error, object_id) result" where
  "add_vfs_mount t name node path source flags dynamic own =
    (if length (ot_objects t) = MAX_OBJECTS then (t, Inl ObjectTableFull)
     else let i = ot_next_id t; t1 = t\<lparr>ot_next_id := i + 1\<rparr> in
       case insert_object t1 (VfsMount (vfs_mount_object_new i name node path source flags dynamic own)) of
         (t2, Inl e) \<Rightarrow> (t2, Inl e)
       | (t2, Inr _) \<Rightarrow> (t2, Inr i))"

definition add_process_control :: "object_table \<Rightarrow> string
    \<Rightarrow> object_table \<times> (init_error, object_id) result" where
  "add_process_control t name = append_object ObjectTableFull t (\<lambda>i. ProcessControl \<lparr>pc_id = i, pc_name = name\<rparr>)"

definition add_secret :: "object_table \<Rightarrow> string \<Rightarrow> u8 list
    \<Rightarrow> object_table \<times> (init_error, object_id) result" where
  "add_secret t name val = append_object ObjectTableFull t (\<lambda>i. Secret \<lparr>sec_id = i, sec_name = name, sec_value = val\<rparr>)"

section \<open>Removal and counting\<close>

definition is_endpoint :: "kernel_object option \<Rightarrow> bool" where
  "is_endpoint x = (case x of Some (IpcEndpoint e) \<Rightarrow> True | _ \<Rightarrow> False)"

definition endpoint_count :: "object_table \<Rightarrow> nat" where
  "endpoint_count t = length (filter is_endpoint (ot_objects t))"

definition live_count :: "object_table \<Rightarrow> nat" where
  "live_count t = length (filter (\<lambda>x. x \<noteq> None) (ot_objects t))"

text \<open>\<^verbatim>\<open>while count > 0 && objects[count - 1].is_none() { count -= 1 }\<close>\<close>

definition trim_empty_tail :: "object_table \<Rightarrow> object_table" where
  "trim_empty_tail t = t\<lparr>ot_objects := rev (dropWhile (\<lambda>x. x = None) (rev (ot_objects t)))\<rparr>"

definition endpoint_owned_by :: "process_id \<Rightarrow> kernel_object option \<Rightarrow> bool" where
  "endpoint_owned_by own x = (case x of Some (IpcEndpoint e) \<Rightarrow> ep_owner e = own | _ \<Rightarrow> False)"

definition remove_owned_endpoints :: "object_table \<Rightarrow> process_id \<Rightarrow> object_table \<times> nat" where
  "remove_owned_endpoints t own =
    (trim_empty_tail (t\<lparr>ot_objects := map (\<lambda>x. if endpoint_owned_by own x then None else x) (ot_objects t)\<rparr>),
     length (filter (endpoint_owned_by own) (ot_objects t)))"

definition clear_slot :: "object_table \<Rightarrow> nat \<Rightarrow> object_table" where
  "clear_slot t i = trim_empty_tail (t\<lparr>ot_objects := (ot_objects t)[i := None]\<rparr>)"

definition remove_owned_endpoint :: "object_table \<Rightarrow> object_id \<Rightarrow> process_id \<Rightarrow> object_table \<times> bool" where
  "remove_owned_endpoint t i own =
    (case first_index (\<lambda>x. case x of Some (IpcEndpoint e) \<Rightarrow> ep_id e = i \<and> ep_owner e = own | _ \<Rightarrow> False)
        (ot_objects t) of
      Some j \<Rightarrow> (clear_slot t j, True)
    | None \<Rightarrow> (t, False))"

definition remove_derived_vfs_root :: "object_table \<Rightarrow> object_id \<Rightarrow> object_table \<times> bool" where
  "remove_derived_vfs_root t i =
    (case first_index (\<lambda>x. case x of Some (VfsRoot r) \<Rightarrow> vr_id r = i \<and> vr_derived r | _ \<Rightarrow> False)
        (ot_objects t) of
      Some j \<Rightarrow> (clear_slot t j, True)
    | None \<Rightarrow> (t, False))"

definition remove_mount_where :: "(vfs_mount_object \<Rightarrow> bool) \<Rightarrow> object_table \<Rightarrow> object_table \<times> object_id option" where
  "remove_mount_where p t =
    (case first_index (\<lambda>x. case x of Some (VfsMount v) \<Rightarrow> p v \<and> vm_dynamic v | _ \<Rightarrow> False) (ot_objects t) of
      Some j \<Rightarrow> (clear_slot t j, map_option kernel_object_id (ot_objects t ! j))
    | None \<Rightarrow> (t, None))"

definition remove_dynamic_vfs_mount :: "object_table \<Rightarrow> vfs_node_id \<Rightarrow> object_table \<times> object_id option" where
  "remove_dynamic_vfs_mount t node = remove_mount_where (\<lambda>v. vm_root_node v = node) t"

definition remove_dynamic_vfs_mount_by_path :: "object_table \<Rightarrow> u8 list \<Rightarrow> object_table \<times> object_id option" where
  "remove_dynamic_vfs_mount_by_path t path =
    remove_mount_where (\<lambda>v. vfs_path_as_bytes (vm_root_path v) = path) t"

section \<open>Typed lookup\<close>

definition get_endpoint :: "object_table \<Rightarrow> object_id \<Rightarrow> ipc_endpoint option" where
  "get_endpoint t i = first_some (\<lambda>x. case x of Some (IpcEndpoint ob) \<Rightarrow> if ep_id ob = i then Some ob else None
    | _ \<Rightarrow> None) (ot_objects t)"

definition get_boot_module :: "object_table \<Rightarrow> object_id \<Rightarrow> boot_module_object option" where
  "get_boot_module t i = first_some (\<lambda>x. case x of Some (BootModule ob) \<Rightarrow> if bm_id ob = i then Some ob else None
    | _ \<Rightarrow> None) (ot_objects t)"

definition get_store_object :: "object_table \<Rightarrow> object_id \<Rightarrow> store_object option" where
  "get_store_object t i = first_some (\<lambda>x. case x of Some (StoreObject ob) \<Rightarrow> if so_id ob = i then Some ob else None
    | _ \<Rightarrow> None) (ot_objects t)"

definition get_state_volume :: "object_table \<Rightarrow> object_id \<Rightarrow> state_volume_object option" where
  "get_state_volume t i = first_some (\<lambda>x. case x of Some (StateVolume ob) \<Rightarrow> if sv_id ob = i then Some ob else None
    | _ \<Rightarrow> None) (ot_objects t)"

definition get_network_port :: "object_table \<Rightarrow> object_id \<Rightarrow> network_port_object option" where
  "get_network_port t i = first_some (\<lambda>x. case x of Some (NetworkPort ob) \<Rightarrow> if np_id ob = i then Some ob else None
    | _ \<Rightarrow> None) (ot_objects t)"

definition get_timer :: "object_table \<Rightarrow> object_id \<Rightarrow> timer_object option" where
  "get_timer t i = first_some (\<lambda>x. case x of Some (Timer ob) \<Rightarrow> if tm_id ob = i then Some ob else None
    | _ \<Rightarrow> None) (ot_objects t)"

definition get_io_port :: "object_table \<Rightarrow> object_id \<Rightarrow> io_port_range_object option" where
  "get_io_port t i = first_some (\<lambda>x. case x of Some (IoPortRange ob) \<Rightarrow> if io_id ob = i then Some ob else None
    | _ \<Rightarrow> None) (ot_objects t)"

definition get_mmio_region :: "object_table \<Rightarrow> object_id \<Rightarrow> mmio_region_object option" where
  "get_mmio_region t i = first_some (\<lambda>x. case x of Some (MmioRegion ob) \<Rightarrow> if mmio_id ob = i then Some ob else None
    | _ \<Rightarrow> None) (ot_objects t)"

definition get_framebuffer :: "object_table \<Rightarrow> object_id \<Rightarrow> framebuffer_object option" where
  "get_framebuffer t i = first_some (\<lambda>x. case x of Some (Framebuffer ob) \<Rightarrow> if fb_id ob = i then Some ob else None
    | _ \<Rightarrow> None) (ot_objects t)"

definition get_interrupt_line :: "object_table \<Rightarrow> object_id \<Rightarrow> interrupt_line_object option" where
  "get_interrupt_line t i = first_some (\<lambda>x. case x of Some (InterruptLine ob) \<Rightarrow> if il_id ob = i then Some ob else None
    | _ \<Rightarrow> None) (ot_objects t)"

definition get_dma_region :: "object_table \<Rightarrow> object_id \<Rightarrow> dma_region_object option" where
  "get_dma_region t i = first_some (\<lambda>x. case x of Some (DmaRegion ob) \<Rightarrow> if dma_id ob = i then Some ob else None
    | _ \<Rightarrow> None) (ot_objects t)"

definition get_virtio_device :: "object_table \<Rightarrow> object_id \<Rightarrow> virtio_device_object option" where
  "get_virtio_device t i = first_some (\<lambda>x. case x of Some (VirtioDevice ob) \<Rightarrow> if vio_id ob = i then Some ob else None
    | _ \<Rightarrow> None) (ot_objects t)"

definition get_namespace :: "object_table \<Rightarrow> object_id \<Rightarrow> namespace_object option" where
  "get_namespace t i = first_some (\<lambda>x. case x of Some (Namespace ob) \<Rightarrow> if ns_id ob = i then Some ob else None
    | _ \<Rightarrow> None) (ot_objects t)"

definition get_vfs_root :: "object_table \<Rightarrow> object_id \<Rightarrow> vfs_root_object option" where
  "get_vfs_root t i = first_some (\<lambda>x. case x of Some (VfsRoot ob) \<Rightarrow> if vr_id ob = i then Some ob else None
    | _ \<Rightarrow> None) (ot_objects t)"

definition get_process_control :: "object_table \<Rightarrow> object_id \<Rightarrow> process_control_object option" where
  "get_process_control t i = first_some (\<lambda>x. case x of Some (ProcessControl ob) \<Rightarrow> if pc_id ob = i then Some ob else None
    | _ \<Rightarrow> None) (ot_objects t)"

definition get_secret :: "object_table \<Rightarrow> object_id \<Rightarrow> secret_object option" where
  "get_secret t i = first_some (\<lambda>x. case x of Some (Secret ob) \<Rightarrow> if sec_id ob = i then Some ob else None
    | _ \<Rightarrow> None) (ot_objects t)"

definition get_endpoint_mut :: "object_table \<Rightarrow> object_id \<Rightarrow> nat option" where
  "get_endpoint_mut t i = first_index (\<lambda>x. case x of Some (IpcEndpoint ob) \<Rightarrow> ep_id ob = i | _ \<Rightarrow> False) (ot_objects t)"

definition get_network_port_mut :: "object_table \<Rightarrow> object_id \<Rightarrow> nat option" where
  "get_network_port_mut t i = first_index (\<lambda>x. case x of Some (NetworkPort ob) \<Rightarrow> np_id ob = i | _ \<Rightarrow> False) (ot_objects t)"

definition get_interrupt_line_mut :: "object_table \<Rightarrow> object_id \<Rightarrow> nat option" where
  "get_interrupt_line_mut t i = first_index (\<lambda>x. case x of Some (InterruptLine ob) \<Rightarrow> il_id ob = i | _ \<Rightarrow> False) (ot_objects t)"

definition get_dma_region_mut :: "object_table \<Rightarrow> object_id \<Rightarrow> nat option" where
  "get_dma_region_mut t i = first_index (\<lambda>x. case x of Some (DmaRegion ob) \<Rightarrow> dma_id ob = i | _ \<Rightarrow> False) (ot_objects t)"

definition get_virtio_device_mut :: "object_table \<Rightarrow> object_id \<Rightarrow> nat option" where
  "get_virtio_device_mut t i = first_index (\<lambda>x. case x of Some (VirtioDevice ob) \<Rightarrow> vio_id ob = i | _ \<Rightarrow> False) (ot_objects t)"

definition get_interrupt_line_by_number :: "object_table \<Rightarrow> u64 \<Rightarrow> interrupt_line_object option" where
  "get_interrupt_line_by_number t n =
    first_some (\<lambda>x. case x of Some (InterruptLine ob) \<Rightarrow> if il_line ob = n then Some ob else None
      | _ \<Rightarrow> None) (ot_objects t)"

definition set_slot :: "object_table \<Rightarrow> nat \<Rightarrow> kernel_object \<Rightarrow> object_table" where
  "set_slot t i obj = t\<lparr>ot_objects := (ot_objects t)[i := Some obj]\<rparr>"

text \<open>The endpoint behind a borrowed slot, and writing it back.\<close>

definition endpoint_at :: "object_table \<Rightarrow> nat \<Rightarrow> ipc_endpoint" where
  "endpoint_at t i =
    (case ot_objects t ! i of Some (IpcEndpoint e) \<Rightarrow> e | _ \<Rightarrow> ipc_endpoint_new 0 [] process_id_empty)"

definition get_vfs_mount_by_root_node :: "object_table \<Rightarrow> vfs_node_id \<Rightarrow> vfs_mount_object option" where
  "get_vfs_mount_by_root_node t node =
    first_some (\<lambda>x. case x of Some (VfsMount ob) \<Rightarrow> if vm_root_node ob = node then Some ob else None
      | _ \<Rightarrow> None) (ot_objects t)"

fun mount_by_path_loop :: "u8 list \<Rightarrow> kernel_object option list \<Rightarrow> vfs_mount_object option \<Rightarrow> nat
    \<Rightarrow> vfs_mount_object option" where
  "mount_by_path_loop path [] best best_len = best"
| "mount_by_path_loop path (x # xs) best best_len =
    (case x of
      Some (VfsMount m) \<Rightarrow>
        (let root = vfs_path_as_bytes (vm_root_path m) in
          if vfs_authority_path_covers root path \<and> best_len \<le> length root
          then mount_by_path_loop path xs (Some m) (length root)
          else mount_by_path_loop path xs best best_len)
    | _ \<Rightarrow> mount_by_path_loop path xs best best_len)"

definition get_vfs_mount_by_path :: "object_table \<Rightarrow> u8 list \<Rightarrow> vfs_mount_object option" where
  "get_vfs_mount_by_path t path = mount_by_path_loop path (ot_objects t) None 0"

definition get_vfs_mount_by_exact_path :: "object_table \<Rightarrow> u8 list \<Rightarrow> vfs_mount_object option" where
  "get_vfs_mount_by_exact_path t path =
    first_some (\<lambda>x. case x of Some (VfsMount ob) \<Rightarrow> if vfs_path_as_bytes (vm_root_path ob) = path then Some ob
      else None | _ \<Rightarrow> None) (ot_objects t)"

section \<open>The table as a map from ids to objects\<close>

definition ot_lookup :: "object_table \<Rightarrow> object_id \<Rightarrow> kernel_object option" where
  "ot_lookup t i =
    first_some (\<lambda>x. case x of Some ob \<Rightarrow> if kernel_object_id ob = i then Some ob else None | None \<Rightarrow> None)
      (ot_objects t)"

definition unique_ids :: "kernel_object option list \<Rightarrow> bool" where
  "unique_ids xs \<longleftrightarrow> (\<forall>i < length xs. \<forall>j < length xs. \<forall>a b. xs ! i = Some a \<longrightarrow> xs ! j = Some b
    \<longrightarrow> kernel_object_id a = kernel_object_id b \<longrightarrow> i = j)"

definition ot_inv :: "object_table \<Rightarrow> bool" where
  "ot_inv t \<longleftrightarrow> length (ot_objects t) \<le> MAX_OBJECTS \<and> unique_ids (ot_objects t)
    \<and> (\<forall>ob. Some ob \<in> set (ot_objects t) \<longrightarrow> kernel_object_id ob < ot_next_id t)"

lemma unique_idsD:
  assumes "unique_ids xs" "Some a \<in> set xs" "Some b \<in> set xs" "kernel_object_id a = kernel_object_id b"
  shows "a = b"
proof -
  obtain i j where "i < length xs" "xs ! i = Some a" "j < length xs" "xs ! j = Some b"
    using assms(2,3) by (metis in_set_conv_nth)
  with assms(1,4) show ?thesis
    unfolding unique_ids_def by (metis option.inject)
qed

lemma ot_lookup_iff:
  assumes "unique_ids (ot_objects t)"
  shows "ot_lookup t i = Some ob \<longleftrightarrow> Some ob \<in> set (ot_objects t) \<and> kernel_object_id ob = i"
proof
  assume "ot_lookup t i = Some ob"
  then show "Some ob \<in> set (ot_objects t) \<and> kernel_object_id ob = i"
    unfolding ot_lookup_def by (auto dest!: first_some_SomeD split: option.splits if_splits)
next
  assume ob: "Some ob \<in> set (ot_objects t) \<and> kernel_object_id ob = i"
  show "ot_lookup t i = Some ob"
    unfolding ot_lookup_def
  proof (rule first_some_unique)
    show "Some ob \<in> set (ot_objects t)"
      using ob by simp
  next
    fix x y
    assume "x \<in> set (ot_objects t)"
      and "(case x of Some ob \<Rightarrow> if kernel_object_id ob = i then Some ob else None | None \<Rightarrow> None) = Some y"
    then show "y = ob"
      using unique_idsD [OF assms, of y ob] ob by (auto split: option.splits if_splits)
  qed (use ob in simp)
qed

lemma ot_lookup_None_iff:
  "ot_lookup t i = None \<longleftrightarrow> (\<forall>ob. Some ob \<in> set (ot_objects t) \<longrightarrow> kernel_object_id ob \<noteq> i)"
  unfolding ot_lookup_def first_some_None by (auto split: option.splits)

lemma ot_lookup_eqI:
  assumes "unique_ids (ot_objects t)"
    and "\<And>ob. m (kernel_object_id ob) = Some ob \<longleftrightarrow> Some ob \<in> set (ot_objects t)"
    and "\<And>i ob. m i = Some ob \<Longrightarrow> kernel_object_id ob = i"
  shows "ot_lookup t = m"
proof
  fix i
  show "ot_lookup t i = m i"
    using ot_lookup_iff [OF assms(1), of i] assms(2,3) by (cases "m i"; cases "ot_lookup t i") force+
qed

lemma fill_slot_set:
  assumes "i < length xs" "xs ! i = None"
  shows "Some ob \<in> set (xs[i := Some new]) \<longleftrightarrow> ob = new \<or> Some ob \<in> set xs"
  using assms by (auto simp: in_set_conv_nth nth_list_update) (metis option.distinct(1))+

lemma unique_ids_fill:
  assumes "unique_ids xs" "i < length xs" "xs ! i = None"
    and "\<And>ob. Some ob \<in> set xs \<Longrightarrow> kernel_object_id ob \<noteq> kernel_object_id new"
  shows "unique_ids (xs[i := Some new])"
  using assms unfolding unique_ids_def
  by (simp add: nth_list_update) (metis nth_mem)

lemma unique_ids_snoc:
  assumes "unique_ids xs" "\<And>ob. Some ob \<in> set xs \<Longrightarrow> kernel_object_id ob \<noteq> kernel_object_id new"
  shows "unique_ids (xs @ [Some new])"
  using assms unfolding unique_ids_def
  by (simp add: nth_append less_Suc_eq) (metis nth_mem)

definition names_id :: "(object_id \<Rightarrow> kernel_object) \<Rightarrow> bool" where
  "names_id mk \<longleftrightarrow> (\<forall>i. kernel_object_id (mk i) = i)"

text \<open>The body shared by the \<^verbatim>\<open>add_...\<close> functions that fill the first hole.\<close>

definition insert_new_object :: "object_table \<Rightarrow> (object_id \<Rightarrow> kernel_object)
    \<Rightarrow> object_table \<times> (init_error, object_id) result" where
  "insert_new_object t mk =
    (case insert_object t (mk (ot_next_id t)) of
      (t', Inl e) \<Rightarrow> (t', Inl e)
    | (t', Inr _) \<Rightarrow> (t'\<lparr>ot_next_id := ot_next_id t + 1\<rparr>, Inr (ot_next_id t)))"

lemma insert_object_next_id [simp]: "ot_next_id (fst (insert_object t ob)) = ot_next_id t"
  by (auto simp: insert_object_def split: option.split)

lemma add_endpoint_owned_eq:
  "add_endpoint_owned t name own = insert_new_object t (\<lambda>i. IpcEndpoint (ipc_endpoint_new i name own))"
proof -
  obtain t' r where r: "insert_object t (IpcEndpoint (ipc_endpoint_new (ot_next_id t) name own)) = (t', r)"
    by fastforce
  then have "ot_next_id t' = ot_next_id t"
    by (metis fst_conv insert_object_next_id)
  with r show ?thesis
    by (auto simp: add_endpoint_owned_def insert_new_object_def Let_def split: sum.splits)
qed

lemma insert_object_set_next_id:
  "insert_object (t\<lparr>ot_next_id := n\<rparr>) ob =
    ((fst (insert_object t ob))\<lparr>ot_next_id := n\<rparr>, snd (insert_object t ob))"
  by (simp add: insert_object_def split: option.split)

lemma add_vfs_mount_eq:
  "add_vfs_mount t name node path source flags dynamic own =
    (if length (ot_objects t) = MAX_OBJECTS then (t, Inl ObjectTableFull)
     else insert_new_object t (\<lambda>i. VfsMount (vfs_mount_object_new i name node path source flags dynamic own)))"
proof -
  obtain t' r where r: "insert_object t
      (VfsMount (vfs_mount_object_new (ot_next_id t) name node path source flags dynamic own)) = (t', r)"
    by fastforce
  then have "r = Inr ()" if "length (ot_objects t) \<noteq> MAX_OBJECTS"
    using that by (auto simp: insert_object_def split: option.splits)
  with r show ?thesis
    by (auto simp: add_vfs_mount_def insert_new_object_def insert_object_set_next_id Let_def)
qed

lemma ot_inv_extend:
  assumes inv: "ot_inv t" and max: "ot_next_id t \<noteq> u64_max" and mk: "names_id mk"
    and xs: "xs = ot_objects t @ [Some (mk (ot_next_id t))] \<and> length (ot_objects t) \<noteq> MAX_OBJECTS
      \<or> (\<exists>i < length (ot_objects t). ot_objects t ! i = None \<and> xs = (ot_objects t)[i := Some (mk (ot_next_id t))])"
  shows "ot_inv (t\<lparr>ot_objects := xs, ot_next_id := ot_next_id t + 1\<rparr>)"
    and "ot_lookup (t\<lparr>ot_objects := xs, ot_next_id := ot_next_id t + 1\<rparr>)
      = (ot_lookup t)(ot_next_id t \<mapsto> mk (ot_next_id t))"
proof -
  let ?t = "t\<lparr>ot_objects := xs, ot_next_id := ot_next_id t + 1\<rparr>"
  let ?new = "mk (ot_next_id t)"
  have new: "kernel_object_id ?new = ot_next_id t"
    using mk by (simp add: names_id_def)
  have fresh: "kernel_object_id ob \<noteq> kernel_object_id ?new" if "Some ob \<in> set (ot_objects t)" for ob
    using inv that new by (auto simp: ot_inv_def)
  have set: "Some ob \<in> set xs \<longleftrightarrow> ob = ?new \<or> Some ob \<in> set (ot_objects t)" for ob
    using xs by (auto simp: fill_slot_set)
  have unique: "unique_ids xs"
    using xs inv fresh by (auto simp: ot_inv_def intro: unique_ids_fill unique_ids_snoc)
  have len: "length xs \<le> MAX_OBJECTS"
    using xs inv by (auto simp: ot_inv_def)
  have lt: "i < ot_next_id t + 1 \<longleftrightarrow> i \<le> ot_next_id t" for i
    using less_increment max by (simp add: u64_max_def)
  show "ot_inv ?t"
    using len unique set new inv by (auto simp: ot_inv_def lt)
  have old: "unique_ids (ot_objects t)"
    using inv by (simp add: ot_inv_def)
  show "ot_lookup ?t = (ot_lookup t)(ot_next_id t \<mapsto> ?new)"
    using set new fresh old unique
    by (intro ot_lookup_eqI) (auto simp: ot_lookup_iff split: if_splits)
qed

lemma append_object_ok:
  assumes "ot_inv t" "names_id mk" "ot_next_id t \<noteq> u64_max" "append_object e t mk = (t', Inr i)"
  shows "ot_inv t' \<and> i = ot_next_id t \<and> ot_next_id t' = ot_next_id t + 1
    \<and> ot_lookup t' = (ot_lookup t)(i \<mapsto> mk i)"
proof -
  let ?xs = "ot_objects t @ [Some (mk (ot_next_id t))]"
  have t': "t' = t\<lparr>ot_objects := ?xs, ot_next_id := ot_next_id t + 1\<rparr>"
    "length (ot_objects t) \<noteq> MAX_OBJECTS" "i = ot_next_id t"
    using assms(4) by (auto simp: append_object_def split: if_splits)
  with ot_inv_extend [OF assms(1,3,2), of ?xs] show ?thesis
    by simp
qed

lemma insert_new_object_ok:
  assumes "ot_inv t" "names_id mk" "ot_next_id t \<noteq> u64_max" "insert_new_object t mk = (t', Inr i)"
  shows "ot_inv t' \<and> i = ot_next_id t \<and> ot_next_id t' = ot_next_id t + 1
    \<and> ot_lookup t' = (ot_lookup t)(i \<mapsto> mk i)"
proof (cases "first_index (\<lambda>x. x = None) (ot_objects t)")
  case None
  let ?xs = "ot_objects t @ [Some (mk (ot_next_id t))]"
  have "t' = t\<lparr>ot_objects := ?xs, ot_next_id := ot_next_id t + 1\<rparr>"
    "length (ot_objects t) \<noteq> MAX_OBJECTS" "i = ot_next_id t"
    using assms(4) None by (auto simp: insert_new_object_def insert_object_def split: if_splits)
  with ot_inv_extend [OF assms(1,3,2), of ?xs] show ?thesis
    by simp
next
  case (Some j)
  let ?xs = "(ot_objects t)[j := Some (mk (ot_next_id t))]"
  have t': "t' = t\<lparr>ot_objects := ?xs, ot_next_id := ot_next_id t + 1\<rparr>" "i = ot_next_id t"
    using assms(4) Some by (auto simp: insert_new_object_def insert_object_def)
  have "\<exists>i < length (ot_objects t). ot_objects t ! i = None \<and> ?xs = (ot_objects t)[i := Some (mk (ot_next_id t))]"
    using first_index_SomeD(1,2) [OF Some] by blast
  with ot_inv_extend [OF assms(1,3,2), of ?xs] t' show ?thesis
    by simp
qed

definition added :: "object_table \<times> ('e, object_id) result \<Rightarrow> (object_table \<times> object_id) option" where
  "added r = (case r of (t, Inr i) \<Rightarrow> Some (t, i) | (t, Inl e) \<Rightarrow> None)"

lemma ot_lookup_below: "ot_inv t \<Longrightarrow> ot_lookup t i = Some ob \<Longrightarrow> i < ot_next_id t"
  by (auto simp: ot_inv_def ot_lookup_iff)

interpretation appended: id_map ot_lookup ot_inv ot_next_id "\<lambda>t mk. added (append_object e t mk)" names_id
  for e :: 'e
  by unfold_locales
    (auto simp: added_def ot_lookup_below split: prod.splits sum.splits dest: append_object_ok)

interpretation inserted: id_map ot_lookup ot_inv ot_next_id "\<lambda>t mk. added (insert_new_object t mk)" names_id
  by unfold_locales
    (auto simp: added_def ot_lookup_below split: prod.splits sum.splits dest: insert_new_object_ok)

section \<open>Removal restricts the map\<close>

abbreviation trimmed :: "kernel_object option list \<Rightarrow> kernel_object option list" where
  "trimmed xs \<equiv> rev (dropWhile (\<lambda>x. x = None) (rev xs))"

lemma trimmed_take: "\<exists>k. trimmed xs = take k xs"
  by (metis append_eq_conv_conj rev_append rev_rev_ident takeWhile_dropWhile_id)

lemma trimmed_set: "Some ob \<in> set (trimmed xs) \<longleftrightarrow> Some ob \<in> set xs"
proof -
  have "Some ob \<in> set (dropWhile (\<lambda>x. x = None) ys) \<longleftrightarrow> Some ob \<in> set ys" for ys
    by (induction ys) auto
  then show ?thesis
    by simp
qed

lemma unique_ids_sub:
  assumes "unique_ids xs" "length ys \<le> length xs"
    and "\<And>i. i < length ys \<Longrightarrow> ys ! i = None \<or> ys ! i = xs ! i"
  shows "unique_ids ys"
  unfolding unique_ids_def
proof (intro allI impI)
  fix i j a b
  assume ij: "i < length ys" "j < length ys" "ys ! i = Some a" "ys ! j = Some b"
    "kernel_object_id a = kernel_object_id b"
  then have "xs ! i = Some a" "xs ! j = Some b"
    using assms(3) by fastforce+
  with ij assms(1,2) show "i = j"
    unfolding unique_ids_def by (meson order_less_le_trans)
qed

definition restrict_objects :: "(kernel_object \<Rightarrow> bool) \<Rightarrow> (object_id \<Rightarrow> kernel_object option) \<Rightarrow> object_id \<Rightarrow> kernel_object option" where
  "restrict_objects keep m i = (case m i of Some ob \<Rightarrow> if keep ob then Some ob else None | None \<Rightarrow> None)"

lemma restrict_objects_Some: "restrict_objects keep m i = Some ob \<longleftrightarrow> m i = Some ob \<and> keep ob"
  by (auto simp: restrict_objects_def split: option.splits if_splits)

lemma trim_restricts:
  assumes inv: "ot_inv t" and len: "length ys = length (ot_objects t)"
    and sub: "\<And>i. i < length ys \<Longrightarrow> ys ! i = None \<or> ys ! i = ot_objects t ! i"
    and keep: "\<And>ob. Some ob \<in> set ys \<longleftrightarrow> Some ob \<in> set (ot_objects t) \<and> keep ob"
  shows "ot_inv (trim_empty_tail (t\<lparr>ot_objects := ys\<rparr>))"
    and "ot_lookup (trim_empty_tail (t\<lparr>ot_objects := ys\<rparr>)) = restrict_objects keep (ot_lookup t)"
proof -
  let ?t = "trim_empty_tail (t\<lparr>ot_objects := ys\<rparr>)"
  obtain k where k: "trimmed ys = take k ys"
    using trimmed_take by blast
  have unique: "unique_ids (trimmed ys)"
    unfolding k
  proof (rule unique_ids_sub)
    show "unique_ids (ot_objects t)"
      using inv by (simp add: ot_inv_def)
    show "length (take k ys) \<le> length (ot_objects t)"
      using len by simp
    show "take k ys ! i = None \<or> take k ys ! i = ot_objects t ! i" if "i < length (take k ys)" for i
      using that sub [of i] by simp
  qed
  have set: "Some ob \<in> set (ot_objects ?t) \<longleftrightarrow> Some ob \<in> set (ot_objects t) \<and> keep ob" for ob
    using trimmed_set [of ob ys] keep by (simp add: trim_empty_tail_def)
  have len': "length (trimmed ys) \<le> length ys"
    unfolding k by simp
  then show "ot_inv ?t"
    using inv unique set len by (simp add: ot_inv_def trim_empty_tail_def)
  have old: "unique_ids (ot_objects t)"
    using inv by (simp add: ot_inv_def)
  have "unique_ids (ot_objects ?t)"
    using unique by (simp add: trim_empty_tail_def)
  then show "ot_lookup ?t = restrict_objects keep (ot_lookup t)"
    by (rule ot_lookup_eqI)
      (simp_all add: set restrict_objects_Some ot_lookup_iff [OF old])
qed

lemma clear_slot_restricts:
  assumes "ot_inv t" "j < length (ot_objects t)" "ot_objects t ! j = Some gone"
  shows "ot_inv (clear_slot t j)"
    and "ot_lookup (clear_slot t j) = (ot_lookup t)(kernel_object_id gone := None)"
proof -
  let ?ys = "(ot_objects t)[j := None]"
  have unique: "unique_ids (ot_objects t)"
    using assms(1) by (simp add: ot_inv_def)
  have gone: "Some gone \<in> set (ot_objects t)"
    using assms(2,3) by (metis nth_mem)
  have keep: "Some ob \<in> set ?ys \<longleftrightarrow> Some ob \<in> set (ot_objects t)
      \<and> kernel_object_id ob \<noteq> kernel_object_id gone" for ob
  proof
    assume "Some ob \<in> set ?ys"
    then obtain k where k: "k < length (ot_objects t)" "k \<noteq> j" "ot_objects t ! k = Some ob"
      by (metis in_set_conv_nth length_list_update nth_list_update_eq nth_list_update_neq option.distinct(1))
    then show "Some ob \<in> set (ot_objects t) \<and> kernel_object_id ob \<noteq> kernel_object_id gone"
      using unique assms(2,3) unfolding unique_ids_def by (metis nth_mem)
  next
    assume ob: "Some ob \<in> set (ot_objects t) \<and> kernel_object_id ob \<noteq> kernel_object_id gone"
    then obtain k where "k < length (ot_objects t)" "ot_objects t ! k = Some ob"
      by (metis in_set_conv_nth)
    then show "Some ob \<in> set ?ys"
      using ob assms(3) by (metis length_list_update nth_list_update_neq nth_mem option.inject)
  qed
  note r = trim_restricts [OF assms(1), of ?ys, OF _ _ keep]
  show "ot_inv (clear_slot t j)"
    unfolding clear_slot_def by (rule r(1)) (auto simp: nth_update)
  have "ot_lookup (clear_slot t j)
      = restrict_objects (\<lambda>ob. kernel_object_id ob \<noteq> kernel_object_id gone) (ot_lookup t)"
    unfolding clear_slot_def by (rule r(2)) (auto simp: nth_update)
  also have "\<dots> = (ot_lookup t)(kernel_object_id gone := None)"
  proof
    fix i
    have "kernel_object_id ob = i" if "ot_lookup t i = Some ob" for ob
      using that by (simp add: ot_lookup_iff [OF unique])
    then show "restrict_objects (\<lambda>ob. kernel_object_id ob \<noteq> kernel_object_id gone) (ot_lookup t) i
        = ((ot_lookup t)(kernel_object_id gone := None)) i"
      by (cases "ot_lookup t i") (auto simp: restrict_objects_def)
  qed
  finally show "ot_lookup (clear_slot t j) = (ot_lookup t)(kernel_object_id gone := None)" .
qed

lemma remove_owned_endpoints_restricts:
  assumes "ot_inv t"
  shows "ot_inv (fst (remove_owned_endpoints t own))"
    and "ot_lookup (fst (remove_owned_endpoints t own))
      = restrict_objects (\<lambda>ob. \<not> endpoint_owned_by own (Some ob)) (ot_lookup t)"
proof -
  let ?ys = "map (\<lambda>x. if endpoint_owned_by own x then None else x) (ot_objects t)"
  have keep: "Some ob \<in> set ?ys \<longleftrightarrow> Some ob \<in> set (ot_objects t) \<and> \<not> endpoint_owned_by own (Some ob)" for ob
    by (auto simp: image_iff split: if_splits)
  note r = trim_restricts [OF assms, of ?ys, OF _ _ keep]
  show "ot_inv (fst (remove_owned_endpoints t own))"
    unfolding remove_owned_endpoints_def fst_conv by (rule r(1)) simp_all
  show "ot_lookup (fst (remove_owned_endpoints t own))
      = restrict_objects (\<lambda>ob. \<not> endpoint_owned_by own (Some ob)) (ot_lookup t)"
    unfolding remove_owned_endpoints_def fst_conv by (rule r(2)) simp_all
qed

section \<open>Typed getters are typed views of the map\<close>

lemma typed_view:
  assumes "unique_ids (ot_objects t)"
    and "\<And>ob y. proj (Some ob) = Some y \<longleftrightarrow> ob = con y \<and> kernel_object_id ob = i" and "proj None = None"
    and "inj con"
  shows "first_some proj (ot_objects t) = Some y \<longleftrightarrow> ot_lookup t i = Some (con y)"
proof
  assume "first_some proj (ot_objects t) = Some y"
  then obtain ob where "Some ob \<in> set (ot_objects t)" "proj (Some ob) = Some y"
    using first_some_SomeD assms(3) by (metis option.distinct(1) option.exhaust)
  then show "ot_lookup t i = Some (con y)"
    using assms(1,2) by (auto simp: ot_lookup_iff)
next
  assume "ot_lookup t i = Some (con y)"
  then have y: "Some (con y) \<in> set (ot_objects t)" "kernel_object_id (con y) = i"
    using assms(1) by (auto simp: ot_lookup_iff)
  show "first_some proj (ot_objects t) = Some y"
  proof (rule first_some_unique [OF y(1)])
    show "proj (Some (con y)) = Some y"
      using assms(2) y(2) by blast
  next
    fix x z
    assume "x \<in> set (ot_objects t)" "proj x = Some z"
    then have "Some (con z) \<in> set (ot_objects t)" "kernel_object_id (con z) = i"
      using assms(2,3) by (metis option.distinct(1) option.exhaust)+
    then have "con z = con y"
      using unique_idsD [OF assms(1)] y by metis
    then show "z = y"
      using assms(4) by (simp add: inj_eq)
  qed
qed

lemma get_endpoint_view:
  assumes "unique_ids (ot_objects t)"
  shows "get_endpoint t i = Some x \<longleftrightarrow> ot_lookup t i = Some (IpcEndpoint x)"
  unfolding get_endpoint_def
  by (rule typed_view [OF assms]) (auto simp: inj_def split: kernel_object.splits)

lemma get_boot_module_view:
  assumes "unique_ids (ot_objects t)"
  shows "get_boot_module t i = Some x \<longleftrightarrow> ot_lookup t i = Some (BootModule x)"
  unfolding get_boot_module_def
  by (rule typed_view [OF assms]) (auto simp: inj_def split: kernel_object.splits)

lemma get_store_object_view:
  assumes "unique_ids (ot_objects t)"
  shows "get_store_object t i = Some x \<longleftrightarrow> ot_lookup t i = Some (StoreObject x)"
  unfolding get_store_object_def
  by (rule typed_view [OF assms]) (auto simp: inj_def split: kernel_object.splits)

lemma get_state_volume_view:
  assumes "unique_ids (ot_objects t)"
  shows "get_state_volume t i = Some x \<longleftrightarrow> ot_lookup t i = Some (StateVolume x)"
  unfolding get_state_volume_def
  by (rule typed_view [OF assms]) (auto simp: inj_def split: kernel_object.splits)

lemma get_network_port_view:
  assumes "unique_ids (ot_objects t)"
  shows "get_network_port t i = Some x \<longleftrightarrow> ot_lookup t i = Some (NetworkPort x)"
  unfolding get_network_port_def
  by (rule typed_view [OF assms]) (auto simp: inj_def split: kernel_object.splits)

lemma get_timer_view:
  assumes "unique_ids (ot_objects t)"
  shows "get_timer t i = Some x \<longleftrightarrow> ot_lookup t i = Some (Timer x)"
  unfolding get_timer_def
  by (rule typed_view [OF assms]) (auto simp: inj_def split: kernel_object.splits)

lemma get_io_port_view:
  assumes "unique_ids (ot_objects t)"
  shows "get_io_port t i = Some x \<longleftrightarrow> ot_lookup t i = Some (IoPortRange x)"
  unfolding get_io_port_def
  by (rule typed_view [OF assms]) (auto simp: inj_def split: kernel_object.splits)

lemma get_mmio_region_view:
  assumes "unique_ids (ot_objects t)"
  shows "get_mmio_region t i = Some x \<longleftrightarrow> ot_lookup t i = Some (MmioRegion x)"
  unfolding get_mmio_region_def
  by (rule typed_view [OF assms]) (auto simp: inj_def split: kernel_object.splits)

lemma get_framebuffer_view:
  assumes "unique_ids (ot_objects t)"
  shows "get_framebuffer t i = Some x \<longleftrightarrow> ot_lookup t i = Some (Framebuffer x)"
  unfolding get_framebuffer_def
  by (rule typed_view [OF assms]) (auto simp: inj_def split: kernel_object.splits)

lemma get_interrupt_line_view:
  assumes "unique_ids (ot_objects t)"
  shows "get_interrupt_line t i = Some x \<longleftrightarrow> ot_lookup t i = Some (InterruptLine x)"
  unfolding get_interrupt_line_def
  by (rule typed_view [OF assms]) (auto simp: inj_def split: kernel_object.splits)

lemma get_dma_region_view:
  assumes "unique_ids (ot_objects t)"
  shows "get_dma_region t i = Some x \<longleftrightarrow> ot_lookup t i = Some (DmaRegion x)"
  unfolding get_dma_region_def
  by (rule typed_view [OF assms]) (auto simp: inj_def split: kernel_object.splits)

lemma get_virtio_device_view:
  assumes "unique_ids (ot_objects t)"
  shows "get_virtio_device t i = Some x \<longleftrightarrow> ot_lookup t i = Some (VirtioDevice x)"
  unfolding get_virtio_device_def
  by (rule typed_view [OF assms]) (auto simp: inj_def split: kernel_object.splits)

lemma get_namespace_view:
  assumes "unique_ids (ot_objects t)"
  shows "get_namespace t i = Some x \<longleftrightarrow> ot_lookup t i = Some (Namespace x)"
  unfolding get_namespace_def
  by (rule typed_view [OF assms]) (auto simp: inj_def split: kernel_object.splits)

lemma get_vfs_root_view:
  assumes "unique_ids (ot_objects t)"
  shows "get_vfs_root t i = Some x \<longleftrightarrow> ot_lookup t i = Some (VfsRoot x)"
  unfolding get_vfs_root_def
  by (rule typed_view [OF assms]) (auto simp: inj_def split: kernel_object.splits)

lemma get_process_control_view:
  assumes "unique_ids (ot_objects t)"
  shows "get_process_control t i = Some x \<longleftrightarrow> ot_lookup t i = Some (ProcessControl x)"
  unfolding get_process_control_def
  by (rule typed_view [OF assms]) (auto simp: inj_def split: kernel_object.splits)

lemma get_secret_view:
  assumes "unique_ids (ot_objects t)"
  shows "get_secret t i = Some x \<longleftrightarrow> ot_lookup t i = Some (Secret x)"
  unfolding get_secret_def
  by (rule typed_view [OF assms]) (auto simp: inj_def split: kernel_object.splits)

section \<open>Reachable tables\<close>

text \<open>
  One step of the table: any operation of the code.  An addition needs an id,
  so the id counter is not exhausted (its increment would trap).
\<close>

inductive ot_step :: "object_table \<Rightarrow> object_table \<Rightarrow> bool" where
  "ot_step t (ot_reset t)"
| "ot_next_id t \<noteq> u64_max \<Longrightarrow> ot_step t (fst (add_boot_module t name base len))"
| "ot_next_id t \<noteq> u64_max \<Longrightarrow> ot_step t (fst (add_store_object t name base len hash))"
| "ot_next_id t \<noteq> u64_max \<Longrightarrow> ot_step t (fst (add_state_volume t state))"
| "ot_next_id t \<noteq> u64_max \<Longrightarrow> ot_step t (fst (add_timer t name))"
| "ot_next_id t \<noteq> u64_max \<Longrightarrow> ot_step t (fst (add_network_port t name))"
| "ot_next_id t \<noteq> u64_max \<Longrightarrow> ot_step t (fst (add_io_port t name base len))"
| "ot_next_id t \<noteq> u64_max \<Longrightarrow> ot_step t (fst (add_mmio_region t name base len))"
| "ot_next_id t \<noteq> u64_max \<Longrightarrow> ot_step t (fst (add_framebuffer t name base len width height pitch bpp rs rh gs gh bs bh))"
| "ot_next_id t \<noteq> u64_max \<Longrightarrow> ot_step t (fst (add_interrupt_line t name line))"
| "ot_next_id t \<noteq> u64_max \<Longrightarrow> ot_step t (fst (add_dma_region t name base len))"
| "ot_next_id t \<noteq> u64_max \<Longrightarrow> ot_step t (fst (add_pci_device t name kind))"
| "ot_next_id t \<noteq> u64_max \<Longrightarrow> ot_step t (fst (add_virtio_device t name transport))"
| "ot_next_id t \<noteq> u64_max \<Longrightarrow> ot_step t (fst (add_namespace t name entries n))"
| "ot_next_id t \<noteq> u64_max \<Longrightarrow> ot_step t (fst (add_vfs_root t name root))"
| "ot_next_id t \<noteq> u64_max \<Longrightarrow> ot_step t (fst (add_derived_vfs_root t path))"
| "ot_next_id t \<noteq> u64_max \<Longrightarrow> ot_step t (fst (add_vfs_mount t name node path source flags dynamic own))"
| "ot_next_id t \<noteq> u64_max \<Longrightarrow> ot_step t (fst (add_process_control t name))"
| "ot_next_id t \<noteq> u64_max \<Longrightarrow> ot_step t (fst (add_secret t name val))"
| "ot_next_id t \<noteq> u64_max \<Longrightarrow> ot_step t (fst (add_endpoint_owned t name own))"
| "ot_step t (fst (remove_owned_endpoints t own))"
| "ot_step t (fst (remove_owned_endpoint t i own))"
| "ot_step t (fst (remove_derived_vfs_root t i))"
| "ot_step t (fst (remove_dynamic_vfs_mount t node))"
| "ot_step t (fst (remove_dynamic_vfs_mount_by_path t path))"
| "\<lbrakk>get_endpoint_mut t i = Some j; ep_id e = i\<rbrakk> \<Longrightarrow> ot_step t (set_slot t j (IpcEndpoint e))"
| "\<lbrakk>get_network_port_mut t i = Some j; np_id p = i\<rbrakk> \<Longrightarrow> ot_step t (set_slot t j (NetworkPort p))"
| "\<lbrakk>get_interrupt_line_mut t i = Some j; il_id l = i\<rbrakk> \<Longrightarrow> ot_step t (set_slot t j (InterruptLine l))"
| "\<lbrakk>get_dma_region_mut t i = Some j; dma_id d = i\<rbrakk> \<Longrightarrow> ot_step t (set_slot t j (DmaRegion d))"
| "\<lbrakk>get_virtio_device_mut t i = Some j; vio_id v = i\<rbrakk> \<Longrightarrow> ot_step t (set_slot t j (VirtioDevice v))"

lemma set_slot_lookup:
  assumes "ot_inv t" "j < length (ot_objects t)" "ot_objects t ! j = Some old"
    and "kernel_object_id new = kernel_object_id old"
  shows "ot_inv (set_slot t j new)" and "ot_lookup (set_slot t j new) = (ot_lookup t)(kernel_object_id new \<mapsto> new)"
proof -
  let ?xs = "ot_objects t"
  have old: "Some old \<in> set ?xs"
    using assms(2,3) by (metis nth_mem)
  have unique: "unique_ids ?xs"
    using assms(1) by (simp add: ot_inv_def)
  have nth: "\<And>k a. k < length ?xs \<Longrightarrow> (?xs[j := Some new]) ! k = Some a \<Longrightarrow>
      \<exists>b. ?xs ! k = Some b \<and> kernel_object_id b = kernel_object_id a"
    using assms(2-4) by (auto simp: nth_list_update split: if_splits)
  have unique': "unique_ids (?xs[j := Some new])"
    using unique nth unfolding unique_ids_def length_list_update by metis
  have set: "Some ob \<in> set (?xs[j := Some new]) \<longleftrightarrow>
      ob = new \<or> Some ob \<in> set ?xs \<and> kernel_object_id ob \<noteq> kernel_object_id new" for ob
  proof
    assume "Some ob \<in> set (?xs[j := Some new])"
    then obtain k where k: "k < length ?xs" "(?xs[j := Some new]) ! k = Some ob"
      by (metis in_set_conv_nth length_list_update)
    show "ob = new \<or> Some ob \<in> set ?xs \<and> kernel_object_id ob \<noteq> kernel_object_id new"
    proof (cases "k = j")
      case True
      with k assms(2) show ?thesis
        by simp
    next
      case False
      with k have "?xs ! k = Some ob"
        by simp
      moreover from this False k(1) have "kernel_object_id ob \<noteq> kernel_object_id old"
        using assms(2,3) unique unfolding unique_ids_def by blast
      ultimately show ?thesis
        using k(1) assms(4) by (metis nth_mem)
    qed
  next
    assume "ob = new \<or> Some ob \<in> set ?xs \<and> kernel_object_id ob \<noteq> kernel_object_id new"
    then show "Some ob \<in> set (?xs[j := Some new])"
      using assms(2-4) by (metis in_set_conv_nth length_list_update nth_list_update_eq
          nth_list_update_neq option.inject set_update_memI)
  qed
  show "ot_inv (set_slot t j new)"
    using assms(1,4) unique' set old by (auto simp: ot_inv_def set_slot_def)
  show "ot_lookup (set_slot t j new) = (ot_lookup t)(kernel_object_id new \<mapsto> new)"
    using unique' by (intro ot_lookup_eqI)
      (auto simp: set_slot_def set ot_lookup_iff [OF unique] split: if_splits)
qed

lemma append_object_inv:
  assumes "ot_inv t" "names_id mk" "ot_next_id t \<noteq> u64_max"
  shows "ot_inv (fst (append_object e t mk))"
proof (cases "append_object e t mk")
  case (Pair t' r)
  then show ?thesis
    using append_object_ok [OF assms] assms(1)
    by (cases r) (auto simp: append_object_def split: if_splits)
qed

lemma insert_new_object_error:
  "insert_new_object t mk = (t', Inl e) \<Longrightarrow> t' = t \<and> e = ObjectTableFull \<and> None \<notin> set (ot_objects t)
    \<and> length (ot_objects t) = MAX_OBJECTS"
  by (auto simp: insert_new_object_def insert_object_def first_index_None split: option.splits if_splits)

lemma insert_new_object_inv:
  assumes "ot_inv t" "names_id mk" "ot_next_id t \<noteq> u64_max"
  shows "ot_inv (fst (insert_new_object t mk))"
proof (cases "insert_new_object t mk")
  case (Pair t' r)
  then show ?thesis
    using insert_new_object_ok [OF assms] insert_new_object_error [of t mk t'] assms(1) by (cases r) auto
qed

lemmas append_defs =
  add_boot_module_def add_store_object_def add_state_volume_def add_timer_def add_network_port_def
  add_io_port_def add_mmio_region_def add_framebuffer_def add_interrupt_line_def add_dma_region_def
  add_pci_device_def add_virtio_device_def add_namespace_def add_derived_vfs_root_def
  add_process_control_def add_secret_def

lemmas new_object_defs =
  state_volume_object_new_def network_port_object_new_def interrupt_line_object_new_def
  dma_region_object_new_def virtio_device_object_new_def vfs_mount_object_new_def ipc_endpoint_new_def

lemma ot_inv_new: "ot_inv ot_new"
  by (simp add: ot_inv_def ot_new_def unique_ids_def)

lemma remove_first_object_inv:
  assumes "ot_inv t" "\<not> p None"
  shows "ot_inv (fst (case first_index p (ot_objects t) of Some j \<Rightarrow> (clear_slot t j, f j) | None \<Rightarrow> (t, d)))"
proof (cases "first_index p (ot_objects t)")
  case (Some j)
  note j = first_index_SomeD(1,2) [OF Some]
  then obtain ob where "ot_objects t ! j = Some ob"
    using assms(2) by (cases "ot_objects t ! j") auto
  then show ?thesis
    using clear_slot_restricts(1) [OF assms(1) j(1)] Some by simp
qed (use assms in simp)

lemma set_found_slot_inv:
  assumes "ot_inv t" "first_index p (ot_objects t) = Some j" "\<not> p None"
    and "\<And>ob. p (Some ob) \<Longrightarrow> kernel_object_id ob = kernel_object_id new"
  shows "ot_inv (set_slot t j new)"
proof -
  note j = first_index_SomeD(1,2) [OF assms(2)]
  then obtain ob where "ot_objects t ! j = Some ob"
    using assms(3) by (cases "ot_objects t ! j") auto
  then show ?thesis
    using set_slot_lookup(1) [OF assms(1) j(1)] j(2) assms(4) by metis
qed

lemma append_adds_inv:
  assumes "ot_inv t" "ot_next_id t \<noteq> u64_max"
  shows "ot_inv (fst (add_boot_module t name base len))"
    "ot_inv (fst (add_store_object t name base len hash))"
    "ot_inv (fst (add_state_volume t state))"
    "ot_inv (fst (add_timer t name))"
    "ot_inv (fst (add_network_port t name))"
    "ot_inv (fst (add_io_port t name base len))"
    "ot_inv (fst (add_mmio_region t name base len))"
    "ot_inv (fst (add_framebuffer t name base len width height pitch bpp rs rh gs gh bs bh))"
    "ot_inv (fst (add_interrupt_line t name line))"
    "ot_inv (fst (add_dma_region t name base len))"
    "ot_inv (fst (add_pci_device t name kind))"
    "ot_inv (fst (add_virtio_device t name transport))"
    "ot_inv (fst (add_namespace t name entries n))"
    "ot_inv (fst (add_derived_vfs_root t path))"
    "ot_inv (fst (add_process_control t name))"
    "ot_inv (fst (add_secret t name val))"
  unfolding append_defs
  by (rule append_object_inv [OF assms(1) _ assms(2)], simp add: names_id_def new_object_defs)+

lemma insert_adds_inv:
  assumes "ot_inv t" "ot_next_id t \<noteq> u64_max"
  shows "ot_inv (fst (add_vfs_root t name root))"
    "ot_inv (fst (add_vfs_mount t name node path source flags dynamic own))"
    "ot_inv (fst (add_endpoint_owned t name own))"
proof -
  show "ot_inv (fst (add_vfs_root t name root))"
    using assms by (auto simp: add_vfs_root_def names_id_def intro!: append_object_inv split: sum.split)
  show "ot_inv (fst (add_vfs_mount t name node path source flags dynamic own))"
    using assms by (simp add: add_vfs_mount_eq insert_new_object_inv names_id_def vfs_mount_object_new_def)
  show "ot_inv (fst (add_endpoint_owned t name own))"
    using assms by (simp add: add_endpoint_owned_eq insert_new_object_inv names_id_def ipc_endpoint_new_def)
qed

lemma removals_inv:
  assumes "ot_inv t"
  shows "ot_inv (fst (remove_owned_endpoint t i own))" "ot_inv (fst (remove_derived_vfs_root t i))"
    "ot_inv (fst (remove_dynamic_vfs_mount t node))" "ot_inv (fst (remove_dynamic_vfs_mount_by_path t path))"
  unfolding remove_owned_endpoint_def remove_derived_vfs_root_def remove_dynamic_vfs_mount_def
    remove_dynamic_vfs_mount_by_path_def remove_mount_where_def
  by (rule remove_first_object_inv [OF assms], simp)+

lemma updates_inv:
  assumes "ot_inv t"
  shows "get_endpoint_mut t i = Some j \<Longrightarrow> ep_id e = i \<Longrightarrow> ot_inv (set_slot t j (IpcEndpoint e))"
    "get_network_port_mut t i = Some j \<Longrightarrow> np_id p = i \<Longrightarrow> ot_inv (set_slot t j (NetworkPort p))"
    "get_interrupt_line_mut t i = Some j \<Longrightarrow> il_id l = i \<Longrightarrow> ot_inv (set_slot t j (InterruptLine l))"
    "get_dma_region_mut t i = Some j \<Longrightarrow> dma_id d = i \<Longrightarrow> ot_inv (set_slot t j (DmaRegion d))"
    "get_virtio_device_mut t i = Some j \<Longrightarrow> vio_id v = i \<Longrightarrow> ot_inv (set_slot t j (VirtioDevice v))"
  unfolding get_endpoint_mut_def get_network_port_mut_def get_interrupt_line_mut_def
    get_dma_region_mut_def get_virtio_device_mut_def
  by (rule set_found_slot_inv [OF assms], assumption, auto split: kernel_object.splits)+

lemma ot_step_inv:
  assumes "ot_step t t'" "ot_inv t"
  shows "ot_inv t'"
  using assms
proof cases
  case 1
  then show ?thesis
    by (simp add: ot_inv_def ot_reset_def unique_ids_def)
qed (use assms(2) in \<open>simp_all add: append_adds_inv insert_adds_inv removals_inv updates_inv
    remove_owned_endpoints_restricts(1)\<close>)

section \<open>Mount resolution\<close>

abbreviation mount_root :: "vfs_mount_object \<Rightarrow> u8 list" where
  "mount_root m \<equiv> vfs_path_as_bytes (vm_root_path m)"

definition covering :: "u8 list \<Rightarrow> kernel_object option list \<Rightarrow> vfs_mount_object set" where
  "covering path xs = {m. Some (VfsMount m) \<in> set xs \<and> vfs_authority_path_covers (mount_root m) path}"

lemma covering_Cons:
  "covering path (x # xs) =
    (case x of Some (VfsMount m) \<Rightarrow> if vfs_authority_path_covers (mount_root m) path then {m} else {} | _ \<Rightarrow> {})
    \<union> covering path xs"
  by (auto simp: covering_def split: option.splits kernel_object.splits)

lemma mount_by_path_loop_spec:
  assumes "best_len = (case best of None \<Rightarrow> 0 | Some b \<Rightarrow> length (mount_root b))"
  shows "case mount_by_path_loop path xs best best_len of
      None \<Rightarrow> best = None \<and> covering path xs = {}
    | Some m \<Rightarrow> (best = Some m \<or> m \<in> covering path xs) \<and> best_len \<le> length (mount_root m)
        \<and> (\<forall>m' \<in> covering path xs. length (mount_root m') \<le> length (mount_root m))"
  using assms
proof (induction xs arbitrary: best best_len)
  case Nil
  then show ?case
    by (auto simp: covering_def split: option.splits)
next
  case (Cons x xs)
  show ?case
  proof (cases "\<exists>m. x = Some (VfsMount m) \<and> vfs_authority_path_covers (mount_root m) path")
    case True
    then obtain m where m: "x = Some (VfsMount m)" "vfs_authority_path_covers (mount_root m) path"
      by blast
    show ?thesis
    proof (cases "best_len \<le> length (mount_root m)")
      case True
      with m Cons.IH [of "length (mount_root m)" "Some m"] show ?thesis
        by (auto simp: covering_Cons split: option.splits)
    next
      case False
      then have "best \<noteq> None"
        using Cons.prems by (cases best) auto
      with False m Cons.IH [OF Cons.prems] show ?thesis
        by (auto simp: covering_Cons split: option.splits)
    qed
  next
    case False
    then have loop: "mount_by_path_loop path (x # xs) best best_len = mount_by_path_loop path xs best best_len"
      and cov: "covering path (x # xs) = covering path xs"
      by (auto simp: covering_Cons split: option.splits kernel_object.splits)
    show ?thesis
      unfolding loop cov by (rule Cons.IH [OF Cons.prems])
  qed
qed

section \<open>Properties\<close>

text \<open>
  C23: In every object table that the operations can produce from the empty one,
  the live objects fit the 128 slots, no two of them share an id, and every id
  handed out so far is below the id counter, so a later object never gets the
  id of an earlier one.
\<close>

theorem object_table_ids_unique:
  assumes "ot_step\<^sup>*\<^sup>* ot_new t"
  shows "length (ot_objects t) \<le> MAX_OBJECTS \<and> unique_ids (ot_objects t)
    \<and> (\<forall>ob. Some ob \<in> set (ot_objects t) \<longrightarrow> kernel_object_id ob < ot_next_id t)"
proof -
  have "ot_inv t"
    using assms by (induction rule: rtranclp_induct) (auto intro: ot_inv_new ot_step_inv)
  then show ?thesis
    by (simp add: ot_inv_def)
qed

theorem object_table_ids_unique_witness:
  "\<exists>t :: object_table. ot_objects t = [Some (Timer \<lparr>tm_id = 1, tm_name = ''t''\<rparr>), Some (ProcessControl \<lparr>pc_id = 2, pc_name = ''p''\<rparr>)]
    \<and> unique_ids (ot_objects t)"
proof -
  let ?t1 = "fst (add_timer ot_new ''t'')"
  let ?t2 = "fst (add_process_control ?t1 ''p'')"
  have objs: "ot_objects ?t2 = [Some (Timer \<lparr>tm_id = 1, tm_name = ''t''\<rparr>),
      Some (ProcessControl \<lparr>pc_id = 2, pc_name = ''p''\<rparr>)]"
    by (simp add: add_timer_def add_process_control_def append_object_def ot_new_def MAX_OBJECTS_def
        BOOT_ENDPOINT_ID_def)
  have "ot_step ot_new ?t1" "ot_step ?t1 ?t2"
    by (rule ot_step.intros; simp add: ot_new_def BOOT_ENDPOINT_ID_def u64_max_def add_timer_def
        append_object_def MAX_OBJECTS_def)+
  then have "ot_step\<^sup>*\<^sup>* ot_new ?t2"
    by simp
  from object_table_ids_unique [OF this] objs show ?thesis
    by blast
qed

text \<open>
  Creating an owned endpoint either succeeds with an id that named nothing
  before, under which the new empty endpoint is then found while every other id
  keeps its object, or fails with \<^verbatim>\<open>ObjectTableFull\<close> exactly when
  all 128 slots are live, leaving the table unchanged.
\<close>

theorem add_endpoint_owned_spec:
  assumes "ot_inv t" and "ot_next_id t \<noteq> u64_max"
  shows "case add_endpoint_owned t name own of
      (t', Inr i) \<Rightarrow> ot_lookup t i = None \<and> ot_inv t'
        \<and> ot_lookup t' = (ot_lookup t)(i \<mapsto> IpcEndpoint (ipc_endpoint_new i name own))
    | (t', Inl e) \<Rightarrow> e = ObjectTableFull \<and> t' = t \<and> live_count t = MAX_OBJECTS"
proof (cases "add_endpoint_owned t name own")
  case (Pair t' r)
  let ?mk = "\<lambda>i. IpcEndpoint (ipc_endpoint_new i name own)"
  have good: "names_id ?mk"
    by (simp add: names_id_def ipc_endpoint_new_def)
  show ?thesis
  proof (cases r)
    case (Inr i)
    then have new: "insert_new_object t ?mk = (t', Inr i)"
      using Pair by (simp add: add_endpoint_owned_eq)
    then have "added (insert_new_object t ?mk) = Some (t', i)"
      by (simp add: added_def)
    from inserted.insert_fresh [OF assms(1) good assms(2) this] insert_new_object_ok [OF assms(1) good assms(2) new]
    show ?thesis
      using Pair Inr by simp
  next
    case (Inl e)
    then have "insert_new_object t ?mk = (t', Inl e)"
      using Pair by (simp add: add_endpoint_owned_eq)
    from insert_new_object_error [OF this] show ?thesis
      using Pair Inl occupied_full_iff [of "ot_objects t"] by (simp add: live_count_def occupied_def)
  qed
qed

theorem add_endpoint_owned_spec_witness:
  "case add_endpoint_owned ot_new ''log'' 3 of
      (t', Inr i) \<Rightarrow> i = 1 \<and> ot_lookup t' 1 = Some (IpcEndpoint (ipc_endpoint_new 1 ''log'' 3))
    | (t', Inl e) \<Rightarrow> False"
  using add_endpoint_owned_spec [OF ot_inv_new, of "''log''" 3]
  by (simp add: ot_new_def BOOT_ENDPOINT_ID_def u64_max_def add_endpoint_owned_def insert_object_def
      MAX_OBJECTS_def Let_def)

text \<open>
  There is no type confusion: each of the sixteen typed getters finds an
  object under an id exactly when the object stored under that id is of its
  kind, and returns that object.
\<close>

theorem typed_getters_exact:
  assumes "ot_inv t"
  shows "(get_endpoint t i = Some e \<longleftrightarrow> ot_lookup t i = Some (IpcEndpoint e))
    \<and> (get_boot_module t i = Some m \<longleftrightarrow> ot_lookup t i = Some (BootModule m))
    \<and> (get_store_object t i = Some s \<longleftrightarrow> ot_lookup t i = Some (StoreObject s))
    \<and> (get_state_volume t i = Some v \<longleftrightarrow> ot_lookup t i = Some (StateVolume v))
    \<and> (get_network_port t i = Some p \<longleftrightarrow> ot_lookup t i = Some (NetworkPort p))
    \<and> (get_timer t i = Some tm \<longleftrightarrow> ot_lookup t i = Some (Timer tm))
    \<and> (get_io_port t i = Some io \<longleftrightarrow> ot_lookup t i = Some (IoPortRange io))
    \<and> (get_mmio_region t i = Some mm \<longleftrightarrow> ot_lookup t i = Some (MmioRegion mm))
    \<and> (get_framebuffer t i = Some fb \<longleftrightarrow> ot_lookup t i = Some (Framebuffer fb))
    \<and> (get_interrupt_line t i = Some il \<longleftrightarrow> ot_lookup t i = Some (InterruptLine il))
    \<and> (get_dma_region t i = Some dm \<longleftrightarrow> ot_lookup t i = Some (DmaRegion dm))
    \<and> (get_virtio_device t i = Some vd \<longleftrightarrow> ot_lookup t i = Some (VirtioDevice vd))
    \<and> (get_namespace t i = Some ns \<longleftrightarrow> ot_lookup t i = Some (Namespace ns))
    \<and> (get_vfs_root t i = Some vr \<longleftrightarrow> ot_lookup t i = Some (VfsRoot vr))
    \<and> (get_process_control t i = Some pc \<longleftrightarrow> ot_lookup t i = Some (ProcessControl pc))
    \<and> (get_secret t i = Some sec \<longleftrightarrow> ot_lookup t i = Some (Secret sec))"
  using assms unfolding ot_inv_def
  by (simp add: get_endpoint_view get_boot_module_view get_store_object_view
    get_state_volume_view get_network_port_view get_timer_view
    get_io_port_view get_mmio_region_view get_framebuffer_view
    get_interrupt_line_view get_dma_region_view get_virtio_device_view
    get_namespace_view get_vfs_root_view get_process_control_view
    get_secret_view)

theorem typed_getters_exact_witness:
  "ot_inv (fst (add_timer ot_new ''t'')) \<and> get_timer (fst (add_timer ot_new ''t'')) 1 = Some \<lparr>tm_id = 1, tm_name = ''t''\<rparr>
    \<and> get_secret (fst (add_timer ot_new ''t'')) 1 = None"
proof -
  let ?t = "fst (add_timer ot_new ''t'')"
  have inv: "ot_inv ?t"
    by (rule append_adds_inv(4) [OF ot_inv_new]) (simp add: ot_new_def BOOT_ENDPOINT_ID_def u64_max_def)
  have "ot_lookup ?t 1 = Some (Timer \<lparr>tm_id = 1, tm_name = ''t''\<rparr>)"
    by (simp add: ot_lookup_def add_timer_def append_object_def ot_new_def BOOT_ENDPOINT_ID_def MAX_OBJECTS_def)
  then have "get_timer ?t 1 = Some \<lparr>tm_id = 1, tm_name = ''t''\<rparr>" "\<And>x. get_secret ?t 1 \<noteq> Some x"
    using typed_getters_exact [OF inv, of 1] by auto
  with inv show ?thesis
    by auto
qed

text \<open>
  Tearing down a process's endpoints removes from the table exactly the
  endpoints it owns: afterwards no id names one of them, every other id names
  what it named before, and the number of endpoints reported is the number
  that disappeared.
\<close>

theorem remove_owned_endpoints_exact:
  assumes "ot_inv t"
  shows "ot_inv (fst (remove_owned_endpoints t own))
    \<and> ot_lookup (fst (remove_owned_endpoints t own)) i
        = (case ot_lookup t i of
            Some (IpcEndpoint e) \<Rightarrow> if ep_owner e = own then None else Some (IpcEndpoint e)
          | r \<Rightarrow> r)
    \<and> endpoint_count (fst (remove_owned_endpoints t own)) + snd (remove_owned_endpoints t own)
        = endpoint_count t"
proof -
  have "length (filter is_endpoint (trimmed xs)) = length (filter is_endpoint xs)" for xs
  proof -
    have "length (filter is_endpoint (dropWhile (\<lambda>x. x = None) ys)) = length (filter is_endpoint ys)" for ys
      by (induction ys) (auto simp: is_endpoint_def)
    from this [of "rev xs"] show ?thesis
      by (simp add: rev_filter [symmetric])
  qed
  moreover have "length (filter is_endpoint (map (\<lambda>x. if endpoint_owned_by own x then None else x) xs))
      + length (filter (endpoint_owned_by own) xs) = length (filter is_endpoint xs)" for xs
    by (induction xs) (auto simp: is_endpoint_def endpoint_owned_by_def split: option.splits kernel_object.splits)
  ultimately have "endpoint_count (fst (remove_owned_endpoints t own)) + snd (remove_owned_endpoints t own)
      = endpoint_count t"
    by (simp add: endpoint_count_def remove_owned_endpoints_def trim_empty_tail_def)
  then show ?thesis
    using remove_owned_endpoints_restricts [OF assms, of own]
    by (auto simp: restrict_objects_def endpoint_owned_by_def split: option.splits kernel_object.splits)
qed

theorem remove_owned_endpoints_exact_witness:
  "ot_lookup (fst (add_endpoint_owned ot_new ''log'' 3)) 1 = Some (IpcEndpoint (ipc_endpoint_new 1 ''log'' 3))
    \<and> ot_lookup (fst (remove_owned_endpoints (fst (add_endpoint_owned ot_new ''log'' 3)) 3)) 1 = None"
proof -
  let ?t = "fst (add_endpoint_owned ot_new ''log'' 3)"
  have inv: "ot_inv ?t"
    by (rule insert_adds_inv(3) [OF ot_inv_new]) (simp add: ot_new_def BOOT_ENDPOINT_ID_def u64_max_def)
  have "ot_lookup ?t 1 = Some (IpcEndpoint (ipc_endpoint_new 1 ''log'' 3))"
    by (simp add: ot_lookup_def add_endpoint_owned_def insert_object_def ot_new_def BOOT_ENDPOINT_ID_def
        MAX_OBJECTS_def ipc_endpoint_new_def)
  with remove_owned_endpoints_exact [OF inv, of 3 1] show ?thesis
    by (simp add: ipc_endpoint_new_def)
qed

text \<open>
  C37: Mount resolution picks the most specific mount: the mount found for a
  path is in the table, its root covers the path, and no covering mount has a
  longer root; no mount is found exactly when none covers the path.
\<close>

theorem mount_by_path_most_specific:
  "case get_vfs_mount_by_path t path of
      None \<Rightarrow> covering path (ot_objects t) = {}
    | Some m \<Rightarrow> m \<in> covering path (ot_objects t)
        \<and> length (mount_root m) = Max ((\<lambda>m'. length (mount_root m')) ` covering path (ot_objects t))"
proof -
  have "covering path (ot_objects t) \<subseteq> (\<lambda>x. case x of Some (VfsMount m) \<Rightarrow> m | _ \<Rightarrow> undefined) ` set (ot_objects t)"
    by (force simp: covering_def image_iff)
  then have "finite (covering path (ot_objects t))"
    by (rule finite_subset) simp
  then show ?thesis
    using mount_by_path_loop_spec [of 0 None path "ot_objects t"]
    by (auto simp: get_vfs_mount_by_path_def split: option.splits intro!: Max_eqI [symmetric])
qed

end
