(* ===== verification/Process_Runtime.thy ===== *)
theory Process_Runtime
  imports Slot_Table Object_Table
begin

text \<open>
  Processes, capability spaces, quotas, file-handle tables and the process
  table (\<^verbatim>\<open>kernel/process.rs\<close>, \<^verbatim>\<open>kernel/process_runtime.rs\<close>,
  the handle types of \<^verbatim>\<open>vfs/handle.rs\<close> and
  \<^verbatim>\<open>vfs/state.rs\<close>).  The process array with its
  \<^verbatim>\<open>count\<close> is the list of its first \<^verbatim>\<open>count\<close> entries,
  which are always occupied: every write stores \<^verbatim>\<open>Some\<close>.  A slot
  argument of type \<^verbatim>\<open>u64\<close> always converts to
  \<^verbatim>\<open>usize\<close> on the 64-bit target.
\<close>

definition MAX_PROCESSES :: nat where "MAX_PROCESSES = 16"
definition MAX_CAPS :: nat where "MAX_CAPS = 32"
definition MAX_FILE_HANDLES :: nat where "MAX_FILE_HANDLES = 16"
definition MAX_OPEN_FILE_DESCRIPTIONS :: nat where
  "MAX_OPEN_FILE_DESCRIPTIONS = MAX_PROCESSES * MAX_FILE_HANDLES"

section \<open>Contexts and saved frames\<close>

record process_context =
  ctx_cr3 :: u64
  ctx_entry :: u64
  ctx_stack_top :: u64

record syscall_frame =
  fr_r15 :: u64
  fr_r14 :: u64
  fr_r13 :: u64
  fr_r12 :: u64
  fr_r11 :: u64
  fr_r10 :: u64
  fr_r9 :: u64
  fr_r8 :: u64
  fr_rsi :: u64
  fr_rdi :: u64
  fr_rbp :: u64
  fr_rdx :: u64
  fr_rcx :: u64
  fr_rbx :: u64
  fr_rax :: u64
  fr_user_rip :: u64
  fr_user_cs :: u64
  fr_user_rflags :: u64
  fr_user_rsp :: u64
  fr_user_ss :: u64

definition syscall_frame_empty :: syscall_frame where
  "syscall_frame_empty =
    \<lparr>fr_r15 = 0, fr_r14 = 0, fr_r13 = 0, fr_r12 = 0, fr_r11 = 0, fr_r10 = 0, fr_r9 = 0, fr_r8 = 0,
     fr_rsi = 0, fr_rdi = 0, fr_rbp = 0, fr_rdx = 0, fr_rcx = 0, fr_rbx = 0, fr_rax = 0,
     fr_user_rip = 0, fr_user_cs = 0, fr_user_rflags = 0, fr_user_rsp = 0, fr_user_ss = 0\<rparr>"

definition USER_DATA_SELECTOR :: u64 where "USER_DATA_SELECTOR = 0x18 OR 3"
definition USER_CODE_SELECTOR :: u64 where "USER_CODE_SELECTOR = 0x20 OR 3"
definition INITIAL_USER_RFLAGS :: u64 where "INITIAL_USER_RFLAGS = 0x202"

definition syscall_frame_from_context :: "process_context \<Rightarrow> syscall_frame" where
  "syscall_frame_from_context c =
    syscall_frame_empty\<lparr>fr_user_rip := ctx_entry c, fr_user_cs := USER_CODE_SELECTOR,
      fr_user_rflags := INITIAL_USER_RFLAGS, fr_user_rsp := ctx_stack_top c,
      fr_user_ss := USER_DATA_SELECTOR\<rparr>"

section \<open>Process states and capabilities\<close>

datatype vfs_state_operation = StateRead | StateStat | StateWrite | StateControl | StateServiceRead

datatype process_state =
    PEmpty
  | Declared
  | Ready
  | Running
  | BlockedOnEndpoint (be_endpoint: object_id) (be_cap_id: u64) (be_destination: u64) (be_max_len: nat)
      (be_timeout: "u64 option")
  | BlockedOnInterrupt (bi_interrupt: object_id) (bi_timeout: "u64 option")
  | BlockedOnVfsRead (bv_node: vfs_node_id) (bv_description: file_description_id) (bv_destination: u64)
      (bv_max_len: nat)
  | BlockedOnVfsState (bs_reply_endpoint: object_id) (bs_node: vfs_node_id)
      (bs_description: file_description_id) (bs_operation: vfs_state_operation) (bs_transaction_id: u64)
      (bs_offset: u64) (bs_destination: u64) (bs_max_len: nat) (bs_write_len: nat) (bs_update_offset: bool)
  | BlockedOnVertexFsSync (by_request_endpoint: object_id) (by_reply_endpoint: object_id) (by_backing: nat)
      (by_inode_id: u32) (by_checksum: u32) (by_write_count: nat) (by_next_write: nat) (by_expected_sector: u64)
  | BlockedOnNetworkPort (bn_port: object_id) (bn_destination: u64) (bn_max_len: nat)
  | Sleeping (sl_wake_tsc: u64)
  | Exited

fun process_state_label :: "process_state \<Rightarrow> string" where
  "process_state_label PEmpty = ''empty''"
| "process_state_label Declared = ''declared''"
| "process_state_label Ready = ''ready''"
| "process_state_label Running = ''running''"
| "process_state_label (BlockedOnEndpoint _ _ _ _ _) = ''blocked''"
| "process_state_label (BlockedOnInterrupt _ _) = ''blocked-irq''"
| "process_state_label (BlockedOnVfsRead _ _ _ _) = ''blocked-vfs''"
| "process_state_label (BlockedOnVfsState _ _ _ _ _ _ _ _ _ _) = ''blocked-vfs-state''"
| "process_state_label (BlockedOnVertexFsSync _ _ _ _ _ _ _ _) = ''blocked-vertexfs-sync''"
| "process_state_label (BlockedOnNetworkPort _ _ _) = ''blocked-net''"
| "process_state_label (Sleeping _) = ''sleeping''"
| "process_state_label Exited = ''exited''"

record capability =
  cap_id :: u64
  cap_object :: object_id
  cap_rights :: u64
  cap_owner_process :: process_id
  cap_parent_cap_id :: u64
  cap_generation_id :: string
  cap_delegated_by :: process_id
  cap_revoked :: bool

type_synonym capability_space = "capability option list"

definition cspace_new :: capability_space where
  "cspace_new = replicate MAX_CAPS None"

definition cspace_grant :: "capability_space \<Rightarrow> u64 \<Rightarrow> capability \<Rightarrow> capability_space \<times> (init_error, unit) result" where
  "cspace_grant cs slot cap =
    (if length cs \<le> unat slot then (cs, Inl CapabilityTableFull)
     else if cs ! unat slot \<noteq> None then (cs, Inl InvalidBootManifest)
     else (cs[unat slot := Some cap], Inr ()))"

definition cspace_lookup :: "capability_space \<Rightarrow> u64 \<Rightarrow> capability option" where
  "cspace_lookup cs slot = (if unat slot < length cs then cs ! unat slot else None)"

definition cspace_clear :: "capability_space \<Rightarrow> u64 \<Rightarrow> capability_space \<times> (ipc_error, capability) result" where
  "cspace_clear cs slot =
    (if length cs \<le> unat slot then (cs, Inl BadCapability)
     else case cs ! unat slot of
       None \<Rightarrow> (cs, Inl BadCapability)
     | Some cap \<Rightarrow> (cs[unat slot := None], Inr cap))"

definition cspace_can_grant :: "capability_space \<Rightarrow> u64 \<Rightarrow> bool" where
  "cspace_can_grant cs slot \<longleftrightarrow> unat slot < length cs \<and> cs ! unat slot = None"

definition cspace_mark_revoked :: "capability_space \<Rightarrow> u64 \<Rightarrow> capability_space" where
  "cspace_mark_revoked cs i =
    map (\<lambda>c. case c of
        Some cap \<Rightarrow> if cap_id cap = i then Some (cap\<lparr>cap_revoked := True\<rparr>) else c
      | None \<Rightarrow> None) cs"

section \<open>Processes\<close>

record process_quota =
  q_max_caps :: u64
  q_max_endpoints :: u64
  q_max_memory_pages :: u64
  q_max_child_processes :: u64
  q_max_ipc_bytes :: u64
  q_used_endpoints :: u64

definition process_quota_initial :: process_quota where
  "process_quota_initial =
    \<lparr>q_max_caps = of_nat MAX_CAPS, q_max_endpoints = 1, q_max_memory_pages = 0,
     q_max_child_processes = of_nat MAX_PROCESSES, q_max_ipc_bytes = of_nat MAX_MESSAGE_BYTES,
     q_used_endpoints = 0\<rparr>"

definition process_quota_service :: process_quota where
  "process_quota_service =
    \<lparr>q_max_caps = of_nat MAX_CAPS, q_max_endpoints = 0, q_max_memory_pages = 0,
     q_max_child_processes = 0, q_max_ipc_bytes = of_nat MAX_MESSAGE_BYTES, q_used_endpoints = 0\<rparr>"

record dma_user_mapping =
  dm_region :: object_id
  dm_virtual_base :: u64
  dm_physical_base :: u64
  dm_length :: u64

record file_handle_slot =
  fh_generation :: u64
  fh_handle :: "file_description_id option"

definition file_handle_slot_empty :: file_handle_slot where
  "file_handle_slot_empty = \<lparr>fh_generation = 0, fh_handle = None\<rparr>"

record process =
  proc_pid :: process_id
  proc_name :: string
  proc_context :: process_context
  proc_image_base :: u64
  proc_image_length :: u64
  proc_context_reaped :: bool
  proc_state :: process_state
  proc_caps :: capability_space
  proc_initial_caps :: capability_space
  proc_saved_frame :: syscall_frame
  proc_has_saved_frame :: bool
  proc_exit_status :: u64
  proc_has_exited :: bool
  proc_start_count :: u64
  proc_quota :: process_quota
  proc_initial_quota :: process_quota
  proc_mount_root :: vfs_path
  proc_dma_mappings :: "dma_user_mapping option list"
  proc_file_handles :: "file_handle_slot list"

definition process_new :: "process_id \<Rightarrow> string \<Rightarrow> process_context \<Rightarrow> u64 \<Rightarrow> u64 \<Rightarrow> process_state
    \<Rightarrow> capability_space \<Rightarrow> vfs_path \<Rightarrow> process" where
  "process_new pid name context image_base image_length state caps mount =
    (let initial = (state = Running);
         quota = (if initial then process_quota_initial else process_quota_service)
     in \<lparr>proc_pid = pid, proc_name = name, proc_context = context, proc_image_base = image_base,
         proc_image_length = image_length, proc_context_reaped = False, proc_state = state,
         proc_caps = caps, proc_initial_caps = caps, proc_saved_frame = syscall_frame_empty,
         proc_has_saved_frame = False, proc_exit_status = 0, proc_has_exited = False,
         proc_start_count = (if initial then 1 else 0), proc_quota = quota, proc_initial_quota = quota,
         proc_mount_root = mount, proc_dma_mappings = replicate MAX_OBJECTS None,
         proc_file_handles = replicate MAX_FILE_HANDLES file_handle_slot_empty\<rparr>)"

definition dma_mapping :: "process \<Rightarrow> object_id \<Rightarrow> dma_user_mapping option" where
  "dma_mapping p region =
    first_some (\<lambda>x. case x of Some mp \<Rightarrow> if dm_region mp = region then Some mp else None | None \<Rightarrow> None)
      (proc_dma_mappings p)"

definition add_dma_mapping :: "process \<Rightarrow> dma_user_mapping \<Rightarrow> process \<times> (ipc_error, unit) result" where
  "add_dma_mapping p mp =
    (if dma_mapping p (dm_region mp) \<noteq> None then (p, Inr ())
     else case first_index (\<lambda>x. x = None) (proc_dma_mappings p) of
       Some i \<Rightarrow> (p\<lparr>proc_dma_mappings := (proc_dma_mappings p)[i := Some mp]\<rparr>, Inr ())
     | None \<Rightarrow> (p, Inl VfsNoSpace))"

definition clear_dma_mappings :: "process \<Rightarrow> process" where
  "clear_dma_mappings p = p\<lparr>proc_dma_mappings := replicate (length (proc_dma_mappings p)) None\<rparr>"

definition take_dma_mapping :: "process \<Rightarrow> nat \<Rightarrow> process \<times> dma_user_mapping option" where
  "take_dma_mapping p i =
    (if length (proc_dma_mappings p) \<le> i then (p, None)
     else (p\<lparr>proc_dma_mappings := (proc_dma_mappings p)[i := None]\<rparr>, proc_dma_mappings p ! i))"

definition open_file_handle :: "process \<Rightarrow> file_description_id \<Rightarrow> process \<times> (ipc_error, u64) result" where
  "open_file_handle p handle =
    (case first_index (\<lambda>s. fh_handle s = None) (proc_file_handles p) of
      Some i \<Rightarrow>
        (let g0 = saturating_add (fh_generation (proc_file_handles p ! i)) 1;
             generation = (if g0 = 0 then 1 else g0)
         in (p\<lparr>proc_file_handles := (proc_file_handles p)
                  [i := \<lparr>fh_generation = generation, fh_handle = Some handle\<rparr>]\<rparr>,
             Inr (push_bit 8 generation OR (of_nat i + 1))))
    | None \<Rightarrow> (p, Inl VfsNoSpace))"

definition decode_file_handle :: "u64 \<Rightarrow> (ipc_error, nat \<times> u64) result" where
  "decode_file_handle raw =
    (let slot = raw AND 0xFF; generation = drop_bit 8 raw in
      if raw = 0 \<or> slot = 0 \<or> generation = 0 then Inl VfsBadHandle
      else Inr (unat (slot - 1), generation))"

definition file_handle :: "process \<Rightarrow> u64 \<Rightarrow> (ipc_error, nat \<times> file_description_id) result" where
  "file_handle p raw =
    (case decode_file_handle raw of
      Inl e \<Rightarrow> Inl e
    | Inr (i, generation) \<Rightarrow>
        if length (proc_file_handles p) \<le> i then Inl VfsBadHandle
        else let slot = proc_file_handles p ! i in
          if fh_generation slot \<noteq> generation then Inl VfsBadHandle
          else case fh_handle slot of None \<Rightarrow> Inl VfsBadHandle | Some h \<Rightarrow> Inr (i, h))"

definition close_file_handle :: "process \<Rightarrow> u64 \<Rightarrow> process \<times> (ipc_error, file_description_id) result" where
  "close_file_handle p raw =
    (case file_handle p raw of
      Inl e \<Rightarrow> (p, Inl e)
    | Inr (i, h) \<Rightarrow>
        (p\<lparr>proc_file_handles := (proc_file_handles p)[i := (proc_file_handles p ! i)\<lparr>fh_handle := None\<rparr>]\<rparr>,
         Inr h))"

definition clear_file_handles :: "process \<Rightarrow> process" where
  "clear_file_handles p =
    p\<lparr>proc_file_handles := map (\<lambda>s. s\<lparr>fh_handle := None\<rparr>) (proc_file_handles p)\<rparr>"

section \<open>Process table\<close>

record process_table =
  pt_processes :: "process list"
  pt_current :: "process_id option"
  pt_next_id :: u64

definition pt_new :: process_table where
  "pt_new = \<lparr>pt_processes = [], pt_current = None, pt_next_id = 1\<rparr>"

definition pt_reset :: "process_table \<Rightarrow> process_table" where
  "pt_reset t = t\<lparr>pt_processes := [], pt_current := None, pt_next_id := 1\<rparr>"

definition add_process :: "process_table \<Rightarrow> string \<Rightarrow> process_context \<Rightarrow> u64 \<Rightarrow> u64 \<Rightarrow> process_state
    \<Rightarrow> capability_space \<Rightarrow> vfs_path \<Rightarrow> process_table \<times> (init_error, process_id) result" where
  "add_process t name context image_base image_length state caps mount =
    (if length (pt_processes t) = MAX_PROCESSES then (t, Inl ProcessTableFull)
     else let pid = pt_next_id t in
       (t\<lparr>pt_next_id := pt_next_id t + 1,
          pt_processes := pt_processes t @ [process_new pid name context image_base image_length state caps mount]\<rparr>,
        Inr pid))"

definition remove_last_process :: "process_table \<Rightarrow> process_id \<Rightarrow> process_table \<times> (init_error, unit) result" where
  "remove_last_process t pid =
    (if pt_processes t = [] then (t, Inl InvalidBootManifest)
     else if proc_pid (last (pt_processes t)) \<noteq> pid then (t, Inl InvalidBootManifest)
     else (t\<lparr>pt_processes := butlast (pt_processes t),
             pt_next_id := (if pt_next_id t = pid + 1 then pid else pt_next_id t)\<rparr>, Inr ()))"

definition process_index :: "process_table \<Rightarrow> process_id \<Rightarrow> nat option" where
  "process_index t pid = first_index (\<lambda>p. proc_pid p = pid) (pt_processes t)"

definition remove_process :: "process_table \<Rightarrow> process_id \<Rightarrow> process_table \<times> (init_error, unit) result" where
  "remove_process t pid =
    (case process_index t pid of
      None \<Rightarrow> (t, Inl InvalidBootManifest)
    | Some i \<Rightarrow>
        if pt_current t = Some pid then (t, Inl InvalidBootManifest)
        else (t\<lparr>pt_processes := take i (pt_processes t) @ drop (Suc i) (pt_processes t)\<rparr>, Inr ()))"

definition set_current :: "process_table \<Rightarrow> process_id \<Rightarrow> process_table" where
  "set_current t pid = t\<lparr>pt_current := Some pid\<rparr>"

definition process_of :: "process_table \<Rightarrow> process_id \<Rightarrow> process option" where
  "process_of t pid = first_some (\<lambda>p. if proc_pid p = pid then Some p else None) (pt_processes t)"

definition current_process :: "process_table \<Rightarrow> process option" where
  "current_process t = (case pt_current t of None \<Rightarrow> None | Some pid \<Rightarrow> process_of t pid)"

definition current_index :: "process_table \<Rightarrow> nat option" where
  "current_index t = (case pt_current t of None \<Rightarrow> None | Some pid \<Rightarrow> process_index t pid)"

text \<open>
  A \<^verbatim>\<open>&mut Process\<close> is the index of the borrowed entry; writing through
  it updates that entry.
\<close>

definition update_process :: "process_table \<Rightarrow> nat \<Rightarrow> (process \<Rightarrow> process) \<Rightarrow> process_table" where
  "update_process t i f = t\<lparr>pt_processes := (pt_processes t)[i := f (pt_processes t ! i)]\<rparr>"

definition process_mut :: "process_table \<Rightarrow> process_id \<Rightarrow> nat option" where
  "process_mut t pid = process_index t pid"

definition current_process_mut :: "process_table \<Rightarrow> nat option" where
  "current_process_mut t = (case pt_current t of None \<Rightarrow> None | Some pid \<Rightarrow> process_mut t pid)"

definition rr_start :: "process_table \<Rightarrow> nat" where
  "rr_start t = (case current_index t of Some i \<Rightarrow> (i + 1) mod length (pt_processes t) | None \<Rightarrow> 0)"

definition rr_candidate :: "process_table \<Rightarrow> bool \<Rightarrow> nat \<Rightarrow> nat option" where
  "rr_candidate t include_current offset =
    (let index = (rr_start t + offset) mod length (pt_processes t) in
      if \<not> include_current \<and> current_index t = Some index then None
      else if proc_state (pt_processes t ! index) = Ready then Some index else None)"

definition next_ready_index_round_robin :: "process_table \<Rightarrow> bool \<Rightarrow> nat option" where
  "next_ready_index_round_robin t include_current =
    (if length (pt_processes t) = 0 then None
     else first_some (rr_candidate t include_current) [0..<length (pt_processes t)])"

definition all_exited_successfully :: "process_table \<Rightarrow> bool" where
  "all_exited_successfully t =
    list_all (\<lambda>p. \<not> (proc_state p \<noteq> Exited \<or> proc_exit_status p \<noteq> 0)) (pt_processes t)"

section \<open>Capability spaces as maps\<close>

lemma cspace_grant_ok:
  "cspace_grant cs slot cap = (cs', Inr u) \<longleftrightarrow> cspace_can_grant cs slot \<and> cs' = cs[unat slot := Some cap]"
  by (auto simp: cspace_grant_def cspace_can_grant_def not_le)

lemma cspace_grant_error: "cspace_grant cs slot cap = (cs', Inl e) \<Longrightarrow> cs' = cs \<and> \<not> cspace_can_grant cs slot"
  by (auto simp: cspace_grant_def cspace_can_grant_def split: if_splits)

lemma cspace_lookup_update:
  "unat slot < length cs \<Longrightarrow> cspace_lookup (cs[unat slot := v]) = (cspace_lookup cs)(slot := v)"
  by (auto simp: cspace_lookup_def fun_eq_iff nth_list_update word_unat_eq_iff)

lemma cspace_can_grant_lookup: "cspace_can_grant cs slot \<Longrightarrow> cspace_lookup cs slot = None"
  by (simp add: cspace_can_grant_def cspace_lookup_def)

lemma cspace_grant_lookup:
  assumes "cspace_grant cs slot cap = (cs', Inr u)"
  shows "cspace_lookup cs slot = None" and "cspace_lookup cs' = (cspace_lookup cs)(slot \<mapsto> cap)"
    and "length cs' = length cs"
  using assms
  by (simp_all add: cspace_grant_ok cspace_can_grant_lookup cspace_lookup_update cspace_can_grant_def)

lemma cspace_clear_ok:
  "cspace_clear cs slot = (cs', Inr cap) \<longleftrightarrow> cspace_lookup cs slot = Some cap \<and> cs' = cs[unat slot := None]"
  by (auto simp: cspace_clear_def cspace_lookup_def not_le split: option.splits)

lemma cspace_clear_error:
  "cspace_clear cs slot = (cs', Inl e) \<longleftrightarrow> cs' = cs \<and> e = BadCapability \<and> cspace_lookup cs slot = None"
  by (auto simp: cspace_clear_def cspace_lookup_def not_le split: option.splits)

lemma cspace_lookup_in_range: "cspace_lookup cs slot = Some cap \<Longrightarrow> unat slot < length cs"
  by (simp add: cspace_lookup_def split: if_splits)

lemma cspace_lookup_mem: "cspace_lookup cs slot = Some cap \<Longrightarrow> Some cap \<in> set cs"
  by (auto simp: cspace_lookup_def in_set_conv_nth split: if_splits)

lemma cspace_mark_revoked_lookup:
  "cspace_lookup (cspace_mark_revoked cs i) slot =
    map_option (\<lambda>cap. if cap_id cap = i then cap\<lparr>cap_revoked := True\<rparr> else cap) (cspace_lookup cs slot)"
  by (auto simp: cspace_lookup_def cspace_mark_revoked_def split: option.splits)

section \<open>File handles\<close>

definition fh_table :: "process \<Rightarrow> file_description_id option list" where
  "fh_table p = map fh_handle (proc_file_handles p)"

definition open_file_handle_slot :: "process \<Rightarrow> file_description_id \<Rightarrow> (process \<times> nat) option" where
  "open_file_handle_slot p h =
    (case open_file_handle p h of
      (p', Inr raw) \<Rightarrow> map_option (\<lambda>i. (p', i)) (first_index (\<lambda>s. fh_handle s = None) (proc_file_handles p))
    | (p', Inl e) \<Rightarrow> None)"

lemma first_index_map: "first_index p (map f xs) = first_index (\<lambda>x. p (f x)) xs"
  by (induction xs) simp_all

interpretation fh_slots: slot_allocator fh_table open_file_handle_slot
proof
  fix p h
  have free: "first_free (fh_table p) = first_index (\<lambda>s. fh_handle s = None) (proc_file_handles p)"
    by (simp add: first_free_def fh_table_def first_index_map)
  show "open_file_handle_slot p h = None \<longleftrightarrow> None \<notin> set (fh_table p)"
    unfolding first_free_None [symmetric] free
    by (simp add: open_file_handle_slot_def open_file_handle_def Let_def split: option.split)
  fix p' i
  assume "open_file_handle_slot p h = Some (p', i)"
  then show "first_free (fh_table p) = Some i \<and> fh_table p' = (fh_table p)[i := Some h]"
    unfolding free
    by (auto simp: open_file_handle_slot_def open_file_handle_def Let_def fh_table_def map_update
        split: option.splits)
qed

lemma take_bit_small:
  "unat (w :: u64) < 2 ^ n \<Longrightarrow> take_bit n w = w"
  by (simp add: word_unat_eq_iff unsigned_take_bit_eq take_bit_nat_eq_self)

lemma handle_bits:
  fixes g w :: u64
  assumes "w < 2 ^ 8"
  shows "(push_bit 8 g OR w) AND 0xFF = w" and "unat g < 2 ^ 56 \<Longrightarrow> drop_bit 8 (push_bit 8 g OR w) = g"
proof -
  have w: "take_bit 8 w = w"
    using assms by (intro take_bit_small) (simp add: word_less_nat_alt)
  have mask: "(0xFF :: u64) = mask 8"
    by (simp add: mask_eq_exp_minus_1)
  show "(push_bit 8 g OR w) AND 0xFF = w"
    unfolding mask take_bit_eq_mask [symmetric] by (simp add: take_bit_or take_bit_push_bit w)
  show "drop_bit 8 (push_bit 8 g OR w) = g" if "unat g < 2 ^ 56"
  proof (rule bit_word_eqI)
    fix n
    assume n: "n < LENGTH(64)"
    have hi: "bit g n \<Longrightarrow> n < 56"
      using take_bit_small [OF that] by (metis bit_take_bit_iff)
    have "\<not> bit w (8 + n)"
      using w by (metis bit_take_bit_iff not_add_less1)
    then show "bit (drop_bit 8 (push_bit 8 g OR w)) n \<longleftrightarrow> bit g n"
      using n hi by (auto simp: bit_drop_bit_eq bit_or_iff bit_push_bit_iff)
  qed
qed

lemma open_file_handle_cases:
  assumes "open_file_handle p h = (p', Inr raw)"
  obtains i g where "i < length (proc_file_handles p)" "fh_handle (proc_file_handles p ! i) = None"
    "g = saturating_add (fh_generation (proc_file_handles p ! i)) 1" "g \<noteq> 0"
    "proc_file_handles p' = (proc_file_handles p)[i := \<lparr>fh_generation = g, fh_handle = Some h\<rparr>]"
    "raw = push_bit 8 g OR (of_nat i + 1)"
proof (cases "first_index (\<lambda>s. fh_handle s = None) (proc_file_handles p)")
  case None
  with assms show thesis
    by (simp add: open_file_handle_def)
next
  case (Some i)
  let ?g0 = "fh_generation (proc_file_handles p ! i)"
  have "unat (saturating_add ?g0 1) \<noteq> 0"
    by (simp add: unat_saturating_add)
  then have "saturating_add ?g0 1 \<noteq> 0"
    by (metis unat_0)
  with Some assms first_index_SomeD(1,2) [OF Some] show thesis
    by (intro that [of i "saturating_add ?g0 1"]) (auto simp: open_file_handle_def Let_def)
qed

inductive fh_step :: "process \<Rightarrow> process \<Rightarrow> bool" where
  fh_open: "fh_step p (fst (open_file_handle p h))"
| fh_close: "fh_step p (fst (close_file_handle p raw))"
| fh_clear: "fh_step p (clear_file_handles p)"

definition handle_dead :: "nat \<Rightarrow> u64 \<Rightarrow> process \<Rightarrow> bool" where
  "handle_dead i g p \<longleftrightarrow> i < length (proc_file_handles p)
    \<and> (g < fh_generation (proc_file_handles p ! i)
      \<or> fh_generation (proc_file_handles p ! i) = g \<and> fh_handle (proc_file_handles p ! i) = None)"

lemma fh_step_dead:
  assumes "fh_step p p'" "handle_dead i g p" "g \<noteq> - 1"
  shows "handle_dead i g p'"
  using assms(1)
proof cases
  case (fh_open h)
  show ?thesis
  proof (cases "open_file_handle p h")
    case (Pair q r)
    show ?thesis
    proof (cases r)
      case (Inl e)
      with Pair fh_open assms(2) show ?thesis
        by (auto simp: open_file_handle_def Let_def split: option.splits)
    next
      case (Inr raw)
      with Pair have "open_file_handle p h = (q, Inr raw)"
        by simp
      then obtain j k where *: "j < length (proc_file_handles p)"
        "k = saturating_add (fh_generation (proc_file_handles p ! j)) 1"
        "proc_file_handles q = (proc_file_handles p)[j := \<lparr>fh_generation = k, fh_handle = Some h\<rparr>]"
        by (rule open_file_handle_cases)
      have "g < saturating_add (fh_generation (proc_file_handles p ! i)) 1"
        using assms(2,3) less_saturating_inc [of g] saturating_add_ge [of "fh_generation (proc_file_handles p ! i)" 1]
        by (auto simp: handle_dead_def)
      with * Pair fh_open assms(2) show ?thesis
        by (auto simp: handle_dead_def nth_list_update)
    qed
  qed
next
  case (fh_close raw)
  with assms(2) show ?thesis
    by (auto simp: close_file_handle_def handle_dead_def nth_update split: sum.splits prod.splits)
next
  case fh_clear
  with assms(2) show ?thesis
    by (auto simp: clear_file_handles_def handle_dead_def)
qed

lemma file_handle_Inr:
  assumes "file_handle p raw = Inr (i, h)"
  shows "decode_file_handle raw = Inr (i, drop_bit 8 raw)" "i < length (proc_file_handles p)"
    "proc_file_handles p ! i = \<lparr>fh_generation = drop_bit 8 raw, fh_handle = Some h\<rparr>"
  using assms
  by (auto simp: file_handle_def decode_file_handle_def Let_def
      split: sum.splits prod.splits if_splits option.splits)

lemma drop_bit_8_less: "unat (drop_bit 8 (raw :: u64)) < 2 ^ 56"
proof -
  have "unat (drop_bit 8 raw) = unat raw div 2 ^ 8"
    by (simp add: drop_bit_eq_div unat_div)
  moreover have "unat raw < 2 ^ 64"
    using unsigned_less [of raw] by simp
  ultimately show ?thesis
    by simp
qed

definition sample_process :: process where
  "sample_process =
    process_new 1 ''init'' \<lparr>ctx_cr3 = 0, ctx_entry = 0, ctx_stack_top = 0\<rparr> 0 0 Ready cspace_new vfs_path_empty"

lemma sample_process_handles:
  "proc_file_handles sample_process = file_handle_slot_empty # replicate 15 file_handle_slot_empty"
  by (simp add: sample_process_def process_new_def MAX_FILE_HANDLES_def numeral_eq_Suc)

lemma sample_open:
  "open_file_handle sample_process 7 =
    (sample_process\<lparr>proc_file_handles :=
       \<lparr>fh_generation = 1, fh_handle = Some 7\<rparr> # replicate 15 file_handle_slot_empty\<rparr>, Inr 0x101)"
  by (simp add: open_file_handle_def sample_process_handles file_handle_slot_empty_def saturating_add_def)

text \<open>
  C38: Opening a file gives a handle that resolves: it decodes to the slot and
  generation that were allocated, and looking it up returns the description
  that was opened, as long as the slot's generation fits the 56 bits the handle
  has for it.  Every handle that resolved before still resolves to the same
  description.
\<close>

theorem file_handle_roundtrip:
  assumes "open_file_handle p h = (p', Inr raw)" and "length (proc_file_handles p) = MAX_FILE_HANDLES"
    and "\<forall>s \<in> set (proc_file_handles p). unat (fh_generation s) < 2 ^ 56 - 1"
  shows "\<exists>i. file_handle p' raw = Inr (i, h)
    \<and> (\<forall>raw' j h'. file_handle p raw' = Inr (j, h') \<longrightarrow> file_handle p' raw' = Inr (j, h'))"
proof -
  obtain i g where i: "i < length (proc_file_handles p)" "fh_handle (proc_file_handles p ! i) = None"
    and g: "g = saturating_add (fh_generation (proc_file_handles p ! i)) 1" "g \<noteq> 0"
    and p': "proc_file_handles p' = (proc_file_handles p)[i := \<lparr>fh_generation = g, fh_handle = Some h\<rparr>]"
    and raw: "raw = push_bit 8 g OR (of_nat i + 1)"
    using assms(1) by (rule open_file_handle_cases)
  let ?w = "of_nat i + 1 :: u64"
  have i16: "i < 16"
    using i(1) assms(2) by (simp add: MAX_FILE_HANDLES_def)
  have "?w = of_nat (Suc i)"
    by simp
  then have wi: "unat ?w = i + 1"
    using i16 by (simp only: unat_of_nat) simp
  have w: "?w < 2 ^ 8"
    using i16 wi by (simp add: word_less_nat_alt)
  have "unat (fh_generation (proc_file_handles p ! i)) < 2 ^ 56 - 1"
    using assms(3) nth_mem [OF i(1)] by blast
  then have gen: "unat g < 2 ^ 56"
    using g(1) by (simp add: unat_saturating_add)
  note bits = handle_bits [OF w, of g]
  have slot: "raw AND 0xFF = ?w" and generation: "drop_bit 8 raw = g"
    using bits gen raw by simp_all
  have "raw \<noteq> 0"
    using generation g(2) by auto
  moreover have "?w \<noteq> 0"
    using wi by (metis Suc_eq_plus1 nat.distinct(1) unat_0)
  moreover have "unat (?w - 1) = i"
    using i16 by (simp add: unat_of_nat)
  ultimately have "decode_file_handle raw = Inr (i, g)"
    using slot generation g(2) by (simp add: decode_file_handle_def Let_def)
  then have "file_handle p' raw = Inr (i, h)"
    using i(1) p' by (simp add: file_handle_def)
  moreover have "file_handle p' raw' = Inr (j, h')" if "file_handle p raw' = Inr (j, h')" for raw' j h'
    using file_handle_Inr [OF that] i p' by (auto simp: file_handle_def nth_list_update)
  ultimately show ?thesis
    by blast
qed

theorem file_handle_roundtrip_witness:
  "\<exists>p' i. open_file_handle sample_process 7 = (p', Inr 0x101) \<and> file_handle p' 0x101 = Inr (i, 7)"
proof -
  have "length (proc_file_handles sample_process) = MAX_FILE_HANDLES"
    by (simp add: sample_process_handles MAX_FILE_HANDLES_def)
  moreover have "\<forall>s \<in> set (proc_file_handles sample_process). unat (fh_generation s) < 2 ^ 56 - 1"
    by (simp add: sample_process_handles file_handle_slot_empty_def)
  ultimately show ?thesis
    using file_handle_roundtrip [OF sample_open] sample_open by blast
qed

text \<open>
  C26: A closed file handle stays dead: whatever opens, closes and clears follow
  in the process, it never resolves again, even when its slot is reused.
\<close>

theorem closed_handle_stays_dead:
  assumes "close_file_handle p raw = (p1, Inr h)" and "fh_step\<^sup>*\<^sup>* p1 p2"
  shows "file_handle p2 raw = Inl VfsBadHandle"
proof -
  obtain i where fh: "file_handle p raw = Inr (i, h)"
    and p1: "proc_file_handles p1 = (proc_file_handles p)[i := (proc_file_handles p ! i)\<lparr>fh_handle := None\<rparr>]"
    using assms(1) by (auto simp: close_file_handle_def split: sum.splits prod.splits)
  note fh' = file_handle_Inr [OF fh]
  have dead: "handle_dead i (drop_bit 8 raw) p1"
    using fh' p1 by (simp add: handle_dead_def)
  have "drop_bit 8 raw \<noteq> - 1"
    using drop_bit_8_less [of raw] by (auto simp: unat_all_ones)
  with assms(2) have "handle_dead i (drop_bit 8 raw) p2"
    by (induction rule: rtranclp_induct) (auto intro: dead fh_step_dead)
  then show ?thesis
    using fh'(1) by (auto simp: file_handle_def handle_dead_def Let_def)
qed

theorem closed_handle_stays_dead_witness:
  "\<exists>p0 p1 p2. open_file_handle sample_process 7 = (p0, Inr 0x101)
    \<and> close_file_handle p0 0x101 = (p1, Inr 7)
    \<and> open_file_handle p1 9 = (p2, Inr 0x201) \<and> file_handle p2 0x101 = Inl VfsBadHandle"
proof -
  let ?rest = "replicate 15 file_handle_slot_empty"
  let ?p0 = "sample_process\<lparr>proc_file_handles := \<lparr>fh_generation = 1, fh_handle = Some 7\<rparr> # ?rest\<rparr>"
  let ?p1 = "sample_process\<lparr>proc_file_handles := \<lparr>fh_generation = 1, fh_handle = None\<rparr> # ?rest\<rparr>"
  let ?p2 = "sample_process\<lparr>proc_file_handles := \<lparr>fh_generation = 2, fh_handle = Some 9\<rparr> # ?rest\<rparr>"
  have close: "close_file_handle ?p0 0x101 = (?p1, Inr 7)"
    by (simp add: close_file_handle_def file_handle_def decode_file_handle_def)
  have reopen: "open_file_handle ?p1 9 = (?p2, Inr 0x201)"
    by (simp add: open_file_handle_def saturating_add_def)
  have "fh_step\<^sup>*\<^sup>* ?p1 ?p2"
    using fh_open [of ?p1 9] reopen by auto
  from closed_handle_stays_dead [OF close this] close reopen sample_open show ?thesis
    by blast
qed

section \<open>The process table\<close>

definition pt_inv :: "process_table \<Rightarrow> bool" where
  "pt_inv t \<longleftrightarrow> length (pt_processes t) \<le> MAX_PROCESSES
    \<and> sorted_wrt (<) (map proc_pid (pt_processes t))
    \<and> (\<forall>p \<in> set (pt_processes t). 0 < proc_pid p \<and> proc_pid p < pt_next_id t)"

lemma pt_inv_new: "pt_inv pt_new"
  by (simp add: pt_inv_def pt_new_def)

lemma pt_inv_distinct: "pt_inv t \<Longrightarrow> distinct (map proc_pid (pt_processes t))"
  by (metis pt_inv_def strict_sorted_iff)

lemma process_new_pid [simp]: "proc_pid (process_new pid name c b l st caps mnt) = pid"
  by (simp add: process_new_def Let_def)

lemma add_process_inv:
  assumes "pt_inv t" "pt_next_id t \<noteq> u64_max" "0 < pt_next_id t"
  shows "pt_inv (fst (add_process t name c b l st caps mnt))"
proof -
  have "i < pt_next_id t + 1 \<longleftrightarrow> i \<le> pt_next_id t" for i
    using less_increment assms(2) by (simp add: u64_max_def)
  then show ?thesis
    using assms by (auto simp: pt_inv_def add_process_def Let_def sorted_wrt_append)
qed

lemma process_of_iff:
  assumes "pt_inv t"
  shows "process_of t pid = Some p \<longleftrightarrow> p \<in> set (pt_processes t) \<and> proc_pid p = pid"
proof
  assume "process_of t pid = Some p"
  then show "p \<in> set (pt_processes t) \<and> proc_pid p = pid"
    by (auto simp: process_of_def dest!: first_some_SomeD split: if_splits)
next
  assume p: "p \<in> set (pt_processes t) \<and> proc_pid p = pid"
  have "p' = p" if "p' \<in> set (pt_processes t)" "proc_pid p' = pid" for p'
    using p that pt_inv_distinct [OF assms] by (auto simp: distinct_map inj_on_def)
  with p show "process_of t pid = Some p"
    unfolding process_of_def by (intro first_some_unique [of p]) (auto split: if_splits)
qed

lemma process_index_Some:
  "process_index t pid = Some i \<Longrightarrow> i < length (pt_processes t) \<and> proc_pid (pt_processes t ! i) = pid"
  by (auto simp: process_index_def first_index_Some)

lemma process_index_None: "process_index t pid = None \<longleftrightarrow> pid \<notin> proc_pid ` set (pt_processes t)"
  by (auto simp: process_index_def first_index_None)

lemma process_index_nth:
  assumes "pt_inv t" "i < length (pt_processes t)"
  shows "process_index t (proc_pid (pt_processes t ! i)) = Some i"
  using pt_inv_distinct [OF assms(1)] assms(2)
  by (auto simp: process_index_def first_index_Some distinct_conv_nth)

lemma process_of_index:
  assumes "pt_inv t"
  shows "process_of t pid = map_option (\<lambda>i. pt_processes t ! i) (process_index t pid)"
proof (cases "process_index t pid")
  case None
  then have "process_of t pid = None"
    by (auto simp: process_index_None process_of_def first_some_None)
  with None show ?thesis
    by simp
next
  case (Some i)
  then show ?thesis
    using process_index_Some [OF Some] by (simp add: process_of_iff [OF assms])
qed

lemma update_process_pids:
  assumes "\<And>p. proc_pid (f p) = proc_pid p"
  shows "map proc_pid (pt_processes (update_process t i f)) = map proc_pid (pt_processes t)"
proof (cases "i < length (pt_processes t)")
  case True
  then show ?thesis
    by (simp add: update_process_def map_update assms list_update_same_conv)
next
  case False
  then show ?thesis
    by (simp add: update_process_def list_update_beyond)
qed

lemma pt_inv_pids:
  "pt_inv t \<longleftrightarrow> length (map proc_pid (pt_processes t)) \<le> MAX_PROCESSES
    \<and> sorted_wrt (<) (map proc_pid (pt_processes t))
    \<and> (\<forall>pid \<in> set (map proc_pid (pt_processes t)). 0 < pid \<and> pid < pt_next_id t)"
  by (simp add: pt_inv_def)

lemma update_process_inv:
  assumes "pt_inv t" "\<And>p. proc_pid (f p) = proc_pid p"
  shows "pt_inv (update_process t i f)"
proof -
  have "pt_next_id (update_process t i f) = pt_next_id t"
    by (simp add: update_process_def)
  then show ?thesis
    using assms(1) unfolding pt_inv_pids update_process_pids [OF assms(2)] by simp
qed

lemma remove_last_process_inv:
  assumes "pt_inv t"
  shows "pt_inv (fst (remove_last_process t pid))"
proof (cases "pt_processes t \<noteq> [] \<and> proc_pid (last (pt_processes t)) = pid")
  case True
  then obtain ps q where ps: "pt_processes t = ps @ [q]" "proc_pid q = pid"
    by (metis append_butlast_last_id)
  with assms show ?thesis
    by (auto simp: remove_last_process_def pt_inv_def sorted_wrt_append)
next
  case False
  with assms show ?thesis
    by (auto simp: remove_last_process_def)
qed

lemma remove_process_inv:
  assumes "pt_inv t"
  shows "pt_inv (fst (remove_process t pid))"
proof (cases "process_index t pid")
  case (Some i)
  let ?ps = "pt_processes t"
  have ps: "?ps = take i ?ps @ ?ps ! i # drop (Suc i) ?ps"
    using process_index_Some [OF Some] by (metis id_take_nth_drop)
  have "sorted_wrt (<) (map proc_pid (take i ?ps @ ?ps ! i # drop (Suc i) ?ps))"
    using assms ps by (simp add: pt_inv_def)
  then have "sorted_wrt (<) (map proc_pid (take i ?ps @ drop (Suc i) ?ps))"
    by (simp add: sorted_wrt_append)
  moreover have "set (take i ?ps @ drop (Suc i) ?ps) \<subseteq> set ?ps"
    by (auto dest: in_set_takeD in_set_dropD)
  ultimately show ?thesis
    using assms Some by (auto simp: remove_process_def pt_inv_def)
qed (use assms in \<open>simp add: remove_process_def\<close>)

section \<open>Round-robin selection\<close>

definition eligible_index :: "process_table \<Rightarrow> bool \<Rightarrow> nat \<Rightarrow> bool" where
  "eligible_index t include_current i \<longleftrightarrow> i < length (pt_processes t) \<and> proc_state (pt_processes t ! i) = Ready
    \<and> (include_current \<or> current_index t \<noteq> Some i)"

text \<open>Position of an index in the scan of the table.\<close>

definition scan_offset :: "process_table \<Rightarrow> nat \<Rightarrow> nat" where
  "scan_offset t j = (j + length (pt_processes t) - rr_start t) mod length (pt_processes t)"

lemma rr_start_less: "pt_processes t \<noteq> [] \<Longrightarrow> rr_start t < length (pt_processes t)"
  by (simp add: rr_start_def split: option.split)

lemma scan_offset_inverse:
  assumes "j < length (pt_processes t)"
  shows "scan_offset t j < length (pt_processes t)"
    and "(rr_start t + scan_offset t j) mod length (pt_processes t) = j"
proof -
  have ne: "pt_processes t \<noteq> []"
    using assms by auto
  then show "scan_offset t j < length (pt_processes t)"
    by (simp add: scan_offset_def)
  show "(rr_start t + scan_offset t j) mod length (pt_processes t) = j"
    using rr_start_less [OF ne] assms by (simp add: scan_offset_def mod_simps)
qed

lemma scan_offset_unique:
  assumes "k < length (pt_processes t)"
  shows "scan_offset t ((rr_start t + k) mod length (pt_processes t)) = k"
proof -
  let ?n = "length (pt_processes t)"
  have ne: "pt_processes t \<noteq> []"
    using assms by auto
  have "(rr_start t + k) mod ?n + ?n - rr_start t = (rr_start t + k) mod ?n + (?n - rr_start t)"
    using rr_start_less [OF ne] by simp
  then have "scan_offset t ((rr_start t + k) mod ?n) = (rr_start t + k + (?n - rr_start t)) mod ?n"
    by (simp add: scan_offset_def mod_simps)
  also have "\<dots> = k"
    using rr_start_less [OF ne] assms by simp
  finally show ?thesis .
qed

lemma rr_candidate_Some:
  "rr_candidate t inc k = Some i \<Longrightarrow> k < length (pt_processes t) \<Longrightarrow>
    i = (rr_start t + k) mod length (pt_processes t) \<and> eligible_index t inc i"
  by (auto simp: rr_candidate_def eligible_index_def Let_def intro!: mod_less_divisor split: if_splits)

lemma rr_candidate_offset:
  assumes "eligible_index t inc j"
  shows "rr_candidate t inc (scan_offset t j) = Some j"
  using assms scan_offset_inverse(2) [of j t] by (auto simp: rr_candidate_def eligible_index_def Let_def)

lemma next_ready_first:
  assumes "next_ready_index_round_robin t inc = Some i"
  shows "eligible_index t inc i" and "eligible_index t inc j \<Longrightarrow> scan_offset t i \<le> scan_offset t j"
proof -
  let ?n = "length (pt_processes t)"
  obtain k where k: "k < ?n" "rr_candidate t inc k = Some i" "\<forall>j < k. rr_candidate t inc j = None"
    using assms by (auto simp: next_ready_index_round_robin_def dest!: first_some_nthD split: if_splits)
  note c = rr_candidate_Some [OF k(2,1)]
  then show "eligible_index t inc i"
    by blast
  have "scan_offset t i = k"
    using c scan_offset_unique [OF k(1)] by simp
  then show "scan_offset t i \<le> scan_offset t j" if "eligible_index t inc j"
    using k(3) rr_candidate_offset [OF that] by (metis not_less option.distinct(1))
qed

lemma next_ready_None:
  "next_ready_index_round_robin t inc = None \<longleftrightarrow> (\<forall>i. \<not> eligible_index t inc i)"
proof
  assume none: "next_ready_index_round_robin t inc = None"
  show "\<forall>i. \<not> eligible_index t inc i"
  proof (intro allI notI)
    fix j
    assume j: "eligible_index t inc j"
    then have "j < length (pt_processes t)"
      by (simp add: eligible_index_def)
    then have "scan_offset t j \<in> set [0..<length (pt_processes t)]"
      using scan_offset_inverse(1) by simp
    with none rr_candidate_offset [OF j] show False
      by (auto simp: next_ready_index_round_robin_def first_some_None split: if_splits)
  qed
next
  assume "\<forall>i. \<not> eligible_index t inc i"
  then show "next_ready_index_round_robin t inc = None"
    using next_ready_first(1) by (metis not_None_eq)
qed

lemma scan_offset_decreases:
  assumes inv: "pt_inv t'" and pids: "map proc_pid (pt_processes t') = map proc_pid (pt_processes t)"
    and i: "next_ready_index_round_robin t inc = Some i"
    and current: "pt_current t' = Some (proc_pid (pt_processes t ! i))"
    and j: "eligible_index t inc j" "j \<noteq> i"
  shows "scan_offset t' j < scan_offset t j"
proof -
  let ?n = "length (pt_processes t)"
  have len: "length (pt_processes t') = ?n"
    using pids by (metis length_map)
  have ij: "i < ?n" "j < ?n"
    using next_ready_first(1) [OF i] j(1) by (auto simp: eligible_index_def)
  have "proc_pid (pt_processes t' ! i) = proc_pid (pt_processes t ! i)"
    using pids ij(1) len by (metis nth_map)
  then have start: "rr_start t' = (i + 1) mod ?n"
    using process_index_nth [OF inv, of i] ij(1) len current by (simp add: rr_start_def current_index_def)
  let ?oi = "scan_offset t i" and ?oj = "scan_offset t j"
  note oi = scan_offset_inverse [OF ij(1)] and oj = scan_offset_inverse [OF ij(2)]
  have "?oi \<noteq> ?oj"
    using oi(2) oj(2) j(2) by metis
  then have lt: "?oi < ?oj"
    using next_ready_first(2) [OF i j(1)] by simp
  then obtain d where d: "?oj = ?oi + (1 + d)"
    by (metis add_Suc_right less_iff_Suc_add plus_1_eq_Suc)
  have "(rr_start t' + d) mod ?n = (i + (1 + d)) mod ?n"
    unfolding start by (metis add.assoc mod_add_left_eq)
  also have "\<dots> = (rr_start t + ?oi + (1 + d)) mod ?n"
    using oi(2) by (metis mod_add_left_eq)
  also have "\<dots> = j"
    using oj(2) unfolding d by (simp add: add.assoc)
  finally have "scan_offset t' j = d"
    using scan_offset_unique [of d t'] len oj(1) d by simp
  with d show ?thesis
    by simp
qed

section \<open>Properties\<close>

text \<open>
  The operations of the table.  A process is added while the id counter, of 64
  bits, can still be incremented; at its largest value the addition of the
  source overflows.
\<close>

inductive pt_step :: "process_table \<Rightarrow> process_table \<Rightarrow> bool" where
  "pt_next_id t \<noteq> u64_max \<Longrightarrow> pt_step t (fst (add_process t name c b l st caps mnt))"
| "pt_step t (fst (remove_last_process t pid))"
| "pt_step t (fst (remove_process t pid))"
| "pt_step t (set_current t pid)"
| "pt_step t (pt_reset t)"
| "(\<And>p. proc_pid (f p) = proc_pid p) \<Longrightarrow> pt_step t (update_process t i f)"

text \<open>Ids start at one, and no operation brings the counter back to zero.\<close>

lemma pt_step_inv:
  assumes "pt_step t t'" "pt_inv t" "0 < pt_next_id t"
  shows "pt_inv t' \<and> 0 < pt_next_id t'"
  using assms
proof (induction rule: pt_step.induct)
  case (1 t name c b l st caps mnt)
  then have "0 < pt_next_id t + 1"
    using less_increment [of "pt_next_id t" 0] by (simp add: u64_max_def)
  then show ?case
    using 1 add_process_inv by (simp add: add_process_def Let_def)
next
  case (2 t pid)
  then have "0 < proc_pid (last (pt_processes t))" if "pt_processes t \<noteq> []"
    using that by (simp add: pt_inv_def)
  then show ?case
    using 2 remove_last_process_inv [of t pid] by (auto simp: remove_last_process_def)
next
  case (3 t pid)
  then show ?case
    using remove_process_inv [of t pid] by (simp add: remove_process_def split: option.split)
next
  case (6 f t i)
  then show ?case
    using update_process_inv [of t f i] by (simp add: update_process_def)
qed (simp_all add: set_current_def pt_reset_def pt_inv_def)

text \<open>
  C33: In every process table that the operations can produce from the empty
  one, the process ids are non-zero, pairwise distinct, in increasing order
  and below the id counter, and at most sixteen processes exist; a lookup by
  id therefore finds the one process that has it.
\<close>

theorem process_table_pids_unique:
  assumes "pt_step\<^sup>*\<^sup>* pt_new t"
  shows "length (pt_processes t) \<le> MAX_PROCESSES \<and> distinct (map proc_pid (pt_processes t))
    \<and> sorted_wrt (<) (map proc_pid (pt_processes t))
    \<and> (\<forall>p \<in> set (pt_processes t). 0 < proc_pid p \<and> proc_pid p < pt_next_id t)
    \<and> (\<forall>pid p. process_of t pid = Some p \<longleftrightarrow> p \<in> set (pt_processes t) \<and> proc_pid p = pid)"
proof -
  have "pt_inv t \<and> 0 < pt_next_id t"
    using assms
  proof (induction rule: rtranclp_induct)
    case base
    then show ?case
      using pt_inv_new by (simp add: pt_new_def)
  next
    case (step t t')
    then show ?case
      using pt_step_inv by blast
  qed
  then show ?thesis
    using pt_inv_distinct process_of_iff by (auto simp: pt_inv_def)
qed

definition sample_table :: process_table where
  "sample_table =
    fst (add_process pt_new ''a'' \<lparr>ctx_cr3 = 0, ctx_entry = 0, ctx_stack_top = 0\<rparr> 0 0 Ready cspace_new vfs_path_empty)"

theorem process_table_pids_unique_witness:
  "map proc_pid (pt_processes sample_table) = [1] \<and> distinct (map proc_pid (pt_processes sample_table))"
proof -
  have "pt_step pt_new sample_table"
    unfolding sample_table_def by (rule pt_step.intros) (simp add: pt_new_def u64_max_def)
  then have "pt_step\<^sup>*\<^sup>* pt_new sample_table"
    by simp
  from process_table_pids_unique [OF this] show ?thesis
    by (simp add: sample_table_def add_process_def pt_new_def MAX_PROCESSES_def Let_def)
qed

text \<open>
  C17: The scheduler's selection is starvation-free: if a process stays ready
  while others are selected one after the other, each selected one becoming the
  current process, then it is selected after at most as many rounds as its
  distance from the current process in the cyclic scan.
\<close>

theorem round_robin_no_starvation:
  assumes "\<And>k. pt_inv (ts k)" and "\<And>k. map proc_pid (pt_processes (ts (Suc k))) = map proc_pid (pt_processes (ts k))"
    and "\<And>k. pt_current (ts (Suc k)) = Some (proc_pid (pt_processes (ts k) ! pick k))"
    and "\<And>k. next_ready_index_round_robin (ts k) True = Some (pick k)"
    and "\<And>k. j < length (pt_processes (ts k)) \<and> proc_state (pt_processes (ts k) ! j) = Ready"
  shows "\<exists>k \<le> scan_offset (ts 0) j. pick k = j"
proof -
  have "\<exists>k \<le> d. pick (m + k) = j" if "scan_offset (ts m) j \<le> d" for m d
    using that
  proof (induction d arbitrary: m)
    case 0
    have "eligible_index (ts m) True j"
      using assms(5) by (simp add: eligible_index_def)
    then show ?case
      using scan_offset_decreases [OF assms(1) assms(2) assms(4) assms(3), of m j] 0 by fastforce
  next
    case (Suc d)
    show ?case
    proof (cases "pick m = j")
      case False
      have "eligible_index (ts m) True j"
        using assms(5) by (simp add: eligible_index_def)
      then have "scan_offset (ts (Suc m)) j < scan_offset (ts m) j"
        using scan_offset_decreases [OF assms(1) assms(2) assms(4) assms(3)] False by blast
      then obtain k where "k \<le> d" "pick (Suc m + k) = j"
        using Suc.IH [of "Suc m"] Suc.prems by auto
      then show ?thesis
        by (intro exI [of _ "Suc k"]) simp
    qed (intro exI [of _ 0], simp)
  qed
  from this [of 0] show ?thesis
    by simp
qed

definition two_ready :: "nat \<Rightarrow> process_table" where
  "two_ready k =
    \<lparr>pt_processes = [sample_process, sample_process\<lparr>proc_pid := 2\<rparr>],
     pt_current = Some (if even k then 2 else 1), pt_next_id = 3\<rparr>"

lemma two_ready_next:
  "next_ready_index_round_robin (two_ready k) True = Some (if even k then 0 else 1)"
  by (simp add: next_ready_index_round_robin_def two_ready_def rr_candidate_def rr_start_def current_index_def
      process_index_def sample_process_def process_new_def upt_conv_Cons)

theorem round_robin_no_starvation_witness:
  "next_ready_index_round_robin (two_ready 0) True = Some 0
    \<and> (\<exists>k \<le> scan_offset (two_ready 0) 1. next_ready_index_round_robin (two_ready k) True = Some 1)"
proof -
  have "\<exists>k \<le> scan_offset (two_ready 0) 1. (if even k then 0 else 1) = (1 :: nat)"
    by (rule round_robin_no_starvation [where ts = two_ready and pick = "\<lambda>k. if even k then 0 else 1"])
      (simp_all add: two_ready_next,
        simp_all add: two_ready_def pt_inv_def MAX_PROCESSES_def sample_process_def process_new_def)
  then show ?thesis
    by (auto simp: two_ready_next)
qed

end
