(* ===== verification/Vfs_Types.thy ===== *)
theory Vfs_Types
  imports Process_Runtime
begin

text \<open>
  The data of the virtual file system: nodes and their backings
  (\<^verbatim>\<open>vfs/node.rs\<close>), volatile files and the pipe
  (\<^verbatim>\<open>vfs/storage.rs\<close>), open file descriptions, locks and events
  (\<^verbatim>\<open>vfs/handle.rs\<close>), VertexFS files and page-cache pages
  (\<^verbatim>\<open>vfs/vertexfs.rs\<close>).  The VFS fields of
  \<^verbatim>\<open>RuntimeState\<close> (\<^verbatim>\<open>ipc/runtime_state.rs\<close>) are
  the record \<^verbatim>\<open>vfs_tables\<close>.
\<close>

definition MAX_VFS_NODES :: nat where "MAX_VFS_NODES = 96"
definition MAX_VFS_MEM_FILES :: nat where "MAX_VFS_MEM_FILES = 8"
definition MAX_VFS_MEM_FILE_BYTES :: nat where "MAX_VFS_MEM_FILE_BYTES = 512"
definition MAX_VFS_PIPE_BYTES :: nat where "MAX_VFS_PIPE_BYTES = 128"
definition MAX_VFS_LOCKS :: nat where "MAX_VFS_LOCKS = MAX_OPEN_FILE_DESCRIPTIONS"
definition MAX_VFS_EVENTS :: nat where "MAX_VFS_EVENTS = 64"
definition MAX_VERTEXFS_FILES :: nat where "MAX_VERTEXFS_FILES = 48"
definition MAX_VERTEXFS_FILE_BYTES :: nat where "MAX_VERTEXFS_FILE_BYTES = 512"
definition MAX_VERTEXFS_PAGE_CACHE_PAGES :: nat where "MAX_VERTEXFS_PAGE_CACHE_PAGES = 8"
definition VERTEXFS_SECTOR_SIZE :: nat where "VERTEXFS_SECTOR_SIZE = 512"
definition VERTEXFS_SECTORS :: nat where "VERTEXFS_SECTORS = 64"
definition VERTEXFS_IMAGE_BYTES :: nat where
  "VERTEXFS_IMAGE_BYTES = VERTEXFS_SECTOR_SIZE * VERTEXFS_SECTORS"
definition VERTEXFS_PAGE_CACHE_DIRTY_BYTE_LIMIT :: nat where
  "VERTEXFS_PAGE_CACHE_DIRTY_BYTE_LIMIT = VERTEXFS_SECTOR_SIZE * 6"
definition VERTEXFS_PAGE_CACHE_PER_MOUNT_DIRTY_BYTE_LIMIT :: nat where
  "VERTEXFS_PAGE_CACHE_PER_MOUNT_DIRTY_BYTE_LIMIT = VERTEXFS_SECTOR_SIZE * 6"

section \<open>Nodes\<close>

datatype vfs_node_kind = RegularFile | Directory | DeviceNode | PipeNode | SyntheticNode

datatype vfs_backing =
    BackedNone
  | BackedStoreObject object_id
  | BackedStateVolume object_id
  | BackedStateVolumeValue object_id
  | BackedStateVolumeControl object_id
  | BackedMemoryFile nat
  | BackedVertexFsFile nat
  | BackedDevice object_id
  | BackedSynthetic "u8 list"
  | BackedFsServiceReport
  | BackedPipe

record vfs_node =
  vn_id :: vfs_node_id
  vn_name :: vfs_name
  vn_parent :: "vfs_node_id option"
  vn_kind :: vfs_node_kind
  vn_backing :: vfs_backing
  vn_mount_source :: string
  vn_metadata_version :: u64

section \<open>Volatile storage\<close>

record vfs_pipe_buffer =
  pb_bytes :: "u8 list"
  pb_len :: nat

definition vfs_pipe_buffer_empty :: vfs_pipe_buffer where
  "vfs_pipe_buffer_empty = \<lparr>pb_bytes = replicate MAX_VFS_PIPE_BYTES 0, pb_len = 0\<rparr>"

definition pipe_is_empty :: "vfs_pipe_buffer \<Rightarrow> bool" where
  "pipe_is_empty p \<longleftrightarrow> pb_len p = 0"

text \<open>
  \<^verbatim>\<open>splice\<close> is the copy loop
  \<^verbatim>\<open>while i < src.len() { dst[at + i] = src[i]; i += 1 }\<close>.
\<close>

fun splice :: "'a list \<Rightarrow> nat \<Rightarrow> 'a list \<Rightarrow> 'a list" where
  "splice dst at [] = dst"
| "splice dst at (x # xs) = splice (dst[at := x]) (Suc at) xs"

definition pipe_enqueue :: "vfs_pipe_buffer \<Rightarrow> u8 list \<Rightarrow> vfs_pipe_buffer \<times> (ipc_error, nat) result" where
  "pipe_enqueue p bytes =
    (if \<not> pipe_is_empty p then (p, Inl VfsBusy)
     else if length bytes > length (pb_bytes p) then (p, Inl VfsNoSpace)
     else (p\<lparr>pb_bytes := splice (pb_bytes p) 0 bytes, pb_len := length bytes\<rparr>, Inr (length bytes)))"

record vfs_memory_file =
  mf_name :: string
  mf_bytes :: "u8 list"
  mf_len :: nat

definition vfs_memory_file_empty :: vfs_memory_file where
  "vfs_memory_file_empty =
    \<lparr>mf_name = '''', mf_bytes = replicate MAX_VFS_MEM_FILE_BYTES 0, mf_len = 0\<rparr>"

definition vfs_memory_file_new :: "string \<Rightarrow> u8 list \<Rightarrow> (init_error, vfs_memory_file) result" where
  "vfs_memory_file_new n initial =
    (if length initial > MAX_VFS_MEM_FILE_BYTES then Inl InvalidBootManifest
     else Inr (vfs_memory_file_empty\<lparr>mf_name := n,
       mf_bytes := splice (mf_bytes vfs_memory_file_empty) 0 initial, mf_len := length initial\<rparr>))"

section \<open>Descriptions, locks and events\<close>

record open_file_description =
  ofd_id :: file_description_id
  ofd_node :: vfs_node_id
  ofd_rights :: u64
  ofd_flags :: u64
  ofd_offset :: u64
  ofd_ref_count :: u64
  ofd_owner :: process_id
  ofd_authority_cap_id :: u64
  ofd_watch_cursor :: nat

definition open_file_description_new :: "file_description_id \<Rightarrow> vfs_node_id \<Rightarrow> u64 \<Rightarrow> u64 \<Rightarrow> process_id
    \<Rightarrow> u64 \<Rightarrow> nat \<Rightarrow> open_file_description" where
  "open_file_description_new i node rights flags own cap cursor =
    \<lparr>ofd_id = i, ofd_node = node, ofd_rights = rights, ofd_flags = flags, ofd_offset = 0,
     ofd_ref_count = 1, ofd_owner = own, ofd_authority_cap_id = cap, ofd_watch_cursor = cursor\<rparr>"

datatype vfs_lock_mode = LockShared | LockExclusive

record vfs_lock =
  lk_node :: vfs_node_id
  lk_owner :: process_id
  lk_description :: file_description_id
  lk_mode :: vfs_lock_mode
  lk_start :: u64
  lk_len :: u64

record vfs_event =
  ve_parent :: vfs_node_id
  ve_kind :: u64
  ve_name :: vfs_name
  ve_metadata_version :: u64

section \<open>VertexFS files and cached pages\<close>

record vertexfs_inode =
  ino_id :: u32
  ino_kind :: u16
  ino_size :: u64
  ino_first_sector :: u64
  ino_sector_count :: u32
  ino_checksum :: u32
  ino_parent :: u32

record vertexfs_file =
  vx_name :: string
  vx_vfs_name :: vfs_name
  vx_inode_id :: u32
  vx_parent_inode_id :: u32
  vx_first_sector :: u64
  vx_sector_count :: u32
  vx_bytes :: "u8 list"
  vx_len :: nat
  vx_dirty :: bool
  vx_checksum :: u32

fun checksum32_from :: "u32 \<Rightarrow> nat \<Rightarrow> u8 list \<Rightarrow> u32" where
  "checksum32_from acc i [] = acc"
| "checksum32_from acc i (b # bs) = checksum32_from (acc + ucast b * (of_nat i + 1)) (Suc i) bs"

definition vertexfs_checksum32 :: "u8 list \<Rightarrow> u32" where
  "vertexfs_checksum32 bytes = checksum32_from 0 0 bytes"

definition vertexfs_file_empty :: vertexfs_file where
  "vertexfs_file_empty =
    \<lparr>vx_name = '''', vx_vfs_name = vfs_name_empty, vx_inode_id = 0, vx_parent_inode_id = 0,
     vx_first_sector = 0, vx_sector_count = 0, vx_bytes = replicate MAX_VERTEXFS_FILE_BYTES 0,
     vx_len = 0, vx_dirty = False, vx_checksum = 0\<rparr>"

definition vertexfs_file_new :: "string \<Rightarrow> u8 list \<Rightarrow> vertexfs_inode option
    \<Rightarrow> (init_error, vertexfs_file) result" where
  "vertexfs_file_new n initial inode =
    (if length initial > MAX_VERTEXFS_FILE_BYTES then Inl InvalidBootManifest
     else case vfs_name_from_static n of
       Inl e \<Rightarrow> Inl e
     | Inr vname \<Rightarrow>
        (let file = vertexfs_file_empty\<lparr>vx_name := n, vx_vfs_name := vname\<rparr>;
             file = (case inode of
                 Some ino \<Rightarrow> file\<lparr>vx_inode_id := ino_id ino, vx_parent_inode_id := ino_parent ino,
                    vx_first_sector := ino_first_sector ino, vx_sector_count := ino_sector_count ino\<rparr>
               | None \<Rightarrow> file)
         in Inr (file\<lparr>vx_bytes := splice (vx_bytes file) 0 initial, vx_len := length initial,
                      vx_checksum := vertexfs_checksum32 initial\<rparr>)))"

record vfs_page =
  pg_valid :: bool
  pg_dirty :: bool
  pg_pinned :: bool
  pg_writeback :: bool
  pg_writeback_error :: bool
  pg_mount_id :: u64
  pg_inode_id :: u32
  pg_backing :: nat
  pg_page_offset :: u64
  pg_len :: nat
  pg_bytes :: "u8 list"

definition vfs_page_empty :: vfs_page where
  "vfs_page_empty =
    \<lparr>pg_valid = False, pg_dirty = False, pg_pinned = False, pg_writeback = False,
     pg_writeback_error = False, pg_mount_id = 0, pg_inode_id = 0, pg_backing = 0,
     pg_page_offset = 0, pg_len = 0, pg_bytes = replicate VERTEXFS_SECTOR_SIZE 0\<rparr>"

record vfs_page_cache_stats =
  ps_read_hits :: u64
  ps_read_misses :: u64
  ps_readahead_hits :: u64
  ps_clean_evictions :: u64
  ps_dirty_eviction_blocks :: u64
  ps_dirty_limit_rejections :: u64
  ps_writeback_started :: u64
  ps_writeback_completed :: u64
  ps_writeback_errors :: u64
  ps_high_water_dirty_bytes :: nat
  ps_last_read_valid :: bool
  ps_last_read_backing :: nat
  ps_last_read_next_offset :: u64
  ps_last_read_page_offset :: u64

definition vfs_page_cache_stats_empty :: vfs_page_cache_stats where
  "vfs_page_cache_stats_empty =
    \<lparr>ps_read_hits = 0, ps_read_misses = 0, ps_readahead_hits = 0, ps_clean_evictions = 0,
     ps_dirty_eviction_blocks = 0, ps_dirty_limit_rejections = 0, ps_writeback_started = 0,
     ps_writeback_completed = 0, ps_writeback_errors = 0, ps_high_water_dirty_bytes = 0,
     ps_last_read_valid = False, ps_last_read_backing = 0, ps_last_read_next_offset = 0,
     ps_last_read_page_offset = 0\<rparr>"

section \<open>The VFS tables of the runtime state\<close>

record vfs_tables =
  vt_nodes :: "vfs_node option list"
  vt_node_count :: nat
  vt_next_node_id :: u64
  vt_next_metadata_version :: u64
  vt_mem_files :: "vfs_memory_file list"
  vt_mem_file_count :: nat
  vt_image :: "u8 list"
  vt_image_loaded :: bool
  vt_vx_files :: "vertexfs_file list"
  vt_vx_file_count :: nat
  vt_pages :: "vfs_page list"
  vt_page_stats :: vfs_page_cache_stats
  vt_descriptions :: "open_file_description option list"
  vt_next_description_id :: u64
  vt_locks :: "vfs_lock option list"
  vt_events :: "vfs_event list"
  vt_pipe :: vfs_pipe_buffer

definition vfs_tables_new :: vfs_tables where
  "vfs_tables_new =
    \<lparr>vt_nodes = replicate MAX_VFS_NODES None, vt_node_count = 0, vt_next_node_id = 1,
     vt_next_metadata_version = 1,
     vt_mem_files = replicate MAX_VFS_MEM_FILES vfs_memory_file_empty, vt_mem_file_count = 0,
     vt_image = replicate VERTEXFS_IMAGE_BYTES 0, vt_image_loaded = False,
     vt_vx_files = replicate MAX_VERTEXFS_FILES vertexfs_file_empty, vt_vx_file_count = 0,
     vt_pages = replicate MAX_VERTEXFS_PAGE_CACHE_PAGES vfs_page_empty,
     vt_page_stats = vfs_page_cache_stats_empty,
     vt_descriptions = replicate MAX_OPEN_FILE_DESCRIPTIONS None, vt_next_description_id = 1,
     vt_locks = replicate MAX_VFS_LOCKS None, vt_events = [], vt_pipe = vfs_pipe_buffer_empty\<rparr>"

section \<open>Copying into a buffer\<close>

lemma splice_eq:
  "at + length src \<le> length dst \<Longrightarrow> splice dst at src = take at dst @ src @ drop (at + length src) dst"
proof (induction src arbitrary: dst at)
  case (Cons x xs)
  then have "splice dst at (x # xs) = take (Suc at) (dst[at := x]) @ xs @ drop (Suc at + length xs) (dst[at := x])"
    by simp
  also have "take (Suc at) (dst[at := x]) = take at dst @ [x]"
    using Cons.prems by (simp add: take_Suc_conv_app_nth)
  finally show ?case
    by simp
qed simp

lemma length_splice [simp]: "length (splice dst at src) = length dst"
  by (induction src arbitrary: dst at) simp_all

lemma nth_splice:
  assumes "at + length src \<le> length dst" "i < length dst"
  shows "splice dst at src ! i = (if at \<le> i \<and> i < at + length src then src ! (i - at) else dst ! i)"
  using assms by (auto simp: splice_eq nth_append min_def)

end
