(* ===== verification/Keyed_Slots.thy ===== *)
theory Keyed_Slots
  imports Slot_Table
begin

text \<open>
  Tables of optional entries that are looked up by a key field: the scan
  \<^verbatim>\<open>while i < N { if let Some(x) = t[i] && x.id == id { return Some(x) } i += 1 }\<close>
  and how filling, clearing or rewriting a slot changes what it finds.
\<close>

definition find_by :: "('a \<Rightarrow> 'k) \<Rightarrow> 'k \<Rightarrow> 'a option list \<Rightarrow> 'a option" where
  "find_by f k xs = first_some (\<lambda>x. case x of Some a \<Rightarrow> if f a = k then Some a else None | None \<Rightarrow> None) xs"

definition unique_by :: "('a \<Rightarrow> 'k) \<Rightarrow> 'a option list \<Rightarrow> bool" where
  "unique_by f xs \<longleftrightarrow>
    (\<forall>i j a b. i < length xs \<longrightarrow> j < length xs \<longrightarrow> xs ! i = Some a \<longrightarrow> xs ! j = Some b \<longrightarrow> f a = f b \<longrightarrow> i = j)"

lemma find_by_Nil [simp]: "find_by f k [] = None"
  by (simp add: find_by_def)

lemma find_by_Cons [simp]:
  "find_by f k (x # xs) = (case x of Some a \<Rightarrow> if f a = k then Some a else find_by f k xs | None \<Rightarrow> find_by f k xs)"
  by (simp add: find_by_def split: option.split)

lemma find_by_None: "find_by f k xs = None \<longleftrightarrow> (\<forall>a. Some a \<in> set xs \<longrightarrow> f a \<noteq> k)"
  by (induction xs) (auto split: option.splits)

lemma find_by_SomeD: "find_by f k xs = Some a \<Longrightarrow> Some a \<in> set xs \<and> f a = k"
  by (induction xs) (auto split: option.splits if_splits)

lemma unique_byD:
  assumes "unique_by f xs" "i < length xs" "j < length xs" "xs ! i = Some a" "xs ! j = Some b" "f a = f b"
  shows "i = j" and "a = b"
proof -
  show "i = j"
    using assms unfolding unique_by_def by blast
  with assms(4,5) show "a = b"
    by simp
qed

lemma find_by_mem:
  assumes "unique_by f xs" "Some a \<in> set xs"
  shows "find_by f (f a) xs = Some a"
proof -
  obtain i where i: "i < length xs" "xs ! i = Some a"
    using assms(2) by (auto simp: in_set_conv_nth)
  obtain b where b: "find_by f (f a) xs = Some b"
    using assms(2) find_by_None [of f "f a" xs] by (cases "find_by f (f a) xs") auto
  then obtain j where "j < length xs" "xs ! j = Some b" "f b = f a"
    using find_by_SomeD [OF b] by (auto simp: in_set_conv_nth)
  with i have "b = a"
    using unique_byD(2) [OF assms(1)] by metis
  with b show ?thesis
    by simp
qed

lemma find_by_iff:
  assumes "unique_by f xs"
  shows "find_by f k xs = Some a \<longleftrightarrow> Some a \<in> set xs \<and> f a = k"
  using find_by_mem [OF assms] find_by_SomeD [of f k xs a] by blast

lemma find_by_cong:
  assumes "unique_by f xs" "unique_by f ys" "\<And>a. f a = k \<Longrightarrow> Some a \<in> set xs \<longleftrightarrow> Some a \<in> set ys"
  shows "find_by f k xs = find_by f k ys"
proof (cases "find_by f k xs")
  case None
  then have "find_by f k ys = None"
    using assms(3) by (auto simp: find_by_None)
  with None show ?thesis
    by simp
next
  case (Some a)
  then have "find_by f k ys = Some a"
    using assms by (auto simp: find_by_iff)
  with Some show ?thesis
    by simp
qed

lemma unique_by_restrict:
  assumes "unique_by f xs" "length ys = length xs"
    and "\<And>i b. i < length xs \<Longrightarrow> ys ! i = Some b \<Longrightarrow> \<exists>a. xs ! i = Some a \<and> f a = f b"
  shows "unique_by f ys"
  using assms unfolding unique_by_def by metis

lemma unique_by_clear: "unique_by f xs \<Longrightarrow> unique_by f (xs[i := None])"
  by (erule unique_by_restrict) (auto simp: nth_update split: if_splits)

lemma unique_by_take: "unique_by f xs \<Longrightarrow> unique_by f (take n xs)"
  by (auto simp: unique_by_def)

lemma unique_by_replicate_None [simp]: "unique_by f (replicate n None)"
  by (simp add: unique_by_def)

lemma unique_by_fill:
  assumes "unique_by f xs" "\<And>b. Some b \<in> set xs \<Longrightarrow> f b \<noteq> f a"
  shows "unique_by f (xs[i := Some a])"
  unfolding unique_by_def
proof (intro allI impI)
  fix j k b c
  assume jk: "j < length (xs[i := Some a])" "k < length (xs[i := Some a])" "xs[i := Some a] ! j = Some b"
    "xs[i := Some a] ! k = Some c" "f b = f c"
  consider "j = i" "k = i" | "j = i" "k \<noteq> i" | "j \<noteq> i" "k = i" | "j \<noteq> i" "k \<noteq> i"
    by blast
  then show "j = k"
  proof cases
    case 2
    then show ?thesis
      using jk assms(2) [of c] nth_mem [of k xs] by (simp add: nth_update)
  next
    case 3
    then show ?thesis
      using jk assms(2) [of b] nth_mem [of j xs] by (simp add: nth_update)
  next
    case 4
    then show ?thesis
      using jk assms(1) by (simp add: nth_update unique_by_def)
  qed simp
qed

lemma some_mem_fill:
  assumes "i < length xs" "xs ! i = None"
  shows "Some b \<in> set (xs[i := Some a]) \<longleftrightarrow> b = a \<or> Some b \<in> set xs"
  using assms by (auto simp: in_set_conv_nth nth_update) (metis option.distinct(1))+

lemma some_mem_clear:
  assumes "unique_by f xs" "i < length xs" "xs ! i = Some a"
  shows "Some b \<in> set (xs[i := None]) \<longleftrightarrow> f b \<noteq> f a \<and> Some b \<in> set xs"
proof -
  have "Some b \<in> set (xs[i := None]) \<longleftrightarrow> (\<exists>j < length xs. j \<noteq> i \<and> xs ! j = Some b)"
    by (auto simp: in_set_conv_nth nth_update assms(2))
  also have "\<dots> \<longleftrightarrow> f b \<noteq> f a \<and> Some b \<in> set xs"
  proof (intro iffI conjI)
    assume "\<exists>j < length xs. j \<noteq> i \<and> xs ! j = Some b"
    then obtain j where j: "j < length xs" "j \<noteq> i" "xs ! j = Some b"
      by blast
    then show "f b \<noteq> f a"
      using unique_byD(1) [OF assms(1) j(1) assms(2) j(3) assms(3)] by blast
    from j show "Some b \<in> set xs"
      by (metis nth_mem)
  next
    assume b: "f b \<noteq> f a \<and> Some b \<in> set xs"
    then obtain j where "j < length xs" "xs ! j = Some b"
      by (auto simp: in_set_conv_nth)
    moreover from this b assms(3) have "j \<noteq> i"
      by auto
    ultimately show "\<exists>j < length xs. j \<noteq> i \<and> xs ! j = Some b"
      by blast
  qed
  finally show ?thesis .
qed

lemma find_by_fill:
  assumes "unique_by f xs" "i < length xs" "xs ! i = None" "\<And>b. Some b \<in> set xs \<Longrightarrow> f b \<noteq> f a"
  shows "find_by f k (xs[i := Some a]) = (if k = f a then Some a else find_by f k xs)"
proof (cases "k = f a")
  case True
  then show ?thesis
    using find_by_mem [OF unique_by_fill [OF assms(1,4)], of a i] some_mem_fill [OF assms(2,3), of a a] by simp
next
  case False
  then show ?thesis
    using some_mem_fill [OF assms(2,3)] unique_by_fill [OF assms(1,4)] assms(1)
    by (auto intro!: find_by_cong)
qed

lemma find_by_clear:
  assumes "unique_by f xs" "i < length xs" "xs ! i = Some a"
  shows "find_by f k (xs[i := None]) = (if k = f a then None else find_by f k xs)"
proof (cases "k = f a")
  case True
  then show ?thesis
    using some_mem_clear [OF assms] by (simp add: find_by_None)
next
  case False
  then show ?thesis
    using some_mem_clear [OF assms] assms(1) by (auto intro!: find_by_cong unique_by_clear)
qed

lemma find_by_update:
  assumes "xs ! i = Some a" "i < length xs" "f b = f a" "unique_by f xs"
  shows "find_by f k (xs[i := Some b]) = (if k = f a then Some b else find_by f k xs)"
proof -
  let ?ys = "xs[i := None]"
  have "find_by f k (?ys[i := Some b]) = (if k = f b then Some b else find_by f k ?ys)"
    using assms some_mem_clear [OF assms(4,2,1)] by (intro find_by_fill) (auto intro: unique_by_clear)
  then show ?thesis
    using assms find_by_clear [OF assms(4,2,1), of k] by simp
qed

lemma find_by_append:
  "find_by f k (xs @ ys) = (case find_by f k xs of Some a \<Rightarrow> Some a | None \<Rightarrow> find_by f k ys)"
  by (induction xs) (simp_all split: option.split)

lemma find_by_take:
  assumes "\<And>j. n \<le> j \<Longrightarrow> j < length xs \<Longrightarrow> xs ! j = None"
  shows "find_by f k (take n xs) = find_by f k xs"
proof -
  have "Some a \<notin> set (drop n xs)" for a
  proof
    assume "Some a \<in> set (drop n xs)"
    then obtain j where "j < length (drop n xs)" "drop n xs ! j = Some a"
      by (metis in_set_conv_nth)
    then show False
      using assms [of "n + j"] by simp
  qed
  then have "find_by f k (drop n xs) = None"
    by (simp add: find_by_None)
  then show ?thesis
    using find_by_append [of f k "take n xs" "drop n xs"] by (simp split: option.splits)
qed

end
