(* ===== verification/Vfs_Tables.thy ===== *)
theory Vfs_Tables
  imports Vfs_Types Keyed_Slots
begin

text \<open>
  The operations of \<^verbatim>\<open>RuntimeState\<close>
  (\<^verbatim>\<open>ipc/runtime_state.rs\<close>) on nodes, volatile files, open file
  descriptions, locks and events: node allocation and lookup, the life of a
  file whose name is gone while it is still open, advisory locks, and the
  bounded event log with its per-description cursors.
\<close>

section \<open>Nodes\<close>

abbreviation live_nodes :: "vfs_tables \<Rightarrow> vfs_node option list" where
  "live_nodes v \<equiv> take (vt_node_count v) (vt_nodes v)"

definition allocate_vfs_metadata_version :: "vfs_tables \<Rightarrow> vfs_tables \<times> u64" where
  "allocate_vfs_metadata_version v =
    (let version = vt_next_metadata_version v
     in (v\<lparr>vt_next_metadata_version := saturating_add version 1\<rparr>, version))"

definition add_vfs_node_with_name :: "vfs_tables \<Rightarrow> vfs_name \<Rightarrow> vfs_node_id option \<Rightarrow> vfs_node_kind
    \<Rightarrow> vfs_backing \<Rightarrow> string \<Rightarrow> vfs_tables \<times> (init_error, vfs_node_id) result" where
  "add_vfs_node_with_name v name parent kind backing mount_source =
    (case first_index (\<lambda>x. x = None) (vt_nodes v) of
       None \<Rightarrow> (v, Inl ObjectTableFull)
     | Some slot \<Rightarrow>
        (let i = vt_next_node_id v;
             v = v\<lparr>vt_next_node_id := saturating_add i 1\<rparr>;
             (v, version) = allocate_vfs_metadata_version v;
             node = \<lparr>vn_id = i, vn_name = name, vn_parent = parent, vn_kind = kind, vn_backing = backing,
                     vn_mount_source = mount_source, vn_metadata_version = version\<rparr>
         in (v\<lparr>vt_nodes := (vt_nodes v)[slot := Some node],
               vt_node_count := (if vt_node_count v \<le> slot then slot + 1 else vt_node_count v)\<rparr>, Inr i)))"

definition add_vfs_node :: "vfs_tables \<Rightarrow> string \<Rightarrow> vfs_node_id option \<Rightarrow> vfs_node_kind
    \<Rightarrow> vfs_backing \<Rightarrow> string \<Rightarrow> vfs_tables \<times> (init_error, vfs_node_id) result" where
  "add_vfs_node v name parent kind backing mount_source =
    (case vfs_name_from_static name of
       Inl e \<Rightarrow> (v, Inl e)
     | Inr n \<Rightarrow> add_vfs_node_with_name v n parent kind backing mount_source)"

definition node_backed_by :: "vfs_backing \<Rightarrow> vfs_node option \<Rightarrow> bool" where
  "node_backed_by b x \<longleftrightarrow> (case x of Some node \<Rightarrow> vn_backing node = b | None \<Rightarrow> False)"

definition touch_backed_nodes :: "vfs_tables \<Rightarrow> vfs_backing \<Rightarrow> vfs_tables \<times> (ipc_error, u64) result" where
  "touch_backed_nodes v b =
    (if \<not> list_ex (node_backed_by b) (live_nodes v) then (v, Inl VfsBadHandle)
     else let (v, version) = allocate_vfs_metadata_version v
          in (v\<lparr>vt_nodes :=
                map (\<lambda>x. if node_backed_by b x then map_option (vn_metadata_version_update (\<lambda>_. version)) x else x)
                  (live_nodes v) @ drop (vt_node_count v) (vt_nodes v)\<rparr>, Inr version))"

definition touch_vfs_memory_file_nodes :: "vfs_tables \<Rightarrow> nat \<Rightarrow> vfs_tables \<times> (ipc_error, u64) result" where
  "touch_vfs_memory_file_nodes v backing = touch_backed_nodes v (BackedMemoryFile backing)"

definition touch_vertexfs_file_nodes :: "vfs_tables \<Rightarrow> nat \<Rightarrow> vfs_tables \<times> (ipc_error, u64) result" where
  "touch_vertexfs_file_nodes v backing = touch_backed_nodes v (BackedVertexFsFile backing)"

definition vfs_node_of :: "vfs_tables \<Rightarrow> vfs_node_id \<Rightarrow> vfs_node option" where
  "vfs_node_of v i =
    first_some (\<lambda>x. case x of Some node \<Rightarrow> if vn_id node = i then Some node else None | None \<Rightarrow> None)
      (live_nodes v)"

definition vfs_node_by_parent_name :: "vfs_tables \<Rightarrow> vfs_node_id \<Rightarrow> u8 list \<Rightarrow> vfs_node option" where
  "vfs_node_by_parent_name v parent name =
    first_some (\<lambda>x. case x of
        Some node \<Rightarrow> if vn_parent node = Some parent \<and> vfs_name_as_bytes (vn_name node) = name then Some node else None
      | None \<Rightarrow> None) (live_nodes v)"

fun scan_component :: "u8 list \<Rightarrow> u8 list \<times> u8 list" where
  "scan_component [] = ([], [])"
| "scan_component (b # bs) = (if b = slash then ([], b # bs) else let (c, r) = scan_component bs in (b # c, r))"

lemma scan_component_length: "scan_component p = (c, r) \<Longrightarrow> length r \<le> length p"
  by (induction p arbitrary: c r) (fastforce split: if_splits prod.splits)+

text \<open>
  \<^verbatim>\<open>walk_components\<close> is the loop of
  \<^verbatim>\<open>vfs_node_by_path_from\<close> on the suffix of the path from
  \<^verbatim>\<open>start\<close>: each round takes one component, up to the next slash.
\<close>

function walk_components :: "vfs_tables \<Rightarrow> vfs_node \<Rightarrow> u8 list \<Rightarrow> vfs_node option" where
  "walk_components v node path =
    (case scan_component path of
       (name, rest) \<Rightarrow>
         if name = [] then None
         else case vfs_node_by_parent_name v (vn_id node) name of
           None \<Rightarrow> None
         | Some child \<Rightarrow> (case rest of [] \<Rightarrow> Some child | _ # tail \<Rightarrow> walk_components v child tail))"
  by auto
termination
  by (relation "measure (\<lambda>(v, node, path). length path)")
     (auto dest!: scan_component_length [OF sym])

declare walk_components.simps [simp del]

definition vfs_node_by_path_from :: "vfs_tables \<Rightarrow> vfs_node \<Rightarrow> u8 list \<Rightarrow> vfs_node option" where
  "vfs_node_by_path_from v node path =
    (case path of [] \<Rightarrow> Some node | b # bs \<Rightarrow> if b \<noteq> slash then None else walk_components v node bs)"

definition VFS_MOUNT_BIND :: u64 where "VFS_MOUNT_BIND = push_bit 1 1"

definition vfs_node_by_bind_mount_path :: "object_table \<Rightarrow> vfs_tables \<Rightarrow> u8 list \<Rightarrow> vfs_node option" where
  "vfs_node_by_bind_mount_path objs v path =
    (case get_vfs_mount_by_path objs path of
       None \<Rightarrow> None
     | Some mnt \<Rightarrow>
        if vm_flags mnt AND VFS_MOUNT_BIND = 0 then None
        else let root_path = vfs_path_as_bytes (vm_root_path mnt)
             in case vfs_node_of v (vm_root_node mnt) of
                  None \<Rightarrow> None
                | Some root \<Rightarrow>
                    if length path = length root_path then Some root
                    else vfs_node_by_path_from v root (drop (length root_path) path))"

definition vfs_node_by_path :: "object_table \<Rightarrow> vfs_tables \<Rightarrow> u8 list \<Rightarrow> vfs_node option" where
  "vfs_node_by_path objs v path =
    (case vfs_node_by_bind_mount_path objs v path of
       Some node \<Rightarrow> Some node
     | None \<Rightarrow>
        if path = [slash] then vt_nodes v ! 0
        else case path of
            [] \<Rightarrow> None
          | b # _ \<Rightarrow>
              if b \<noteq> slash then None
              else case vt_nodes v ! 0 of None \<Rightarrow> None | Some root \<Rightarrow> vfs_node_by_path_from v root path)"

definition vfs_node_index :: "vfs_tables \<Rightarrow> vfs_node_id \<Rightarrow> nat option" where
  "vfs_node_index v i =
    first_index (\<lambda>x. case x of Some node \<Rightarrow> vn_id node = i | None \<Rightarrow> False) (live_nodes v)"

definition vfs_node_has_children :: "vfs_tables \<Rightarrow> vfs_node_id \<Rightarrow> bool" where
  "vfs_node_has_children v i \<longleftrightarrow>
    list_ex (\<lambda>x. case x of Some node \<Rightarrow> vn_parent node = Some i | None \<Rightarrow> False) (live_nodes v)"

definition vfs_child_by_entry_index :: "vfs_tables \<Rightarrow> vfs_node_id \<Rightarrow> nat \<Rightarrow> vfs_node option" where
  "vfs_child_by_entry_index v parent entry_index =
    (let children = filter (\<lambda>x. case x of Some node \<Rightarrow> vn_parent node = Some parent | None \<Rightarrow> False) (live_nodes v)
     in if entry_index < length children then children ! entry_index else None)"

definition vfs_node_has_open_description :: "vfs_tables \<Rightarrow> vfs_node_id \<Rightarrow> bool" where
  "vfs_node_has_open_description v i \<longleftrightarrow>
    list_ex (\<lambda>x. case x of Some d \<Rightarrow> ofd_node d = i | None \<Rightarrow> False) (vt_descriptions v)"

text \<open>
  The parent walk of \<^verbatim>\<open>vfs_node_is_descendant_or_self\<close> has no
  bound of its own: its value is \<^const>\<open>None\<close> where the parent links
  never reach a root.
\<close>

partial_function (option) vfs_node_is_descendant_or_self ::
    "vfs_tables \<Rightarrow> vfs_node_id \<Rightarrow> vfs_node_id \<Rightarrow> bool option" where
  "vfs_node_is_descendant_or_self v node root =
    (if node = root then Some True
     else case vfs_node_of v node of
         None \<Rightarrow> Some False
       | Some current \<Rightarrow>
          (case vn_parent current of
             None \<Rightarrow> Some False
           | Some parent \<Rightarrow> vfs_node_is_descendant_or_self v parent root))"

fun subtree_scan :: "vfs_tables \<Rightarrow> vfs_node_id \<Rightarrow> open_file_description option list \<Rightarrow> bool option" where
  "subtree_scan v root [] = Some False"
| "subtree_scan v root (None # ds) = subtree_scan v root ds"
| "subtree_scan v root (Some d # ds) =
    (case vfs_node_is_descendant_or_self v (ofd_node d) root of
       None \<Rightarrow> None
     | Some inside \<Rightarrow> if inside then Some True else subtree_scan v root ds)"

definition vfs_subtree_has_open_description :: "vfs_tables \<Rightarrow> vfs_node_id \<Rightarrow> bool option" where
  "vfs_subtree_has_open_description v root = subtree_scan v root (vt_descriptions v)"

text \<open>\<^verbatim>\<open>trim_count\<close> is the loop \<^verbatim>\<open>while n > 0 && free(n - 1) { n -= 1 }\<close>.\<close>

fun trim_count :: "(nat \<Rightarrow> bool) \<Rightarrow> nat \<Rightarrow> nat" where
  "trim_count p 0 = 0"
| "trim_count p (Suc n) = (if p n then trim_count p n else Suc n)"

definition remove_vfs_node :: "vfs_tables \<Rightarrow> vfs_node_id \<Rightarrow> vfs_tables \<times> (ipc_error, unit) result" where
  "remove_vfs_node v i =
    (case vfs_node_index v i of
       None \<Rightarrow> (v, Inl BadCapability)
     | Some index \<Rightarrow>
        (let nodes = (vt_nodes v)[index := None]
         in (v\<lparr>vt_nodes := nodes, vt_node_count := trim_count (\<lambda>n. nodes ! n = None) (vt_node_count v)\<rparr>, Inr ())))"

definition detach_vfs_node :: "vfs_tables \<Rightarrow> vfs_node_id \<Rightarrow> vfs_tables \<times> (ipc_error, vfs_node) result" where
  "detach_vfs_node v i =
    (case vfs_node_index v i of
       None \<Rightarrow> (v, Inl VfsBadHandle)
     | Some index \<Rightarrow>
        (let (v, version) = allocate_vfs_metadata_version v
         in case vt_nodes v ! index of
              None \<Rightarrow> (v, Inl VfsBadHandle)
            | Some node \<Rightarrow>
               (let node = node\<lparr>vn_parent := None, vn_metadata_version := version\<rparr>
                in (v\<lparr>vt_nodes := (vt_nodes v)[index := Some node]\<rparr>, Inr node))))"

definition rename_vfs_node :: "vfs_tables \<Rightarrow> vfs_node_id \<Rightarrow> vfs_node_id \<Rightarrow> vfs_name
    \<Rightarrow> vfs_tables \<times> (ipc_error, vfs_node) result" where
  "rename_vfs_node v i new_parent new_name =
    (case vfs_node_index v i of
       None \<Rightarrow> (v, Inl VfsBadHandle)
     | Some index \<Rightarrow>
        (let (v, version) = allocate_vfs_metadata_version v
         in case vt_nodes v ! index of
              None \<Rightarrow> (v, Inl VfsBadHandle)
            | Some node \<Rightarrow>
               (let node = node\<lparr>vn_parent := Some new_parent, vn_name := new_name, vn_metadata_version := version\<rparr>
                in (v\<lparr>vt_nodes := (vt_nodes v)[index := Some node]\<rparr>, Inr node))))"

definition vfs_node_for_store_object :: "vfs_tables \<Rightarrow> object_id \<Rightarrow> vfs_node option" where
  "vfs_node_for_store_object v obj =
    first_some (\<lambda>x. if node_backed_by (BackedStoreObject obj) x then x else None) (live_nodes v)"

section \<open>Volatile and VertexFS files\<close>

definition vfs_memory_file_in_use :: "vfs_tables \<Rightarrow> nat \<Rightarrow> bool" where
  "vfs_memory_file_in_use v i \<longleftrightarrow> list_ex (node_backed_by (BackedMemoryFile i)) (live_nodes v)"

definition vertexfs_file_in_use :: "vfs_tables \<Rightarrow> nat \<Rightarrow> bool" where
  "vertexfs_file_in_use v i \<longleftrightarrow> list_ex (node_backed_by (BackedVertexFsFile i)) (live_nodes v)"

definition add_vfs_memory_file :: "vfs_tables \<Rightarrow> string \<Rightarrow> u8 list \<Rightarrow> vfs_tables \<times> (init_error, nat) result" where
  "add_vfs_memory_file v name initial =
    (if vt_mem_file_count v = length (vt_mem_files v) then (v, Inl ObjectTableFull)
     else let index = vt_mem_file_count v
          in case vfs_memory_file_new name initial of
               Inl e \<Rightarrow> (v, Inl e)
             | Inr file \<Rightarrow> (v\<lparr>vt_mem_files := (vt_mem_files v)[index := file], vt_mem_file_count := index + 1\<rparr>, Inr index))"

definition add_vfs_empty_memory_file :: "vfs_tables \<Rightarrow> vfs_tables \<times> (init_error, nat) result" where
  "add_vfs_empty_memory_file v =
    (case first_index (\<lambda>i. \<not> vfs_memory_file_in_use v i) [0 ..< length (vt_mem_files v)] of
       None \<Rightarrow> (v, Inl ObjectTableFull)
     | Some index \<Rightarrow>
        (v\<lparr>vt_mem_files := (vt_mem_files v)[index := vfs_memory_file_empty],
           vt_mem_file_count := (if vt_mem_file_count v \<le> index then index + 1 else vt_mem_file_count v)\<rparr>, Inr index))"

definition release_vfs_memory_file :: "vfs_tables \<Rightarrow> nat \<Rightarrow> vfs_tables \<times> (ipc_error, unit) result" where
  "release_vfs_memory_file v i =
    (if length (vt_mem_files v) \<le> i \<or> vfs_memory_file_in_use v i then (v, Inl BadCapability)
     else (v\<lparr>vt_mem_files := (vt_mem_files v)[i := vfs_memory_file_empty],
             vt_mem_file_count := trim_count (\<lambda>n. \<not> vfs_memory_file_in_use v n) (vt_mem_file_count v)\<rparr>, Inr ()))"

definition backed_link_count :: "vfs_tables \<Rightarrow> vfs_backing \<Rightarrow> u64" where
  "backed_link_count v b =
    of_nat (length (filter (\<lambda>x. node_backed_by b x \<and> (case x of Some node \<Rightarrow> vn_parent node \<noteq> None | None \<Rightarrow> False))
      (live_nodes v)))"

definition vfs_memory_file_link_count :: "vfs_tables \<Rightarrow> nat \<Rightarrow> u64" where
  "vfs_memory_file_link_count v backing = backed_link_count v (BackedMemoryFile backing)"

definition vertexfs_file_link_count :: "vfs_tables \<Rightarrow> nat \<Rightarrow> u64" where
  "vertexfs_file_link_count v backing = backed_link_count v (BackedVertexFsFile backing)"

fun identity_scan :: "vfs_backing \<Rightarrow> vfs_node option list \<Rightarrow> u64 \<Rightarrow> u64" where
  "identity_scan b [] identity = identity"
| "identity_scan b (x # xs) identity =
    identity_scan b xs
      (case x of Some node \<Rightarrow> if vn_backing node = b \<and> vn_id node < identity then vn_id node else identity
       | None \<Rightarrow> identity)"

definition backed_identity :: "vfs_tables \<Rightarrow> vfs_backing \<Rightarrow> vfs_node_id \<Rightarrow> u64" where
  "backed_identity v b fallback =
    (let identity = identity_scan b (live_nodes v) u64_max
     in if identity = u64_max then fallback else identity)"

definition vfs_memory_file_identity :: "vfs_tables \<Rightarrow> nat \<Rightarrow> vfs_node_id \<Rightarrow> u64" where
  "vfs_memory_file_identity v backing fallback = backed_identity v (BackedMemoryFile backing) fallback"

definition vertexfs_file_identity :: "vfs_tables \<Rightarrow> nat \<Rightarrow> vfs_node_id \<Rightarrow> u64" where
  "vertexfs_file_identity v backing fallback =
    (if backing < length (vt_vx_files v) \<and> vx_inode_id (vt_vx_files v ! backing) \<noteq> 0
     then ucast (vx_inode_id (vt_vx_files v ! backing))
     else backed_identity v (BackedVertexFsFile backing) fallback)"

definition vfs_node_link_count :: "vfs_tables \<Rightarrow> vfs_node \<Rightarrow> u64" where
  "vfs_node_link_count v node =
    (case vn_backing node of
       BackedMemoryFile backing \<Rightarrow> vfs_memory_file_link_count v backing
     | BackedVertexFsFile backing \<Rightarrow> vertexfs_file_link_count v backing
     | _ \<Rightarrow> 1)"

definition vfs_node_stat_identity :: "vfs_tables \<Rightarrow> vfs_node \<Rightarrow> u64" where
  "vfs_node_stat_identity v node =
    (case vn_backing node of
       BackedMemoryFile backing \<Rightarrow> vfs_memory_file_identity v backing (vn_id node)
     | BackedVertexFsFile backing \<Rightarrow> vertexfs_file_identity v backing (vn_id node)
     | _ \<Rightarrow> vn_id node)"

definition add_vertexfs_file :: "vfs_tables \<Rightarrow> string \<Rightarrow> u8 list \<Rightarrow> vertexfs_inode option
    \<Rightarrow> vfs_tables \<times> (init_error, nat) result" where
  "add_vertexfs_file v name initial inode =
    (if vt_vx_file_count v = length (vt_vx_files v) then (v, Inl ObjectTableFull)
     else let index = vt_vx_file_count v
          in case vertexfs_file_new name initial inode of
               Inl e \<Rightarrow> (v, Inl e)
             | Inr file \<Rightarrow> (v\<lparr>vt_vx_files := (vt_vx_files v)[index := file], vt_vx_file_count := index + 1\<rparr>, Inr index))"

definition vertexfs_dynamic_inode_in_use :: "vfs_tables \<Rightarrow> u32 \<Rightarrow> bool" where
  "vertexfs_dynamic_inode_in_use v inode_id \<longleftrightarrow>
    list_ex (\<lambda>f. vx_inode_id f = inode_id) (take (vt_vx_file_count v) (vt_vx_files v))"

definition invalidate_vertexfs_page_cache :: "vfs_tables \<Rightarrow> nat \<Rightarrow> vfs_tables" where
  "invalidate_vertexfs_page_cache v backing =
    (let v = v\<lparr>vt_pages := map (\<lambda>p. if pg_valid p \<and> pg_backing p = backing then vfs_page_empty else p) (vt_pages v)\<rparr>
     in if ps_last_read_backing (vt_page_stats v) = backing
        then v\<lparr>vt_page_stats := (vt_page_stats v)\<lparr>ps_last_read_valid := False\<rparr>\<rparr> else v)"

definition release_vertexfs_file :: "vfs_tables \<Rightarrow> nat \<Rightarrow> vfs_tables \<times> (ipc_error, unit) result" where
  "release_vertexfs_file v i =
    (if length (vt_vx_files v) \<le> i \<or> vertexfs_file_in_use v i then (v, Inl BadCapability)
     else let v = invalidate_vertexfs_page_cache v i
          in (v\<lparr>vt_vx_files := (vt_vx_files v)[i := vertexfs_file_empty],
                vt_vx_file_count := trim_count (\<lambda>n. \<not> vertexfs_file_in_use v n) (vt_vx_file_count v)\<rparr>, Inr ()))"

section \<open>Locks\<close>

definition ranges_overlap :: "u64 \<Rightarrow> u64 \<Rightarrow> u64 \<Rightarrow> u64 \<Rightarrow> bool" where
  "ranges_overlap left_start left_len right_start right_len \<longleftrightarrow>
    \<not> (left_len = 0 \<or> right_len = 0) \<and>
    left_start < saturating_add right_start right_len \<and>
    right_start < saturating_add left_start left_len"

fun lock_scan :: "open_file_description \<Rightarrow> vfs_lock_mode \<Rightarrow> u64 \<Rightarrow> u64 \<Rightarrow> nat \<Rightarrow> nat option \<Rightarrow> nat option
    \<Rightarrow> vfs_lock option list \<Rightarrow> (ipc_error, nat option \<times> nat option) result" where
  "lock_scan d mode start len index own_lock free_lock [] = Inr (own_lock, free_lock)"
| "lock_scan d mode start len index own_lock free_lock (x # xs) =
    (case x of
       Some lock \<Rightarrow>
         if lk_description lock = ofd_id d
         then lock_scan d mode start len (Suc index) (Some index) free_lock xs
         else if lk_node lock = ofd_node d \<and> ranges_overlap start len (lk_start lock) (lk_len lock)
               \<and> (mode = LockExclusive \<or> lk_mode lock = LockExclusive)
         then Inl VfsBusy
         else lock_scan d mode start len (Suc index) own_lock free_lock xs
     | None \<Rightarrow>
         lock_scan d mode start len (Suc index) own_lock
           (if free_lock = None then Some index else free_lock) xs)"

definition acquire_vfs_lock :: "vfs_tables \<Rightarrow> open_file_description \<Rightarrow> vfs_lock_mode \<Rightarrow> u64 \<Rightarrow> u64
    \<Rightarrow> vfs_tables \<times> (ipc_error, unit) result" where
  "acquire_vfs_lock v d mode start len =
    (case lock_scan d mode start len 0 None None (vt_locks v) of
       Inl e \<Rightarrow> (v, Inl e)
     | Inr (own_lock, free_lock) \<Rightarrow>
        (let lock = \<lparr>lk_node = ofd_node d, lk_owner = ofd_owner d, lk_description = ofd_id d,
                     lk_mode = mode, lk_start = start, lk_len = len\<rparr>
         in case own_lock of
              Some index \<Rightarrow> (v\<lparr>vt_locks := (vt_locks v)[index := Some lock]\<rparr>, Inr ())
            | None \<Rightarrow>
               (case free_lock of
                  None \<Rightarrow> (v, Inl VfsNoSpace)
                | Some index \<Rightarrow> (v\<lparr>vt_locks := (vt_locks v)[index := Some lock]\<rparr>, Inr ()))))"

definition drop_locks :: "(vfs_lock \<Rightarrow> bool) \<Rightarrow> vfs_lock option list \<Rightarrow> vfs_lock option list" where
  "drop_locks p ls = map (\<lambda>x. case x of Some lock \<Rightarrow> if p lock then None else Some lock | None \<Rightarrow> None) ls"

definition release_vfs_lock :: "vfs_tables \<Rightarrow> file_description_id \<Rightarrow> vfs_tables \<times> bool" where
  "release_vfs_lock v description =
    (v\<lparr>vt_locks := drop_locks (\<lambda>lock. lk_description lock = description) (vt_locks v)\<rparr>,
     list_ex (\<lambda>x. case x of Some lock \<Rightarrow> lk_description lock = description | None \<Rightarrow> False) (vt_locks v))"

definition release_vfs_locks_for_description :: "vfs_tables \<Rightarrow> file_description_id \<Rightarrow> vfs_tables" where
  "release_vfs_locks_for_description v description = fst (release_vfs_lock v description)"

definition release_vfs_locks_for_process :: "vfs_tables \<Rightarrow> process_id \<Rightarrow> vfs_tables" where
  "release_vfs_locks_for_process v pid =
    v\<lparr>vt_locks := drop_locks (\<lambda>lock. lk_owner lock = pid) (vt_locks v)\<rparr>"

section \<open>Open file descriptions\<close>

definition open_file_description_fn :: "vfs_tables \<Rightarrow> vfs_node_id \<Rightarrow> u64 \<Rightarrow> u64 \<Rightarrow> process_id \<Rightarrow> u64
    \<Rightarrow> vfs_tables \<times> (ipc_error, file_description_id) result" where
  "open_file_description_fn v node rights flags own authority_cap_id =
    (case first_index (\<lambda>x. x = None) (vt_descriptions v) of
       None \<Rightarrow> (v, Inl BadCapability)
     | Some index \<Rightarrow>
        (let i = (if vt_next_description_id v = 0 then 1 else vt_next_description_id v);
             d = open_file_description_new i node rights flags own authority_cap_id (length (vt_events v))
         in (v\<lparr>vt_next_description_id := saturating_add i 1,
               vt_descriptions := (vt_descriptions v)[index := Some d]\<rparr>, Inr i)))"

definition is_description :: "file_description_id \<Rightarrow> open_file_description option \<Rightarrow> bool" where
  "is_description i x \<longleftrightarrow> (case x of Some d \<Rightarrow> ofd_id d = i | None \<Rightarrow> False)"

definition file_description :: "vfs_tables \<Rightarrow> file_description_id \<Rightarrow> open_file_description option" where
  "file_description v i = first_some (\<lambda>x. if is_description i x then x else None) (vt_descriptions v)"

definition file_description_mut :: "vfs_tables \<Rightarrow> file_description_id \<Rightarrow> nat option" where
  "file_description_mut v i = first_index (is_description i) (vt_descriptions v)"

definition update_description :: "vfs_tables \<Rightarrow> nat \<Rightarrow> (open_file_description \<Rightarrow> open_file_description) \<Rightarrow> vfs_tables" where
  "update_description v index f =
    v\<lparr>vt_descriptions := (vt_descriptions v)[index := map_option f (vt_descriptions v ! index)]\<rparr>"

definition retain_file_description :: "vfs_tables \<Rightarrow> file_description_id \<Rightarrow> vfs_tables \<times> (ipc_error, unit) result" where
  "retain_file_description v i =
    (case file_description_mut v i of
       None \<Rightarrow> (v, Inl VfsBadHandle)
     | Some index \<Rightarrow>
        (case checked_add (ofd_ref_count (the (vt_descriptions v ! index))) 1 of
           None \<Rightarrow> (v, Inl VfsNoSpace)
         | Some n \<Rightarrow> (update_description v index (ofd_ref_count_update (\<lambda>_. n)), Inr ())))"

definition reap_unlinked_vfs_node_if_idle :: "vfs_tables \<Rightarrow> vfs_node_id \<Rightarrow> vfs_tables" where
  "reap_unlinked_vfs_node_if_idle v i =
    (if vfs_node_has_open_description v i then v
     else case vfs_node_of v i of
         None \<Rightarrow> v
       | Some node \<Rightarrow>
          if vn_parent node \<noteq> None then v
          else case vn_backing node of
              BackedMemoryFile backing \<Rightarrow>
                fst (release_vfs_memory_file (fst (remove_vfs_node v (vn_id node))) backing)
            | BackedVertexFsFile backing \<Rightarrow>
                fst (release_vertexfs_file (fst (remove_vfs_node v (vn_id node))) backing)
            | _ \<Rightarrow> v)"

definition close_description_slot :: "vfs_tables \<Rightarrow> nat \<Rightarrow> vfs_node_id \<Rightarrow> vfs_tables" where
  "close_description_slot v index node =
    reap_unlinked_vfs_node_if_idle (v\<lparr>vt_descriptions := (vt_descriptions v)[index := None]\<rparr>) node"

definition release_file_description :: "vfs_tables \<Rightarrow> file_description_id \<Rightarrow> vfs_tables \<times> (ipc_error, unit) result" where
  "release_file_description v i =
    (case first_index (is_description i) (vt_descriptions v) of
       None \<Rightarrow> (v, Inl VfsBadHandle)
     | Some index \<Rightarrow>
        (let d = the (vt_descriptions v ! index)
         in if ofd_ref_count d \<le> 1
            then (close_description_slot (release_vfs_locks_for_description v i) index (ofd_node d), Inr ())
            else (update_description v index (ofd_ref_count_update (\<lambda>n. n - 1)), Inr ())))"

fun release_owned_from :: "process_id \<Rightarrow> nat list \<Rightarrow> vfs_tables \<Rightarrow> vfs_tables" where
  "release_owned_from pid [] v = v"
| "release_owned_from pid (index # is) v =
    release_owned_from pid is
      (case vt_descriptions v ! index of
         Some d \<Rightarrow> if ofd_owner d = pid then close_description_slot v index (ofd_node d) else v
       | None \<Rightarrow> v)"

definition release_process_file_descriptions :: "vfs_tables \<Rightarrow> process_id \<Rightarrow> vfs_tables" where
  "release_process_file_descriptions v pid =
    release_owned_from pid [0 ..< length (vt_descriptions v)] (release_vfs_locks_for_process v pid)"

section \<open>Events\<close>

definition VFS_EVENT_CREATE :: u64 where "VFS_EVENT_CREATE = 1"
definition VFS_EVENT_RENAME :: u64 where "VFS_EVENT_RENAME = 2"
definition VFS_EVENT_UNLINK :: u64 where "VFS_EVENT_UNLINK = 3"

definition record_vfs_event :: "vfs_tables \<Rightarrow> vfs_node_id \<Rightarrow> u64 \<Rightarrow> vfs_name \<Rightarrow> vfs_tables" where
  "record_vfs_event v parent kind name =
    (let (v, version) = allocate_vfs_metadata_version v;
         event = \<lparr>ve_parent = parent, ve_kind = kind, ve_name = name, ve_metadata_version = version\<rparr>
     in if length (vt_events v) < MAX_VFS_EVENTS then v\<lparr>vt_events := vt_events v @ [event]\<rparr>
        else v\<lparr>vt_events := tl (vt_events v) @ [event],
               vt_descriptions := map (map_option (ofd_watch_cursor_update (\<lambda>c. if 0 < c then c - 1 else c)))
                 (vt_descriptions v)\<rparr>)"

section \<open>Lock tables never grant conflicting ranges\<close>

text \<open>Two locks may be held at once: they are for different descriptions, and
  where they are on one node and their ranges overlap both are shared.\<close>

definition lock_compatible :: "vfs_lock \<Rightarrow> vfs_lock \<Rightarrow> bool" where
  "lock_compatible a b \<longleftrightarrow>
    lk_description a \<noteq> lk_description b \<and>
    (lk_node a = lk_node b \<longrightarrow> ranges_overlap (lk_start a) (lk_len a) (lk_start b) (lk_len b) \<longrightarrow>
      lk_mode a = LockShared \<and> lk_mode b = LockShared)"

definition locks_ok :: "vfs_lock option list \<Rightarrow> bool" where
  "locks_ok ls \<longleftrightarrow>
    (\<forall>i j a b. i < length ls \<longrightarrow> j < length ls \<longrightarrow> i \<noteq> j \<longrightarrow> ls ! i = Some a \<longrightarrow> ls ! j = Some b \<longrightarrow>
      lock_compatible a b)"

lemma ranges_overlap_sym: "ranges_overlap a b c d \<longleftrightarrow> ranges_overlap c d a b"
  by (auto simp: ranges_overlap_def)

lemma lock_compatible_sym: "lock_compatible a b \<longleftrightarrow> lock_compatible b a"
  by (auto simp: lock_compatible_def ranges_overlap_sym)

lemma not_exclusive_iff: "m \<noteq> LockExclusive \<longleftrightarrow> m = LockShared"
  by (cases m) simp_all

lemma lock_scan_grants:
  assumes "lock_scan d mode start len index own free ls = Inr (own', free')"
    and "Some b \<in> set ls" "lk_description b \<noteq> ofd_id d"
  shows "lock_compatible \<lparr>lk_node = ofd_node d, lk_owner = ofd_owner d, lk_description = ofd_id d,
      lk_mode = mode, lk_start = start, lk_len = len\<rparr> b"
  using assms
proof (induction ls arbitrary: index own free)
  case (Cons x xs)
  then show ?case
    by (fastforce split: option.splits if_splits simp: lock_compatible_def not_exclusive_iff [symmetric])
qed simp

text \<open>Slot \<^verbatim>\<open>k\<close> of a scan that started at index \<^verbatim>\<open>i\<close> holds an entry with \<^verbatim>\<open>P\<close>.\<close>

definition found_at :: "('a \<Rightarrow> bool) \<Rightarrow> nat \<Rightarrow> 'a list \<Rightarrow> nat \<Rightarrow> bool" where
  "found_at P i xs k \<longleftrightarrow> i \<le> k \<and> k < i + length xs \<and> P (xs ! (k - i))"

lemma found_at_Nil [simp]: "\<not> found_at P i [] k"
  by (simp add: found_at_def)

lemma found_at_Cons [simp]: "found_at P i (x # xs) k \<longleftrightarrow> k = i \<and> P x \<or> found_at P (Suc i) xs k"
proof (cases "k \<le> i")
  case False
  then have "k - i = Suc (k - Suc i)"
    by simp
  with False show ?thesis
    by (auto simp: found_at_def)
qed (auto simp: found_at_def)

definition owned_lock :: "file_description_id \<Rightarrow> vfs_lock option \<Rightarrow> bool" where
  "owned_lock i x \<longleftrightarrow> (case x of Some lock \<Rightarrow> lk_description lock = i | None \<Rightarrow> False)"

lemma owned_lock_simps [simp]: "\<not> owned_lock i None" "owned_lock i (Some lock) \<longleftrightarrow> lk_description lock = i"
  by (simp_all add: owned_lock_def)

lemma lock_scan_own:
  assumes "lock_scan d mode start len index own free ls = Inr (own', free')"
  shows "own' = None \<Longrightarrow> own = None \<and> \<not> list_ex (owned_lock (ofd_id d)) ls"
    and "own' = Some k \<Longrightarrow> own = Some k \<or> found_at (owned_lock (ofd_id d)) index ls k"
    and "free' = Some k \<Longrightarrow> free = Some k \<or> found_at (\<lambda>x. x = None) index ls k"
  using assms
proof (induction ls arbitrary: index own free)
  case (Cons x xs)
  {
    case 1
    then show ?case
      using Cons.IH(1) by (cases x) (auto split: if_splits)
  next
    case 2
    then show ?case
      using Cons.IH(2) by (cases x) (auto split: if_splits)
  next
    case 3
    then show ?case
      using Cons.IH(3) by (cases x) (auto split: if_splits)
  }
qed simp_all

lemma locks_ok_update:
  assumes "locks_ok ls"
    and others: "\<And>j b. j < length ls \<Longrightarrow> j \<noteq> i \<Longrightarrow> ls ! j = Some b \<Longrightarrow> lock_compatible a b"
  shows "locks_ok (ls[i := Some a])"
proof -
  have "lock_compatible b c"
    if "j < length ls" "k < length ls" "j \<noteq> k" "ls[i := Some a] ! j = Some b" "ls[i := Some a] ! k = Some c"
    for j k b c
  proof -
    consider "j = i" | "k = i" | "j \<noteq> i" "k \<noteq> i"
      by blast
    then show ?thesis
    proof cases
      case 1
      then show ?thesis
        using that others [of k c] by (simp add: nth_update)
    next
      case 2
      then show ?thesis
        using that others [of j b] by (simp add: nth_update lock_compatible_sym)
    next
      case 3
      then show ?thesis
        using that assms(1) by (simp add: locks_ok_def nth_update)
    qed
  qed
  then show ?thesis
    by (simp add: locks_ok_def)
qed

lemma locks_ok_owner_unique:
  assumes "locks_ok ls" "j < length ls" "k < length ls" "owned_lock i (ls ! j)" "owned_lock i (ls ! k)"
  shows "j = k"
proof (rule ccontr)
  assume "j \<noteq> k"
  moreover obtain a b where "ls ! j = Some a" "ls ! k = Some b"
    using assms(4,5) by (auto simp: owned_lock_def split: option.splits)
  ultimately have "lock_compatible a b"
    using assms(1-3) by (simp add: locks_ok_def)
  with assms(4,5) \<open>ls ! j = Some a\<close> \<open>ls ! k = Some b\<close> show False
    by (simp add: lock_compatible_def)
qed

lemma acquire_vfs_lock_ok:
  assumes ok: "locks_ok (vt_locks v)"
  shows "locks_ok (vt_locks (fst (acquire_vfs_lock v d mode start len)))"
proof (cases "lock_scan d mode start len 0 None None (vt_locks v)")
  case (Inl e)
  then show ?thesis
    using ok by (simp add: acquire_vfs_lock_def)
next
  case (Inr r)
  let ?lock = "\<lparr>lk_node = ofd_node d, lk_owner = ofd_owner d, lk_description = ofd_id d,
      lk_mode = mode, lk_start = start, lk_len = len\<rparr>"
  obtain own free where r: "r = (own, free)"
    by (cases r)
  note scan = Inr [unfolded r]
  have grants: "lock_compatible ?lock b"
    if "j < length (vt_locks v)" "vt_locks v ! j = Some b" "\<not> owned_lock (ofd_id d) (vt_locks v ! j)" for j b
    using that lock_scan_grants [OF scan, of b] nth_mem [of j "vt_locks v"] by simp
  have update: "locks_ok ((vt_locks v)[k := Some ?lock])"
    if "\<And>j. j < length (vt_locks v) \<Longrightarrow> j \<noteq> k \<Longrightarrow> \<not> owned_lock (ofd_id d) (vt_locks v ! j)" for k
    using ok that grants by (intro locks_ok_update) blast+
  show ?thesis
  proof (cases own)
    case (Some k)
    then have "found_at (owned_lock (ofd_id d)) 0 (vt_locks v) k"
      using lock_scan_own(2) [OF scan, of k] by simp
    then have "\<not> owned_lock (ofd_id d) (vt_locks v ! j)" if "j < length (vt_locks v)" "j \<noteq> k" for j
      using locks_ok_owner_unique [OF ok that(1), of k] that by (auto simp: found_at_def)
    then show ?thesis
      using scan Some update [of k] by (simp add: acquire_vfs_lock_def)
  next
    case None
    then have "\<not> owned_lock (ofd_id d) (vt_locks v ! j)" if "j < length (vt_locks v)" for j
      using lock_scan_own(1) [OF scan] that by (simp add: list_ex_length)
    then show ?thesis
      using scan None ok update by (simp add: acquire_vfs_lock_def split: option.split)
  qed
qed

lemma drop_locks_ok: "locks_ok ls \<Longrightarrow> locks_ok (drop_locks p ls)"
  by (auto simp: locks_ok_def drop_locks_def split: option.splits if_splits)

section \<open>The invariant of the tables\<close>

definition nodes_inv :: "vfs_tables \<Rightarrow> bool" where
  "nodes_inv v \<longleftrightarrow>
    vt_node_count v \<le> length (vt_nodes v) \<and>
    (\<forall>j. vt_node_count v \<le> j \<longrightarrow> j < length (vt_nodes v) \<longrightarrow> vt_nodes v ! j = None) \<and>
    unique_by vn_id (vt_nodes v) \<and>
    (\<forall>n. Some n \<in> set (vt_nodes v) \<longrightarrow> vn_id n < vt_next_node_id v)"

definition descriptions_inv :: "vfs_tables \<Rightarrow> bool" where
  "descriptions_inv v \<longleftrightarrow>
    length (vt_events v) \<le> MAX_VFS_EVENTS \<and>
    unique_by ofd_id (vt_descriptions v) \<and>
    (\<forall>d. Some d \<in> set (vt_descriptions v) \<longrightarrow>
      ofd_id d < vt_next_description_id v \<and> ofd_watch_cursor d \<le> length (vt_events v))"

definition vfs_inv :: "vfs_tables \<Rightarrow> bool" where
  "vfs_inv v \<longleftrightarrow> nodes_inv v \<and> descriptions_inv v \<and> locks_ok (vt_locks v)"

lemma nodes_invD:
  assumes "nodes_inv v"
  shows "vt_node_count v \<le> length (vt_nodes v)" and "unique_by vn_id (vt_nodes v)"
    and "\<And>j. vt_node_count v \<le> j \<Longrightarrow> j < length (vt_nodes v) \<Longrightarrow> vt_nodes v ! j = None"
    and "\<And>n. Some n \<in> set (vt_nodes v) \<Longrightarrow> vn_id n < vt_next_node_id v"
  using assms by (simp_all add: nodes_inv_def)

lemma vfs_node_of_find:
  assumes "nodes_inv v"
  shows "vfs_node_of v i = find_by vn_id i (vt_nodes v)"
  using find_by_take [OF nodes_invD(3) [OF assms]]
  by (simp add: vfs_node_of_def find_by_def [symmetric])

lemma vfs_node_index_nth:
  assumes "vfs_node_index v i = Some index" "nodes_inv v"
  obtains node where "index < vt_node_count v" "vt_nodes v ! index = Some node" "vn_id node = i"
  using assms nodes_invD(1) [OF assms(2)] by (auto simp: vfs_node_index_def first_index_Some split: option.splits)

lemma vfs_node_index_None:
  assumes "nodes_inv v"
  shows "vfs_node_index v i = None \<longleftrightarrow> vfs_node_of v i = None"
proof -
  have "vfs_node_index v i = None \<longleftrightarrow> (\<forall>n. Some n \<in> set (live_nodes v) \<longrightarrow> vn_id n \<noteq> i)"
    by (auto simp: vfs_node_index_def first_index_None split: option.splits)
  then show ?thesis
    by (simp add: vfs_node_of_def find_by_def [symmetric] find_by_None)
qed

lemma trim_count_le: "trim_count p n \<le> n"
  by (induction n) (simp_all add: le_SucI)

lemma trim_count_trims: "trim_count p n \<le> j \<Longrightarrow> j < n \<Longrightarrow> p j"
  by (induction n) (auto split: if_splits simp: less_Suc_eq)

lemma remove_vfs_node_inv:
  assumes "nodes_inv v"
  shows "nodes_inv (fst (remove_vfs_node v i))"
proof (cases "vfs_node_index v i")
  case (Some index)
  obtain node where node: "index < vt_node_count v" "vt_nodes v ! index = Some node"
    by (rule vfs_node_index_nth [OF Some assms])
  note inv = nodes_invD [OF assms]
  let ?nodes = "(vt_nodes v)[index := None]"
  let ?count = "trim_count (\<lambda>n. ?nodes ! n = None) (vt_node_count v)"
  have "?nodes ! j = None" if "?count \<le> j" "j < length (vt_nodes v)" for j
    using that trim_count_trims [OF that(1)] inv(3) [of j] by (cases "j < vt_node_count v") (auto simp: nth_update)
  moreover have "Some n \<in> set (vt_nodes v)" if "Some n \<in> set ?nodes" for n
    using that set_update_subset_insert [of "vt_nodes v" index None] by auto
  ultimately show ?thesis
    using Some inv trim_count_le [of "\<lambda>n. ?nodes ! n = None" "vt_node_count v"]
    by (simp add: remove_vfs_node_def Let_def nodes_inv_def unique_by_clear)
qed (simp add: remove_vfs_node_def Let_def assms)

lemma remove_vfs_node_find:
  assumes "nodes_inv v"
  shows "vfs_node_of (fst (remove_vfs_node v i)) j = (if j = i then None else vfs_node_of v j)"
proof (cases "vfs_node_index v i")
  case None
  then have "vfs_node_of v i = None"
    using vfs_node_index_None [OF assms] by simp
  with None show ?thesis
    by (simp add: remove_vfs_node_def)
next
  case (Some index)
  obtain node where node: "index < vt_node_count v" "vt_nodes v ! index = Some node" "vn_id node = i"
    by (rule vfs_node_index_nth [OF Some assms])
  have "vt_nodes (fst (remove_vfs_node v i)) = (vt_nodes v)[index := None]"
    using Some by (simp add: remove_vfs_node_def Let_def)
  then show ?thesis
    using node nodes_invD(1,2) [OF assms] find_by_clear [of vn_id "vt_nodes v" index node j]
    by (simp add: vfs_node_of_find assms remove_vfs_node_inv)
qed

lemma remove_vfs_node_fields [simp]:
  "vt_descriptions (fst (remove_vfs_node v i)) = vt_descriptions v"
  "vt_locks (fst (remove_vfs_node v i)) = vt_locks v"
  "vt_events (fst (remove_vfs_node v i)) = vt_events v"
  "vt_next_description_id (fst (remove_vfs_node v i)) = vt_next_description_id v"
  "vt_mem_files (fst (remove_vfs_node v i)) = vt_mem_files v"
  "vt_vx_files (fst (remove_vfs_node v i)) = vt_vx_files v"
  "vt_pages (fst (remove_vfs_node v i)) = vt_pages v"
  by (simp_all add: remove_vfs_node_def Let_def split: option.split)

lemma release_vfs_memory_file_fields [simp]:
  "vt_descriptions (fst (release_vfs_memory_file v i)) = vt_descriptions v"
  "vt_locks (fst (release_vfs_memory_file v i)) = vt_locks v"
  "vt_events (fst (release_vfs_memory_file v i)) = vt_events v"
  "vt_next_description_id (fst (release_vfs_memory_file v i)) = vt_next_description_id v"
  "vt_nodes (fst (release_vfs_memory_file v i)) = vt_nodes v"
  "vt_node_count (fst (release_vfs_memory_file v i)) = vt_node_count v"
  "vt_next_node_id (fst (release_vfs_memory_file v i)) = vt_next_node_id v"
  "vt_vx_files (fst (release_vfs_memory_file v i)) = vt_vx_files v"
  by (simp_all add: release_vfs_memory_file_def)

lemma release_vertexfs_file_fields [simp]:
  "vt_descriptions (fst (release_vertexfs_file v i)) = vt_descriptions v"
  "vt_locks (fst (release_vertexfs_file v i)) = vt_locks v"
  "vt_events (fst (release_vertexfs_file v i)) = vt_events v"
  "vt_next_description_id (fst (release_vertexfs_file v i)) = vt_next_description_id v"
  "vt_nodes (fst (release_vertexfs_file v i)) = vt_nodes v"
  "vt_node_count (fst (release_vertexfs_file v i)) = vt_node_count v"
  "vt_next_node_id (fst (release_vertexfs_file v i)) = vt_next_node_id v"
  "vt_mem_files (fst (release_vertexfs_file v i)) = vt_mem_files v"
  by (simp_all add: release_vertexfs_file_def invalidate_vertexfs_page_cache_def Let_def)

lemma reap_fields [simp]:
  "vt_descriptions (reap_unlinked_vfs_node_if_idle v i) = vt_descriptions v"
  "vt_locks (reap_unlinked_vfs_node_if_idle v i) = vt_locks v"
  "vt_events (reap_unlinked_vfs_node_if_idle v i) = vt_events v"
  "vt_next_description_id (reap_unlinked_vfs_node_if_idle v i) = vt_next_description_id v"
  by (simp_all add: reap_unlinked_vfs_node_if_idle_def split: option.split vfs_backing.split)

lemma reap_nodes_inv:
  assumes "nodes_inv v"
  shows "nodes_inv (reap_unlinked_vfs_node_if_idle v i)"
proof -
  have "nodes_inv (fst (release_vfs_memory_file w j))" "nodes_inv (fst (release_vertexfs_file w j))"
    if "nodes_inv w" for w j
    using that by (simp_all add: nodes_inv_def)
  then show ?thesis
    using assms remove_vfs_node_inv [OF assms]
    by (simp add: reap_unlinked_vfs_node_if_idle_def split: option.split vfs_backing.split)
qed

text \<open>Rewriting a live node in place, keeping its id.\<close>

definition rewrite_node :: "vfs_tables \<Rightarrow> nat \<Rightarrow> vfs_node \<Rightarrow> vfs_tables" where
  "rewrite_node v index node = v\<lparr>vt_nodes := (vt_nodes v)[index := Some node]\<rparr>"

lemma rewrite_node_inv:
  assumes "nodes_inv v" "index < vt_node_count v" "vt_nodes v ! index = Some old" "vn_id node = vn_id old"
  shows "nodes_inv (rewrite_node v index node)"
    and "vfs_node_of (rewrite_node v index node) j = (if j = vn_id old then Some node else vfs_node_of v j)"
proof -
  note inv = nodes_invD [OF assms(1)]
  have len: "index < length (vt_nodes v)"
    using assms(2) inv(1) by simp
  have old: "Some old \<in> set (vt_nodes v)"
    using len assms(3) nth_mem by metis
  have "unique_by vn_id ((vt_nodes v)[index := Some node])"
    using inv(2) assms by (elim unique_by_restrict) (auto simp: nth_update split: if_splits)
  moreover have "vn_id n < vt_next_node_id v" if "Some n \<in> set ((vt_nodes v)[index := Some node])" for n
    using that set_update_subset_insert [of "vt_nodes v" index "Some node"] inv(4) [of n] inv(4) [OF old] assms(4)
    by auto
  ultimately show wf: "nodes_inv (rewrite_node v index node)"
    using inv assms(2) by (simp add: nodes_inv_def rewrite_node_def)
  have "vt_nodes (rewrite_node v index node) = (vt_nodes v)[index := Some node]"
    by (simp add: rewrite_node_def)
  then show "vfs_node_of (rewrite_node v index node) j = (if j = vn_id old then Some node else vfs_node_of v j)"
    using find_by_update [OF assms(3) len assms(4) inv(2), of j]
    by (simp add: vfs_node_of_find [OF wf] vfs_node_of_find [OF assms(1)])
qed

lemma version_inv [simp]:
  "nodes_inv (v\<lparr>vt_next_metadata_version := n\<rparr>) = nodes_inv v"
  "vfs_node_of (v\<lparr>vt_next_metadata_version := n\<rparr>) i = vfs_node_of v i"
  "descriptions_inv (v\<lparr>vt_next_metadata_version := n\<rparr>) = descriptions_inv v"
  by (simp_all add: nodes_inv_def vfs_node_of_def descriptions_inv_def)

lemma vfs_node_index_of:
  assumes "nodes_inv v"
  shows "(case vfs_node_index v i of
      None \<Rightarrow> vfs_node_of v i = None
    | Some index \<Rightarrow> \<exists>node. index < vt_node_count v \<and> vt_nodes v ! index = Some node \<and> vn_id node = i
        \<and> vfs_node_of v i = Some node)"
proof (cases "vfs_node_index v i")
  case None
  then have "vfs_node_of v i = None"
    using vfs_node_index_None [OF assms] by simp
  with None show ?thesis
    by simp
next
  case (Some index)
  obtain node where node: "index < vt_node_count v" "vt_nodes v ! index = Some node" "vn_id node = i"
    by (rule vfs_node_index_nth [OF Some assms])
  then have "Some node \<in> set (vt_nodes v)"
    using nodes_invD(1) [OF assms] nth_mem [of index "vt_nodes v"] by simp
  then have "vfs_node_of v i = Some node"
    using find_by_mem [OF nodes_invD(2) [OF assms]] node(3) by (auto simp: vfs_node_of_find [OF assms])
  with Some node show ?thesis
    by simp
qed

text \<open>Detaching and renaming rewrite the one node and give it a fresh metadata version.\<close>

definition retargeted :: "vfs_tables \<Rightarrow> vfs_node_id \<Rightarrow> (vfs_node \<Rightarrow> vfs_node) \<Rightarrow> vfs_tables \<Rightarrow> bool" where
  "retargeted v i f v' \<longleftrightarrow> nodes_inv v' \<and>
    (\<forall>j. vfs_node_of v' j = (if j = i then map_option f (vfs_node_of v i) else vfs_node_of v j))"

lemma rewrite_retargeted:
  assumes "nodes_inv v" "vfs_node_index v i = Some index" "\<And>n. vn_id (f n) = vn_id n"
  shows "retargeted v i f
    ((v\<lparr>vt_next_metadata_version := k\<rparr>)\<lparr>vt_nodes := (vt_nodes v)[index := Some (f (the (vt_nodes v ! index)))]\<rparr>)"
proof -
  let ?v = "v\<lparr>vt_next_metadata_version := k\<rparr>"
  obtain node where node: "index < vt_node_count v" "vt_nodes v ! index = Some node" "vn_id node = i"
    "vfs_node_of v i = Some node"
    using vfs_node_index_of [OF assms(1), of i] assms(2) by auto
  have "nodes_inv ?v"
    using assms(1) by simp
  note rewrite_node_inv [OF this, of index node "f node"]
  with node assms(1,3) show ?thesis
    by (simp add: retargeted_def rewrite_node_def)
qed

lemma detach_vfs_node_spec:
  assumes "nodes_inv v"
  shows "retargeted v i (\<lambda>n. n\<lparr>vn_parent := None, vn_metadata_version := vt_next_metadata_version v\<rparr>)
    (fst (detach_vfs_node v i))"
proof (cases "vfs_node_index v i")
  case None
  then show ?thesis
    using assms vfs_node_index_of [OF assms, of i] by (simp add: detach_vfs_node_def retargeted_def)
next
  case (Some index)
  then show ?thesis
    using vfs_node_index_of [OF assms, of i] rewrite_retargeted [OF assms Some,
        of "\<lambda>n. n\<lparr>vn_parent := None, vn_metadata_version := vt_next_metadata_version v\<rparr>"]
    by (auto simp: detach_vfs_node_def allocate_vfs_metadata_version_def Let_def)
qed

lemma rename_vfs_node_spec:
  assumes "nodes_inv v"
  shows "retargeted v i (\<lambda>n. n\<lparr>vn_parent := Some p, vn_name := name, vn_metadata_version := vt_next_metadata_version v\<rparr>)
    (fst (rename_vfs_node v i p name))"
proof (cases "vfs_node_index v i")
  case None
  then show ?thesis
    using assms vfs_node_index_of [OF assms, of i] by (simp add: rename_vfs_node_def retargeted_def)
next
  case (Some index)
  then show ?thesis
    using vfs_node_index_of [OF assms, of i] rewrite_retargeted [OF assms Some,
        of "\<lambda>n. n\<lparr>vn_parent := Some p, vn_name := name, vn_metadata_version := vt_next_metadata_version v\<rparr>"]
    by (auto simp: rename_vfs_node_def allocate_vfs_metadata_version_def Let_def)
qed

lemma touch_backed_nodes_inv:
  assumes "nodes_inv v"
  shows "nodes_inv (fst (touch_backed_nodes v b))"
proof -
  let ?f = "\<lambda>x. if node_backed_by b x then map_option (vn_metadata_version_update (\<lambda>_. vt_next_metadata_version v)) x else x"
  let ?ys = "map ?f (live_nodes v) @ drop (vt_node_count v) (vt_nodes v)"
  note inv = nodes_invD [OF assms]
  have nth: "?ys ! j = (if j < vt_node_count v then ?f (vt_nodes v ! j) else vt_nodes v ! j)"
    if "j < length (vt_nodes v)" for j
    using that inv(1) by (simp add: nth_append)
  have len: "length ?ys = length (vt_nodes v)"
    using inv(1) by simp
  have kept: "\<exists>a. vt_nodes v ! j = Some a \<and> vn_id a = vn_id n" if "j < length (vt_nodes v)" "?ys ! j = Some n" for j n
    using that nth [OF that(1)] by (auto split: if_splits)
  have "unique_by vn_id ?ys"
    using inv(2) len kept by (rule unique_by_restrict)
  moreover have "vn_id n < vt_next_node_id v" if n: "Some n \<in> set ?ys" for n
  proof -
    obtain j where j: "j < length (vt_nodes v)" "?ys ! j = Some n"
      using n len by (auto simp only: in_set_conv_nth)
    obtain a where "vt_nodes v ! j = Some a" "vn_id a = vn_id n"
      using kept [OF j] by blast
    then show ?thesis
      using inv(4) [of a] nth_mem [OF j(1)] by simp
  qed
  ultimately have "nodes_inv (v\<lparr>vt_next_metadata_version := k, vt_nodes := ?ys\<rparr>)" for k
    using inv nth by (simp add: nodes_inv_def)
  then show ?thesis
    using assms by (simp add: touch_backed_nodes_def allocate_vfs_metadata_version_def Let_def)
qed

lemma add_vfs_node_spec:
  assumes "nodes_inv v" "vt_next_node_id v \<noteq> u64_max"
  shows "(case add_vfs_node_with_name v name parent kind backing src of
      (v', Inl e) \<Rightarrow> v' = v \<and> e = ObjectTableFull \<and> None \<notin> set (vt_nodes v)
    | (v', Inr i) \<Rightarrow> nodes_inv v' \<and> vfs_node_of v i = None \<and> i = vt_next_node_id v \<and>
        vfs_node_of v' = (vfs_node_of v)(i \<mapsto> \<lparr>vn_id = i, vn_name = name, vn_parent = parent, vn_kind = kind,
          vn_backing = backing, vn_mount_source = src, vn_metadata_version = vt_next_metadata_version v\<rparr>))"
proof (cases "first_index (\<lambda>x. x = None) (vt_nodes v)")
  case None
  then have "None \<notin> set (vt_nodes v)"
    by (auto simp: first_index_None)
  with None show ?thesis
    by (simp add: add_vfs_node_with_name_def)
next
  case (Some slot)
  note inv = nodes_invD [OF assms(1)]
  let ?i = "vt_next_node_id v"
  let ?node = "\<lparr>vn_id = ?i, vn_name = name, vn_parent = parent, vn_kind = kind,
          vn_backing = backing, vn_mount_source = src, vn_metadata_version = vt_next_metadata_version v\<rparr>"
  let ?v = "fst (add_vfs_node_with_name v name parent kind backing src)"
  have slot: "slot < length (vt_nodes v)" "vt_nodes v ! slot = None"
    using first_index_SomeD [OF Some] by simp_all
  have v: "vt_nodes ?v = (vt_nodes v)[slot := Some ?node]" "vt_next_node_id ?v = saturating_add ?i 1"
    "vt_node_count ?v = max (vt_node_count v) (slot + 1)"
    using Some by (simp_all add: add_vfs_node_with_name_def allocate_vfs_metadata_version_def Let_def)
  have below: "vn_id n < saturating_add ?i 1" if "Some n \<in> set (vt_nodes v)" for n
    using inv(4) [OF that] saturating_add_ge order_less_le_trans by blast
  have fresh: "vn_id n \<noteq> vn_id ?node" if "Some n \<in> set (vt_nodes v)" for n
    using inv(4) [OF that] by auto
  have wf: "nodes_inv ?v"
    unfolding nodes_inv_def v
  proof (intro conjI allI impI)
    show "max (vt_node_count v) (slot + 1) \<le> length ((vt_nodes v)[slot := Some ?node])"
      using inv(1) slot by simp
    show "unique_by vn_id ((vt_nodes v)[slot := Some ?node])"
      using inv(2) fresh by (rule unique_by_fill)
    show "vn_id n < saturating_add ?i 1" if "Some n \<in> set ((vt_nodes v)[slot := Some ?node])" for n
      using that below less_saturating_inc [of ?i] assms(2) some_mem_fill [OF slot]
      by (auto simp: u64_max_def)
  qed (use inv in \<open>simp add: nth_update\<close>)
  have "vfs_node_of ?v = (vfs_node_of v)(?i \<mapsto> ?node)"
    using find_by_fill [OF inv(2) slot fresh]
    by (auto simp: fun_eq_iff vfs_node_of_find [OF wf] vfs_node_of_find [OF assms(1)] v(1))
  moreover have "vfs_node_of v ?i = None"
    using fresh by (auto simp: vfs_node_of_find [OF assms(1)] find_by_None)
  moreover have "snd (add_vfs_node_with_name v name parent kind backing src) = Inr ?i"
    using Some by (simp add: add_vfs_node_with_name_def allocate_vfs_metadata_version_def Let_def)
  ultimately show ?thesis
    using wf by (simp add: split_beta)
qed

section \<open>Open descriptions\<close>

lemma descriptions_invD:
  assumes "descriptions_inv v"
  shows "unique_by ofd_id (vt_descriptions v)" "length (vt_events v) \<le> MAX_VFS_EVENTS"
    and "\<And>d. Some d \<in> set (vt_descriptions v) \<Longrightarrow> ofd_id d < vt_next_description_id v"
    and "\<And>d. Some d \<in> set (vt_descriptions v) \<Longrightarrow> ofd_watch_cursor d \<le> length (vt_events v)"
  using assms by (simp_all add: descriptions_inv_def)

lemma file_description_find: "file_description v i = find_by ofd_id i (vt_descriptions v)"
proof -
  have "(\<lambda>x. if is_description i x then x else None) =
      (\<lambda>x. case x of Some d \<Rightarrow> if ofd_id d = i then Some d else None | None \<Rightarrow> None)"
    by (auto simp: fun_eq_iff is_description_def split: option.splits)
  then show ?thesis
    by (simp only: file_description_def find_by_def)
qed

lemma is_description_first:
  assumes "first_index (is_description i) (vt_descriptions v) = Some index"
  obtains d where "index < length (vt_descriptions v)" "vt_descriptions v ! index = Some d" "ofd_id d = i"
  using first_index_SomeD [OF assms] by (auto simp: is_description_def split: option.splits)

text \<open>What an operation may do to the descriptions and keep the invariant: drop
  entries, or rewrite them with the same id and a cursor in range.\<close>

lemma descriptions_inv_restrict:
  assumes "descriptions_inv v" "length (vt_descriptions v') = length (vt_descriptions v)"
    and "vt_next_description_id v' = vt_next_description_id v" "length (vt_events v') \<le> MAX_VFS_EVENTS"
    and kept: "\<And>i d'. i < length (vt_descriptions v) \<Longrightarrow> vt_descriptions v' ! i = Some d' \<Longrightarrow>
      \<exists>d. vt_descriptions v ! i = Some d \<and> ofd_id d = ofd_id d' \<and>
        (ofd_watch_cursor d \<le> length (vt_events v) \<longrightarrow> ofd_watch_cursor d' \<le> length (vt_events v'))"
  shows "descriptions_inv v'"
proof -
  note inv = descriptions_invD [OF assms(1)]
  have "unique_by ofd_id (vt_descriptions v')"
    by (rule unique_by_restrict [OF inv(1) assms(2)]) (use kept in blast)
  moreover have "ofd_id d' < vt_next_description_id v' \<and> ofd_watch_cursor d' \<le> length (vt_events v')"
    if "Some d' \<in> set (vt_descriptions v')" for d'
  proof -
    from that obtain i where i: "i < length (vt_descriptions v)" "vt_descriptions v' ! i = Some d'"
      using assms(2) by (metis in_set_conv_nth)
    with kept obtain d where d: "vt_descriptions v ! i = Some d" "ofd_id d = ofd_id d'"
      "ofd_watch_cursor d \<le> length (vt_events v) \<longrightarrow> ofd_watch_cursor d' \<le> length (vt_events v')"
      by blast
    have "Some d \<in> set (vt_descriptions v)"
      using i(1) d(1) nth_mem by metis
    then show ?thesis
      using inv(3,4) d assms(3) by metis
  qed
  ultimately show ?thesis
    using assms(4) by (simp add: descriptions_inv_def)
qed

lemma open_file_description_spec:
  assumes "descriptions_inv v" "vt_next_description_id v \<noteq> u64_max"
  shows "(case open_file_description_fn v node rights flags own cap of
      (v', Inl e) \<Rightarrow> v' = v \<and> e = BadCapability \<and> None \<notin> set (vt_descriptions v)
    | (v', Inr i) \<Rightarrow> descriptions_inv v' \<and> file_description v i = None \<and>
        file_description v' = (file_description v)
          (i \<mapsto> open_file_description_new i node rights flags own cap (length (vt_events v))))"
proof (cases "first_index (\<lambda>x. x = None) (vt_descriptions v)")
  case None
  then have "None \<notin> set (vt_descriptions v)"
    by (auto simp: first_index_None)
  with None show ?thesis
    by (simp add: open_file_description_fn_def)
next
  case (Some slot)
  note inv = descriptions_invD [OF assms(1)]
  let ?i = "if vt_next_description_id v = 0 then 1 else vt_next_description_id v"
  let ?d = "open_file_description_new ?i node rights flags own cap (length (vt_events v))"
  let ?v = "fst (open_file_description_fn v node rights flags own cap)"
  have slot: "slot < length (vt_descriptions v)" "vt_descriptions v ! slot = None"
    using first_index_SomeD [OF Some] by simp_all
  have v: "vt_descriptions ?v = (vt_descriptions v)[slot := Some ?d]"
    "vt_next_description_id ?v = saturating_add ?i 1" "vt_events ?v = vt_events v"
    "snd (open_file_description_fn v node rights flags own cap) = Inr ?i"
    using Some by (simp_all add: open_file_description_fn_def Let_def)
  have new: "ofd_id ?d = ?i" "ofd_watch_cursor ?d = length (vt_events v)"
    by (simp_all add: open_file_description_new_def)
  have fresh: "ofd_id b \<noteq> ofd_id ?d" if "Some b \<in> set (vt_descriptions v)" for b
    using inv(3) [OF that] new(1) by auto
  have "?i < saturating_add ?i 1"
    using assms(2) by (intro less_saturating_inc) (auto simp: u64_max_def)
  moreover have "vt_next_description_id v \<le> ?i"
    by simp
  ultimately have below: "ofd_id b < saturating_add ?i 1" if "Some b \<in> set (vt_descriptions v)" for b
    using inv(3) [OF that] by (meson less_le_trans less_trans)
  have "descriptions_inv ?v"
    unfolding descriptions_inv_def v(1,2,3)
    using inv below \<open>?i < saturating_add ?i 1\<close> new some_mem_fill [OF slot] unique_by_fill [OF inv(1) fresh]
    by auto
  moreover have "file_description ?v = (file_description v)(?i \<mapsto> ?d)"
    using find_by_fill [OF inv(1) slot fresh] new(1) by (auto simp: fun_eq_iff file_description_find v(1))
  moreover have "file_description v ?i = None"
    using fresh new(1) by (auto simp: file_description_find find_by_None)
  ultimately show ?thesis
    using v(4) by (simp add: split_beta)
qed

lemma update_description_inv:
  assumes "descriptions_inv v" "\<And>d. ofd_id (f d) = ofd_id d" "\<And>d. ofd_watch_cursor (f d) = ofd_watch_cursor d"
  shows "descriptions_inv (update_description v index f)"
  using assms
  by (intro descriptions_inv_restrict [OF assms(1)])
    (auto simp: update_description_def nth_update descriptions_inv_def split: if_splits)

lemma close_description_slot_inv:
  assumes "descriptions_inv v"
  shows "descriptions_inv (close_description_slot v index node)"
  using descriptions_invD(2) [OF assms]
  by (intro descriptions_inv_restrict [OF assms]) (auto simp: close_description_slot_def nth_update split: if_splits)

lemma close_description_slot_nodes_inv:
  assumes "nodes_inv v"
  shows "nodes_inv (close_description_slot v index node)"
  using assms reap_nodes_inv [of "v\<lparr>vt_descriptions := (vt_descriptions v)[index := None]\<rparr>"]
  by (simp add: close_description_slot_def nodes_inv_def)

lemma close_description_slot_locks [simp]:
  "vt_locks (close_description_slot v index node) = vt_locks v"
  by (simp add: close_description_slot_def)

lemma vfs_inv_locks:
  assumes "vfs_inv v" "locks_ok ls"
  shows "vfs_inv (v\<lparr>vt_locks := ls\<rparr>)"
  using assms by (simp add: vfs_inv_def nodes_inv_def descriptions_inv_def)

lemma close_description_slot_vfs_inv:
  "vfs_inv v \<Longrightarrow> vfs_inv (close_description_slot v index node)"
  by (simp add: vfs_inv_def close_description_slot_inv close_description_slot_nodes_inv)

lemma release_file_description_inv:
  assumes "vfs_inv v"
  shows "vfs_inv (fst (release_file_description v i))"
proof -
  have "vfs_inv (release_vfs_locks_for_description v i)"
    using assms vfs_inv_locks [OF assms] drop_locks_ok [of "vt_locks v"]
    by (simp add: release_vfs_locks_for_description_def release_vfs_lock_def vfs_inv_def)
  moreover have "vfs_inv (update_description v index (ofd_ref_count_update f))" for index f
    using assms update_description_inv [of v "ofd_ref_count_update f" index]
    by (simp add: vfs_inv_def nodes_inv_def update_description_def)
  ultimately show ?thesis
    using assms
    by (simp add: release_file_description_def Let_def close_description_slot_vfs_inv split: option.split)
qed

lemma release_owned_from_inv: "vfs_inv v \<Longrightarrow> vfs_inv (release_owned_from pid is v)"
  by (induction "is" arbitrary: v) (simp_all add: close_description_slot_vfs_inv split: option.split)

lemma release_process_file_descriptions_inv:
  assumes "vfs_inv v"
  shows "vfs_inv (release_process_file_descriptions v pid)"
proof -
  have "vfs_inv (release_vfs_locks_for_process v pid)"
    using assms vfs_inv_locks [OF assms] drop_locks_ok [of "vt_locks v"]
    by (simp add: release_vfs_locks_for_process_def vfs_inv_def)
  then show ?thesis
    by (simp add: release_process_file_descriptions_def release_owned_from_inv)
qed

end
