(* ===== verification/Vfs_Safety.thy ===== *)
theory Vfs_Safety
  imports Vfs_Tables
begin

text \<open>
  The VFS tables as a transition system: every operation of
  \<^verbatim>\<open>Vfs_Tables\<close> that changes nodes, descriptions, locks or events
  is a step, and the properties hold in every state the steps reach from the
  empty tables.
\<close>

inductive vfs_step :: "vfs_tables \<Rightarrow> vfs_tables \<Rightarrow> bool" where
  step_add_node: "vt_next_node_id v \<noteq> u64_max \<Longrightarrow>
    vfs_step v (fst (add_vfs_node_with_name v name parent kind backing src))"
| step_remove_node: "vfs_step v (fst (remove_vfs_node v i))"
| step_detach: "vfs_step v (fst (detach_vfs_node v i))"
| step_rename: "vfs_step v (fst (rename_vfs_node v i p name))"
| step_touch: "vfs_step v (fst (touch_backed_nodes v b))"
| step_add_memory_file: "vfs_step v (fst (add_vfs_memory_file v n initial))"
| step_add_empty_memory_file: "vfs_step v (fst (add_vfs_empty_memory_file v))"
| step_open: "vt_next_description_id v \<noteq> u64_max \<Longrightarrow>
    vfs_step v (fst (open_file_description_fn v node rights flags own cap))"
| step_retain: "vfs_step v (fst (retain_file_description v i))"
| step_release: "vfs_step v (fst (release_file_description v i))"
| step_exit: "vfs_step v (release_process_file_descriptions v pid)"
| step_lock: "vfs_step v (fst (acquire_vfs_lock v d mode start len))"
| step_unlock: "vfs_step v (fst (release_vfs_lock v i))"
| step_event: "vfs_step v (record_vfs_event v parent kind name)"

lemma vfs_tables_new_inv: "vfs_inv vfs_tables_new"
  by (simp add: vfs_inv_def nodes_inv_def descriptions_inv_def locks_ok_def vfs_tables_new_def)

lemma record_vfs_event_inv:
  assumes "descriptions_inv v"
  shows "descriptions_inv (record_vfs_event v parent kind name)"
proof -
  note inv = descriptions_invD [OF assms]
  show ?thesis
  proof (cases "length (vt_events v) < MAX_VFS_EVENTS")
    case True
    then show ?thesis
      using inv by (intro descriptions_inv_restrict [OF assms])
        (auto simp: record_vfs_event_def allocate_vfs_metadata_version_def Let_def)
  next
    case False
    then have "0 < length (vt_events v)"
      by (cases "vt_events v") (simp_all add: MAX_VFS_EVENTS_def)
    with False show ?thesis
      using inv by (intro descriptions_inv_restrict [OF assms])
        (auto simp: record_vfs_event_def allocate_vfs_metadata_version_def Let_def)
  qed
qed

lemma node_step_inv:
  assumes "vfs_inv v" "nodes_inv v'" "vt_descriptions v' = vt_descriptions v" "vt_locks v' = vt_locks v"
    "vt_events v' = vt_events v" "vt_next_description_id v' = vt_next_description_id v"
  shows "vfs_inv v'"
  using assms by (simp add: vfs_inv_def descriptions_inv_def)

lemma vfs_step_inv:
  assumes "vfs_step v v'" "vfs_inv v"
  shows "vfs_inv v'"
proof -
  from assms(2) have inv: "nodes_inv v" "descriptions_inv v" "locks_ok (vt_locks v)"
    by (simp_all add: vfs_inv_def)
  from assms(1) show ?thesis
  proof cases
    case (step_add_node name parent kind backing src)
    have "nodes_inv v'"
      using add_vfs_node_spec [OF inv(1) step_add_node(2), of name parent kind backing src] step_add_node(1) inv(1)
      by (auto split: prod.splits sum.splits)
    then show ?thesis
      unfolding step_add_node(1) using assms(2)
      by (intro node_step_inv [OF assms(2)])
        (simp_all add: add_vfs_node_with_name_def allocate_vfs_metadata_version_def Let_def split: option.split)
  next
    case (step_remove_node i)
    then show ?thesis
      using node_step_inv [OF assms(2)] remove_vfs_node_inv [OF inv(1)] by simp
  next
    case (step_detach i)
    have "nodes_inv v'"
      using detach_vfs_node_spec [OF inv(1), of i] step_detach by (simp add: retargeted_def)
    then show ?thesis
      unfolding step_detach
      by (intro node_step_inv [OF assms(2)])
        (simp_all add: detach_vfs_node_def allocate_vfs_metadata_version_def Let_def split: option.split)
  next
    case (step_rename i p name)
    have "nodes_inv v'"
      using rename_vfs_node_spec [OF inv(1), where i = i and p = p and name = name] step_rename by (simp add: retargeted_def)
    then show ?thesis
      unfolding step_rename
      by (intro node_step_inv [OF assms(2)])
        (simp_all add: rename_vfs_node_def allocate_vfs_metadata_version_def Let_def split: option.split)
  next
    case (step_touch b)
    then show ?thesis
      using touch_backed_nodes_inv [OF inv(1), of b]
      by (intro node_step_inv [OF assms(2)])
        (simp_all add: touch_backed_nodes_def allocate_vfs_metadata_version_def Let_def)
  next
    case (step_add_memory_file n initial)
    then show ?thesis
      using inv(1) by (intro node_step_inv [OF assms(2)])
        (simp_all add: add_vfs_memory_file_def nodes_inv_def Let_def split: sum.split)
  next
    case step_add_empty_memory_file
    then show ?thesis
      using inv(1) by (intro node_step_inv [OF assms(2)])
        (simp_all add: add_vfs_empty_memory_file_def nodes_inv_def split: option.split)
  next
    case (step_open node rights flags own cap)
    have "descriptions_inv v'"
      using open_file_description_spec [OF inv(2) step_open(2), of node rights flags own cap] step_open(1) inv(2)
      by (auto split: prod.splits sum.splits)
    then show ?thesis
      using inv step_open(1)
      by (simp add: vfs_inv_def open_file_description_fn_def nodes_inv_def Let_def split: option.splits)
  next
    case (step_retain i)
    then show ?thesis
      using assms(2) update_description_inv [OF inv(2)]
      by (simp add: retain_file_description_def vfs_inv_def nodes_inv_def update_description_def split: option.split)
  next
    case (step_release i)
    then show ?thesis
      using assms(2) by (simp add: release_file_description_inv)
  next
    case (step_exit pid)
    then show ?thesis
      using assms(2) by (simp add: release_process_file_descriptions_inv)
  next
    case (step_lock d mode start len)
    then show ?thesis
      using vfs_inv_locks [OF assms(2) acquire_vfs_lock_ok [OF inv(3), of d mode start len]] assms(2)
      by (auto simp: acquire_vfs_lock_def Let_def split: sum.splits option.splits)
  next
    case (step_unlock i)
    then show ?thesis
      using assms(2) inv(3) by (simp add: release_vfs_lock_def vfs_inv_locks drop_locks_ok)
  next
    case (step_event parent kind name)
    then show ?thesis
      using record_vfs_event_inv [OF inv(2), of parent kind name] inv
      by (simp add: vfs_inv_def record_vfs_event_def nodes_inv_def allocate_vfs_metadata_version_def Let_def)
  qed
qed

lemma vfs_reachable_inv:
  assumes "vfs_step\<^sup>*\<^sup>* vfs_tables_new v"
  shows "vfs_inv v"
  using assms by (induction rule: rtranclp_induct) (simp_all add: vfs_tables_new_inv vfs_step_inv)

section \<open>Lock exclusion\<close>

text \<open>
  The bytes of a lock.  The last byte of the 64-bit offset space, 2^64 - 1, is
  left out: the overlap test saturates there, and no lock covers it, since a
  range has its start and length packed into 32 bits each and a whole-file
  lock starts at 0 with length 2^64 - 1.
\<close>

definition lock_covers :: "vfs_lock \<Rightarrow> nat \<Rightarrow> bool" where
  "lock_covers a k \<longleftrightarrow> unat (lk_start a) \<le> k \<and> k < unat (lk_start a) + unat (lk_len a) \<and> k < 2 ^ 64 - 1"

lemma common_byte_overlap:
  assumes "lock_covers a k" "lock_covers b k"
  shows "ranges_overlap (lk_start a) (lk_len a) (lk_start b) (lk_len b)"
proof -
  have "unat s < unat (saturating_add s' l)"
    if "unat s \<le> k" "k < unat s' + unat l" for s s' l :: u64
    using that assms by (simp add: unat_saturating_add lock_covers_def)
  then have "s < saturating_add s' l" if "unat s \<le> k" "k < unat s' + unat l" for s s' l :: u64
    using that by (simp add: word_less_nat_alt)
  then show ?thesis
    using assms by (auto simp: ranges_overlap_def lock_covers_def)
qed

text \<open>
  C15: In every reachable state of the tables, two different lock slots on one
  node that both cover some byte hold shared locks: an exclusive lock excludes
  every other lock on each byte of its range below 2^64 - 1, whatever sequence
  of opens, locks, unlocks, closes and process exits led there.
\<close>

theorem lock_mutual_exclusion:
  assumes "vfs_step\<^sup>*\<^sup>* vfs_tables_new v"
    and "i < length (vt_locks v)" "j < length (vt_locks v)" "i \<noteq> j"
    and "vt_locks v ! i = Some a" "vt_locks v ! j = Some b"
    and "lk_node a = lk_node b" "lock_covers a k" "lock_covers b k"
  shows "lk_mode a = LockShared \<and> lk_mode b = LockShared"
proof -
  have "lock_compatible a b"
    using vfs_reachable_inv [OF assms(1)] assms(2-6) by (simp add: vfs_inv_def locks_ok_def)
  then show ?thesis
    using common_byte_overlap [OF assms(8,9)] assms(7) by (simp add: lock_compatible_def)
qed

text \<open>The state after two readers have locked one file.\<close>

definition reader :: "file_description_id \<Rightarrow> open_file_description" where
  "reader i = open_file_description_new i 7 RIGHT_READ 1 1 1 0"

definition reader_lock :: "file_description_id \<Rightarrow> vfs_lock" where
  "reader_lock i = \<lparr>lk_node = 7, lk_owner = 1, lk_description = i, lk_mode = LockShared, lk_start = 0, lk_len = 10\<rparr>"

definition two_readers :: vfs_tables where
  "two_readers =
    (let v = fst (acquire_vfs_lock vfs_tables_new (reader 1) LockShared 0 10)
     in fst (acquire_vfs_lock v (reader 2) LockShared 0 10))"

lemma lock_scan_replicate_None:
  "lock_scan d mode start len index own free (replicate n None) =
    Inr (own, if free = None \<and> 0 < n then Some index else free)"
  by (induction n arbitrary: index free) auto

lemma two_readers_locks:
  "vt_locks two_readers = Some (reader_lock 1) # Some (reader_lock 2) # replicate 254 None"
proof -
  have init: "vt_locks vfs_tables_new = None # None # replicate 254 None"
    by (simp add: vfs_tables_new_def MAX_VFS_LOCKS_def MAX_OPEN_FILE_DESCRIPTIONS_def MAX_PROCESSES_def
        MAX_FILE_HANDLES_def flip: replicate_Suc)
  have first: "vt_locks (fst (acquire_vfs_lock vfs_tables_new (reader 1) LockShared 0 10)) =
      Some (reader_lock 1) # None # replicate 254 None"
    by (simp add: acquire_vfs_lock_def init lock_scan_replicate_None reader_lock_def reader_def
        open_file_description_new_def)
  have second: "vt_locks (fst (acquire_vfs_lock v (reader 2) LockShared 0 10)) =
      Some (reader_lock 1) # Some (reader_lock 2) # replicate 254 None"
    if "vt_locks v = Some (reader_lock 1) # None # replicate 254 None" for v
    using that by (simp add: acquire_vfs_lock_def lock_scan_replicate_None reader_lock_def reader_def
        open_file_description_new_def)
  show ?thesis
    unfolding two_readers_def Let_def by (rule second [OF first])
qed

lemma two_readers_reachable: "vfs_step\<^sup>*\<^sup>* vfs_tables_new two_readers"
proof -
  let ?v = "fst (acquire_vfs_lock vfs_tables_new (reader 1) LockShared 0 10)"
  have "vfs_step vfs_tables_new ?v" "vfs_step ?v two_readers"
    by (simp_all add: two_readers_def Let_def step_lock)
  then show ?thesis
    by (meson converse_rtranclp_into_rtranclp rtranclp.rtrancl_refl)
qed

theorem lock_mutual_exclusion_witness:
  "lk_mode (reader_lock 1) = LockShared \<and> lk_mode (reader_lock 2) = LockShared"
  by (rule lock_mutual_exclusion [OF two_readers_reachable, of 0 1 _ _ 3])
    (simp_all add: two_readers_locks lock_covers_def reader_lock_def)

section \<open>Open files survive the loss of their name\<close>














text \<open>A nameless volatile file, opened by two descriptions.\<close>

definition sample_node :: vfs_node where
  "sample_node = \<lparr>vn_id = 1, vn_name = vfs_name_empty, vn_parent = None, vn_kind = RegularFile,
    vn_backing = BackedMemoryFile 0, vn_mount_source = ''volatilefs'', vn_metadata_version = 1\<rparr>"


lemma new_tables:
  "vt_nodes vfs_tables_new = None # replicate 95 None"
  "vt_descriptions vfs_tables_new = None # None # replicate 254 None"
  by (simp_all add: vfs_tables_new_def MAX_VFS_NODES_def MAX_OPEN_FILE_DESCRIPTIONS_def MAX_PROCESSES_def
      MAX_FILE_HANDLES_def flip: replicate_Suc)




section \<open>The last close frees the file\<close>

lemma file_description_index:
  assumes "descriptions_inv v" "file_description v i = Some d"
  obtains index where "first_index (is_description i) (vt_descriptions v) = Some index"
    "index < length (vt_descriptions v)" "vt_descriptions v ! index = Some d" "ofd_id d = i"
proof -
  note unique = descriptions_invD(1) [OF assms(1)]
  have d: "Some d \<in> set (vt_descriptions v)" "ofd_id d = i"
    using assms(2) by (auto simp: file_description_find find_by_iff [OF unique])
  then obtain j where j: "first_index (is_description i) (vt_descriptions v) = Some j"
    using first_index_ex [of "is_description i" "vt_descriptions v"] by (force simp: is_description_def)
  obtain d' where d': "j < length (vt_descriptions v)" "vt_descriptions v ! j = Some d'" "ofd_id d' = i"
    by (rule is_description_first [OF j])
  then have "Some d' \<in> set (vt_descriptions v)"
    by (metis nth_mem)
  then have "d' = d"
    using find_by_mem [OF unique] assms(2) d'(3) by (fastforce simp: file_description_find)
  with that [OF j] d' show thesis
    by blast
qed

lemma reap_reclaims:
  assumes "nodes_inv v" "\<not> vfs_node_has_open_description v i"
    and "vfs_node_of v i = Some n" "vn_parent n = None" "vn_backing n = BackedMemoryFile b"
    and "b < length (vt_mem_files v)"
    and only: "\<And>m. Some m \<in> set (vt_nodes v) \<Longrightarrow> vn_backing m = BackedMemoryFile b \<Longrightarrow> vn_id m = vn_id n"
  shows "vfs_node_of (reap_unlinked_vfs_node_if_idle v i) i = None"
    and "vt_mem_files (reap_unlinked_vfs_node_if_idle v i) ! b = vfs_memory_file_empty"
proof -
  let ?r = "fst (remove_vfs_node v i)"
  have wf: "nodes_inv ?r"
    using assms(1) by (rule remove_vfs_node_inv)
  have nid: "vn_id n = i"
    using assms(3) find_by_SomeD [of vn_id i "vt_nodes v" n] by (simp add: vfs_node_of_find [OF assms(1)])
  have "\<not> vfs_memory_file_in_use ?r b"
  proof
    assume "vfs_memory_file_in_use ?r b"
    then obtain m where m: "Some m \<in> set (live_nodes ?r)" "vn_backing m = BackedMemoryFile b"
      by (auto simp: vfs_memory_file_in_use_def list_ex_iff node_backed_by_def split: option.splits)
    have "Some m \<in> set (vt_nodes ?r)"
      using m(1) by (rule in_set_takeD)
    then have "vfs_node_of ?r (vn_id m) = Some m"
      using find_by_mem [OF nodes_invD(2) [OF wf]] by (simp add: vfs_node_of_find [OF wf])
    then have "vfs_node_of v (vn_id m) = Some m" "vn_id m \<noteq> i"
      by (auto simp: remove_vfs_node_find [OF assms(1)] split: if_splits)
    then show False
      using only [of m] m(2) nid by (auto simp: vfs_node_of_find [OF assms(1)] dest!: find_by_SomeD)
  qed
  moreover have "reap_unlinked_vfs_node_if_idle v i = fst (release_vfs_memory_file ?r b)"
    using assms(2-5) nid by (simp add: reap_unlinked_vfs_node_if_idle_def)
  moreover have "vfs_node_of (fst (release_vfs_memory_file ?r b)) i = vfs_node_of ?r i"
    by (simp add: vfs_node_of_def)
  ultimately show "vfs_node_of (reap_unlinked_vfs_node_if_idle v i) i = None"
    and "vt_mem_files (reap_unlinked_vfs_node_if_idle v i) ! b = vfs_memory_file_empty"
    using assms(6) by (simp_all add: remove_vfs_node_find [OF assms(1)] release_vfs_memory_file_def)
qed

text \<open>
  C31: When the last description of a file without a name is closed, nothing of
  the file is left: the description and the node are gone, no lock of the
  description remains, and the buffer of a volatile file that no other node
  uses is cleared before it can be handed out again.
\<close>

theorem last_close_reclaims:
  assumes "vfs_step\<^sup>*\<^sup>* vfs_tables_new v"
    and "file_description v i = Some d" "ofd_ref_count d \<le> 1"
    and "\<And>d'. Some d' \<in> set (vt_descriptions v) \<Longrightarrow> ofd_id d' \<noteq> i \<Longrightarrow> ofd_node d' \<noteq> ofd_node d"
    and "vfs_node_of v (ofd_node d) = Some n" "vn_parent n = None" "vn_backing n = BackedMemoryFile b"
    and "b < length (vt_mem_files v)"
    and "\<And>m. Some m \<in> set (vt_nodes v) \<Longrightarrow> vn_backing m = BackedMemoryFile b \<Longrightarrow> vn_id m = vn_id n"
  shows "let v' = fst (release_file_description v i) in
    file_description v' i = None \<and> vfs_node_of v' (ofd_node d) = None \<and>
    vt_mem_files v' ! b = vfs_memory_file_empty \<and>
    (\<forall>lock. Some lock \<in> set (vt_locks v') \<longrightarrow> lk_description lock \<noteq> i)"
proof -
  have inv: "nodes_inv v" "descriptions_inv v"
    using vfs_reachable_inv [OF assms(1)] by (simp_all add: vfs_inv_def)
  note unique = descriptions_invD(1) [OF inv(2)]
  obtain index where index: "first_index (is_description i) (vt_descriptions v) = Some index"
    "index < length (vt_descriptions v)" "vt_descriptions v ! index = Some d" and d: "ofd_id d = i"
    by (rule file_description_index [OF inv(2) assms(2)])
  let ?w = "(release_vfs_locks_for_description v i)\<lparr>vt_descriptions := (vt_descriptions v)[index := None]\<rparr>"
  have w: "vt_nodes ?w = vt_nodes v" "vt_mem_files ?w = vt_mem_files v" "nodes_inv ?w"
    "vfs_node_of ?w j = vfs_node_of v j"
    "vt_locks ?w = drop_locks (\<lambda>lock. lk_description lock = i) (vt_locks v)" for j
    using inv(1)
    by (simp_all add: release_vfs_locks_for_description_def release_vfs_lock_def nodes_inv_def vfs_node_of_def)
  have idle: "\<not> vfs_node_has_open_description ?w (ofd_node d)"
    using assms(4) some_mem_clear [OF unique index(2,3)] d
    by (auto simp: vfs_node_has_open_description_def list_ex_iff split: option.splits)
  have v': "fst (release_file_description v i) = reap_unlinked_vfs_node_if_idle ?w (ofd_node d)"
    using index assms(3)
    by (simp add: release_file_description_def Let_def close_description_slot_def
        release_vfs_locks_for_description_def release_vfs_lock_def)
  have "Some lock \<notin> set (vt_locks ?w)" if "lk_description lock = i" for lock
    unfolding w(5) using that by (auto simp: drop_locks_def split: option.splits if_splits)
  moreover have "find_by ofd_id i ((vt_descriptions v)[index := None]) = None"
    using find_by_clear [OF unique index(2,3), of i] d by simp
  ultimately show ?thesis
    using reap_reclaims [OF w(3) idle, of n b] assms(5-9)
    by (auto simp: Let_def v' w file_description_find)
qed

definition opened_once :: vfs_tables where
  "opened_once =
    (let v = fst (add_vfs_node_with_name vfs_tables_new vfs_name_empty None RegularFile (BackedMemoryFile 0) ''volatilefs'')
     in fst (open_file_description_fn v 1 RIGHT_READ 1 5 9))"

lemma opened_once_fields:
  "vt_nodes opened_once = Some sample_node # replicate 95 None" "vt_node_count opened_once = 1"
  "vt_descriptions opened_once = Some (open_file_description_new 1 1 RIGHT_READ 1 5 9 0) # None # replicate 254 None"
  "vt_mem_files opened_once = replicate 8 vfs_memory_file_empty" "vt_events opened_once = []"
proof -
  have ids: "vt_next_node_id vfs_tables_new = 1" "vt_next_description_id vfs_tables_new = 1"
    "vt_next_metadata_version vfs_tables_new = 1" "vt_node_count vfs_tables_new = 0" "vt_events vfs_tables_new = []"
    "vt_mem_files vfs_tables_new = replicate 8 vfs_memory_file_empty"
    by (simp_all add: vfs_tables_new_def MAX_VFS_MEM_FILES_def)
  show "vt_nodes opened_once = Some sample_node # replicate 95 None" "vt_node_count opened_once = 1"
    "vt_descriptions opened_once = Some (open_file_description_new 1 1 RIGHT_READ 1 5 9 0) # None # replicate 254 None"
    "vt_mem_files opened_once = replicate 8 vfs_memory_file_empty" "vt_events opened_once = []"
    unfolding opened_once_def Let_def
    by (simp_all add: ids add_vfs_node_with_name_def allocate_vfs_metadata_version_def new_tables Let_def
        open_file_description_fn_def sample_node_def saturating_add_def)
qed

lemma opened_once_reachable: "vfs_step\<^sup>*\<^sup>* vfs_tables_new opened_once"
proof -
  let ?a = "fst (add_vfs_node_with_name vfs_tables_new vfs_name_empty None RegularFile (BackedMemoryFile 0) ''volatilefs'')"
  have "vt_next_description_id ?a = 1"
    by (simp add: add_vfs_node_with_name_def allocate_vfs_metadata_version_def new_tables Let_def)
      (simp add: vfs_tables_new_def)
  then have "vfs_step vfs_tables_new ?a" "vfs_step ?a opened_once"
    unfolding opened_once_def Let_def
    by (auto intro!: vfs_step.intros simp: u64_max_def vfs_tables_new_def)
  then show ?thesis
    by (meson converse_rtranclp_into_rtranclp rtranclp.rtrancl_refl)
qed

theorem last_close_reclaims_witness:
  "let v' = fst (release_file_description opened_once 1) in
    file_description v' 1 = None \<and> vfs_node_of v' 1 = None \<and> vt_mem_files v' ! 0 = vfs_memory_file_empty \<and>
    (\<forall>lock. Some lock \<in> set (vt_locks v') \<longrightarrow> lk_description lock \<noteq> 1)"
proof -
  let ?d = "open_file_description_new 1 1 RIGHT_READ 1 5 9 0"
  have d: "ofd_id ?d = 1" "ofd_node ?d = 1" "ofd_ref_count ?d = 1"
    by (simp_all add: open_file_description_new_def)
  have "file_description opened_once 1 = Some ?d" "vfs_node_of opened_once (ofd_node ?d) = Some sample_node"
    by (simp_all add: file_description_find opened_once_fields d vfs_node_of_def sample_node_def)
  then show ?thesis
    using last_close_reclaims [OF opened_once_reachable, of 1 ?d sample_node 0]
    by (auto simp: d opened_once_fields sample_node_def)
qed

section \<open>Directory watches\<close>

text \<open>What a description has still to see of the log.\<close>

definition pending_events :: "vfs_tables \<Rightarrow> open_file_description \<Rightarrow> vfs_event list" where
  "pending_events v d = drop (ofd_watch_cursor d) (vt_events v)"

text \<open>
  Recording an event appends it to what every open description has still
  to see.  Nothing pending is lost or repeated when the bounded log shifts,
  because the cursors move with it: only a description that has seen none of
  a full log loses the oldest entry.
\<close>

theorem watch_events_in_order:
  assumes "vfs_step\<^sup>*\<^sup>* vfs_tables_new v"
    and "j < length (vt_descriptions v)" "vt_descriptions v ! j = Some d"
  shows "\<exists>d'. vt_descriptions (record_vfs_event v parent kind name) ! j = Some d' \<and> ofd_id d' = ofd_id d \<and>
    pending_events (record_vfs_event v parent kind name) d' =
      (if length (vt_events v) = MAX_VFS_EVENTS \<and> ofd_watch_cursor d = 0
       then tl (pending_events v d) else pending_events v d)
      @ [\<lparr>ve_parent = parent, ve_kind = kind, ve_name = name, ve_metadata_version = vt_next_metadata_version v\<rparr>]"
proof -
  have inv: "descriptions_inv v"
    using vfs_reachable_inv [OF assms(1)] by (simp add: vfs_inv_def)
  have "Some d \<in> set (vt_descriptions v)"
    using assms(2,3) by (metis nth_mem)
  then have cursor: "ofd_watch_cursor d \<le> length (vt_events v)"
    using descriptions_invD(4) [OF inv] by blast
  show ?thesis
  proof (cases "length (vt_events v) < MAX_VFS_EVENTS")
    case True
    then show ?thesis
      using assms(2,3) cursor
      by (simp add: record_vfs_event_def allocate_vfs_metadata_version_def Let_def pending_events_def)
  next
    case False
    with descriptions_invD(2) [OF inv] have full: "length (vt_events v) = MAX_VFS_EVENTS" "vt_events v \<noteq> []"
      by (auto simp: MAX_VFS_EVENTS_def)
    have "drop (c - 1) (tl es) = drop c es" if "0 < c" "es \<noteq> []" for c and es :: "vfs_event list"
      using that by (cases c; cases es) simp_all
    with False full show ?thesis
      using assms(2,3) cursor
      by (simp add: record_vfs_event_def allocate_vfs_metadata_version_def Let_def pending_events_def drop_Suc)
  qed
qed

theorem watch_events_in_order_witness:
  "\<exists>d'. vt_descriptions (record_vfs_event opened_once 1 VFS_EVENT_CREATE vfs_name_empty) ! 0 = Some d' \<and> ofd_id d' = 1 \<and>
    pending_events (record_vfs_event opened_once 1 VFS_EVENT_CREATE vfs_name_empty) d' =
      [\<lparr>ve_parent = 1, ve_kind = VFS_EVENT_CREATE, ve_name = vfs_name_empty,
        ve_metadata_version = vt_next_metadata_version opened_once\<rparr>]"
  using watch_events_in_order [OF opened_once_reachable, of 0 "open_file_description_new 1 1 RIGHT_READ 1 5 9 0"
      1 VFS_EVENT_CREATE vfs_name_empty]
  by (simp add: opened_once_fields pending_events_def open_file_description_new_def MAX_VFS_EVENTS_def)

end
