(* ===== verification/Frame_Memory.thy ===== *)
theory Frame_Memory
  imports Krust_Prelude "HOL-Library.Multiset"
begin

text \<open>
  The physical frame allocator of \<^verbatim>\<open>memory.rs\<close>: usable ranges
  taken from the boot loader's memory map, a bump pointer per range, a stack
  of recycled frames and a ledger that records the owner of every allocated
  frame.  A \<^verbatim>\<open>PhysicalFrame\<close> is its start address; the arrays with
  a count are lists, the top of the recycle stack is the last element.
\<close>

definition FRAME_SIZE :: u64 where "FRAME_SIZE = 4096"
definition MAX_RANGES :: nat where "MAX_RANGES = 64"
definition FREE_STACK_CAPACITY :: nat where "FREE_STACK_CAPACITY = 8192"
definition MAX_FRAME_RECORDS :: nat where "MAX_FRAME_RECORDS = 16384"
definition MEMMAP_USABLE :: u64 where "MEMMAP_USABLE = 0"

type_synonym physical_frame = u64

definition frame_from_start :: "u64 \<Rightarrow> physical_frame option" where
  "frame_from_start start = (if start mod FRAME_SIZE = 0 then Some start else None)"

record frame_range =
  fr_start :: u64
  fr_next :: u64
  fr_end :: u64

definition frame_range_new :: "u64 \<Rightarrow> u64 \<Rightarrow> frame_range" where
  "frame_range_new start e = \<lparr>fr_start = start, fr_next = start, fr_end = e\<rparr>"

definition frame_count :: "frame_range \<Rightarrow> u64" where
  "frame_count r = (fr_end r - fr_start r) div FRAME_SIZE"

definition range_contains :: "frame_range \<Rightarrow> physical_frame \<Rightarrow> bool" where
  "range_contains r frame \<longleftrightarrow>
    (case checked_add frame FRAME_SIZE of
       None \<Rightarrow> False
     | Some frame_end \<Rightarrow> fr_start r \<le> frame \<and> frame_end \<le> fr_end r)"

datatype memory_init_error = TooManyRanges | NoUsableFrames
datatype free_error = UnalignedFrame | OutsideUsableRanges | FreeStackFull | UnallocatedFrame | WrongOwner
datatype frame_owner_kind = KernelFrame | PageTableFrame | ProcessMemoryFrame | DmaFrame | ScratchFrame

record frame_owner =
  fo_kind :: frame_owner_kind
  fo_id :: u64

definition owner_kernel :: "u64 \<Rightarrow> frame_owner" where "owner_kernel i = \<lparr>fo_kind = KernelFrame, fo_id = i\<rparr>"
definition owner_page_table :: "u64 \<Rightarrow> frame_owner" where "owner_page_table i = \<lparr>fo_kind = PageTableFrame, fo_id = i\<rparr>"
definition owner_process_memory :: "u64 \<Rightarrow> frame_owner" where
  "owner_process_memory i = \<lparr>fo_kind = ProcessMemoryFrame, fo_id = i\<rparr>"
definition owner_dma :: "u64 \<Rightarrow> frame_owner" where "owner_dma i = \<lparr>fo_kind = DmaFrame, fo_id = i\<rparr>"
definition owner_scratch :: frame_owner where "owner_scratch = \<lparr>fo_kind = ScratchFrame, fo_id = 0\<rparr>"

record frame_record =
  rec_frame :: physical_frame
  rec_owner :: frame_owner

record frame_allocator =
  fa_ranges :: "frame_range list"
  fa_next_range :: nat
  fa_free_stack :: "physical_frame list"
  fa_total_frames :: u64
  fa_allocated_frames :: u64
  fa_reclaimed_frames :: u64
  fa_high_water_frames :: u64
  fa_failed_allocations :: u64
  fa_records :: "frame_record list"

definition frame_allocator_new :: frame_allocator where
  "frame_allocator_new =
    \<lparr>fa_ranges = [], fa_next_range = 0, fa_free_stack = [], fa_total_frames = 0, fa_allocated_frames = 0,
     fa_reclaimed_frames = 0, fa_high_water_frames = 0, fa_failed_allocations = 0, fa_records = []\<rparr>"

section \<open>Initialisation\<close>

definition mem_align_up :: "u64 \<Rightarrow> u64 \<Rightarrow> u64" where
  "mem_align_up value align = saturating_add value (align - 1) AND NOT (align - 1)"

definition mem_align_down :: "u64 \<Rightarrow> u64 \<Rightarrow> u64" where
  "mem_align_down value align = value AND NOT (align - 1)"

record memmap_entry =
  mm_base :: u64
  mm_length :: u64
  mm_type :: u64

fun init_ranges :: "memmap_entry option list \<Rightarrow> frame_allocator
    \<Rightarrow> frame_allocator \<times> (memory_init_error, unit) result" where
  "init_ranges [] a = (a, Inr ())"
| "init_ranges (x # xs) a =
    (case x of
       None \<Rightarrow> init_ranges xs a
     | Some entry \<Rightarrow>
        if mm_type entry \<noteq> MEMMAP_USABLE then init_ranges xs a
        else let start = mem_align_up (mm_base entry) FRAME_SIZE;
                 e = mem_align_down (saturating_add (mm_base entry) (mm_length entry)) FRAME_SIZE
             in if start < e
                then if length (fa_ranges a) = MAX_RANGES then (a, Inl TooManyRanges)
                     else let r = frame_range_new start e
                          in init_ranges xs (a\<lparr>fa_total_frames := fa_total_frames a + frame_count r,
                                               fa_ranges := fa_ranges a @ [r]\<rparr>)
                else init_ranges xs a)"

definition init_from_limine :: "frame_allocator \<Rightarrow> memmap_entry option list
    \<Rightarrow> frame_allocator \<times> (memory_init_error, unit) result" where
  "init_from_limine a memory_map =
    (let a = a\<lparr>fa_ranges := [], fa_next_range := 0, fa_free_stack := [], fa_total_frames := 0,
               fa_allocated_frames := 0, fa_reclaimed_frames := 0, fa_high_water_frames := 0,
               fa_failed_allocations := 0, fa_records := []\<rparr>
     in case init_ranges memory_map a of
          (a, Inl e) \<Rightarrow> (a, Inl e)
        | (a, Inr _) \<Rightarrow> if fa_total_frames a = 0 then (a, Inl NoUsableFrames) else (a, Inr ()))"

section \<open>Allocation\<close>

definition record_allocated :: "frame_allocator \<Rightarrow> physical_frame \<Rightarrow> frame_owner \<Rightarrow> frame_allocator" where
  "record_allocated a frame own = a\<lparr>fa_records := fa_records a @ [\<lparr>rec_frame = frame, rec_owner = own\<rparr>]\<rparr>"

definition update_high_water :: "frame_allocator \<Rightarrow> frame_allocator" where
  "update_high_water a =
    (if fa_high_water_frames a < fa_allocated_frames a
     then a\<lparr>fa_high_water_frames := fa_allocated_frames a\<rparr> else a)"

definition failed_allocation :: "frame_allocator \<Rightarrow> frame_allocator" where
  "failed_allocation a = a\<lparr>fa_failed_allocations := saturating_add (fa_failed_allocations a) 1\<rparr>"

function bump_allocate :: "frame_allocator \<Rightarrow> frame_owner \<Rightarrow> frame_allocator \<times> physical_frame option" where
  "bump_allocate a own =
    (if fa_next_range a < length (fa_ranges a)
     then let r = fa_ranges a ! fa_next_range a
          in if fr_next r < fr_end r
             then let frame = fr_next r;
                      a = a\<lparr>fa_ranges := (fa_ranges a)[fa_next_range a := r\<lparr>fr_next := frame + FRAME_SIZE\<rparr>],
                            fa_allocated_frames := fa_allocated_frames a + 1\<rparr>
                  in (update_high_water (record_allocated a frame own), Some frame)
             else bump_allocate (a\<lparr>fa_next_range := fa_next_range a + 1\<rparr>) own
     else (failed_allocation a, None))"
  by auto
termination
  by (relation "measure (\<lambda>(a, own). length (fa_ranges a) - fa_next_range a)") auto

declare bump_allocate.simps [simp del]

definition allocate_owned :: "frame_allocator \<Rightarrow> frame_owner \<Rightarrow> frame_allocator \<times> physical_frame option" where
  "allocate_owned a own =
    (if length (fa_records a) = MAX_FRAME_RECORDS then (failed_allocation a, None)
     else if fa_free_stack a \<noteq> []
     then let frame = last (fa_free_stack a);
              a = a\<lparr>fa_free_stack := butlast (fa_free_stack a), fa_allocated_frames := fa_allocated_frames a + 1\<rparr>
          in (update_high_water (record_allocated a frame own), Some frame)
     else bump_allocate a own)"

definition allocate_frame :: "frame_allocator \<Rightarrow> frame_allocator \<times> physical_frame option" where
  "allocate_frame a = allocate_owned a owner_scratch"

fun record_run :: "frame_allocator \<Rightarrow> physical_frame \<Rightarrow> nat \<Rightarrow> nat \<Rightarrow> frame_owner \<Rightarrow> frame_allocator" where
  "record_run a frame index 0 own = a"
| "record_run a frame index (Suc n) own =
    record_run (record_allocated a (frame + of_nat index * FRAME_SIZE) own) frame (Suc index) n own"

function contiguous_scan :: "frame_allocator \<Rightarrow> u64 \<Rightarrow> frame_owner \<Rightarrow> frame_allocator \<times> physical_frame option" where
  "contiguous_scan a n own =
    (if fa_next_range a < length (fa_ranges a)
     then let r = fa_ranges a ! fa_next_range a
          in case checked_mul n FRAME_SIZE of
               None \<Rightarrow> (failed_allocation a, None)
             | Some bytes \<Rightarrow>
                (case checked_add (fr_next r) bytes of
                   None \<Rightarrow> (failed_allocation a, None)
                 | Some e \<Rightarrow>
                    if e \<le> fr_end r
                    then let frame = fr_next r;
                             a = a\<lparr>fa_ranges := (fa_ranges a)[fa_next_range a := r\<lparr>fr_next := e\<rparr>],
                                   fa_allocated_frames := fa_allocated_frames a + n\<rparr>
                         in (update_high_water (record_run a frame 0 (unat n) own), Some frame)
                    else contiguous_scan (a\<lparr>fa_next_range := fa_next_range a + 1\<rparr>) n own)
     else (failed_allocation a, None))"
  by auto
termination
  by (relation "measure (\<lambda>(a, n, own). length (fa_ranges a) - fa_next_range a)") auto

declare contiguous_scan.simps [simp del]

definition allocate_contiguous_owned :: "frame_allocator \<Rightarrow> u64 \<Rightarrow> frame_owner
    \<Rightarrow> frame_allocator \<times> physical_frame option" where
  "allocate_contiguous_owned a n own =
    (if n = 0 then (failed_allocation a, None)
     else if MAX_FRAME_RECORDS - length (fa_records a) < unat n then (failed_allocation a, None)
     else contiguous_scan a n own)"

section \<open>The ledger and freeing\<close>

definition fa_contains :: "frame_allocator \<Rightarrow> physical_frame \<Rightarrow> bool" where
  "fa_contains a frame \<longleftrightarrow> list_ex (\<lambda>r. range_contains r frame) (fa_ranges a)"

definition record_index :: "frame_allocator \<Rightarrow> physical_frame \<Rightarrow> nat option" where
  "record_index a frame = first_index (\<lambda>r. rec_frame r = frame) (fa_records a)"

text \<open>The last record moves into the hole.\<close>

definition remove_record :: "frame_allocator \<Rightarrow> nat \<Rightarrow> frame_allocator" where
  "remove_record a index =
    a\<lparr>fa_records := butlast ((fa_records a)[index := last (fa_records a)])\<rparr>"

definition owner_of :: "frame_allocator \<Rightarrow> physical_frame \<Rightarrow> frame_owner option" where
  "owner_of a frame = (case record_index a frame of None \<Rightarrow> None | Some i \<Rightarrow> Some (rec_owner (fa_records a ! i)))"

definition set_owner :: "frame_allocator \<Rightarrow> physical_frame \<Rightarrow> frame_owner
    \<Rightarrow> frame_allocator \<times> (free_error, unit) result" where
  "set_owner a frame own =
    (if frame mod FRAME_SIZE \<noteq> 0 then (a, Inl UnalignedFrame)
     else if \<not> fa_contains a frame then (a, Inl OutsideUsableRanges)
     else case record_index a frame of
         None \<Rightarrow> (a, Inl UnallocatedFrame)
       | Some i \<Rightarrow> (a\<lparr>fa_records := (fa_records a)[i := (fa_records a ! i)\<lparr>rec_owner := own\<rparr>]\<rparr>, Inr ()))"

definition free_with_owner :: "frame_allocator \<Rightarrow> physical_frame \<Rightarrow> frame_owner option
    \<Rightarrow> frame_allocator \<times> (free_error, unit) result" where
  "free_with_owner a frame expected_owner =
    (if frame mod FRAME_SIZE \<noteq> 0 then (a, Inl UnalignedFrame)
     else if \<not> fa_contains a frame then (a, Inl OutsideUsableRanges)
     else case record_index a frame of
         None \<Rightarrow> (a, Inl UnallocatedFrame)
       | Some i \<Rightarrow>
          if (case expected_owner of Some own \<Rightarrow> rec_owner (fa_records a ! i) \<noteq> own | None \<Rightarrow> False)
          then (a, Inl WrongOwner)
          else if length (fa_free_stack a) = FREE_STACK_CAPACITY then (a, Inl FreeStackFull)
          else let a = remove_record (a\<lparr>fa_free_stack := fa_free_stack a @ [frame]\<rparr>) i
               in (a\<lparr>fa_allocated_frames := saturating_sub (fa_allocated_frames a) 1,
                     fa_reclaimed_frames := saturating_add (fa_reclaimed_frames a) 1\<rparr>, Inr ()))"

definition free_frame :: "frame_allocator \<Rightarrow> physical_frame \<Rightarrow> frame_allocator \<times> (free_error, unit) result" where
  "free_frame a frame = free_with_owner a frame None"

definition free_owned :: "frame_allocator \<Rightarrow> physical_frame \<Rightarrow> frame_owner
    \<Rightarrow> frame_allocator \<times> (free_error, unit) result" where
  "free_owned a frame expected_owner = free_with_owner a frame (Some expected_owner)"

record allocator_stats =
  st_range_count :: nat
  st_total_frames :: u64
  st_allocated_frames :: u64
  st_free_frames :: u64
  st_recycled_frames :: nat
  st_reclaimed_frames :: u64
  st_high_water_frames :: u64
  st_failed_allocations :: u64
  st_kernel_frames :: u64
  st_page_table_frames :: u64
  st_process_memory_frames :: u64
  st_dma_frames :: u64
  st_scratch_frames :: u64
  st_ledger_entries :: nat

definition frames_of_kind :: "frame_owner_kind \<Rightarrow> frame_allocator \<Rightarrow> u64" where
  "frames_of_kind k a = of_nat (length (filter (\<lambda>r. fo_kind (rec_owner r) = k) (fa_records a)))"

definition stats :: "frame_allocator \<Rightarrow> allocator_stats" where
  "stats a =
    \<lparr>st_range_count = length (fa_ranges a), st_total_frames = fa_total_frames a,
     st_allocated_frames = fa_allocated_frames a,
     st_free_frames = saturating_sub (fa_total_frames a) (fa_allocated_frames a),
     st_recycled_frames = length (fa_free_stack a), st_reclaimed_frames = fa_reclaimed_frames a,
     st_high_water_frames = fa_high_water_frames a, st_failed_allocations = fa_failed_allocations a,
     st_kernel_frames = frames_of_kind KernelFrame a, st_page_table_frames = frames_of_kind PageTableFrame a,
     st_process_memory_frames = frames_of_kind ProcessMemoryFrame a, st_dma_frames = frames_of_kind DmaFrame a,
     st_scratch_frames = frames_of_kind ScratchFrame a, st_ledger_entries = length (fa_records a)\<rparr>"

section \<open>The allocator invariant\<close>

definition aligned :: "u64 \<Rightarrow> bool" where
  "aligned f \<longleftrightarrow> unat f mod 4096 = 0"

definition range_ok :: "frame_range \<Rightarrow> bool" where
  "range_ok r \<longleftrightarrow> aligned (fr_start r) \<and> aligned (fr_next r) \<and> aligned (fr_end r) \<and>
    unat (fr_start r) \<le> unat (fr_next r) \<and> unat (fr_next r) \<le> unat (fr_end r)"

definition ranges_apart :: "frame_range \<Rightarrow> frame_range \<Rightarrow> bool" where
  "ranges_apart r s \<longleftrightarrow> unat (fr_end r) \<le> unat (fr_start s) \<or> unat (fr_end s) \<le> unat (fr_start r)"

definition ranges_inv :: "frame_range list \<Rightarrow> bool" where
  "ranges_inv rs \<longleftrightarrow> list_all range_ok rs \<and>
    (\<forall>i j. i < length rs \<longrightarrow> j < length rs \<longrightarrow> i \<noteq> j \<longrightarrow> ranges_apart (rs ! i) (rs ! j))"

text \<open>The frame has been handed out of the range at some time.\<close>

definition issued :: "frame_range \<Rightarrow> physical_frame \<Rightarrow> bool" where
  "issued r f \<longleftrightarrow> unat (fr_start r) \<le> unat f \<and> unat f < unat (fr_next r)"

abbreviation ledger :: "frame_allocator \<Rightarrow> physical_frame list" where
  "ledger a \<equiv> map rec_frame (fa_records a)"

definition fa_inv :: "frame_allocator \<Rightarrow> bool" where
  "fa_inv a \<longleftrightarrow>
    ranges_inv (fa_ranges a) \<and>
    distinct (ledger a @ fa_free_stack a) \<and>
    (\<forall>f \<in> set (ledger a @ fa_free_stack a). aligned f \<and> list_ex (\<lambda>r. issued r f) (fa_ranges a)) \<and>
    fa_allocated_frames a = of_nat (length (fa_records a)) \<and> length (fa_records a) \<le> MAX_FRAME_RECORDS"

lemma fa_inv_cong:
  assumes "fa_ranges a' = fa_ranges a" "fa_free_stack a' = fa_free_stack a" "fa_records a' = fa_records a"
    "fa_allocated_frames a' = fa_allocated_frames a"
  shows "fa_inv a' = fa_inv a"
  using assms by (simp add: fa_inv_def)

lemma bookkeeping_inv [simp]:
  "fa_inv (update_high_water a) = fa_inv a" "fa_inv (failed_allocation a) = fa_inv a"
  "fa_inv (a\<lparr>fa_next_range := n\<rparr>) = fa_inv a"
  by (intro fa_inv_cong; simp add: update_high_water_def failed_allocation_def)+

lemma bookkeeping_fields [simp]:
  "fa_records (update_high_water a) = fa_records a" "fa_ranges (update_high_water a) = fa_ranges a"
  "fa_records (failed_allocation a) = fa_records a" "fa_ranges (failed_allocation a) = fa_ranges a"
  "fa_free_stack (update_high_water a) = fa_free_stack a" "fa_free_stack (failed_allocation a) = fa_free_stack a"
  "fa_next_range (update_high_water a) = fa_next_range a" "fa_next_range (failed_allocation a) = fa_next_range a"
  by (simp_all add: update_high_water_def failed_allocation_def)

lemma ranges_invD:
  assumes "ranges_inv rs" "i < length rs"
  shows "range_ok (rs ! i)" and "j < length rs \<Longrightarrow> i \<noteq> j \<Longrightarrow> ranges_apart (rs ! i) (rs ! j)"
  using assms by (simp_all add: ranges_inv_def list_all_length)

text \<open>
  \<^verbatim>\<open>issues a a' fs own\<close>: the allocator advanced the bump pointer of one
  range over the frames \<^verbatim>\<open>fs\<close> and recorded them for \<^verbatim>\<open>own\<close>.
\<close>

definition run_frames :: "physical_frame \<Rightarrow> nat \<Rightarrow> physical_frame list" where
  "run_frames f n = map (\<lambda>i. f + of_nat i * FRAME_SIZE) [0 ..< n]"

definition issues :: "frame_allocator \<Rightarrow> frame_allocator \<Rightarrow> physical_frame list \<Rightarrow> frame_owner \<Rightarrow> bool" where
  "issues a a' fs own \<longleftrightarrow>
    (\<exists>k e. k < length (fa_ranges a) \<and> fs = run_frames (fr_next (fa_ranges a ! k)) (length fs) \<and>
      unat e = unat (fr_next (fa_ranges a ! k)) + length fs * 4096 \<and> unat e \<le> unat (fr_end (fa_ranges a ! k)) \<and>
      fa_ranges a' = (fa_ranges a)[k := (fa_ranges a ! k)\<lparr>fr_next := e\<rparr>] \<and>
      fa_records a' = fa_records a @ map (\<lambda>f. \<lparr>rec_frame = f, rec_owner = own\<rparr>) fs \<and>
      fa_free_stack a' = fa_free_stack a \<and>
      fa_allocated_frames a' = fa_allocated_frames a + of_nat (length fs))"

lemma length_run_frames [simp]: "length (run_frames f n) = n"
  by (simp add: run_frames_def)

lemma unat_run_frame:
  assumes "unat f + n * 4096 < 2 ^ 64" "i \<le> n"
  shows "unat (f + of_nat i * FRAME_SIZE) = unat f + i * 4096"
proof -
  have "i * 4096 \<le> n * 4096"
    using assms(2) by simp
  then have small: "unat f + i * 4096 < 2 ^ 64"
    using assms(1) by linarith
  have "unat (of_nat i * FRAME_SIZE :: u64) = i * 4096"
    using small by (simp add: FRAME_SIZE_def unat_word_ariths unat_of_nat)
  then show ?thesis
    using small by (simp add: unat_word_ariths)
qed

lemma set_run_frames:
  assumes "unat f + n * 4096 < 2 ^ 64" "g \<in> set (run_frames f n)"
  obtains i where "i < n" "unat g = unat f + i * 4096"
proof -
  from assms(2) obtain i where "i < n" "g = f + of_nat i * FRAME_SIZE"
    by (auto simp: run_frames_def)
  with unat_run_frame [OF assms(1), of i] that show thesis
    by simp
qed

lemma distinct_run_frames:
  assumes "unat f + n * 4096 < 2 ^ 64"
  shows "distinct (run_frames f n)"
proof -
  have "inj_on (\<lambda>i. f + of_nat i * FRAME_SIZE) {0 ..< n}"
  proof (rule inj_onI)
    fix i j
    assume i: "i \<in> {0 ..< n}" "j \<in> {0 ..< n}" and eq: "f + of_nat i * FRAME_SIZE = f + of_nat j * FRAME_SIZE"
    have "unat f + i * 4096 = unat f + j * 4096"
      using unat_run_frame [OF assms, of i] unat_run_frame [OF assms, of j] i unfolding eq by simp
    then show "i = j"
      by simp
  qed
  then show ?thesis
    by (simp add: run_frames_def distinct_map)
qed

text \<open>Frames past the bump pointer of one range are issued by no range.\<close>

lemma fresh_in_range:
  assumes "ranges_inv rs" "k < length rs" "unat (fr_next (rs ! k)) \<le> unat f" "unat f < unat (fr_end (rs ! k))"
  shows "\<not> list_ex (\<lambda>r. issued r f) rs"
proof
  assume "list_ex (\<lambda>r. issued r f) rs"
  then obtain j where j: "j < length rs" "issued (rs ! j) f"
    by (auto simp: list_ex_length)
  with assms(3) have "j \<noteq> k"
    by (auto simp: issued_def)
  then have "ranges_apart (rs ! k) (rs ! j)" "range_ok (rs ! j)" "range_ok (rs ! k)"
    using ranges_invD assms(1,2) j(1) by blast+
  then show False
    using assms(3,4) j(2) by (auto simp: ranges_apart_def range_ok_def issued_def)
qed

lemma ranges_inv_advance:
  assumes "ranges_inv rs" "k < length rs" "unat (fr_next (rs ! k)) \<le> unat e" "unat e \<le> unat (fr_end (rs ! k))" "aligned e"
  shows "ranges_inv (rs[k := (rs ! k)\<lparr>fr_next := e\<rparr>])"
proof -
  have same: "fr_start (rs[k := (rs ! k)\<lparr>fr_next := e\<rparr>] ! i) = fr_start (rs ! i)"
    "fr_end (rs[k := (rs ! k)\<lparr>fr_next := e\<rparr>] ! i) = fr_end (rs ! i)" for i
    by (simp_all add: nth_update)
  have "range_ok (rs[k := (rs ! k)\<lparr>fr_next := e\<rparr>] ! i)" if "i < length rs" for i
    using ranges_invD(1) [OF assms(1) that] assms(2-5) by (auto simp: range_ok_def nth_update)
  moreover have "ranges_apart (rs[k := (rs ! k)\<lparr>fr_next := e\<rparr>] ! i) (rs[k := (rs ! k)\<lparr>fr_next := e\<rparr>] ! j)"
    if "i < length rs" "j < length rs" "i \<noteq> j" for i j
    using ranges_invD(2) [OF assms(1) that] by (simp only: ranges_apart_def same)
  ultimately show ?thesis
    by (simp add: ranges_inv_def list_all_length)
qed

lemma issued_mono:
  assumes "list_ex (\<lambda>r. issued r f) rs" "k < length rs" "unat (fr_next (rs ! k)) \<le> unat e"
  shows "list_ex (\<lambda>r. issued r f) (rs[k := (rs ! k)\<lparr>fr_next := e\<rparr>])"
proof -
  obtain i where "i < length rs" "issued (rs ! i) f"
    using assms(1) by (auto simp: list_ex_length)
  then show ?thesis
    using assms(2,3) by (auto simp: list_ex_length nth_update issued_def intro!: exI [of _ i])
qed

lemma issues_inv:
  assumes "issues a a' fs own" "fa_inv a" "length (fa_records a) + length fs \<le> MAX_FRAME_RECORDS"
  shows "fa_inv a'" and "set fs \<inter> set (ledger a @ fa_free_stack a) = {}" and "distinct fs"
    and "\<And>f. f \<in> set fs \<Longrightarrow> aligned f \<and> list_ex (\<lambda>r. issued r f) (fa_ranges a')"
proof -
  obtain k e where k: "k < length (fa_ranges a)" "fs = run_frames (fr_next (fa_ranges a ! k)) (length fs)"
    and e: "unat e = unat (fr_next (fa_ranges a ! k)) + length fs * 4096" "unat e \<le> unat (fr_end (fa_ranges a ! k))"
    and a': "fa_ranges a' = (fa_ranges a)[k := (fa_ranges a ! k)\<lparr>fr_next := e\<rparr>]"
      "fa_records a' = fa_records a @ map (\<lambda>f. \<lparr>rec_frame = f, rec_owner = own\<rparr>) fs"
      "fa_free_stack a' = fa_free_stack a" "fa_allocated_frames a' = fa_allocated_frames a + of_nat (length fs)"
    using assms(1) by (auto simp: issues_def)
  let ?r = "fa_ranges a ! k"
  have inv: "ranges_inv (fa_ranges a)" "distinct (ledger a @ fa_free_stack a)"
    "\<And>f. f \<in> set (ledger a @ fa_free_stack a) \<Longrightarrow> aligned f \<and> list_ex (\<lambda>r. issued r f) (fa_ranges a)"
    "fa_allocated_frames a = of_nat (length (fa_records a))"
    using assms(2) by (auto simp: fa_inv_def)
  have ok: "range_ok ?r"
    using ranges_invD(1) [OF inv(1) k(1)] .
  have bound: "unat (fr_next ?r) + length fs * 4096 < 2 ^ 64"
    using e unat_u64_bound [of e] by simp
  have new: "unat (fr_next ?r) \<le> unat f \<and> unat f < unat e \<and> aligned f" if "f \<in> set fs" for f
  proof -
    from that obtain i where "i < length fs" "unat f = unat (fr_next ?r) + i * 4096"
      using set_run_frames [OF bound, of f] k(2) by metis
    then show ?thesis
      using e ok by (auto simp: range_ok_def aligned_def)
  qed
  have "\<not> list_ex (\<lambda>r. issued r f) (fa_ranges a)" if "f \<in> set fs" for f
    using new [OF that] e(2) fresh_in_range [OF inv(1) k(1), of f] by simp
  then show fresh: "set fs \<inter> set (ledger a @ fa_free_stack a) = {}"
    using inv(3) by blast
  show dist: "distinct fs"
    using distinct_run_frames [OF bound] k(2) by metis
  have adv: "ranges_inv (fa_ranges a')" "list_ex (\<lambda>r. issued r f) (fa_ranges a) \<Longrightarrow> list_ex (\<lambda>r. issued r f) (fa_ranges a')" for f
    using ranges_inv_advance [OF inv(1) k(1)] issued_mono [OF _ k(1), of f e] e ok
    by (simp_all add: a' range_ok_def aligned_def)
  have "issued (fa_ranges a' ! k) f" if "f \<in> set fs" for f
    using new [OF that] ok k(1) by (simp add: a' issued_def range_ok_def)
  then show out: "\<And>f. f \<in> set fs \<Longrightarrow> aligned f \<and> list_ex (\<lambda>r. issued r f) (fa_ranges a')"
    using new k(1) by (auto simp: list_ex_length a')
  have "ledger a' = ledger a @ fs"
    by (simp add: a' o_def)
  then show "fa_inv a'"
    unfolding fa_inv_def
    using inv adv out fresh dist assms(3) by (auto simp: a'(2-4))
qed

lemma issues_next_range [simp]: "issues (a\<lparr>fa_next_range := n\<rparr>) a' fs own = issues a a' fs own"
  by (simp add: issues_def)

lemma issues_high_water [simp]: "issues a (update_high_water a') fs own = issues a a' fs own"
  by (simp add: issues_def update_high_water_def)

lemma aligned_gap:
  assumes "aligned x" "aligned y" "unat x < unat y"
  shows "unat x + 4096 \<le> unat y"
proof -
  obtain m n where "unat x = 4096 * m" "unat y = 4096 * n"
    using assms(1,2) by (auto simp: aligned_def mod_eq_0_iff_dvd dvd_def)
  with assms(3) show ?thesis
    by auto
qed

lemma bump_allocate_spec:
  assumes "bump_allocate a own = (a', r)" "ranges_inv (fa_ranges a)"
  shows "(case r of
      Some f \<Rightarrow> issues a a' [f] own
    | None \<Rightarrow> fa_ranges a' = fa_ranges a \<and> fa_records a' = fa_records a \<and> fa_free_stack a' = fa_free_stack a \<and>
        fa_allocated_frames a' = fa_allocated_frames a)"
  using assms
proof (induction a own arbitrary: a' r rule: bump_allocate.induct)
  case (1 a own)
  let ?k = "fa_next_range a" and ?r = "fa_ranges a ! fa_next_range a"
  show ?case
  proof (cases "?k < length (fa_ranges a) \<and> fr_next ?r < fr_end ?r")
    case True
    then have ok: "range_ok ?r"
      using ranges_invD(1) [OF "1.prems"(2)] by blast
    then have gap: "unat (fr_next ?r) + 4096 \<le> unat (fr_end ?r)"
      using True aligned_gap [of "fr_next ?r" "fr_end ?r"] by (simp add: range_ok_def word_less_nat_alt)
    then have "unat (fr_next ?r + FRAME_SIZE) = unat (fr_next ?r) + 4096"
      using unat_u64_bound [of "fr_end ?r"] by (simp add: FRAME_SIZE_def unat_word_ariths)
    then have "issues a (record_allocated (a\<lparr>fa_ranges := (fa_ranges a)[?k := ?r\<lparr>fr_next := fr_next ?r + FRAME_SIZE\<rparr>],
        fa_allocated_frames := fa_allocated_frames a + 1\<rparr>) (fr_next ?r) own) [fr_next ?r] own"
      using True gap unfolding issues_def
      by (intro exI [of _ ?k] exI [of _ "fr_next ?r + FRAME_SIZE"]) (simp add: record_allocated_def run_frames_def)
    then show ?thesis
      using "1.prems"(1) True by (subst (asm) bump_allocate.simps) (auto simp: Let_def)
  next
    case False
    show ?thesis
    proof (cases "?k < length (fa_ranges a)")
      case True
      with False have "bump_allocate (a\<lparr>fa_next_range := ?k + 1\<rparr>) own = (a', r)"
        using "1.prems"(1) by (subst (asm) bump_allocate.simps) (auto simp: Let_def)
      then show ?thesis
        using "1.IH" [OF True refl, of a' r] True False "1.prems"(2) by (simp split: option.splits)
    next
      case False
      then show ?thesis
        using "1.prems"(1) by (subst (asm) bump_allocate.simps) (auto simp: failed_allocation_def)
    qed
  qed
qed

lemma record_run_eq:
  "record_run a f i n own =
    a\<lparr>fa_records := fa_records a @ map (\<lambda>j. \<lparr>rec_frame = f + of_nat j * FRAME_SIZE, rec_owner = own\<rparr>) [i ..< i + n]\<rparr>"
proof (induction n arbitrary: a i)
  case (Suc n)
  have "[i ..< i + Suc n] = i # [Suc i ..< Suc i + n]"
    by (simp add: upt_rec)
  with Suc show ?case
    by (simp add: record_allocated_def)
qed simp

lemma checked_mul_Some:
  fixes a b :: "'a::len word"
  shows "checked_mul a b = Some c \<longleftrightarrow> unat a * unat b < 2 ^ LENGTH('a) \<and> unat c = unat a * unat b"
proof (cases "unat a * unat b < 2 ^ LENGTH('a)")
  case True
  then have "unat (a * b) = unat a * unat b"
    using unat_mult_lem by blast
  with True show ?thesis
    by (auto simp: checked_mul_def word_unat_eq_iff)
qed (simp add: checked_mul_def)

lemma contiguous_scan_spec:
  assumes "contiguous_scan a n own = (a', r)"
  shows "(case r of
      Some f \<Rightarrow> issues a a' (run_frames f (unat n)) own
    | None \<Rightarrow> fa_ranges a' = fa_ranges a \<and> fa_records a' = fa_records a \<and> fa_free_stack a' = fa_free_stack a \<and>
        fa_allocated_frames a' = fa_allocated_frames a)"
  using assms
proof (induction a n own arbitrary: a' r rule: contiguous_scan.induct)
  case (1 a n own)
  let ?k = "fa_next_range a" and ?r = "fa_ranges a ! fa_next_range a"
  have unfold: "contiguous_scan a n own = (a', r)"
    using "1.prems" .
  consider (fail) "\<not> ?k < length (fa_ranges a) \<or> checked_mul n FRAME_SIZE = None
      \<or> (\<exists>bytes. checked_mul n FRAME_SIZE = Some bytes \<and> checked_add (fr_next ?r) bytes = None)"
    | (fits) bytes e where "?k < length (fa_ranges a)" "checked_mul n FRAME_SIZE = Some bytes"
      "checked_add (fr_next ?r) bytes = Some e" "e \<le> fr_end ?r"
    | (skip) bytes e where "?k < length (fa_ranges a)" "checked_mul n FRAME_SIZE = Some bytes"
      "checked_add (fr_next ?r) bytes = Some e" "\<not> e \<le> fr_end ?r"
    by (cases "checked_mul n FRAME_SIZE"; cases "checked_add (fr_next ?r) (the (checked_mul n FRAME_SIZE))") auto
  then show ?case
  proof cases
    case fail
    then have "a' = failed_allocation a \<and> r = None"
      using unfold by (subst (asm) contiguous_scan.simps) (auto simp: Let_def split: if_splits)
    then show ?thesis
      by (simp add: failed_allocation_def)
  next
    case fits
    then have e: "unat e = unat (fr_next ?r) + unat n * 4096" "unat e \<le> unat (fr_end ?r)"
      by (simp_all add: checked_mul_Some checked_add_Some FRAME_SIZE_def word_le_nat_alt)
    have r: "r = Some (fr_next ?r)" "a' = update_high_water (record_run (a\<lparr>fa_ranges := (fa_ranges a)[?k := ?r\<lparr>fr_next := e\<rparr>],
        fa_allocated_frames := fa_allocated_frames a + n\<rparr>) (fr_next ?r) 0 (unat n) own)"
      using unfold fits by (subst (asm) contiguous_scan.simps, simp add: Let_def)+
    show ?thesis
      unfolding r issues_def
      using fits(1) e
      by (auto intro!: exI [of _ ?k] exI [of _ e] simp: record_run_eq run_frames_def update_high_water_def)
  next
    case skip
    then have "contiguous_scan (a\<lparr>fa_next_range := ?k + 1\<rparr>) n own = (a', r)"
      using unfold by (subst (asm) contiguous_scan.simps) (auto simp: Let_def)
    then show ?thesis
      using "1.IH" [OF skip(1) refl skip(2,3,4), of a' r] by (simp split: option.splits)
  qed
qed

lemma mset_remove_by_last:
  assumes "i < length xs"
  shows "mset xs = add_mset (xs ! i) (mset (butlast (xs[i := last xs])))"
proof -
  obtain ys y where xs: "xs = ys @ [y]"
    using assms by (cases xs rule: rev_exhaust) auto
  show ?thesis
  proof (cases "i < length ys")
    case True
    then have "ys ! i \<in># mset ys"
      by simp
    with True show ?thesis
      by (simp add: xs list_update_append nth_append butlast_append mset_update)
  next
    case False
    with assms xs have "i = length ys"
      by simp
    then show ?thesis
      by (simp add: xs list_update_append)
  qed
qed

lemma contains_issued:
  assumes "ranges_inv (fa_ranges a)" "aligned f" "list_ex (\<lambda>r. issued r f) (fa_ranges a)"
  shows "fa_contains a f"
proof -
  obtain i where i: "i < length (fa_ranges a)" "issued (fa_ranges a ! i) f"
    using assms(3) by (auto simp: list_ex_length)
  let ?r = "fa_ranges a ! i"
  have ok: "range_ok ?r"
    using ranges_invD(1) [OF assms(1) i(1)] .
  then have "unat f + 4096 \<le> unat (fr_next ?r)"
    using aligned_gap [of f "fr_next ?r"] assms(2) i(2) by (simp add: range_ok_def issued_def)
  then have gap: "unat f + 4096 \<le> unat (fr_end ?r)"
    using ok by (simp add: range_ok_def)
  then have "checked_add f FRAME_SIZE = Some (f + FRAME_SIZE)" "unat (f + FRAME_SIZE) = unat f + 4096"
    using unat_u64_bound [of "fr_end ?r"]
    by (simp_all add: checked_add_def add_wraps_iff_unat FRAME_SIZE_def unat_word_ariths)
  then have "range_contains ?r f"
    using gap i(2) by (simp add: range_contains_def issued_def word_le_nat_alt)
  then show ?thesis
    using i(1) by (auto simp: fa_contains_def list_ex_length)
qed

lemma mod_FRAME_SIZE: "f mod FRAME_SIZE = 0 \<longleftrightarrow> aligned f"
  by (simp add: aligned_def FRAME_SIZE_def word_unat_eq_iff unat_mod)

lemma record_index_SomeD:
  assumes "record_index a f = Some i"
  shows "i < length (fa_records a)" and "rec_frame (fa_records a ! i) = f" and "fa_records a ! i \<in> set (fa_records a)"
  using first_index_SomeD [OF assms [unfolded record_index_def]] by simp_all

lemma record_index_None: "record_index a f = None \<longleftrightarrow> f \<notin> set (ledger a)"
  by (auto simp: record_index_def first_index_None)

lemma owner_of_iff:
  assumes "distinct (ledger a)"
  shows "owner_of a f = Some own \<longleftrightarrow> (\<exists>r \<in> set (fa_records a). rec_frame r = f \<and> rec_owner r = own)"
proof
  assume "owner_of a f = Some own"
  then obtain i where "record_index a f = Some i" "rec_owner (fa_records a ! i) = own"
    by (auto simp: owner_of_def split: option.splits)
  then show "\<exists>r \<in> set (fa_records a). rec_frame r = f \<and> rec_owner r = own"
    using record_index_SomeD by blast
next
  assume "\<exists>r \<in> set (fa_records a). rec_frame r = f \<and> rec_owner r = own"
  then obtain j where j: "j < length (fa_records a)" "rec_frame (fa_records a ! j) = f" "rec_owner (fa_records a ! j) = own"
    by (metis in_set_conv_nth)
  then have "f \<in> set (ledger a)"
    using nth_mem [of j "fa_records a"] by force
  then obtain i where i: "record_index a f = Some i"
    using record_index_None [of a f] by blast
  have "i = j"
    using record_index_SomeD(1,2) [OF i] j(1,2) assms nth_eq_iff_index_eq [of "ledger a" i j] by simp
  with i j show "owner_of a f = Some own"
    by (simp add: owner_of_def)
qed

lemma owner_of_None: "owner_of a f = None \<longleftrightarrow> f \<notin> set (ledger a)"
  unfolding record_index_None [symmetric] by (simp add: owner_of_def split: option.split)

lemma owner_of_cong: "fa_records a' = fa_records a \<Longrightarrow> owner_of a' = owner_of a"
  by (simp add: fun_eq_iff owner_of_def record_index_def split: option.split)

lemma owner_of_append:
  assumes "distinct (ledger a)" "fa_records a' = fa_records a @ map (\<lambda>f. \<lparr>rec_frame = f, rec_owner = own\<rparr>) fs"
    "distinct fs" "set fs \<inter> set (ledger a) = {}"
  shows "owner_of a' g = (if g \<in> set fs then Some own else owner_of a g)"
proof -
  have d: "distinct (ledger a')"
    using assms by (auto simp: o_def)
  show ?thesis
  proof (cases "g \<in> set fs")
    case True
    then show ?thesis
      by (simp add: owner_of_iff [OF d] assms(2)) force
  next
    case False
    show ?thesis
    proof (cases "owner_of a g")
      case None
      then have "owner_of a' g = None"
        using False by (auto simp: owner_of_None assms(2))
      with None False show ?thesis
        by simp
    next
      case (Some own')
      then have "owner_of a' g = Some own'"
        using assms(2) by (auto simp: owner_of_iff [OF d] owner_of_iff [OF assms(1)])
      with Some False show ?thesis
        by simp
    qed
  qed
qed

lemma allocate_owned_spec:
  assumes "fa_inv a" "allocate_owned a own = (a', r)"
  shows "(case r of
      None \<Rightarrow> fa_inv a' \<and> fa_records a' = fa_records a
    | Some f \<Rightarrow> fa_inv a' \<and> f \<notin> set (ledger a) \<and> aligned f \<and> fa_contains a' f \<and>
        fa_records a' = fa_records a @ [\<lparr>rec_frame = f, rec_owner = own\<rparr>])"
proof -
  have inv: "ranges_inv (fa_ranges a)" "distinct (ledger a @ fa_free_stack a)" "length (fa_records a) \<le> MAX_FRAME_RECORDS"
    "fa_allocated_frames a = of_nat (length (fa_records a))"
    "\<And>f. f \<in> set (ledger a @ fa_free_stack a) \<Longrightarrow> aligned f \<and> list_ex (\<lambda>r. issued r f) (fa_ranges a)"
    using assms(1) by (auto simp: fa_inv_def)
  consider (full) "length (fa_records a) = MAX_FRAME_RECORDS"
    | (recycle) fs f where "length (fa_records a) < MAX_FRAME_RECORDS" "fa_free_stack a = fs @ [f]"
    | (bump) "length (fa_records a) < MAX_FRAME_RECORDS" "fa_free_stack a = []"
    using inv(3) by (cases "fa_free_stack a" rule: rev_exhaust) (auto simp: le_less)
  then show ?thesis
  proof cases
    case full
    then show ?thesis
      using assms by (auto simp: allocate_owned_def)
  next
    case recycle
    let ?b = "record_allocated (a\<lparr>fa_free_stack := fs, fa_allocated_frames := fa_allocated_frames a + 1\<rparr>) f own"
    have r: "r = Some f" "a' = update_high_water ?b"
      using assms(2) recycle by (simp_all add: allocate_owned_def Let_def)
    have "fa_inv ?b"
      using inv recycle by (auto simp: fa_inv_def record_allocated_def)
    moreover have "aligned f" "fa_contains a' f"
      using inv recycle contains_issued [of a' f] by (simp_all add: r record_allocated_def)
    ultimately show ?thesis
      using inv(2) recycle by (simp add: r record_allocated_def)
  next
    case bump
    then have "bump_allocate a own = (a', r)"
      using assms(2) by (simp add: allocate_owned_def)
    note spec = bump_allocate_spec [OF this inv(1)]
    show ?thesis
    proof (cases r)
      case None
      then show ?thesis
        using spec assms(1) fa_inv_cong [of a' a] by simp
    next
      case (Some f)
      with spec have iss: "issues a a' [f] own"
        by simp
      note new = issues_inv [OF iss assms(1)]
      have "fa_records a' = fa_records a @ [\<lparr>rec_frame = f, rec_owner = own\<rparr>]"
        using iss by (auto simp: issues_def)
      then show ?thesis
        using new bump(1) Some contains_issued [of a' f] by (auto simp: fa_inv_def)
    qed
  qed
qed

lemma allocate_contiguous_spec:
  assumes "fa_inv a" "allocate_contiguous_owned a n own = (a', r)"
  shows "(case r of
      None \<Rightarrow> fa_inv a' \<and> fa_records a' = fa_records a
    | Some f \<Rightarrow> fa_inv a' \<and> distinct (run_frames f (unat n)) \<and>
        set (run_frames f (unat n)) \<inter> set (ledger a) = {} \<and>
        fa_records a' = fa_records a @ map (\<lambda>f. \<lparr>rec_frame = f, rec_owner = own\<rparr>) (run_frames f (unat n)))"
proof (cases "n = 0 \<or> MAX_FRAME_RECORDS - length (fa_records a) < unat n")
  case True
  then show ?thesis
    using assms by (auto simp: allocate_contiguous_owned_def split: if_splits)
next
  case False
  then have "contiguous_scan a n own = (a', r)"
    using assms(2) by (simp add: allocate_contiguous_owned_def)
  note spec = contiguous_scan_spec [OF this]
  show ?thesis
  proof (cases r)
    case None
    then show ?thesis
      using spec assms(1) fa_inv_cong [of a' a] by simp
  next
    case (Some f)
    with spec have iss: "issues a a' (run_frames f (unat n)) own"
      by simp
    have "length (fa_records a) \<le> MAX_FRAME_RECORDS"
      using assms(1) by (simp add: fa_inv_def)
    then have "length (fa_records a) + length (run_frames f (unat n)) \<le> MAX_FRAME_RECORDS"
      using False by (simp add: not_less le_diff_conv2 add.commute)
    note new = issues_inv [OF iss assms(1) this]
    moreover have "fa_records a' = fa_records a @ map (\<lambda>f. \<lparr>rec_frame = f, rec_owner = own\<rparr>) (run_frames f (unat n))"
      using iss by (auto simp: issues_def)
    ultimately show ?thesis
      using Some by auto
  qed
qed

lemma saturating_pred_count:
  assumes "Suc m \<le> MAX_FRAME_RECORDS"
  shows "saturating_sub (of_nat (Suc m)) 1 = (of_nat m :: u64)"
proof -
  have fits: "unat (of_nat k :: u64) = k" if "k < 2 ^ 64" for k
    using that by (simp add: unat_of_nat)
  have "Suc m < 2 ^ 64"
    using assms by (simp add: MAX_FRAME_RECORDS_def)
  then have "unat (saturating_sub (of_nat (Suc m)) (1 :: u64)) = unat (of_nat m :: u64)"
    using fits [of "Suc m"] fits [of m] by (simp del: of_nat_Suc)
  then show ?thesis
    by (simp only: word_unat_eq_iff)
qed

text \<open>Moving one frame from the ledger to the recycle stack.\<close>

lemma recycle_inv:
  assumes "fa_inv a" "record_index a f = Some i"
    and a': "fa_ranges a' = fa_ranges a" "fa_free_stack a' = fa_free_stack a @ [f]"
      "fa_records a' = butlast ((fa_records a)[i := last (fa_records a)])"
      "fa_allocated_frames a' = saturating_sub (fa_allocated_frames a) 1"
  shows "fa_inv a'" and "owner_of a' = (owner_of a)(f := None)"
proof -
  note idx = record_index_SomeD [OF assms(2)]
  have recs: "mset (fa_records a) = add_mset (fa_records a ! i) (mset (fa_records a'))"
    using mset_remove_by_last [OF idx(1)] by (simp add: a')
  have led: "mset (ledger a @ fa_free_stack a) = mset (ledger a' @ fa_free_stack a')"
    using arg_cong [OF recs, of "image_mset rec_frame"] idx(2) by (simp add: a')
  have len: "length (fa_records a) = Suc (length (fa_records a'))"
    using arg_cong [OF recs, of size] by simp
  have rec_set: "set (fa_records a) = insert (fa_records a ! i) (set (fa_records a'))"
    using arg_cong [OF recs, of set_mset] by simp
  note dist = mset_eq_imp_distinct_iff [OF led]
  have d: "distinct (ledger a)" "distinct (ledger a')" "f \<notin> set (ledger a')"
    using assms(1) dist by (auto simp: fa_inv_def a'(2))
  have "fa_allocated_frames a' = of_nat (length (fa_records a'))"
    using assms(1) saturating_pred_count [of "length (fa_records a')"] len by (simp add: fa_inv_def a'(4))
  then show "fa_inv a'"
    using assms(1) dist mset_eq_setD [OF led] len unfolding fa_inv_def a'(1) by simp
  show "owner_of a' = (owner_of a)(f := None)"
  proof
    fix g
    show "owner_of a' g = ((owner_of a)(f := None)) g"
    proof (cases "g = f")
      case True
      then show ?thesis
        using d(3) owner_of_None by simp
    next
      case False
      then have "owner_of a' g = Some own \<longleftrightarrow> owner_of a g = Some own" for own
        using idx(2) by (auto simp: owner_of_iff [OF d(1)] owner_of_iff [OF d(2)] rec_set)
      then have "owner_of a' g = owner_of a g"
        by (metis not_Some_eq)
      with False show ?thesis
        by simp
    qed
  qed
qed

lemma free_with_owner_spec:
  assumes "fa_inv a" "free_with_owner a f expected = (a', r)"
  shows "(case r of
      Inl e \<Rightarrow> a' = a
    | Inr _ \<Rightarrow> fa_inv a' \<and> f \<in> set (ledger a) \<and> owner_of a' = (owner_of a)(f := None) \<and>
        (\<forall>own. expected = Some own \<longrightarrow> owner_of a f = Some own))"
proof (cases r)
  case (Inl e)
  then show ?thesis
    using assms(2) by (auto simp: free_with_owner_def Let_def split: if_splits option.splits)
next
  case (Inr u)
  then obtain i where i: "record_index a f = Some i" and exp: "\<forall>own. expected = Some own \<longrightarrow> owner_of a f = Some own"
    and a': "fa_ranges a' = fa_ranges a" "fa_free_stack a' = fa_free_stack a @ [f]"
      "fa_records a' = butlast ((fa_records a)[i := last (fa_records a)])"
      "fa_allocated_frames a' = saturating_sub (fa_allocated_frames a) 1"
    using assms(2)
    by (auto simp: free_with_owner_def Let_def remove_record_def owner_of_def split: if_splits option.splits)
  then show ?thesis
    using recycle_inv [OF assms(1) i a'] record_index_None [of a f] Inr by simp
qed

lemma set_owner_spec:
  assumes "fa_inv a" "set_owner a f own = (a', r)"
  shows "(case r of
      Inl e \<Rightarrow> a' = a
    | Inr _ \<Rightarrow> fa_inv a' \<and> f \<in> set (ledger a) \<and> ledger a' = ledger a \<and> owner_of a' = (owner_of a)(f \<mapsto> own))"
proof (cases r)
  case (Inl e)
  then show ?thesis
    using assms(2) by (auto simp: set_owner_def split: if_splits option.splits)
next
  case (Inr u)
  then obtain i where i: "record_index a f = Some i"
    and a': "a' = a\<lparr>fa_records := (fa_records a)[i := (fa_records a ! i)\<lparr>rec_owner := own\<rparr>]\<rparr>"
    using assms(2) by (auto simp: set_owner_def split: if_splits option.splits)
  note idx = record_index_SomeD [OF i]
  have led: "ledger a' = ledger a"
    by (simp add: a' map_update) (metis idx(1) length_map list_update_id nth_map)
  have "fa_inv a'"
    using assms(1) arg_cong [OF led, of length] unfolding fa_inv_def led by (simp add: a')
  moreover have "record_index a' g = record_index a g" for g
  proof -
    have "(\<lambda>r. rec_frame r = g) = (\<lambda>h. h = g) \<circ> rec_frame"
      by auto
    moreover have "first_index (p \<circ> h) xs = first_index p (map h xs)" for p and h :: "frame_record \<Rightarrow> u64" and xs
      by (induction xs) simp_all
    ultimately show ?thesis
      unfolding record_index_def using led by metis
  qed
  then have "owner_of a' g = ((owner_of a)(f \<mapsto> own)) g" for g
    using i idx record_index_SomeD(2) [of a g] by (auto simp: owner_of_def a' nth_update split: option.splits)
  ultimately show ?thesis
    using Inr led idx(2,3) by (force simp: fun_eq_iff)
qed

section \<open>Initialisation from the memory map\<close>

lemma mem_align_down_unat: "unat (mem_align_down x FRAME_SIZE) = unat x - unat x mod 4096"
proof -
  have "FRAME_SIZE - 1 = mask 12"
    by (simp add: FRAME_SIZE_def mask_eq_exp_minus_1)
  then show ?thesis
    using unat_and_not_mask [of x 12] by (simp add: mem_align_down_def)
qed

lemma mem_align_up_eq: "mem_align_up x FRAME_SIZE = mem_align_down (saturating_add x 4095) FRAME_SIZE"
  by (simp add: mem_align_up_def mem_align_down_def FRAME_SIZE_def)

text \<open>The boot loader's memory map lists usable memory without overlaps.\<close>

definition usable_entries :: "memmap_entry option list \<Rightarrow> memmap_entry list" where
  "usable_entries xs = filter (\<lambda>e. mm_type e = MEMMAP_USABLE) (map the (filter (\<lambda>x. x \<noteq> None) xs))"

definition entry_apart :: "memmap_entry \<Rightarrow> memmap_entry \<Rightarrow> bool" where
  "entry_apart e f \<longleftrightarrow>
    unat (mm_base e) + unat (mm_length e) \<le> unat (mm_base f) \<or> unat (mm_base f) + unat (mm_length f) \<le> unat (mm_base e)"

definition memory_map_ok :: "memmap_entry option list \<Rightarrow> bool" where
  "memory_map_ok xs \<longleftrightarrow> sorted_wrt entry_apart (usable_entries xs)"

lemma entry_range:
  assumes "start = mem_align_up (mm_base e) FRAME_SIZE"
    and "stop = mem_align_down (saturating_add (mm_base e) (mm_length e)) FRAME_SIZE" and "start < stop"
  shows "range_ok (frame_range_new start stop)" and "unat (mm_base e) \<le> unat start"
    and "unat stop \<le> unat (mm_base e) + unat (mm_length e)"
proof -
  let ?x = "min (unat (mm_base e) + 4095) (2 ^ 64 - 1)" and ?y = "min (unat (mm_base e) + unat (mm_length e)) (2 ^ 64 - 1)"
  have u: "unat start = ?x - ?x mod 4096" "unat stop = ?y - ?y mod 4096"
    by (simp_all add: assms(1,2) mem_align_up_eq mem_align_down_unat unat_saturating_add)
  have mult: "(n - n mod 4096) mod 4096 = 0" for n :: nat
    by (metis dvd_minus_mod dvd_imp_mod_0)
  show "range_ok (frame_range_new start stop)"
    using u mult [of ?x] mult [of ?y] assms(3) by (simp add: range_ok_def frame_range_new_def aligned_def word_less_nat_alt)
  show "unat stop \<le> unat (mm_base e) + unat (mm_length e)"
    using u(2) by linarith
  have less: "?x - ?x mod 4096 < ?y - ?y mod 4096"
    using assms(3) u by (simp add: word_less_nat_alt)
  show "unat (mm_base e) \<le> unat start"
  proof (cases "unat (mm_base e) + 4095 \<le> 2 ^ 64 - 1")
    case True
    then have x: "?x = unat (mm_base e) + 4095"
      by simp
    have "?x mod 4096 \<le> 4095"
      using mod_less_divisor [of 4096 ?x] by linarith
    with x u(1) show ?thesis
      by linarith
  next
    case False
    then have "?x = 2 ^ 64 - 1"
      by simp
    moreover obtain m where m: "?y - ?y mod 4096 = 4096 * m"
      by (metis dvd_minus_mod dvdE)
    moreover have "?y - ?y mod 4096 \<le> 2 ^ 64 - 1"
      by linarith
    with m have "4096 * m \<le> 18446744073709551615"
      by simp
    then have "m \<le> 4503599627370495"
      by simp
    ultimately show ?thesis
      using less by simp
  qed
qed

definition range_within :: "frame_range \<Rightarrow> memmap_entry \<Rightarrow> bool" where
  "range_within r e \<longleftrightarrow> unat (mm_base e) \<le> unat (fr_start r) \<and> unat (fr_end r) \<le> unat (mm_base e) + unat (mm_length e)"

lemma ranges_inv_snoc:
  assumes "ranges_inv rs" "range_ok r" "\<And>s. s \<in> set rs \<Longrightarrow> ranges_apart s r"
  shows "ranges_inv (rs @ [r])"
proof -
  have "ranges_apart ((rs @ [r]) ! i) ((rs @ [r]) ! j)" if "i < Suc (length rs)" "j < Suc (length rs)" "i \<noteq> j" for i j
  proof -
    have last: "ranges_apart (rs ! k) r" "ranges_apart r (rs ! k)" if "k < length rs" for k
      using assms(3) [OF nth_mem [OF that]] by (auto simp: ranges_apart_def)
    show ?thesis
      using that assms(1) last [of i] last [of j] by (auto simp: nth_append ranges_inv_def less_Suc_eq)
  qed
  then show ?thesis
    using assms(1,2) by (simp add: ranges_inv_def)
qed

lemma init_ranges_inv:
  assumes "ranges_inv (fa_ranges a)" "memory_map_ok xs"
    and "\<And>r e. r \<in> set (fa_ranges a) \<Longrightarrow> e \<in> set (usable_entries xs) \<Longrightarrow> \<exists>e0. range_within r e0 \<and> entry_apart e0 e"
  shows "ranges_inv (fa_ranges (fst (init_ranges xs a)))"
  using assms
proof (induction xs arbitrary: a)
  case (Cons x xs)
  note IH = Cons.IH and prems = Cons.prems
  have tail: "memory_map_ok xs" "set (usable_entries xs) \<subseteq> set (usable_entries (x # xs))"
    using prems(2) by (cases x; auto simp: memory_map_ok_def usable_entries_def split: if_splits)+
  have skip: "ranges_inv (fa_ranges (fst (init_ranges xs a)))"
    using IH [OF prems(1) tail(1)] prems(3) tail(2) by blast
  show ?case
  proof (cases x)
    case (Some e)
    let ?start = "mem_align_up (mm_base e) FRAME_SIZE"
    let ?stop = "mem_align_down (saturating_add (mm_base e) (mm_length e)) FRAME_SIZE"
    let ?r = "frame_range_new ?start ?stop"
    show ?thesis
    proof (cases "mm_type e = MEMMAP_USABLE \<and> ?start < ?stop \<and> length (fa_ranges a) \<noteq> MAX_RANGES")
      case True
      then have e: "e \<in> set (usable_entries (x # xs))" "\<forall>f \<in> set (usable_entries xs). entry_apart e f"
        using prems(2) Some by (simp_all add: usable_entries_def memory_map_ok_def)
      have r: "range_ok ?r" "range_within ?r e"
        using entry_range [OF refl refl, of e] True by (simp_all add: range_within_def frame_range_new_def)
      have "ranges_apart s ?r" if "s \<in> set (fa_ranges a)" for s
        using prems(3) [OF that e(1)] r(2) by (auto simp: range_within_def entry_apart_def ranges_apart_def)
      then have "ranges_inv (fa_ranges a @ [?r])"
        using prems(1) r(1) by (intro ranges_inv_snoc)
      then have "ranges_inv (fa_ranges (fst (init_ranges xs
          (a\<lparr>fa_total_frames := fa_total_frames a + frame_count ?r, fa_ranges := fa_ranges a @ [?r]\<rparr>))))"
        using prems(3) tail(2) e(2) r(2) by (intro IH [OF _ tail(1)]) auto
      with True Some show ?thesis
        by (simp add: Let_def)
    next
      case False
      then show ?thesis
        using skip Some prems(1) by (auto simp: Let_def)
    qed
  qed (use skip in simp)
qed simp

lemma init_ranges_fields:
  "fa_records (fst (init_ranges xs a)) = fa_records a \<and> fa_free_stack (fst (init_ranges xs a)) = fa_free_stack a
    \<and> fa_allocated_frames (fst (init_ranges xs a)) = fa_allocated_frames a"
  by (induction xs arbitrary: a) (simp_all add: Let_def split: option.split)

lemma init_from_limine_inv:
  assumes "memory_map_ok xs"
  shows "fa_inv (fst (init_from_limine a xs))"
proof -
  let ?a = "a\<lparr>fa_ranges := [], fa_next_range := 0, fa_free_stack := [], fa_total_frames := 0,
    fa_allocated_frames := 0, fa_reclaimed_frames := 0, fa_high_water_frames := 0, fa_failed_allocations := 0,
    fa_records := []\<rparr>"
  have "ranges_inv (fa_ranges (fst (init_ranges xs ?a)))"
    using assms by (intro init_ranges_inv) (simp_all add: ranges_inv_def)
  then have "fa_inv (fst (init_ranges xs ?a))"
    using init_ranges_fields [of xs ?a] by (simp add: fa_inv_def)
  moreover have "fst (init_from_limine a xs) = fst (init_ranges xs ?a)"
    by (simp add: init_from_limine_def Let_def split: prod.split sum.split)
  ultimately show ?thesis
    by simp
qed

section \<open>Reachable allocators\<close>

inductive fa_step :: "frame_allocator \<Rightarrow> frame_allocator \<Rightarrow> bool" where
  fa_allocate: "fa_step a (fst (allocate_owned a own))"
| fa_allocate_contiguous: "fa_step a (fst (allocate_contiguous_owned a n own))"
| fa_free: "fa_step a (fst (free_with_owner a f expected))"
| fa_set_owner: "fa_step a (fst (set_owner a f own))"

lemma fa_step_inv:
  assumes "fa_step a a'" "fa_inv a"
  shows "fa_inv a'"
  using assms(1)
proof cases
  case (fa_allocate own)
  then show ?thesis
    using allocate_owned_spec [OF assms(2), of own a' "snd (allocate_owned a own)"] by (simp split: option.splits)
next
  case (fa_allocate_contiguous n own)
  then show ?thesis
    using allocate_contiguous_spec [OF assms(2), of n own a' "snd (allocate_contiguous_owned a n own)"]
    by (simp split: option.splits)
next
  case (fa_free f expected)
  then show ?thesis
    using free_with_owner_spec [OF assms(2), of f expected a' "snd (free_with_owner a f expected)"] assms(2)
    by (simp split: sum.splits)
next
  case (fa_set_owner f own)
  then show ?thesis
    using set_owner_spec [OF assms(2), of f own a' "snd (set_owner a f own)"] assms(2) by (simp split: sum.splits)
qed

definition fa_reachable :: "memmap_entry option list \<Rightarrow> frame_allocator \<Rightarrow> bool" where
  "fa_reachable xs a \<longleftrightarrow> memory_map_ok xs \<and> fa_step\<^sup>*\<^sup>* (fst (init_from_limine frame_allocator_new xs)) a"

lemma fa_reachable_inv:
  assumes "fa_reachable xs a"
  shows "fa_inv a"
proof -
  have "fa_step\<^sup>*\<^sup>* (fst (init_from_limine frame_allocator_new xs)) a" "memory_map_ok xs"
    using assms by (simp_all add: fa_reachable_def)
  then show ?thesis
    by (induction rule: rtranclp_induct) (simp_all add: init_from_limine_inv fa_step_inv)
qed

text \<open>
  C4: The allocator never hands out a frame that is in use.  Over any memory
  map whose usable entries do not overlap, and after any sequence of
  allocations (single and contiguous), frees and owner changes, the frame that
  an allocation returns is in no ledger entry, is frame-aligned, lies in a
  usable range, is then owned by the caller, and no other frame changes
  owner; an allocation that fails changes no ownership.
\<close>

theorem frames_never_double_allocated:
  assumes "fa_reachable xs a" "allocate_owned a own = (a', r)"
  shows "(case r of
      None \<Rightarrow> owner_of a' = owner_of a
    | Some f \<Rightarrow> owner_of a f = None \<and> aligned f \<and> fa_contains a' f \<and> owner_of a' = (owner_of a)(f \<mapsto> own))"
proof -
  have inv: "fa_inv a"
    using assms(1) by (rule fa_reachable_inv)
  note spec = allocate_owned_spec [OF inv assms(2)]
  show ?thesis
  proof (cases r)
    case None
    then show ?thesis
      using spec owner_of_cong [of a' a] by simp
  next
    case (Some f)
    have d: "distinct (ledger a)"
      using inv by (simp add: fa_inv_def)
    have "owner_of a' g = (if g \<in> set [f] then Some own else owner_of a g)" for g
      using spec Some by (intro owner_of_append [OF d]) auto
    then show ?thesis
      using spec Some owner_of_None [of a f] by (simp add: fun_eq_iff)
  qed
qed

definition sample_map :: "memmap_entry option list" where
  "sample_map = [Some \<lparr>mm_base = 0x100000, mm_length = 0x4000, mm_type = 0\<rparr>,
    Some \<lparr>mm_base = 0x200000, mm_length = 0x10000, mm_type = 1\<rparr>, None]"

definition sample_allocator :: frame_allocator where
  "sample_allocator = fst (init_from_limine frame_allocator_new sample_map)"

lemma sample_allocator_reachable: "fa_reachable sample_map sample_allocator"
  by (simp add: fa_reachable_def sample_allocator_def memory_map_ok_def sample_map_def usable_entries_def MEMMAP_USABLE_def)

lemma sample_allocator_eq:
  "sample_allocator = frame_allocator_new\<lparr>fa_ranges := [\<lparr>fr_start = 0x100000, fr_next = 0x100000, fr_end = 0x104000\<rparr>],
    fa_total_frames := 4\<rparr>"
proof -
  have "mem_align_up 0x100000 FRAME_SIZE = 0x100000" "mem_align_down 0x104000 FRAME_SIZE = 0x104000"
    by (simp_all add: word_unat_eq_iff mem_align_up_eq mem_align_down_unat unat_saturating_add)
  moreover have "saturating_add 0x100000 0x4000 = (0x104000 :: u64)"
    by (simp add: saturating_add_def)
  ultimately show ?thesis
    by (simp add: sample_allocator_def init_from_limine_def sample_map_def MEMMAP_USABLE_def Let_def
        frame_allocator_new_def MAX_RANGES_def frame_range_new_def frame_count_def FRAME_SIZE_def)
qed

lemma sample_first_frame: "snd (allocate_owned sample_allocator owner_scratch) = Some 0x100000"
  by (simp add: sample_allocator_eq allocate_owned_def frame_allocator_new_def MAX_FRAME_RECORDS_def)
    (subst bump_allocate.simps, simp add: Let_def)

theorem frames_never_double_allocated_witness:
  "owner_of sample_allocator 0x100000 = None \<and>
    owner_of (fst (allocate_owned sample_allocator owner_scratch)) = (owner_of sample_allocator)(0x100000 \<mapsto> owner_scratch)"
  using frames_never_double_allocated [OF sample_allocator_reachable, of owner_scratch
      "fst (allocate_owned sample_allocator owner_scratch)" "Some 0x100000"] sample_first_frame
  by (simp add: prod_eq_iff)

text \<open>
  C28: Freeing is checked against the ledger.  In every reachable allocator a
  free with an expected owner either changes nothing and reports why, or the
  frame was owned by exactly that owner and afterwards only that frame has
  lost its owner; a second free of the frame is then refused.
\<close>

theorem free_owned_checked:
  assumes "fa_reachable xs a" "free_owned a f own = (a', r)"
  shows "(case r of
      Inl e \<Rightarrow> a' = a
    | Inr _ \<Rightarrow> owner_of a f = Some own \<and> owner_of a' = (owner_of a)(f := None) \<and>
        (\<forall>own'. snd (free_owned a' f own') = Inl UnallocatedFrame))"
proof -
  have inv: "fa_inv a"
    using assms(1) by (rule fa_reachable_inv)
  have free: "free_with_owner a f (Some own) = (a', r)"
    using assms(2) by (simp add: free_owned_def)
  note spec = free_with_owner_spec [OF inv free]
  show ?thesis
  proof (cases r)
    case (Inl e)
    then show ?thesis
      using spec by simp
  next
    case (Inr u)
    then have "f mod FRAME_SIZE = 0" "fa_contains a f" "fa_ranges a' = fa_ranges a"
      using free by (auto simp: free_with_owner_def remove_record_def Let_def split: if_splits option.splits)
    moreover have "record_index a' f = None"
      using spec Inr record_index_None [of a' f] owner_of_None [of a' f] by (simp add: fun_eq_iff)
    ultimately show ?thesis
      using spec Inr by (simp add: free_owned_def free_with_owner_def fa_contains_def)
  qed
qed

definition sample_taken :: frame_allocator where
  "sample_taken = fst (allocate_owned sample_allocator (owner_page_table 7))"

lemma sample_taken_reachable: "fa_reachable sample_map sample_taken"
  using sample_allocator_reachable fa_allocate [of sample_allocator "owner_page_table 7"]
  by (simp add: fa_reachable_def sample_taken_def) (meson rtranclp.rtrancl_into_rtrancl)

lemma sample_taken_fields:
  "fa_records sample_taken = [\<lparr>rec_frame = 0x100000, rec_owner = owner_page_table 7\<rparr>]"
  "fa_ranges sample_taken = [\<lparr>fr_start = 0x100000, fr_next = 0x101000, fr_end = 0x104000\<rparr>]"
  "fa_free_stack sample_taken = []"
  by (simp_all add: sample_taken_def sample_allocator_eq allocate_owned_def frame_allocator_new_def MAX_FRAME_RECORDS_def)
    (subst bump_allocate.simps, simp add: Let_def record_allocated_def FRAME_SIZE_def)+

theorem free_owned_checked_witness:
  "snd (free_owned sample_taken 0x100000 (owner_page_table 7)) = Inr () \<and>
    owner_of (fst (free_owned sample_taken 0x100000 (owner_page_table 7))) = (owner_of sample_taken)(0x100000 := None) \<and>
    snd (free_owned sample_taken 0x100000 (owner_page_table 8)) = Inl WrongOwner"
proof -
  have contains: "fa_contains sample_taken 0x100000"
    by (simp add: fa_contains_def sample_taken_fields range_contains_def checked_add_def FRAME_SIZE_def)
  have ok: "snd (free_owned sample_taken 0x100000 (owner_page_table 7)) = Inr ()"
    by (simp add: free_owned_def free_with_owner_def contains record_index_def sample_taken_fields FREE_STACK_CAPACITY_def
        FRAME_SIZE_def Let_def)
  moreover have "snd (free_owned sample_taken 0x100000 (owner_page_table 8)) = Inl WrongOwner"
    by (simp add: free_owned_def free_with_owner_def contains record_index_def sample_taken_fields FRAME_SIZE_def
        owner_page_table_def)
  ultimately show ?thesis
    using free_owned_checked [OF sample_taken_reachable prod.collapse [symmetric],
        where f = "0x100000" and own = "owner_page_table 7"]
    by simp
qed

section \<open>A failed contiguous request strands free frames\<close>

lemma contiguous_scan_exhausts:
  assumes "\<And>i. fa_next_range a \<le> i \<Longrightarrow> i < length (fa_ranges a) \<Longrightarrow>
      unat (fr_end (fa_ranges a ! i)) < unat (fr_next (fa_ranges a ! i)) + unat n * 4096 \<and>
      unat (fr_next (fa_ranges a ! i)) + unat n * 4096 < 2 ^ 64"
  shows "snd (contiguous_scan a n own) = None \<and> fa_records (fst (contiguous_scan a n own)) = fa_records a \<and>
    fa_free_stack (fst (contiguous_scan a n own)) = fa_free_stack a \<and> fa_ranges (fst (contiguous_scan a n own)) = fa_ranges a \<and>
    fa_total_frames (fst (contiguous_scan a n own)) = fa_total_frames a \<and>
    fa_allocated_frames (fst (contiguous_scan a n own)) = fa_allocated_frames a \<and>
    length (fa_ranges a) \<le> fa_next_range (fst (contiguous_scan a n own))"
  using assms
proof (induction a n own rule: contiguous_scan.induct)
  case (1 a n own)
  let ?r = "fa_ranges a ! fa_next_range a"
  show ?case
  proof (cases "fa_next_range a < length (fa_ranges a)")
    case True
    then have big: "unat (fr_end ?r) < unat (fr_next ?r) + unat n * 4096" "unat (fr_next ?r) + unat n * 4096 < 2 ^ 64"
      using "1.prems" [of "fa_next_range a"] by simp_all
    then obtain bytes where bytes: "checked_mul n FRAME_SIZE = Some bytes" "unat bytes = unat n * 4096"
      using checked_mul_Some [of n FRAME_SIZE "n * FRAME_SIZE"] by (simp add: FRAME_SIZE_def unat_word_ariths)
    then obtain e where e: "checked_add (fr_next ?r) bytes = Some e" "unat e = unat (fr_next ?r) + unat n * 4096"
      using checked_add_Some [of "fr_next ?r" bytes "fr_next ?r + bytes"] big(2) by (simp add: unat_word_ariths)
    then have "\<not> e \<le> fr_end ?r"
      using big(1) by (simp add: word_le_nat_alt)
    moreover from this have "contiguous_scan a n own = contiguous_scan (a\<lparr>fa_next_range := fa_next_range a + 1\<rparr>) n own"
      using True bytes(1) e(1) by (subst contiguous_scan.simps) simp
    ultimately show ?thesis
      using "1.IH" [OF True refl bytes(1) e(1)] "1.prems" by simp
  next
    case False
    then have "contiguous_scan a n own = (failed_allocation a, None)"
      by (subst contiguous_scan.simps) simp
    then show ?thesis
      using False by (simp add: failed_allocation_def)
  qed
qed

text \<open>
  C34: Take a contiguous request of at least one frame, with room for its
  frames in the ledger, that every remaining range is too small for without
  the end address wrapping, while no recycled frame is on the free stack.
  It fails, and every single-frame request right after it fails as well,
  although the ranges and the number of frames reported free are those from
  before the request: the scan has moved the range cursor past every range,
  and the single-frame path starts at that cursor.  (A request beyond the room
  of the ledger, or one whose end wraps, is refused before the cursor moves
  past the range, and is not covered.)
\<close>

theorem failed_contiguous_strands_frames:
  assumes "fa_free_stack a = []" "n \<noteq> 0" "length (fa_records a) + unat n \<le> MAX_FRAME_RECORDS"
    and "\<And>i. fa_next_range a \<le> i \<Longrightarrow> i < length (fa_ranges a) \<Longrightarrow>
      unat (fr_end (fa_ranges a ! i)) < unat (fr_next (fa_ranges a ! i)) + unat n * 4096 \<and>
      unat (fr_next (fa_ranges a ! i)) + unat n * 4096 < 2 ^ 64"
  shows "snd (allocate_contiguous_owned a n own) = None \<and>
    snd (allocate_owned (fst (allocate_contiguous_owned a n own)) own') = None \<and>
    fa_ranges (fst (allocate_contiguous_owned a n own)) = fa_ranges a \<and>
    st_free_frames (stats (fst (allocate_contiguous_owned a n own))) = st_free_frames (stats a)"
proof -
  have scan: "allocate_contiguous_owned a n own = contiguous_scan a n own"
    using assms(2,3) by (auto simp: allocate_contiguous_owned_def)
  let ?a = "fst (contiguous_scan a n own)"
  have ex: "snd (contiguous_scan a n own) = None" "fa_free_stack ?a = []" "\<not> fa_next_range ?a < length (fa_ranges ?a)"
    "fa_ranges ?a = fa_ranges a" "fa_total_frames ?a = fa_total_frames a" "fa_allocated_frames ?a = fa_allocated_frames a"
    using contiguous_scan_exhausts [OF assms(4)] assms(1) by (simp_all add: not_less)
  then have "snd (bump_allocate ?a own') = None"
    by (subst bump_allocate.simps) simp
  then show ?thesis
    using ex by (simp add: scan allocate_owned_def stats_def)
qed

theorem failed_contiguous_strands_frames_witness:
  "st_free_frames (stats (fst (allocate_contiguous_owned sample_allocator 5 (owner_dma 1)))) = 4 \<and>
    snd (allocate_contiguous_owned sample_allocator 5 (owner_dma 1)) = None \<and>
    snd (allocate_owned (fst (allocate_contiguous_owned sample_allocator 5 (owner_dma 1))) owner_scratch) = None"
  using failed_contiguous_strands_frames [of sample_allocator 5 "owner_dma 1" owner_scratch]
  by (simp add: sample_allocator_eq frame_allocator_new_def MAX_FRAME_RECORDS_def stats_def saturating_sub_def)

end
