(* ===== verification/Paging.thy ===== *)
theory Paging
  imports Frame_Memory
begin

text \<open>
  The four-level page tables of \<^verbatim>\<open>paging.rs\<close>.  Table memory is a
  map from the physical address of a table and an index to the 64-bit entry;
  the kernel reaches a table through its direct map of physical memory, so a
  table pointer is modelled by the physical address it stands for.
  Translation-cache invalidation has no counterpart in the model.
\<close>

definition ENTRY_COUNT :: nat where "ENTRY_COUNT = 512"
definition PRESENT :: u64 where "PRESENT = push_bit 0 1"
definition WRITABLE :: u64 where "WRITABLE = push_bit 1 1"
definition USER_ACCESSIBLE :: u64 where "USER_ACCESSIBLE = push_bit 2 1"
definition WRITE_THROUGH :: u64 where "WRITE_THROUGH = push_bit 3 1"
definition CACHE_DISABLE :: u64 where "CACHE_DISABLE = push_bit 4 1"
definition HUGE_PAGE :: u64 where "HUGE_PAGE = push_bit 7 1"
definition NO_EXECUTE :: u64 where "NO_EXECUTE = push_bit 63 1"
definition ADDRESS_MASK :: u64 where "ADDRESS_MASK = 0x000ffffffffff000"
definition KERNEL_HEAP_BASE :: u64 where "KERNEL_HEAP_BASE = 0xffffff4000000000"
definition KERNEL_HEAP_PAGES :: nat where "KERNEL_HEAP_PAGES = 2"
definition USER_CANONICAL_LIMIT :: u64 where "USER_CANONICAL_LIMIT = 0x0000800000000000"

datatype map_error = OutOfFrames | AlreadyMapped | MapHugePage
datatype unmap_error = NotMapped | UnmapHugePage
datatype reclaim_error = ReclaimHugePage | ReclaimFree free_error
datatype user_access = ReadAccess | WriteAccess
datatype user_range_error = NonCanonical | Overflow | NotPresent | NotUserAccessible | NotWritable | RangeHugePage

record reclaim_stats =
  rs_user_leaf_frames :: u64
  rs_page_table_frames :: u64
  rs_device_mappings :: u64

definition reclaim_stats_empty :: reclaim_stats where
  "reclaim_stats_empty = \<lparr>rs_user_leaf_frames = 0, rs_page_table_frames = 0, rs_device_mappings = 0\<rparr>"

type_synonym page_mem = "u64 \<Rightarrow> nat \<Rightarrow> u64"

section \<open>Entries and flags\<close>

definition is_present :: "u64 \<Rightarrow> bool" where "is_present e \<longleftrightarrow> e AND PRESENT \<noteq> 0"
definition is_huge :: "u64 \<Rightarrow> bool" where "is_huge e \<longleftrightarrow> e AND HUGE_PAGE \<noteq> 0"
definition is_writable :: "u64 \<Rightarrow> bool" where "is_writable e \<longleftrightarrow> e AND WRITABLE \<noteq> 0"
definition is_user_accessible :: "u64 \<Rightarrow> bool" where "is_user_accessible e \<longleftrightarrow> e AND USER_ACCESSIBLE \<noteq> 0"
definition entry_address :: "u64 \<Rightarrow> u64" where "entry_address e = e AND ADDRESS_MASK"
definition entry_value :: "physical_frame \<Rightarrow> u64 \<Rightarrow> u64" where "entry_value frame flags = frame OR flags"

definition set_entry :: "page_mem \<Rightarrow> u64 \<Rightarrow> nat \<Rightarrow> u64 \<Rightarrow> page_mem" where
  "set_entry m table index e = m(table := (m table)(index := e))"

definition flags_kernel :: u64 where "flags_kernel = PRESENT OR WRITABLE OR NO_EXECUTE"

definition flags_user :: "bool \<Rightarrow> bool \<Rightarrow> u64" where
  "flags_user writable executable =
    (PRESENT OR USER_ACCESSIBLE) OR (if writable then WRITABLE else 0) OR (if executable then 0 else NO_EXECUTE)"

definition flags_user_device :: u64 where
  "flags_user_device = PRESENT OR WRITABLE OR USER_ACCESSIBLE OR WRITE_THROUGH OR CACHE_DISABLE OR NO_EXECUTE"

definition flags_user_accessible :: "u64 \<Rightarrow> bool" where
  "flags_user_accessible flags \<longleftrightarrow> flags AND USER_ACCESSIBLE \<noteq> 0"

definition table_bits :: "u64 \<Rightarrow> u64" where
  "table_bits flags = (PRESENT OR WRITABLE) OR (if flags_user_accessible flags then USER_ACCESSIBLE else 0)"

definition page_indexes :: "u64 \<Rightarrow> nat list" where
  "page_indexes va =
    [unat (drop_bit 39 va AND 0x1ff), unat (drop_bit 30 va AND 0x1ff),
     unat (drop_bit 21 va AND 0x1ff), unat (drop_bit 12 va AND 0x1ff)]"

definition page_align_down :: "u64 \<Rightarrow> u64" where
  "page_align_down value = value AND NOT (FRAME_SIZE - 1)"

definition zero_table :: "page_mem \<Rightarrow> u64 \<Rightarrow> page_mem" where
  "zero_table m table = m(table := (\<lambda>i. if i < ENTRY_COUNT then 0 else m table i))"

definition page_table_is_empty :: "page_mem \<Rightarrow> u64 \<Rightarrow> bool" where
  "page_table_is_empty m table \<longleftrightarrow> list_all (\<lambda>i. \<not> is_present (m table i)) [0 ..< ENTRY_COUNT]"

definition kernel_heap_page :: "nat \<Rightarrow> u64 option" where
  "kernel_heap_page index =
    (if KERNEL_HEAP_PAGES \<le> index then None else Some (KERNEL_HEAP_BASE + of_nat index * FRAME_SIZE))"

section \<open>Mapping and unmapping\<close>

definition ensure_next_table :: "page_mem \<Rightarrow> frame_allocator \<Rightarrow> u64 \<Rightarrow> nat \<Rightarrow> u64 \<Rightarrow> frame_owner
    \<Rightarrow> page_mem \<times> frame_allocator \<times> (map_error, u64) result" where
  "ensure_next_table m a table index flags own =
    (let entry = m table index
     in if is_present entry
        then if is_huge entry then (m, a, Inl MapHugePage)
             else let entry' = (if flags_user_accessible flags then entry OR USER_ACCESSIBLE else entry)
                  in (set_entry m table index entry', a, Inr (entry_address entry'))
        else case allocate_owned a own of
               (a, None) \<Rightarrow> (m, a, Inl OutOfFrames)
             | (a, Some frame) \<Rightarrow>
                (set_entry (zero_table m frame) table index (entry_value frame (table_bits flags)), a, Inr frame))"

definition map_page_in_table :: "page_mem \<Rightarrow> frame_allocator \<Rightarrow> u64 \<Rightarrow> frame_owner \<Rightarrow> u64 \<Rightarrow> physical_frame \<Rightarrow> u64
    \<Rightarrow> page_mem \<times> frame_allocator \<times> (map_error, unit) result" where
  "map_page_in_table m a root own va frame flags =
    (let indexes = page_indexes va
     in case ensure_next_table m a root (indexes ! 0) flags own of
          (m, a, Inl e) \<Rightarrow> (m, a, Inl e)
        | (m, a, Inr table) \<Rightarrow>
           (case ensure_next_table m a table (indexes ! 1) flags own of
              (m, a, Inl e) \<Rightarrow> (m, a, Inl e)
            | (m, a, Inr table) \<Rightarrow>
               (case ensure_next_table m a table (indexes ! 2) flags own of
                  (m, a, Inl e) \<Rightarrow> (m, a, Inl e)
                | (m, a, Inr table) \<Rightarrow>
                   if is_present (m table (indexes ! 3)) then (m, a, Inl AlreadyMapped)
                   else (set_entry m table (indexes ! 3) (entry_value frame flags), a, Inr ()))))"

definition map_page_in_root :: "page_mem \<Rightarrow> frame_allocator \<Rightarrow> u64 \<Rightarrow> u64 \<Rightarrow> physical_frame \<Rightarrow> u64
    \<Rightarrow> page_mem \<times> frame_allocator \<times> (map_error, unit) result" where
  "map_page_in_root m a root va frame flags = map_page_in_table m a root (owner_page_table root) va frame flags"

definition mapper_map_page :: "page_mem \<Rightarrow> frame_allocator \<Rightarrow> u64 \<Rightarrow> u64 \<Rightarrow> physical_frame
    \<Rightarrow> page_mem \<times> frame_allocator \<times> (map_error, unit) result" where
  "mapper_map_page m a cr3 va frame =
    map_page_in_table m a (cr3 AND ADDRESS_MASK) (owner_kernel (cr3 AND ADDRESS_MASK)) va frame flags_kernel"

definition address_space_new :: "page_mem \<Rightarrow> frame_allocator \<Rightarrow> u64
    \<Rightarrow> page_mem \<times> frame_allocator \<times> (map_error, u64) result" where
  "address_space_new m a cr3 =
    (case allocate_owned a (owner_page_table 0) of
       (a, None) \<Rightarrow> (m, a, Inl OutOfFrames)
     | (a, Some root) \<Rightarrow>
        (case set_owner a root (owner_page_table root) of
           (a, Inl _) \<Rightarrow> (m, a, Inl OutOfFrames)
         | (a, Inr _) \<Rightarrow>
            (let m = zero_table m root
             in (m(root := (\<lambda>i. if ENTRY_COUNT div 2 \<le> i \<and> i < ENTRY_COUNT
                                then m (cr3 AND ADDRESS_MASK) i else m root i)), a, Inr root))))"

fun unmap_levels :: "page_mem \<Rightarrow> u64 \<Rightarrow> nat list \<Rightarrow> page_mem \<times> (unmap_error, unit) result" where
  "unmap_levels m table [] = (m, Inl NotMapped)"
| "unmap_levels m table (index # rest) =
    (let entry = m table index
     in if \<not> is_present entry then (m, Inl NotMapped)
        else if is_huge entry then (m, Inl UnmapHugePage)
        else if rest = [] then (set_entry m table index 0, Inr ())
        else unmap_levels m (entry_address entry) rest)"

definition unmap_page_in_root :: "page_mem \<Rightarrow> u64 \<Rightarrow> u64 \<Rightarrow> page_mem \<times> (unmap_error, unit) result" where
  "unmap_page_in_root m root va = unmap_levels m root (page_indexes va)"

section \<open>Reclaiming\<close>

record reclaim_state =
  rc_mem :: page_mem
  rc_alloc :: frame_allocator
  rc_stats :: reclaim_stats

definition free_page_table_frame :: "u64 \<Rightarrow> u64 \<Rightarrow> reclaim_state \<Rightarrow> reclaim_state \<times> (reclaim_error, unit) result" where
  "free_page_table_frame root physical s =
    (case frame_from_start physical of
       None \<Rightarrow> (s, Inl (ReclaimFree UnalignedFrame))
     | Some frame \<Rightarrow>
        (case free_owned (rc_alloc s) frame (owner_page_table root) of
           (a, Inl e) \<Rightarrow> (s\<lparr>rc_alloc := a\<rparr>, Inl (ReclaimFree e))
         | (a, Inr _) \<Rightarrow>
            (s\<lparr>rc_alloc := a, rc_stats := (rc_stats s)
               \<lparr>rs_page_table_frames := saturating_add (rs_page_table_frames (rc_stats s)) 1\<rparr>\<rparr>, Inr ())))"

definition reclaim_leaf_frame :: "u64 \<Rightarrow> u64 \<Rightarrow> reclaim_state \<Rightarrow> reclaim_state \<times> (reclaim_error, unit) result" where
  "reclaim_leaf_frame root physical s =
    (case frame_from_start physical of
       None \<Rightarrow> (s, Inl (ReclaimFree UnalignedFrame))
     | Some frame \<Rightarrow>
        if owner_of (rc_alloc s) frame = Some (owner_process_memory root)
        then (case free_owned (rc_alloc s) frame (owner_process_memory root) of
                (a, Inl e) \<Rightarrow> (s\<lparr>rc_alloc := a\<rparr>, Inl (ReclaimFree e))
              | (a, Inr _) \<Rightarrow>
                 (s\<lparr>rc_alloc := a, rc_stats := (rc_stats s)
                    \<lparr>rs_user_leaf_frames := saturating_add (rs_user_leaf_frames (rc_stats s)) 1\<rparr>\<rparr>, Inr ()))
        else (s\<lparr>rc_stats := (rc_stats s)
                \<lparr>rs_device_mappings := saturating_add (rs_device_mappings (rc_stats s)) 1\<rparr>\<rparr>, Inr ()))"

text \<open>
  \<^verbatim>\<open>reclaim_entries\<close> is the index loop over one table; what is done
  with the address of a present entry is its argument.  The recursion of
  \<^verbatim>\<open>reclaim_page_table\<close> on its level counts the levels below.
\<close>

fun reclaim_entries :: "(u64 \<Rightarrow> reclaim_state \<Rightarrow> reclaim_state \<times> (reclaim_error, unit) result) \<Rightarrow> u64 \<Rightarrow> nat list
    \<Rightarrow> reclaim_state \<Rightarrow> reclaim_state \<times> (reclaim_error, unit) result" where
  "reclaim_entries visit table [] s = (s, Inr ())"
| "reclaim_entries visit table (index # rest) s =
    (let entry = rc_mem s table index
     in if \<not> is_present entry then reclaim_entries visit table rest s
        else if is_huge entry then (s, Inl ReclaimHugePage)
        else case visit (entry_address entry) s of
               (s, Inl e) \<Rightarrow> (s, Inl e)
             | (s, Inr _) \<Rightarrow>
                 reclaim_entries visit table rest (s\<lparr>rc_mem := set_entry (rc_mem s) table index 0\<rparr>))"

primrec reclaim_page_table :: "nat \<Rightarrow> u64 \<Rightarrow> u64 \<Rightarrow> reclaim_state \<Rightarrow> reclaim_state \<times> (reclaim_error, unit) result" where
  "reclaim_page_table 0 root table s = reclaim_entries (reclaim_leaf_frame root) table [0 ..< ENTRY_COUNT] s"
| "reclaim_page_table (Suc levels) root table s =
    reclaim_entries
      (\<lambda>next s. case reclaim_page_table levels root next s of
                  (s, Inl e) \<Rightarrow> (s, Inl e)
                | (s, Inr _) \<Rightarrow> free_page_table_frame root next s)
      table [0 ..< ENTRY_COUNT] s"

fun reclaim_root_entries :: "u64 \<Rightarrow> nat list \<Rightarrow> reclaim_state \<Rightarrow> reclaim_state \<times> (reclaim_error, unit) result" where
  "reclaim_root_entries root [] s = (s, Inr ())"
| "reclaim_root_entries root (index # rest) s =
    (let entry = rc_mem s root index
     in if \<not> is_present entry then reclaim_root_entries root rest s
        else if is_huge entry then (s, Inl ReclaimHugePage)
        else case reclaim_page_table 2 root (entry_address entry) s of
               (s, Inl e) \<Rightarrow> (s, Inl e)
             | (s, Inr _) \<Rightarrow>
                (case free_page_table_frame root (entry_address entry)
                        (s\<lparr>rc_mem := set_entry (rc_mem s) root index 0\<rparr>) of
                   (s, Inl e) \<Rightarrow> (s, Inl e)
                 | (s, Inr _) \<Rightarrow> reclaim_root_entries root rest s))"

definition reclaim_user_address_space :: "page_mem \<Rightarrow> frame_allocator \<Rightarrow> u64
    \<Rightarrow> reclaim_state \<times> (reclaim_error, reclaim_stats) result" where
  "reclaim_user_address_space m a root =
    (case reclaim_root_entries root [0 ..< ENTRY_COUNT div 2]
            \<lparr>rc_mem = m, rc_alloc = a, rc_stats = reclaim_stats_empty\<rparr> of
       (s, Inl e) \<Rightarrow> (s, Inl e)
     | (s, Inr _) \<Rightarrow>
        (case free_page_table_frame root root s of
           (s, Inl e) \<Rightarrow> (s, Inl e)
         | (s, Inr _) \<Rightarrow> (s, Inr (rc_stats s))))"

text \<open>The tables from the root to the last level, the root first; \<^const>\<open>None\<close> where an entry is absent.\<close>

fun prune_path :: "page_mem \<Rightarrow> u64 \<Rightarrow> nat list \<Rightarrow> (reclaim_error, u64 list option) result" where
  "prune_path m table [] = Inr (Some [table])"
| "prune_path m table (index # rest) =
    (let entry = m table index
     in if \<not> is_present entry then Inr None
        else if is_huge entry then Inl ReclaimHugePage
        else case prune_path m (entry_address entry) rest of
               Inl e \<Rightarrow> Inl e
             | Inr None \<Rightarrow> Inr None
             | Inr (Some tables) \<Rightarrow> Inr (Some (table # tables)))"

fun prune_levels :: "u64 \<Rightarrow> u64 list \<Rightarrow> nat list \<Rightarrow> nat \<Rightarrow> reclaim_state \<Rightarrow> reclaim_state \<times> (reclaim_error, unit) result" where
  "prune_levels root tables indexes 0 s = (s, Inr ())"
| "prune_levels root tables indexes (Suc parent) s =
    (let child = tables ! Suc parent
     in if \<not> page_table_is_empty (rc_mem s) child then (s, Inr ())
        else let entry = rc_mem s (tables ! parent) (indexes ! parent)
             in if \<not> is_present entry \<or> entry_address entry \<noteq> child then (s, Inr ())
                else if is_huge entry then (s, Inl ReclaimHugePage)
                else case free_page_table_frame root child
                       (s\<lparr>rc_mem := set_entry (rc_mem s) (tables ! parent) (indexes ! parent) 0\<rparr>) of
                       (s, Inl e) \<Rightarrow> (s, Inl e)
                     | (s, Inr _) \<Rightarrow> prune_levels root tables indexes parent s)"

definition prune_empty_user_page_tables :: "page_mem \<Rightarrow> frame_allocator \<Rightarrow> u64 \<Rightarrow> u64
    \<Rightarrow> reclaim_state \<times> (reclaim_error, unit) result" where
  "prune_empty_user_page_tables m a root va =
    (let s = \<lparr>rc_mem = m, rc_alloc = a, rc_stats = reclaim_stats_empty\<rparr>
     in case prune_path m root (take 3 (page_indexes va)) of
          Inl e \<Rightarrow> (s, Inl e)
        | Inr None \<Rightarrow> (s, Inr ())
        | Inr (Some tables) \<Rightarrow> prune_levels root tables (page_indexes va) 3 s)"

section \<open>Checking user ranges\<close>

fun validate_levels :: "page_mem \<Rightarrow> u64 \<Rightarrow> nat list \<Rightarrow> user_access \<Rightarrow> (user_range_error, unit) result" where
  "validate_levels m table [] access = Inl NotPresent"
| "validate_levels m table (index # rest) access =
    (let entry = m table index
     in if \<not> is_present entry then Inl NotPresent
        else if \<not> is_user_accessible entry then Inl NotUserAccessible
        else if is_huge entry then Inl RangeHugePage
        else if rest = [] then (if access = WriteAccess \<and> \<not> is_writable entry then Inl NotWritable else Inr ())
        else validate_levels m (entry_address entry) rest access)"

definition validate_user_page :: "page_mem \<Rightarrow> u64 \<Rightarrow> u64 \<Rightarrow> user_access \<Rightarrow> (user_range_error, unit) result" where
  "validate_user_page m root va access = validate_levels m root (page_indexes va) access"

fun mapped_levels :: "page_mem \<Rightarrow> u64 \<Rightarrow> nat list \<Rightarrow> (user_range_error, bool) result" where
  "mapped_levels m table [] = Inr False"
| "mapped_levels m table (index # rest) =
    (let entry = m table index
     in if \<not> is_present entry then Inr False
        else if is_huge entry then Inl RangeHugePage
        else if rest = [] then Inr True
        else mapped_levels m (entry_address entry) rest)"

definition user_page_is_mapped :: "page_mem \<Rightarrow> u64 \<Rightarrow> u64 \<Rightarrow> (user_range_error, bool) result" where
  "user_page_is_mapped m root va = mapped_levels m root (page_indexes va)"

function validate_pages :: "page_mem \<Rightarrow> u64 \<Rightarrow> u64 \<Rightarrow> u64 \<Rightarrow> user_access \<Rightarrow> (user_range_error, unit) result" where
  "validate_pages m root page last_page access =
    (case validate_user_page m root page access of
       Inl e \<Rightarrow> Inl e
     | Inr _ \<Rightarrow>
        if page = last_page then Inr ()
        else case checked_add page FRAME_SIZE of
               None \<Rightarrow> Inl Overflow
             | Some page \<Rightarrow> validate_pages m root page last_page access)"
  by auto
termination
  by (relation "measure (\<lambda>(m, root, page, last_page, access). 2 ^ 64 - unat page)")
    (auto simp: checked_add_Some FRAME_SIZE_def)

declare validate_pages.simps [simp del]

definition validate_user_range :: "page_mem \<Rightarrow> u64 \<Rightarrow> u64 \<Rightarrow> nat \<Rightarrow> user_access \<Rightarrow> (user_range_error, unit) result" where
  "validate_user_range m root start len access =
    (let len = of_nat len :: u64
     in case checked_add start len of
          None \<Rightarrow> Inl Overflow
        | Some e \<Rightarrow>
           if USER_CANONICAL_LIMIT \<le> start \<or> USER_CANONICAL_LIMIT < e then Inl NonCanonical
           else if len = 0 then Inr ()
           else validate_pages m root (page_align_down start) (page_align_down (e - 1)) access)"

function unmapped_pages :: "page_mem \<Rightarrow> u64 \<Rightarrow> u64 \<Rightarrow> u64 \<Rightarrow> (user_range_error, bool) result" where
  "unmapped_pages m root page last_page =
    (case user_page_is_mapped m root page of
       Inl e \<Rightarrow> Inl e
     | Inr True \<Rightarrow> Inr False
     | Inr False \<Rightarrow>
        if page = last_page then Inr True
        else case checked_add page FRAME_SIZE of
               None \<Rightarrow> Inl Overflow
             | Some page \<Rightarrow> unmapped_pages m root page last_page)"
  by auto
termination
  by (relation "measure (\<lambda>(m, root, page, last_page). 2 ^ 64 - unat page)")
    (auto simp: checked_add_Some FRAME_SIZE_def)

declare unmapped_pages.simps [simp del]

definition user_range_is_unmapped :: "page_mem \<Rightarrow> u64 \<Rightarrow> u64 \<Rightarrow> u64 \<Rightarrow> (user_range_error, bool) result" where
  "user_range_is_unmapped m root start len =
    (case checked_add start len of
       None \<Rightarrow> Inl Overflow
     | Some e \<Rightarrow>
        if USER_CANONICAL_LIMIT \<le> start \<or> USER_CANONICAL_LIMIT < e then Inl NonCanonical
        else if len = 0 then Inr True
        else unmapped_pages m root (page_align_down start) (page_align_down (e - 1)))"

end
