(* ===== verification/Page_Walk.thy ===== *)
theory Page_Walk
  imports Paging
begin

text \<open>
  What the page tables mean: the translation a walk from the root gives for
  each page.  Mapping and unmapping a page refine update and deletion of that
  partial function, as long as the tables below a root form a tree and every
  table frame is known to the allocator's ledger or lies outside its ranges;
  both conditions are invariants.
\<close>

section \<open>Walks\<close>

definition next_table :: "page_mem \<Rightarrow> u64 \<Rightarrow> nat \<Rightarrow> u64 option" where
  "next_table m t i = (if is_present (m t i) \<and> \<not> is_huge (m t i) then Some (entry_address (m t i)) else None)"

fun table_at :: "page_mem \<Rightarrow> u64 \<Rightarrow> nat list \<Rightarrow> u64 option" where
  "table_at m t [] = Some t"
| "table_at m t (i # is) = (case next_table m t i of None \<Rightarrow> None | Some u \<Rightarrow> table_at m u is)"

definition translate :: "page_mem \<Rightarrow> u64 \<Rightarrow> u64 \<Rightarrow> u64 option" where
  "translate m root va =
    (case table_at m root (take 3 (page_indexes va)) of
       None \<Rightarrow> None
     | Some t \<Rightarrow> let e = m t (page_indexes va ! 3) in if is_present e then Some e else None)"

lemma table_at_snoc:
  "table_at m t (p @ [i]) = (case table_at m t p of None \<Rightarrow> None | Some u \<Rightarrow> next_table m u i)"
  by (induction p arbitrary: t) (simp_all split: option.split)

definition valid_path :: "nat list \<Rightarrow> bool" where
  "valid_path p \<longleftrightarrow> length p \<le> 3 \<and> (\<forall>i \<in> set p. i < ENTRY_COUNT)"

lemma valid_path_snocD: "valid_path (p @ [i]) \<Longrightarrow> valid_path p \<and> i < ENTRY_COUNT \<and> length p \<le> 2"
  by (auto simp: valid_path_def)

lemma length_page_indexes [simp]: "length (page_indexes va) = 4"
  by (simp add: page_indexes_def)

lemma page_index_bound:
  assumes "i \<in> set (page_indexes va)"
  shows "i < ENTRY_COUNT"
proof -
  have "unat (x AND 0x1ff) < 512" for x :: u64
  proof -
    have "x AND 0x1ff = take_bit 9 x"
      by (simp add: take_bit_eq_mask mask_eq_exp_minus_1)
    then show ?thesis
      by (simp add: unat_take_bit)
  qed
  then show ?thesis
    using assms by (auto simp: page_indexes_def ENTRY_COUNT_def)
qed

lemma valid_page_path: "valid_path (take 3 (page_indexes va))"
  by (auto simp: valid_path_def dest!: in_set_takeD page_index_bound)

lemma page_indexes_split: "page_indexes va = take 3 (page_indexes va) @ [page_indexes va ! 3]"
  by (simp add: page_indexes_def)

section \<open>Entry bits\<close>

lemma aligned_address:
  assumes "aligned f" "unat f < 2 ^ 52"
  shows "f AND ADDRESS_MASK = f"
proof -
  have "ADDRESS_MASK = mask 52 AND NOT (mask 12)"
    by (simp add: ADDRESS_MASK_def mask_eq_exp_minus_1)
  then have "f AND ADDRESS_MASK = (f AND mask 52) AND NOT (mask 12)"
    by (simp only: and.assoc)
  also have "f AND mask 52 = f"
    using assms(2) by (simp add: take_bit_eq_mask [symmetric] word_unat_eq_iff unat_take_bit)
  also have "f AND NOT (mask 12) = f"
    using assms(1) by (simp add: word_unat_eq_iff unat_and_not_mask aligned_def)
  finally show ?thesis .
qed

definition entry_flags :: "u64 \<Rightarrow> bool" where
  "entry_flags b \<longleftrightarrow> is_present b \<and> \<not> is_huge b \<and> b AND ADDRESS_MASK = 0"

lemma masked_and_zero: "f AND ADDRESS_MASK = f \<Longrightarrow> ADDRESS_MASK AND x = 0 \<Longrightarrow> f AND x = 0"
  by (metis and.assoc and_zero_eq)

lemma entry_value_bits:
  assumes "f AND ADDRESS_MASK = f" "b AND ADDRESS_MASK = 0"
  shows "entry_address (entry_value f b) = f" "is_present (entry_value f b) = is_present b"
    "is_huge (entry_value f b) = is_huge b" "is_user_accessible (entry_value f b) = is_user_accessible b"
    "is_writable (entry_value f b) = is_writable b"
proof -
  have "ADDRESS_MASK AND PRESENT = 0" "ADDRESS_MASK AND HUGE_PAGE = 0" "ADDRESS_MASK AND USER_ACCESSIBLE = 0"
    "ADDRESS_MASK AND WRITABLE = 0"
    by (simp_all add: ADDRESS_MASK_def PRESENT_def HUGE_PAGE_def USER_ACCESSIBLE_def WRITABLE_def)
  then have "f AND PRESENT = 0" "f AND HUGE_PAGE = 0" "f AND USER_ACCESSIBLE = 0" "f AND WRITABLE = 0"
    using masked_and_zero [OF assms(1)] by blast+
  then show "entry_address (entry_value f b) = f" "is_present (entry_value f b) = is_present b"
    "is_huge (entry_value f b) = is_huge b" "is_user_accessible (entry_value f b) = is_user_accessible b"
    "is_writable (entry_value f b) = is_writable b"
    using assms
    by (simp_all add: entry_value_def entry_address_def is_present_def is_huge_def is_user_accessible_def is_writable_def
        bit.conj_disj_distrib2)
qed

lemma entry_flags_constructors:
  "entry_flags flags_kernel" "entry_flags (flags_user w x)" "entry_flags flags_user_device" "entry_flags (table_bits b)"
  by (simp_all add: entry_flags_def flags_kernel_def flags_user_def flags_user_device_def table_bits_def is_present_def
      is_huge_def ADDRESS_MASK_def PRESENT_def HUGE_PAGE_def USER_ACCESSIBLE_def WRITABLE_def NO_EXECUTE_def
      WRITE_THROUGH_def CACHE_DISABLE_def)

lemma add_user_bits:
  "is_present (e OR USER_ACCESSIBLE) = is_present e" "is_huge (e OR USER_ACCESSIBLE) = is_huge e"
  "entry_address (e OR USER_ACCESSIBLE) = entry_address e"
  by (simp_all add: is_present_def is_huge_def entry_address_def bit.conj_disj_distrib2 USER_ACCESSIBLE_def PRESENT_def
      HUGE_PAGE_def ADDRESS_MASK_def)

section \<open>The invariant of an address space\<close>

definition extents :: "frame_allocator \<Rightarrow> (u64 \<times> u64) list" where
  "extents a = map (\<lambda>r. (fr_start r, fr_end r)) (fa_ranges a)"

lemma bump_allocate_extents: "extents (fst (bump_allocate a own)) = extents a"
proof (induction a own rule: bump_allocate.induct)
  case (1 a own)
  show ?case
  proof (cases "fa_next_range a < length (fa_ranges a)")
    case True
    then show ?thesis
      using 1 bump_allocate.simps [of a own]
      by (auto simp: Let_def extents_def record_allocated_def map_update intro!: list_update_same_conv [THEN iffD2])
  qed (simp add: bump_allocate.simps [of a own] extents_def failed_allocation_def)
qed

lemma allocate_owned_extents: "extents (fst (allocate_owned a own)) = extents a"
  using bump_allocate_extents [of a own]
  by (simp add: allocate_owned_def Let_def extents_def record_allocated_def failed_allocation_def)

lemma fa_contains_extents:
  "fa_contains a f \<longleftrightarrow> list_ex (\<lambda>(s, e). range_contains \<lparr>fr_start = s, fr_next = s, fr_end = e\<rparr> f) (extents a)"
  by (simp add: fa_contains_def extents_def range_contains_def list_ex_iff split: option.split)

definition addressable :: "frame_allocator \<Rightarrow> bool" where
  "addressable a \<longleftrightarrow> (\<forall>(s, e) \<in> set (extents a). unat e \<le> 2 ^ 52)"

lemma contains_address:
  assumes "addressable a" "fa_contains a f" "aligned f"
  shows "f AND ADDRESS_MASK = f"
proof (rule aligned_address [OF assms(3)])
  obtain r where "r \<in> set (fa_ranges a)" "range_contains r f"
    using assms(2) by (auto simp: fa_contains_def list_ex_iff)
  then have "unat f + 4096 \<le> unat (fr_end r)" "unat (fr_end r) \<le> 2 ^ 52"
    using assms(1)
    by (auto simp: addressable_def extents_def range_contains_def checked_add_Some FRAME_SIZE_def word_le_nat_alt
        split: option.splits)
  then show "unat f < 2 ^ 52"
    by simp
qed

text \<open>
  No table is reached by two paths of at most three indexes, and every table
  reached is recorded as allocated or is outside the memory that the
  allocator hands out.
\<close>

definition space_inv :: "page_mem \<Rightarrow> frame_allocator \<Rightarrow> u64 \<Rightarrow> bool" where
  "space_inv m a root \<longleftrightarrow> fa_inv a \<and> addressable a \<and>
    (\<forall>p q t. valid_path p \<longrightarrow> valid_path q \<longrightarrow> table_at m root p = Some t \<longrightarrow> table_at m root q = Some t \<longrightarrow> p = q) \<and>
    (\<forall>p t. valid_path p \<longrightarrow> table_at m root p = Some t \<longrightarrow> t \<in> set (ledger a) \<or> \<not> fa_contains a t)"

lemma space_invD:
  assumes "space_inv m a root"
  shows "fa_inv a" "addressable a"
    "\<And>p q t. valid_path p \<Longrightarrow> valid_path q \<Longrightarrow> table_at m root p = Some t \<Longrightarrow> table_at m root q = Some t \<Longrightarrow> p = q"
    "\<And>p t. valid_path p \<Longrightarrow> table_at m root p = Some t \<Longrightarrow> t \<in> set (ledger a) \<or> \<not> fa_contains a t"
  using assms unfolding space_inv_def by blast+

lemma space_inv_frames:
  assumes "space_inv m a root" "fa_inv a'" "extents a' = extents a" "set (ledger a) \<subseteq> set (ledger a')"
  shows "space_inv m a' root"
  unfolding space_inv_def
proof (intro conjI allI impI)
  fix p t
  assume "valid_path p" "table_at m root p = Some t"
  then show "t \<in> set (ledger a') \<or> \<not> fa_contains a' t"
    using space_invD(4) [OF assms(1), of p t] assms(3,4) fa_contains_extents [of a t] fa_contains_extents [of a' t] by auto
qed (use assms space_invD [OF assms(1)] in \<open>auto simp: addressable_def\<close>)

text \<open>The same walks, seen from an allocator that knows at least the same frames.\<close>

lemma space_inv_same_tables:
  assumes "space_inv m a root" "\<And>q. valid_path q \<Longrightarrow> table_at m' root q = table_at m root q"
  shows "space_inv m' a root"
  unfolding space_inv_def
  using space_invD [OF assms(1)] by (auto simp: assms(2))

lemma table_at_pointwise:
  assumes "\<And>t i. next_table m' t i = next_table m t i"
  shows "table_at m' root q = table_at m root q"
  by (induction q arbitrary: root) (simp_all add: assms split: option.split)

section \<open>One new table\<close>

definition new_table :: "page_mem \<Rightarrow> u64 \<Rightarrow> u64 \<Rightarrow> nat \<Rightarrow> u64 \<Rightarrow> page_mem" where
  "new_table m f t i flags = set_entry (zero_table m f) t i (entry_value f (table_bits flags))"

lemma next_table_new:
  assumes "f AND ADDRESS_MASK = f" "f \<noteq> t"
  shows "next_table (new_table m f t i flags) t i = Some f"
    "j < ENTRY_COUNT \<Longrightarrow> next_table (new_table m f t i flags) f j = None"
    "w \<noteq> f \<Longrightarrow> (w, j) \<noteq> (t, i) \<Longrightarrow> new_table m f t i flags w j = m w j"
  using assms entry_value_bits [of f "table_bits flags"] entry_flags_constructors(4) [of flags]
  by (auto simp: new_table_def next_table_def set_entry_def zero_table_def entry_flags_def is_present_def)

lemma table_at_new_table:
  assumes inv: "space_inv m a root" and f: "f AND ADDRESS_MASK = f" "f \<notin> set (ledger a)" "fa_contains a f"
    and p: "valid_path (p @ [i])" "table_at m root p = Some t" "\<not> is_present (m t i)"
  shows "valid_path q \<Longrightarrow> table_at (new_table m f t i flags) root q = (if q = p @ [i] then Some f else table_at m root q)"
proof (induction q rule: rev_induct)
  case (snoc j q)
  let ?m = "new_table m f t i flags"
  have vq: "valid_path q" "j < ENTRY_COUNT"
    using valid_path_snocD [OF snoc.prems] by simp_all
  note vp = valid_path_snocD [OF p(1)]
  have fresh: "w \<noteq> f" if "valid_path r" "table_at m root r = Some w" for r w
    using space_invD(4) [OF inv that] f by auto
  have ft: "f \<noteq> t"
    using fresh [of p t] vp p(2) by auto
  note new = next_table_new [OF f(1) ft, where m = m and i = i and flags = flags]
  have none: "table_at m root (p @ [i]) = None"
    using p by (simp add: table_at_snoc next_table_def)
  show ?case
  proof (cases "q = p @ [i]")
    case True
    have "table_at ?m root q = Some f"
      using snoc.IH [OF vq(1)] True by simp
    then show ?thesis
      using new(2) [OF vq(2)] none True table_at_snoc [of m root q j] table_at_snoc [of ?m root q j] by simp
  next
    case False
    then have IH: "table_at ?m root q = table_at m root q"
      using snoc.IH [OF vq(1)] by simp
    show ?thesis
    proof (cases "table_at m root q")
      case None
      then show ?thesis
        using IH p(2) by (auto simp: table_at_snoc)
    next
      case (Some w)
      have wf: "w \<noteq> f"
        using fresh vq(1) Some by auto
      show ?thesis
      proof (cases "q = p \<and> j = i")
        case True
        then show ?thesis
          using IH p(2) new(1) by (simp add: table_at_snoc)
      next
        case False
        have "(w, j) \<noteq> (t, i)"
        proof
          assume "(w, j) = (t, i)"
          then show False
            using False space_invD(3) [OF inv vq(1) conjunct1 [OF vp], of t] Some p(2) by auto
        qed
        then have "next_table ?m w j = next_table m w j"
          using new(3) [OF wf] by (simp add: next_table_def)
        then show ?thesis
          using IH Some False by (auto simp: table_at_snoc)
      qed
    qed
  qed
qed simp

text \<open>What creating or reusing a table on the way down keeps, and the error that stops it.\<close>

definition same_translation :: "page_mem \<Rightarrow> page_mem \<Rightarrow> u64 \<Rightarrow> bool" where
  "same_translation m m' root \<longleftrightarrow> (\<forall>va. translate m' root va = translate m root va)"

lemma same_translation_refl [simp]: "same_translation m m root"
  by (simp add: same_translation_def)

lemma same_translation_trans:
  "same_translation m m' root \<Longrightarrow> same_translation m' m'' root \<Longrightarrow> same_translation m m'' root"
  by (simp add: same_translation_def)

lemma translate_cong:
  assumes "table_at m' root (take 3 (page_indexes va)) = table_at m root (take 3 (page_indexes va))"
    "\<And>t. table_at m root (take 3 (page_indexes va)) = Some t \<Longrightarrow> m' t (page_indexes va ! 3) = m t (page_indexes va ! 3)"
  shows "translate m' root va = translate m root va"
  using assms by (simp add: translate_def split: option.split)

lemma leaf_table_not_inner:
  assumes "space_inv m a root" "valid_path p" "length p \<le> 2" "table_at m root p = Some t"
    "table_at m root (take 3 (page_indexes va)) = Some u"
  shows "u \<noteq> t"
proof
  assume "u = t"
  then have "p = take 3 (page_indexes va)"
    using space_invD(3) [OF assms(1,2) valid_page_path assms(4)] assms(5) by simp
  then show False
    using assms(3) by simp
qed

lemma new_table_spec:
  assumes inv: "space_inv m a root" and f: "f AND ADDRESS_MASK = f" "f \<notin> set (ledger a)" "fa_contains a f"
    and p: "valid_path (p @ [i])" "table_at m root p = Some t" "\<not> is_present (m t i)"
    and a': "fa_inv a'" "extents a' = extents a" "set (ledger a') = insert f (set (ledger a))"
  shows "space_inv (new_table m f t i flags) a' root" "same_translation m (new_table m f t i flags) root"
    "table_at (new_table m f t i flags) root (p @ [i]) = Some f"
proof -
  let ?m = "new_table m f t i flags"
  note at = table_at_new_table [OF inv f p, of _ flags]
  note vp = valid_path_snocD [OF p(1)]
  have fresh: "w \<noteq> f" if "valid_path r" "table_at m root r = Some w" for r w
    using space_invD(4) [OF inv that] f by auto
  have ft: "f \<noteq> t"
    using fresh [of p t] vp p(2) by auto
  note new = next_table_new [OF f(1) ft, where m = m and i = i and flags = flags]
  show "table_at ?m root (p @ [i]) = Some f"
    using at [OF p(1)] by simp
  show "space_inv ?m a' root"
    unfolding space_inv_def
  proof (intro conjI allI impI)
    fix q r u
    assume "valid_path q" "valid_path r" "table_at ?m root q = Some u" "table_at ?m root r = Some u"
    then show "q = r"
      using at [of q] at [of r] fresh [of q u] fresh [of r u] space_invD(3) [OF inv, of q r u] by (auto split: if_splits)
  next
    fix q u
    assume "valid_path q" "table_at ?m root q = Some u"
    then show "u \<in> set (ledger a') \<or> \<not> fa_contains a' u"
      using at [of q] space_invD(4) [OF inv, of q u] a'(2,3) fa_contains_extents [of a u] fa_contains_extents [of a' u]
      by (auto split: if_splits)
  qed (use a' space_invD [OF inv] in \<open>simp_all add: addressable_def\<close>)
  show "same_translation m ?m root"
    unfolding same_translation_def
  proof
    fix va
    let ?q = "take 3 (page_indexes va)"
    show "translate ?m root va = translate m root va"
    proof (cases "?q = p @ [i]")
      case True
      have "table_at m root (p @ [i]) = None"
        using p by (simp add: table_at_snoc next_table_def)
      moreover have "\<not> is_present (?m f (page_indexes va ! 3))"
        using ft page_index_bound [of "page_indexes va ! 3" va]
        by (simp add: new_table_def set_entry_def zero_table_def is_present_def)
      ultimately show ?thesis
        using at [OF p(1)] True by (simp add: translate_def Let_def)
    next
      case False
      show ?thesis
      proof (rule translate_cong)
        fix u
        assume u: "table_at m root ?q = Some u"
        then have "u \<noteq> t" "u \<noteq> f"
          using leaf_table_not_inner [OF inv _ _ p(2)] vp fresh [OF valid_page_path] by auto
        then show "?m u (page_indexes va ! 3) = m u (page_indexes va ! 3)"
          using new(3) by simp
      qed (use at [OF valid_page_path, of va] False in simp)
    qed
  qed
qed

lemma add_user_spec:
  assumes inv: "space_inv m a root" and p: "valid_path (p @ [i])" "table_at m root p = Some t"
    and e: "is_present (m t i)" "\<not> is_huge (m t i)" "e = m t i \<or> e = m t i OR USER_ACCESSIBLE"
  shows "space_inv (set_entry m t i e) a root" "same_translation m (set_entry m t i e) root"
    "table_at (set_entry m t i e) root (p @ [i]) = Some (entry_address e)"
proof -
  have "next_table (set_entry m t i e) w j = next_table m w j" for w j
    using e add_user_bits [of "m t i"] by (auto simp: next_table_def set_entry_def)
  then have at: "table_at (set_entry m t i e) root q = table_at m root q" for q
    by (rule table_at_pointwise)
  show "space_inv (set_entry m t i e) a root"
    using space_inv_same_tables [OF inv] at by blast
  show "table_at (set_entry m t i e) root (p @ [i]) = Some (entry_address e)"
    using p(2) e add_user_bits [of "m t i"] unfolding at by (auto simp: table_at_snoc next_table_def)
  show "same_translation m (set_entry m t i e) root"
    unfolding same_translation_def
  proof
    fix va
    show "translate (set_entry m t i e) root va = translate m root va"
    proof (rule translate_cong [OF at])
      fix u
      assume "table_at m root (take 3 (page_indexes va)) = Some u"
      then have "u \<noteq> t"
        using leaf_table_not_inner [OF inv _ _ p(2)] valid_path_snocD [OF p(1)] by blast
      then show "set_entry m t i e u (page_indexes va ! 3) = m u (page_indexes va ! 3)"
        by (simp add: set_entry_def)
    qed
  qed
qed

lemma ensure_next_table_spec:
  assumes inv: "space_inv m a root" and p: "valid_path (p @ [i])" "table_at m root p = Some t"
    and r: "ensure_next_table m a t i flags own = (m', a', r)"
  shows "space_inv m' a' root" "same_translation m m' root"
    "case r of Inl e \<Rightarrow> m' = m | Inr u \<Rightarrow> table_at m' root (p @ [i]) = Some u"
proof -
  have "space_inv m' a' root \<and> same_translation m m' root \<and>
    (case r of Inl e \<Rightarrow> m' = m | Inr u \<Rightarrow> table_at m' root (p @ [i]) = Some u)"
  proof (cases "is_present (m t i)")
    case True
    then show ?thesis
      using r inv add_user_spec [OF inv p True, of "m t i"] add_user_spec [OF inv p True, of "m t i OR USER_ACCESSIBLE"]
      by (auto simp: ensure_next_table_def Let_def split: if_splits)
  next
    case False
    obtain b x where b: "allocate_owned a own = (b, x)"
      by fastforce
    note spec = allocate_owned_spec [OF space_invD(1) [OF inv] b]
    have ext: "extents b = extents a"
      using allocate_owned_extents [of a own] b by simp
    show ?thesis
    proof (cases x)
      case None
      then show ?thesis
        using r b False spec space_inv_frames [OF inv _ ext] by (auto simp: ensure_next_table_def)
    next
      case (Some f)
      then have "f AND ADDRESS_MASK = f" "f \<notin> set (ledger a)" "fa_contains a f"
        using spec contains_address [of a f] space_invD(2) [OF inv] ext fa_contains_extents [of a f]
          fa_contains_extents [of b f] by simp_all
      note new = new_table_spec [OF inv this p False, of b flags]
      show ?thesis
        using r b False spec ext new Some by (auto simp: ensure_next_table_def new_table_def)
    qed
  qed
  then show "space_inv m' a' root" "same_translation m m' root"
    "case r of Inl e \<Rightarrow> m' = m | Inr u \<Rightarrow> table_at m' root (p @ [i]) = Some u"
    by simp_all
qed

section \<open>Leaf entries\<close>

lemma page_indexes_eq_iff:
  "page_indexes v = page_indexes w \<longleftrightarrow>
    take 3 (page_indexes v) = take 3 (page_indexes w) \<and> page_indexes v ! 3 = page_indexes w ! 3"
  by (auto simp: page_indexes_def)

lemma set_leaf_spec:
  assumes inv: "space_inv m a root" and t: "table_at m root (take 3 (page_indexes va)) = Some t"
  shows "space_inv (set_entry m t (page_indexes va ! 3) e) a root"
    "translate (set_entry m t (page_indexes va ! 3) e) root va' =
      (if page_indexes va' = page_indexes va then if is_present e then Some e else None else translate m root va')"
proof -
  let ?m = "set_entry m t (page_indexes va ! 3) e"
  have at: "table_at ?m root q = table_at m root q" if "valid_path q" for q
    using that
  proof (induction q rule: rev_induct)
    case (snoc j q)
    note v = valid_path_snocD [OF snoc.prems]
    have "w \<noteq> t" if "table_at m root q = Some w" for w
      using leaf_table_not_inner [OF inv _ _ that t] v by auto
    then show ?case
      using snoc.IH v by (auto simp: table_at_snoc next_table_def set_entry_def split: option.split)
  qed simp
  show "space_inv ?m a root"
    by (rule space_inv_same_tables [OF inv at])
  show "translate ?m root va' =
      (if page_indexes va' = page_indexes va then if is_present e then Some e else None else translate m root va')"
  proof (cases "page_indexes va' = page_indexes va")
    case True
    then show ?thesis
      using at [OF valid_page_path, of va] t by (simp add: translate_def Let_def set_entry_def)
  next
    case False
    have "translate ?m root va' = translate m root va'"
    proof (rule translate_cong [OF at [OF valid_page_path]])
      fix u
      assume u: "table_at m root (take 3 (page_indexes va')) = Some u"
      have "u \<noteq> t \<or> page_indexes va' ! 3 \<noteq> page_indexes va ! 3"
        using False space_invD(3) [OF inv valid_page_path valid_page_path u, of va] t
        by (auto simp: page_indexes_eq_iff [of va' va])
      then show "?m u (page_indexes va' ! 3) = m u (page_indexes va' ! 3)"
        by (auto simp: set_entry_def)
    qed
    then show ?thesis
      using False by simp
  qed
qed

text \<open>The three calls on the way down, as one descent along a list of indexes.\<close>

fun ensure_path :: "page_mem \<Rightarrow> frame_allocator \<Rightarrow> u64 \<Rightarrow> nat list \<Rightarrow> u64 \<Rightarrow> frame_owner
    \<Rightarrow> page_mem \<times> frame_allocator \<times> (map_error, u64) result" where
  "ensure_path m a t [] flags own = (m, a, Inr t)"
| "ensure_path m a t (i # is) flags own =
    (case ensure_next_table m a t i flags own of
       (m, a, Inl e) \<Rightarrow> (m, a, Inl e)
     | (m, a, Inr u) \<Rightarrow> ensure_path m a u is flags own)"

lemma map_page_in_table_path:
  "map_page_in_table m a root own va frame flags =
    (case ensure_path m a root (take 3 (page_indexes va)) flags own of
       (m, a, Inl e) \<Rightarrow> (m, a, Inl e)
     | (m, a, Inr t) \<Rightarrow>
        if is_present (m t (page_indexes va ! 3)) then (m, a, Inl AlreadyMapped)
        else (set_entry m t (page_indexes va ! 3) (entry_value frame flags), a, Inr ()))"
  by (simp add: map_page_in_table_def page_indexes_def split: prod.split sum.split)

lemma ensure_path_spec:
  assumes "space_inv m a root" "valid_path (p @ is)" "table_at m root p = Some t"
    "ensure_path m a t is flags own = (m', a', r)"
  shows "space_inv m' a' root \<and> same_translation m m' root \<and>
    (case r of Inl e \<Rightarrow> True | Inr u \<Rightarrow> table_at m' root (p @ is) = Some u)"
  using assms
proof (induction "is" arbitrary: m a t p)
  case (Cons i "is")
  obtain m1 a1 r1 where 1: "ensure_next_table m a t i flags own = (m1, a1, r1)"
    using prod_cases3 by blast
  have v: "valid_path (p @ [i])" "valid_path ((p @ [i]) @ is)"
    using Cons.prems(2) by (auto simp: valid_path_def)
  note s = ensure_next_table_spec [OF Cons.prems(1) v(1) Cons.prems(3) 1]
  show ?case
  proof (cases r1)
    case Inl
    then show ?thesis
      using Cons.prems(4) s 1 by auto
  next
    case (Inr u)
    then have "table_at m1 root (p @ [i]) = Some u" "ensure_path m1 a1 u is flags own = (m', a', r)"
      using Cons.prems(4) s(3) 1 by simp_all
    from Cons.IH [OF s(1) v(2) this] same_translation_trans [OF s(2)] show ?thesis
      by (auto split: sum.splits)
  qed
qed auto

lemma map_page_in_table_spec:
  assumes inv: "space_inv m a root" and r: "map_page_in_table m a root own va frame flags = (m', a', r)"
  shows "space_inv m' a' root \<and> (case r of
       Inl e \<Rightarrow> same_translation m m' root
     | Inr _ \<Rightarrow> translate m root va = None \<and>
        (\<forall>va'. translate m' root va' =
          (if page_indexes va' = page_indexes va
           then if is_present (entry_value frame flags) then Some (entry_value frame flags) else None
           else translate m root va')))"
proof -
  let ?p = "take 3 (page_indexes va)" and ?i = "page_indexes va ! 3"
  obtain m1 a1 r1 where 1: "ensure_path m a root ?p flags own = (m1, a1, r1)"
    using prod_cases3 by blast
  have s: "space_inv m1 a1 root" "same_translation m m1 root"
    "case r1 of Inl e \<Rightarrow> True | Inr u \<Rightarrow> table_at m1 root ?p = Some u"
    using ensure_path_spec [OF inv, of "[]" ?p root, OF _ _ 1] valid_page_path by (simp_all split: sum.splits)
  show ?thesis
  proof (cases r1)
    case Inl
    then show ?thesis
      using r s by (auto simp: map_page_in_table_path 1)
  next
    case (Inr t)
    then have t: "table_at m1 root ?p = Some t"
      using s(3) by simp
    note leaf = set_leaf_spec [OF s(1) t, of "entry_value frame flags"]
    show ?thesis
    proof (cases "is_present (m1 t ?i)")
      case True
      then show ?thesis
        using r s Inr by (auto simp: map_page_in_table_path 1)
    next
      case False
      then have "translate m1 root va = None"
        using t by (simp add: translate_def)
      then show ?thesis
        using r s(2) False leaf Inr by (auto simp: map_page_in_table_path 1 same_translation_def)
    qed
  qed
qed

section \<open>Unmapping\<close>

lemma unmap_levels_spec:
  "unmap_levels m t (p @ [i]) = (m', r) \<Longrightarrow>
    (case r of
       Inl e \<Rightarrow> m' = m \<and> (\<forall>u. table_at m t p = Some u \<longrightarrow> \<not> is_present (m u i) \<or> is_huge (m u i))
     | Inr _ \<Rightarrow> \<exists>u. table_at m t p = Some u \<and> is_present (m u i) \<and> \<not> is_huge (m u i) \<and> m' = set_entry m u i 0)"
  by (induction p arbitrary: t) (auto simp: Let_def next_table_def split: if_splits sum.splits)

lemma unmap_page_spec:
  assumes inv: "space_inv m a root" and r: "unmap_page_in_root m root va = (m', r)"
  shows "(case r of
       Inl e \<Rightarrow> m' = m \<and> (\<forall>v. translate m root va = Some v \<longrightarrow> is_huge v)
     | Inr _ \<Rightarrow> space_inv m' a root \<and> (\<exists>v. translate m root va = Some v \<and> \<not> is_huge v) \<and>
        (\<forall>va'. translate m' root va' = (if page_indexes va' = page_indexes va then None else translate m root va')))"
proof -
  let ?p = "take 3 (page_indexes va)" and ?i = "page_indexes va ! 3"
  have "unmap_levels m root (?p @ [?i]) = (m', r)"
    using r page_indexes_split [of va] by (simp add: unmap_page_in_root_def)
  note s = unmap_levels_spec [OF this]
  have z: "\<not> is_present 0"
    by (simp add: is_present_def)
  show ?thesis
  proof (cases r)
    case Inl
    then show ?thesis
      using s by (auto simp: translate_def Let_def split: option.splits if_splits)
  next
    case (Inr x)
    then obtain u where u: "table_at m root ?p = Some u" "is_present (m u ?i)" "\<not> is_huge (m u ?i)" "m' = set_entry m u ?i 0"
      using s by auto
    then have "translate m root va = Some (m u ?i)"
      by (simp add: translate_def Let_def)
    then show ?thesis
      using Inr u(3,4) set_leaf_spec [OF inv u(1), of 0] z by simp
  qed
qed

section \<open>User ranges\<close>

text \<open>
  All four entries of the walk are present, open to user mode and not huge,
  and the last one is writable when the access writes.
\<close>

definition user_entry_ok :: "user_access \<Rightarrow> bool \<Rightarrow> u64 \<Rightarrow> bool" where
  "user_entry_ok access leaf e \<longleftrightarrow>
    is_present e \<and> is_user_accessible e \<and> \<not> is_huge e \<and> (leaf \<longrightarrow> access = WriteAccess \<longrightarrow> is_writable e)"

definition user_accessible :: "page_mem \<Rightarrow> u64 \<Rightarrow> u64 \<Rightarrow> user_access \<Rightarrow> bool" where
  "user_accessible m root va access \<longleftrightarrow>
    (\<forall>n < 4. \<exists>t. table_at m root (take n (page_indexes va)) = Some t \<and>
      user_entry_ok access (n = 3) (m t (page_indexes va ! n)))"

lemma validate_levels_spec:
  "is \<noteq> [] \<Longrightarrow> validate_levels m t is access = Inr () \<longleftrightarrow>
    (\<forall>n < length is. \<exists>u. table_at m t (take n is) = Some u \<and> user_entry_ok access (Suc n = length is) (m u (is ! n)))"
proof (induction "is" arbitrary: t)
  case (Cons i "is")
  let ?e = "m t i"
  show ?case
  proof (cases "is = []")
    case True
    then show ?thesis
      by (simp add: Let_def user_entry_ok_def)
  next
    case False
    then have "validate_levels m t (i # is) access = Inr () \<longleftrightarrow>
      user_entry_ok access False ?e \<and> validate_levels m (entry_address ?e) is access = Inr ()"
      by (simp add: Let_def user_entry_ok_def)
    moreover have "user_entry_ok access False ?e \<Longrightarrow> next_table m t i = Some (entry_address ?e)"
      by (simp add: user_entry_ok_def next_table_def)
    ultimately show ?thesis
      using Cons.IH [OF False, of "entry_address ?e"] False
      by (cases "user_entry_ok access False ?e") (simp_all add: All_less_Suc2)
  qed
qed simp

lemma validate_user_page_iff: "validate_user_page m root va access = Inr () \<longleftrightarrow> user_accessible m root va access"
proof -
  have "page_indexes va \<noteq> []"
    by (simp add: page_indexes_def)
  moreover have "Suc n = 4 \<longleftrightarrow> n = 3" for n :: nat
    by auto
  ultimately show ?thesis
    by (simp add: validate_user_page_def user_accessible_def validate_levels_spec)
qed

lemma page_align_down_mask: "page_align_down x = x AND NOT (mask 12)"
  by (simp add: page_align_down_def FRAME_SIZE_def mask_eq_exp_minus_1)

lemma unat_page_align_down: "unat (page_align_down x) = unat x - unat x mod 4096"
  by (simp add: page_align_down_mask unat_and_not_mask)

lemma aligned_page_align_down: "aligned (page_align_down x)"
  by (simp add: aligned_def unat_page_align_down flip: minus_mod_eq_div_mult)

lemma page_indexes_page_align_down [simp]: "page_indexes (page_align_down x) = page_indexes x"
proof -
  have "drop_bit n (x AND NOT (mask 12)) = drop_bit n x" if "12 \<le> n" for n
    using that by (intro bit_eqI) (auto simp: bit_simps dest: bit_imp_le_length)
  then show ?thesis
    by (simp add: page_indexes_def page_align_down_mask)
qed

lemma user_accessible_page:
  "user_accessible m root (page_align_down x) access = user_accessible m root x access"
  by (simp add: user_accessible_def)

lemma validate_pages_iff:
  assumes "aligned page" "aligned last_page" "unat page \<le> unat last_page"
  shows "validate_pages m root page last_page access = Inr () \<longleftrightarrow>
    (\<forall>x. aligned x \<longrightarrow> unat page \<le> unat x \<longrightarrow> unat x \<le> unat last_page \<longrightarrow> user_accessible m root x access)"
  using assms
proof (induction m root page last_page access rule: validate_pages.induct)
  case (1 m root page last_page access)
  have here: "validate_pages m root page last_page access = Inr () \<longrightarrow> user_accessible m root page access"
    using validate_user_page_iff [of m root page access]
    by (auto simp: validate_pages.simps [of m root page] split: sum.splits)
  show ?case
  proof (cases "user_accessible m root page access \<and> page \<noteq> last_page")
    case False
    then consider "\<not> user_accessible m root page access" | "user_accessible m root page access" "page = last_page"
      by blast
    then show ?thesis
    proof cases
      case 1
      then show ?thesis
        using here \<open>aligned page\<close> \<open>unat page \<le> unat last_page\<close> by auto
    next
      case 2
      then have "validate_pages m root page last_page access = Inr ()"
        using validate_user_page_iff [of m root page access] by (subst validate_pages.simps) simp
      moreover have "unat page \<le> unat x \<longrightarrow> unat x \<le> unat last_page \<longrightarrow> x = page" for x
        using 2(2) by (simp add: word_unat_eq_iff)
      ultimately show ?thesis
        using 2(1) by blast
    qed
  next
    case True
    have lt: "unat page + 4096 \<le> unat last_page"
      using True 1(2-4) aligned_gap [of page last_page] by (auto simp: word_unat_eq_iff)
    then obtain q where q: "checked_add page FRAME_SIZE = Some q" "unat q = unat page + 4096"
      using unat_u64_bound [of last_page] checked_add_Some [of page FRAME_SIZE "page + FRAME_SIZE"]
      by (auto simp: FRAME_SIZE_def unat_word_ariths)
    have ok: "validate_user_page m root page access = Inr ()"
      using True validate_user_page_iff by blast
    have rest: "validate_pages m root page last_page access = validate_pages m root q last_page access"
      using True ok q by (simp add: validate_pages.simps [of m root page])
    have "aligned q"
      using 1(2) q(2) by (simp add: aligned_def)
    note IH = 1(1) [OF ok _ q(1), unfolded q(2), OF _ this 1(3) lt]
    have "aligned x \<longrightarrow> unat page \<le> unat x \<longrightarrow> x = page \<or> unat page + 4096 \<le> unat x" for x
      using aligned_gap [of page x] 1(2) by (auto simp: word_unat_eq_iff le_less)
    then show ?thesis
      unfolding rest using IH True by (metis add_leD1)
  qed
qed

end
