(* ===== verification/Page_Safety.thy ===== *)
theory Page_Safety
  imports Page_Walk
begin

text \<open>
  The properties of the page tables: mapping and unmapping refine a partial
  function from pages to entries, a user range is accepted exactly when each
  of its bytes is open to user mode, a new address space shares the kernel
  half and nothing else, and reclaiming one never frees a frame of another
  owner.
\<close>

section \<open>Ranges of bytes\<close>

lemma user_range_pages:
  assumes n: "0 < n" "unat start + n < 2 ^ 64" and e: "unat e = unat start + n"
  shows "(\<forall>x. aligned x \<longrightarrow> unat (page_align_down start) \<le> unat x \<longrightarrow> unat x \<le> unat (page_align_down (e - 1)) \<longrightarrow>
      user_accessible m root x access) \<longleftrightarrow>
    (\<forall>k < n. user_accessible m root (start + of_nat k) access)"
proof (intro iffI allI impI)
  have last: "unat (e - 1) = unat start + n - 1"
    using n e by (simp add: unat_sub word_le_nat_alt)
  have byte: "unat (start + of_nat k) = unat start + k" if "k < n" for k
    using that n by (simp add: unat_word_ariths unat_of_nat)
  {
    fix k
    assume all: "\<forall>x. aligned x \<longrightarrow> unat (page_align_down start) \<le> unat x \<longrightarrow>
        unat x \<le> unat (page_align_down (e - 1)) \<longrightarrow> user_accessible m root x access" and k: "k < n"
    let ?x = "start + of_nat k"
    have "unat (page_align_down start) \<le> unat (page_align_down ?x)"
      "unat (page_align_down ?x) \<le> unat (page_align_down (e - 1))"
      using k by (simp_all add: unat_page_align_down last byte minus_mod_eq_div_mult div_le_mono)
    then show "user_accessible m root ?x access"
      using all aligned_page_align_down [of ?x] user_accessible_page [of m root ?x access] by blast
  next
    fix x
    assume all: "\<forall>k < n. user_accessible m root (start + of_nat k) access" and x: "aligned x"
      "unat (page_align_down start) \<le> unat x" "unat x \<le> unat (page_align_down (e - 1))"
    show "user_accessible m root x access"
    proof (cases "unat start \<le> unat x")
      case True
      let ?k = "unat x - unat start"
      have k: "?k < n"
        using x(3) True n by (simp add: unat_page_align_down last)
      have "start + of_nat ?k = x"
        using True byte [OF k] by (simp add: word_unat_eq_iff)
      then show ?thesis
        using all k by metis
    next
      case False
      have "x = page_align_down start"
        using aligned_gap [OF aligned_page_align_down x(1), of start] x(2) False
        by (auto simp: word_unat_eq_iff unat_page_align_down) linarith
      then show ?thesis
        using all n user_accessible_page [of m root start access] by (auto dest: spec [of _ 0])
    qed
  }
qed

lemma validate_user_range_iff:
  assumes "len < 2 ^ 64"
  shows "validate_user_range m root start len access = Inr () \<longleftrightarrow>
    unat start < 2 ^ 47 \<and> unat start + len \<le> 2 ^ 47 \<and> (\<forall>k < len. user_accessible m root (start + of_nat k) access)"
proof (cases "unat start < 2 ^ 47 \<and> unat start + len \<le> 2 ^ 47")
  case True
  have l: "unat (of_nat len :: u64) = len"
    using assms by (simp add: unat_of_nat)
  define e where "e = start + of_nat len"
  have e: "unat e = unat start + len"
    using True l by (simp add: e_def unat_word_ariths)
  then have add: "checked_add start (of_nat len) = Some e"
    using True l by (simp add: checked_add_Some)
  have lim: "\<not> USER_CANONICAL_LIMIT \<le> start" "\<not> USER_CANONICAL_LIMIT < e"
    using True e by (simp_all add: USER_CANONICAL_LIMIT_def word_le_nat_alt word_less_nat_alt)
  show ?thesis
  proof (cases "len = 0")
    case True
    then show ?thesis
      using lim add \<open>unat start < 2 ^ 47 \<and> unat start + len \<le> 2 ^ 47\<close> by (simp add: validate_user_range_def)
  next
    case False
    have "unat (page_align_down start) \<le> unat (page_align_down (e - 1))"
      using False True e
      by (simp add: unat_page_align_down minus_mod_eq_div_mult unat_sub word_le_nat_alt div_le_mono)
    moreover have "of_nat len \<noteq> (0 :: u64)"
      using l False by (metis unat_0)
    ultimately show ?thesis
      using validate_pages_iff [OF aligned_page_align_down aligned_page_align_down, of start "e - 1" m root access]
        user_range_pages [of len start e m root access] False True e lim add
      by (simp add: validate_user_range_def)
  qed
next
  case False
  have l: "unat (of_nat len :: u64) = len"
    using assms by (simp add: unat_of_nat)
  have "validate_user_range m root start len access \<noteq> Inr ()"
    using False l
    by (auto simp: validate_user_range_def Let_def checked_add_Some USER_CANONICAL_LIMIT_def word_le_nat_alt
        word_less_nat_alt split: option.split)
  then show ?thesis
    using False by blast
qed

section \<open>A new address space\<close>

lemma set_owner_extents: "extents (fst (set_owner a f own)) = extents a"
  by (simp add: set_owner_def extents_def split: option.split)

definition unreached :: "page_mem \<Rightarrow> u64 \<Rightarrow> u64 \<Rightarrow> bool" where
  "unreached m root f \<longleftrightarrow> (\<forall>p t. valid_path p \<longrightarrow> table_at m root p = Some t \<longrightarrow> t \<noteq> f)"

lemma table_at_outside:
  assumes "\<forall>w. w \<noteq> f \<longrightarrow> m' w = m w" "unreached m root f"
  shows "table_at m root p = Some u \<Longrightarrow> valid_path (p @ q) \<Longrightarrow> table_at m' u q = table_at m u q"
proof (induction q arbitrary: p u)
  case (Cons i q)
  have v: "valid_path p" "valid_path ((p @ [i]) @ q)"
    using Cons.prems(2) by (auto simp: valid_path_def)
  have "m' u = m u"
    using assms v(1) Cons.prems(1) by (auto simp: unreached_def)
  then have n: "next_table m' u i = next_table m u i"
    by (simp add: next_table_def)
  show ?case
  proof (cases "next_table m u i")
    case (Some w)
    then have "table_at m root (p @ [i]) = Some w"
      using Cons.prems(1) by (simp add: table_at_snoc)
    then show ?thesis
      using Cons.IH [OF _ v(2)] n Some by simp
  qed (simp add: n)
qed simp

text \<open>The kernel half of the root is shared with the old one and its user half is empty.\<close>

lemma table_at_new_root:
  assumes "\<forall>w. w \<noteq> f \<longrightarrow> m' w = m w" "unreached m root f"
    "\<forall>i < ENTRY_COUNT. m' f i = (if ENTRY_COUNT div 2 \<le> i then m root i else 0)" "valid_path (i # q)"
  shows "table_at m' f (i # q) = (if ENTRY_COUNT div 2 \<le> i then table_at m root (i # q) else None)"
proof -
  have "i < ENTRY_COUNT"
    using assms(4) by (simp add: valid_path_def)
  then have n: "next_table m' f i = (if ENTRY_COUNT div 2 \<le> i then next_table m root i else None)"
    by (simp add: next_table_def assms(3) is_present_def)
  show ?thesis
  proof (cases "next_table m root i")
    case (Some u)
    then have "table_at m root [i] = Some u"
      by simp
    from table_at_outside [OF assms(1,2) this, where q = q] assms(4) show ?thesis
      by (simp add: n Some)
  qed (simp add: n)
qed

lemma address_space_new_cases:
  assumes inv: "space_inv m a (cr3 AND ADDRESS_MASK)" and r: "address_space_new m a cr3 = (m', a', Inr root)"
  shows "fa_inv a'" "extents a' = extents a" "set (ledger a') = insert root (set (ledger a))" "root \<notin> set (ledger a)"
    "fa_contains a root" "\<forall>w. w \<noteq> root \<longrightarrow> m' w = m w"
    "\<forall>i < ENTRY_COUNT. m' root i = (if ENTRY_COUNT div 2 \<le> i then m (cr3 AND ADDRESS_MASK) i else 0)"
proof -
  obtain b x where b: "allocate_owned a (owner_page_table 0) = (b, x)"
    by fastforce
  then have x: "x = Some root" and c: "set_owner b root (owner_page_table root) = (a', Inr ())"
    and m': "m' = (zero_table m root)(root := (\<lambda>i. if ENTRY_COUNT div 2 \<le> i \<and> i < ENTRY_COUNT
        then zero_table m root (cr3 AND ADDRESS_MASK) i else zero_table m root root i))"
    using r by (auto simp: address_space_new_def Let_def split: option.splits prod.splits sum.splits)
  note spec = allocate_owned_spec [OF space_invD(1) [OF inv] b]
  have ext: "extents b = extents a"
    using allocate_owned_extents [of a "owner_page_table 0"] b by simp
  have "fa_inv b"
    using spec x by simp
  note own = set_owner_spec [OF this c]
  show "fa_inv a'" "set (ledger a') = insert root (set (ledger a))" "root \<notin> set (ledger a)"
    using own spec x by (simp_all flip: set_map)
  show "extents a' = extents a"
    using set_owner_extents [of b root "owner_page_table root"] c ext by simp
  show c: "fa_contains a root"
    using spec x ext fa_contains_extents [of a root] fa_contains_extents [of b root] by simp
  then have "cr3 AND ADDRESS_MASK \<noteq> root"
    using space_invD(4) [OF inv, of "[]"] \<open>root \<notin> set (ledger a)\<close> by (auto simp: valid_path_def)
  then show "\<forall>w. w \<noteq> root \<longrightarrow> m' w = m w"
    "\<forall>i < ENTRY_COUNT. m' root i = (if ENTRY_COUNT div 2 \<le> i then m (cr3 AND ADDRESS_MASK) i else 0)"
    by (auto simp: m' zero_table_def)
qed

lemma address_space_new_spec:
  assumes inv: "space_inv m a (cr3 AND ADDRESS_MASK)" and r: "address_space_new m a cr3 = (m', a', Inr root)"
  shows "space_inv m' a' root" "space_inv m' a' (cr3 AND ADDRESS_MASK)" "same_translation m m' (cr3 AND ADDRESS_MASK)"
    "translate m' root va =
      (if ENTRY_COUNT div 2 \<le> page_indexes va ! 0 then translate m (cr3 AND ADDRESS_MASK) va else None)"
proof -
  let ?k = "cr3 AND ADDRESS_MASK"
  note new = address_space_new_cases [OF inv r]
  have fresh: "t \<noteq> root" if "valid_path p" "table_at m ?k p = Some t" for p t
    using space_invD(4) [OF inv that] new by auto
  then have un: "unreached m ?k root"
    by (auto simp: unreached_def)
  have old: "table_at m' ?k q = table_at m ?k q" if "valid_path q" for q
    using table_at_outside [OF new(6) un, of "[]" ?k q] that by simp
  note up = table_at_new_root [OF new(6) un new(7)]
  show old_inv: "space_inv m' a' ?k"
    using space_inv_frames [OF space_inv_same_tables [OF inv old], where a' = a'] new by auto
  have here: "m' t = m t" if "table_at m ?k (take 3 (page_indexes va)) = Some t" for t va
    using fresh [OF valid_page_path that] new(6) by simp
  show "same_translation m m' ?k"
    unfolding same_translation_def using here by (intro allI translate_cong old valid_page_path) simp
  have reach: "q = [] \<and> t = root \<or> table_at m ?k q = Some t \<and> t \<noteq> root"
    if "valid_path q" "table_at m' root q = Some t" for q t
  proof (cases q)
    case (Cons i p)
    then have "table_at m ?k q = Some t"
      using that up [of i p] by (simp del: table_at.simps split: if_splits)
    then show ?thesis
      using fresh that(1) by blast
  qed (use that in simp)
  have tree: "q = q'" if "valid_path q" "valid_path q'" "table_at m' root q = Some t" "table_at m' root q' = Some t" for q q' t
    using reach [OF that(1,3)] reach [OF that(2,4)] space_invD(3) [OF inv that(1,2), of t] by auto
  have known: "t \<in> set (ledger a') \<or> \<not> fa_contains a' t" if "valid_path q" "table_at m' root q = Some t" for q t
    using reach [OF that] space_invD(4) [OF inv that(1), of t] new(2,3) fa_contains_extents [of a t]
      fa_contains_extents [of a' t] by auto
  show "space_inv m' a' root"
    unfolding space_inv_def using tree known new(1) space_invD(1,2) [OF old_inv] by blast
  obtain i0 i1 i2 i3 where idx: "page_indexes va = [i0, i1, i2, i3]"
    by (simp add: page_indexes_def)
  show "translate m' root va = (if ENTRY_COUNT div 2 \<le> page_indexes va ! 0 then translate m ?k va else None)"
    using up [of i0 "[i1, i2]"] valid_page_path [of va] here [of va]
    by (auto simp: translate_def idx simp del: table_at.simps split: option.split)
qed

section \<open>Reclaiming respects owners\<close>

definition owners_kept :: "u64 \<Rightarrow> frame_allocator \<Rightarrow> frame_allocator \<Rightarrow> bool" where
  "owners_kept root a a' \<longleftrightarrow> fa_inv a' \<and>
    (\<forall>f. owner_of a' f = owner_of a f \<or>
      owner_of a' f = None \<and> owner_of a f \<in> {Some (owner_page_table root), Some (owner_process_memory root)})"

lemma owners_kept_refl: "fa_inv a \<Longrightarrow> owners_kept root a a"
  by (simp add: owners_kept_def)

lemma owners_kept_trans: "owners_kept root a b \<Longrightarrow> owners_kept root b c \<Longrightarrow> owners_kept root a c"
  unfolding owners_kept_def by (metis insert_iff option.distinct(1) singletonD)

lemma free_owned_kept:
  assumes "fa_inv a" "free_owned a f own = (a', r)" "own = owner_page_table root \<or> own = owner_process_memory root"
  shows "owners_kept root a a'"
  using free_with_owner_spec [OF assms(1) assms(2) [unfolded free_owned_def]] assms(1,3)
  by (auto simp: owners_kept_def split: sum.splits)

end
