(* ===== verification/Page_Reclaim.thy ===== *)
theory Page_Reclaim
  imports Page_Safety
begin

text \<open>
  Tearing down an address space.  The walk that reclaims it visits a tree of
  tables; one lemma on the index loop, with what a visit may write and what
  it achieves as parameters, serves every level.
\<close>

definition reclaim_goal :: "(page_mem \<Rightarrow> u64 \<Rightarrow> u64 set) \<Rightarrow> (page_mem \<Rightarrow> u64 \<Rightarrow> frame_allocator \<Rightarrow> bool) \<Rightarrow> page_mem
    \<Rightarrow> u64 \<Rightarrow> reclaim_state \<Rightarrow> bool" where
  "reclaim_goal T D m u s' \<longleftrightarrow> (\<forall>w. w \<notin> T m u \<longrightarrow> rc_mem s' w = m w) \<and> D m u (rc_alloc s')"

section \<open>Owners\<close>

definition keeps_owners :: "u64 \<Rightarrow> (u64 \<Rightarrow> reclaim_state \<Rightarrow> reclaim_state \<times> (reclaim_error, unit) result) \<Rightarrow> bool" where
  "keeps_owners root visit \<longleftrightarrow>
    (\<forall>u s. fa_inv (rc_alloc s) \<longrightarrow> owners_kept root (rc_alloc s) (rc_alloc (fst (visit u s))))"

lemma owners_kept_None: "owners_kept root a b \<Longrightarrow> owner_of a f = None \<Longrightarrow> owner_of b f = None"
  unfolding owners_kept_def by metis

lemma owners_kept_inv: "owners_kept root a b \<Longrightarrow> fa_inv b"
  by (simp add: owners_kept_def)

lemma free_page_table_frame_kept: "keeps_owners root (free_page_table_frame root)"
  unfolding keeps_owners_def free_page_table_frame_def
  by (auto intro: free_owned_kept owners_kept_refl split: option.splits prod.splits sum.splits)

lemma reclaim_leaf_frame_kept: "keeps_owners root (reclaim_leaf_frame root)"
  unfolding keeps_owners_def reclaim_leaf_frame_def
  by (auto intro: free_owned_kept owners_kept_refl split: option.splits prod.splits sum.splits)

lemma reclaim_entries_kept:
  assumes "keeps_owners root visit"
  shows "fa_inv (rc_alloc s) \<Longrightarrow> owners_kept root (rc_alloc s) (rc_alloc (fst (reclaim_entries visit t is s)))"
proof (induction "is" arbitrary: s)
  case (Cons i "is")
  obtain s1 r where v: "visit (entry_address (rc_mem s t i)) s = (s1, r)"
    by fastforce
  have k: "owners_kept root (rc_alloc s) (rc_alloc s1)"
    using assms Cons.prems v by (metis fst_conv keeps_owners_def)
  then have "owners_kept root (rc_alloc s1)
      (rc_alloc (fst (reclaim_entries visit t is (s1\<lparr>rc_mem := set_entry (rc_mem s1) t i 0\<rparr>))))"
    using Cons.IH [of "s1\<lparr>rc_mem := set_entry (rc_mem s1) t i 0\<rparr>"] owners_kept_inv [OF k] by simp
  with k have "owners_kept root (rc_alloc s)
      (rc_alloc (fst (reclaim_entries visit t is (s1\<lparr>rc_mem := set_entry (rc_mem s1) t i 0\<rparr>))))"
    by (rule owners_kept_trans)
  then show ?case
    using Cons k v owners_kept_refl by (auto simp: Let_def split: sum.split)
qed (simp add: owners_kept_refl)

lemma keeps_owners_seq:
  assumes "keeps_owners root f" "keeps_owners root g"
  shows "keeps_owners root (\<lambda>u s. case f u s of (s, Inl e) \<Rightarrow> (s, Inl e) | (s, Inr _) \<Rightarrow> g u s)"
  unfolding keeps_owners_def
proof (intro allI impI)
  fix u and s :: reclaim_state
  assume inv: "fa_inv (rc_alloc s)"
  obtain s1 r where f: "f u s = (s1, r)"
    by fastforce
  have k: "owners_kept root (rc_alloc s) (rc_alloc s1)"
    using assms(1) inv f by (metis fst_conv keeps_owners_def)
  have "owners_kept root (rc_alloc s1) (rc_alloc (fst (g u s1)))"
    using assms(2) owners_kept_inv [OF k] by (simp add: keeps_owners_def)
  from k owners_kept_trans [OF k this] show "owners_kept root (rc_alloc s)
      (rc_alloc (fst (case f u s of (s, Inl e) \<Rightarrow> (s, Inl e) | (s, Inr _) \<Rightarrow> g u s)))"
    by (simp add: f split: sum.split)
qed

lemma reclaim_page_table_kept: "keeps_owners root (reclaim_page_table levels root)"
proof (induction levels)
  case 0
  then show ?case
    using reclaim_entries_kept [OF reclaim_leaf_frame_kept] by (simp add: keeps_owners_def)
next
  case (Suc levels)
  show ?case
    using reclaim_entries_kept [OF keeps_owners_seq [OF Suc free_page_table_frame_kept]] by (simp add: keeps_owners_def)
qed

section \<open>The index loop\<close>

text \<open>
  \<^term>\<open>T m u\<close> are the tables a visit of \<^term>\<open>u\<close> may write, \<^term>\<open>G m u\<close> what it
  relies on, \<^term>\<open>D m u a\<close> what it achieves; all three look only at the
  tables in \<^term>\<open>T m u\<close>.
\<close>

definition visit_local :: "(page_mem \<Rightarrow> u64 \<Rightarrow> u64 set) \<Rightarrow> (page_mem \<Rightarrow> u64 \<Rightarrow> bool)
    \<Rightarrow> (page_mem \<Rightarrow> u64 \<Rightarrow> frame_allocator \<Rightarrow> bool) \<Rightarrow> bool" where
  "visit_local T G D \<longleftrightarrow>
    (\<forall>m m' u. (\<forall>w \<in> T m u. m' w = m w) \<longrightarrow> T m' u = T m u \<and> G m' u = G m u \<and> D m' u = D m u)"

definition visit_ok where
  "visit_ok root T G D visit \<longleftrightarrow>
    keeps_owners root visit \<and> visit_local T G D \<and>
    (\<forall>m u a b. owners_kept root a b \<longrightarrow> D m u a \<longrightarrow> D m u b) \<and>
    (\<forall>u s s'. fa_inv (rc_alloc s) \<longrightarrow> G (rc_mem s) u \<longrightarrow> visit u s = (s', Inr ()) \<longrightarrow>
      reclaim_goal T D (rc_mem s) u s')"

definition entries_apart where
  "entries_apart T G m t is \<longleftrightarrow>
    (\<forall>i \<in> set is. \<forall>u. next_table m t i = Some u \<longrightarrow> G m u \<and> t \<notin> T m u \<and>
      (\<forall>j \<in> set is. \<forall>v. j \<noteq> i \<longrightarrow> next_table m t j = Some v \<longrightarrow> T m u \<inter> T m v = {}))"

lemma entries_apartI:
  assumes "\<And>i u. i \<in> set is \<Longrightarrow> next_table m t i = Some u \<Longrightarrow> G m u"
    "\<And>i u. i \<in> set is \<Longrightarrow> next_table m t i = Some u \<Longrightarrow> t \<notin> T m u"
    "\<And>i u j v. i \<in> set is \<Longrightarrow> next_table m t i = Some u \<Longrightarrow> j \<in> set is \<Longrightarrow> j \<noteq> i \<Longrightarrow> next_table m t j = Some v \<Longrightarrow>
      T m u \<inter> T m v = {}"
  shows "entries_apart T G m t is"
  unfolding entries_apart_def using assms by blast

lemma next_table_cong: "m' t i = m t i \<Longrightarrow> next_table m' t i = next_table m t i"
  by (simp add: next_table_def)

lemma reclaim_entries_spec:
  assumes ok: "visit_ok root T G D visit"
  shows "fa_inv (rc_alloc s) \<Longrightarrow> distinct is \<Longrightarrow> entries_apart T G (rc_mem s) t is \<Longrightarrow>
    reclaim_entries visit t is s = (s', Inr ()) \<Longrightarrow>
    (\<forall>i \<in> set is. \<forall>u. next_table (rc_mem s) t i = Some u \<longrightarrow> D (rc_mem s) u (rc_alloc s')) \<and>
    (\<forall>w. w \<noteq> t \<longrightarrow> (\<forall>i \<in> set is. \<forall>u. next_table (rc_mem s) t i = Some u \<longrightarrow> w \<notin> T (rc_mem s) u) \<longrightarrow>
      rc_mem s' w = rc_mem s w)"
proof (induction "is" arbitrary: s)
  case (Cons i "is")
  let ?m = "rc_mem s"
  show ?case
  proof (cases "is_present (?m t i)")
    case False
    then have "next_table ?m t i = None" "reclaim_entries visit t is s = (s', Inr ())"
      using Cons.prems(4) by (simp_all add: next_table_def)
    moreover have "entries_apart T G ?m t is"
      using Cons.prems(3) by (simp add: entries_apart_def)
    ultimately show ?thesis
      using Cons.IH [OF Cons.prems(1)] Cons.prems(2) by simp
  next
    case True
    define u where "u = entry_address (?m t i)"
    obtain s1 where v: "visit u s = (s1, Inr ())"
      and rest: "reclaim_entries visit t is (s1\<lparr>rc_mem := set_entry (rc_mem s1) t i 0\<rparr>) = (s', Inr ())"
      using Cons.prems(4) True by (auto simp: Let_def u_def split: if_splits prod.splits sum.splits)
    have nx: "next_table ?m t i = Some u"
      using Cons.prems(4) True by (auto simp: next_table_def u_def Let_def split: if_splits)
    define s2 where "s2 = s1\<lparr>rc_mem := set_entry (rc_mem s1) t i 0\<rparr>"
    have apart: "G ?m u" "t \<notin> T ?m u" "\<And>j v. j \<in> set is \<Longrightarrow> next_table ?m t j = Some v \<Longrightarrow> T ?m u \<inter> T ?m v = {}"
      using Cons.prems(2,3) nx by (fastforce simp: entries_apart_def)+
    have goal: "\<And>w. w \<notin> T ?m u \<Longrightarrow> rc_mem s1 w = ?m w" "D ?m u (rc_alloc s1)"
      and local: "visit_local T G D" and keep: "keeps_owners root visit"
      using ok Cons.prems(1) apart(1) v unfolding visit_ok_def reclaim_goal_def by blast+
    have "owners_kept root (rc_alloc s) (rc_alloc s1)"
      using keep Cons.prems(1) v by (metis fst_conv keeps_owners_def)
    then have inv2: "fa_inv (rc_alloc s2)"
      using owners_kept_inv by (simp add: s2_def)
    have m2: "rc_mem s2 w = ?m w" if "w \<noteq> t" "w \<notin> T ?m u" for w
      using goal(1) that by (simp add: s2_def set_entry_def)
    have t2: "next_table (rc_mem s2) t j = next_table ?m t j" if "j \<noteq> i" for j
      using goal(1) [OF apart(2)] that by (intro next_table_cong) (simp add: s2_def set_entry_def)
    have same: "T (rc_mem s2) v = T ?m v \<and> G (rc_mem s2) v = G ?m v \<and> D (rc_mem s2) v = D ?m v"
      if "j \<in> set is" "next_table ?m t j = Some v" for j v
    proof -
      have "\<forall>w \<in> T ?m v. rc_mem s2 w = ?m w"
        using m2 apart(3) [OF that] that Cons.prems(3) by (fastforce simp: entries_apart_def)
      then show ?thesis
        using local unfolding visit_local_def by blast
    qed
    have ne: "j \<noteq> i" if "j \<in> set is" for j
      using Cons.prems(2) that by auto
    have "entries_apart T G (rc_mem s2) t is"
      using Cons.prems(3) same by (auto simp: entries_apart_def t2 ne)
    then have IH: "(\<forall>j \<in> set is. \<forall>v. next_table (rc_mem s2) t j = Some v \<longrightarrow> D (rc_mem s2) v (rc_alloc s'))"
      "\<forall>w. w \<noteq> t \<longrightarrow> (\<forall>j \<in> set is. \<forall>v. next_table (rc_mem s2) t j = Some v \<longrightarrow> w \<notin> T (rc_mem s2) v) \<longrightarrow>
        rc_mem s' w = rc_mem s2 w"
      using Cons.IH [OF inv2] Cons.prems(2) rest by (simp_all add: s2_def)
    have "owners_kept root (rc_alloc s1) (rc_alloc s')"
      using reclaim_entries_kept [OF keep inv2, of t "is"] rest by (simp add: s2_def)
    then have "D ?m u (rc_alloc s')"
      using ok goal(2) unfolding visit_ok_def by blast
    then show ?thesis
      using IH same nx m2 by (auto simp: t2 ne)
  qed
qed simp

section \<open>The levels\<close>

primrec reach :: "nat \<Rightarrow> page_mem \<Rightarrow> u64 \<Rightarrow> u64 set" where
  "reach 0 m t = {t}"
| "reach (Suc n) m t = insert t (\<Union>i \<in> {..<ENTRY_COUNT}. \<Union>u \<in> set_option (next_table m t i). reach n m u)"

primrec table_tree :: "nat \<Rightarrow> page_mem \<Rightarrow> u64 \<Rightarrow> bool" where
  "table_tree 0 m t = True"
| "table_tree (Suc n) m t = entries_apart (reach n) (table_tree n) m t [0 ..< ENTRY_COUNT]"

text \<open>Every table below is free, and no leaf frame below still belongs to the process.\<close>

primrec gone :: "u64 \<Rightarrow> nat \<Rightarrow> page_mem \<Rightarrow> u64 \<Rightarrow> frame_allocator \<Rightarrow> bool" where
  "gone root 0 m t a =
    (\<forall>i < ENTRY_COUNT. \<forall>u. next_table m t i = Some u \<longrightarrow> owner_of a u \<noteq> Some (owner_process_memory root))"
| "gone root (Suc n) m t a =
    (\<forall>i < ENTRY_COUNT. \<forall>u. next_table m t i = Some u \<longrightarrow> owner_of a u = None \<and> gone root n m u a)"

abbreviation freed :: "u64 \<Rightarrow> nat \<Rightarrow> page_mem \<Rightarrow> u64 \<Rightarrow> frame_allocator \<Rightarrow> bool" where
  "freed root n m t a \<equiv> owner_of a t = None \<and> gone root n m t a"

lemma reach_self [simp]: "t \<in> reach n m t"
  by (cases n) simp_all

lemma gone_mono: "owners_kept root a b \<Longrightarrow> gone root n m t a \<Longrightarrow> gone root n m t b"
proof (induction n arbitrary: t)
  case (Suc n)
  then show ?case
    by (auto simp: owners_kept_def) (metis option.distinct(1))+
qed (auto simp: owners_kept_def, metis option.distinct(1))

lemma level_local:
  "(\<forall>w \<in> reach n m t. m' w = m w) \<Longrightarrow>
    reach n m' t = reach n m t \<and> table_tree n m' t = table_tree n m t \<and> gone root n m' t = gone root n m t"
proof (induction n arbitrary: t)
  case 0
  then have "next_table m' t i = next_table m t i" for i
    by (intro next_table_cong) simp
  then show ?case
    by (simp add: fun_eq_iff)
next
  case (Suc n)
  have nx: "next_table m' t i = next_table m t i" for i
    using Suc.prems by (intro next_table_cong) simp
  have IH: "reach n m' u = reach n m u \<and> table_tree n m' u = table_tree n m u \<and> gone root n m' u = gone root n m u"
    if "i < ENTRY_COUNT" "next_table m t i = Some u" for i u
    using Suc.IH [of u] Suc.prems that by force
  have "reach (Suc n) m' t = reach (Suc n) m t"
    using IH by (auto simp: nx)
  moreover have "table_tree (Suc n) m' t = table_tree (Suc n) m t"
    using IH by (auto simp: nx entries_apart_def)
  moreover have "gone root (Suc n) m' t = gone root (Suc n) m t"
    using IH by (auto simp: nx fun_eq_iff)
  ultimately show ?case
    by simp
qed

lemma leaf_visit_ok:
  "visit_ok root (\<lambda>_ _. {}) (\<lambda>_ _. True) (\<lambda>_ f a. owner_of a f \<noteq> Some (owner_process_memory root)) (reclaim_leaf_frame root)"
proof -
  have "rc_mem s' = rc_mem s \<and> owner_of (rc_alloc s') f \<noteq> Some (owner_process_memory root)"
    if pre: "fa_inv (rc_alloc s)" "reclaim_leaf_frame root f s = (s', Inr ())" for f s s'
  proof (cases "owner_of (rc_alloc s) f = Some (owner_process_memory root)")
    case True
    then obtain a where a: "free_owned (rc_alloc s) f (owner_process_memory root) = (a, Inr ())"
      "rc_alloc s' = a" "rc_mem s' = rc_mem s"
      using pre(2) by (auto simp: reclaim_leaf_frame_def frame_from_start_def split: if_splits prod.splits sum.splits)
    then show ?thesis
      using free_with_owner_spec [OF pre(1) a(1) [unfolded free_owned_def]] by simp
  qed (use pre in \<open>auto simp: reclaim_leaf_frame_def frame_from_start_def split: if_splits\<close>)
  then show ?thesis
    by (auto simp: visit_ok_def visit_local_def reclaim_goal_def reclaim_leaf_frame_kept)
      (auto simp: owners_kept_def, metis option.distinct(1))
qed

definition reclaim_visit :: "nat \<Rightarrow> u64 \<Rightarrow> u64 \<Rightarrow> reclaim_state \<Rightarrow> reclaim_state \<times> (reclaim_error, unit) result" where
  "reclaim_visit n root u s =
    (case reclaim_page_table n root u s of
       (s, Inl e) \<Rightarrow> (s, Inl e)
     | (s, Inr _) \<Rightarrow> free_page_table_frame root u s)"

lemma free_page_table_frame_spec:
  assumes "fa_inv (rc_alloc s)" "free_page_table_frame root u s = (s', Inr ())"
  shows "rc_mem s' = rc_mem s" "owner_of (rc_alloc s') u = None" "owner_of (rc_alloc s) u = Some (owner_page_table root)"
proof -
  obtain a where a: "free_owned (rc_alloc s) u (owner_page_table root) = (a, Inr ())"
    "rc_alloc s' = a" "rc_mem s' = rc_mem s"
    using assms(2) by (auto simp: free_page_table_frame_def frame_from_start_def split: if_splits prod.splits sum.splits)
  then show "rc_mem s' = rc_mem s" "owner_of (rc_alloc s') u = None"
    "owner_of (rc_alloc s) u = Some (owner_page_table root)"
    using free_with_owner_spec [OF assms(1) a(1) [unfolded free_owned_def]] by simp_all
qed

text \<open>The walk of one table, given what its entries' visits do.\<close>

lemma reclaim_visit_ok_aux:
  assumes walk: "\<And>u s s'. fa_inv (rc_alloc s) \<Longrightarrow> table_tree n (rc_mem s) u \<Longrightarrow>
      reclaim_page_table n root u s = (s', Inr ()) \<Longrightarrow> reclaim_goal (reach n) (gone root n) (rc_mem s) u s'"
  shows "visit_ok root (reach n) (table_tree n) (freed root n) (reclaim_visit n root)"
proof -
  have keep: "keeps_owners root (reclaim_visit n root)"
    using keeps_owners_seq [OF reclaim_page_table_kept free_page_table_frame_kept]
    by (simp add: keeps_owners_def reclaim_visit_def)
  have "reclaim_goal (reach n) (freed root n) (rc_mem s) u s'"
    if pre: "fa_inv (rc_alloc s)" "table_tree n (rc_mem s) u" "reclaim_visit n root u s = (s', Inr ())" for u s s'
  proof -
    obtain s1 where s1: "reclaim_page_table n root u s = (s1, Inr ())" "free_page_table_frame root u s1 = (s', Inr ())"
      using pre(3) by (auto simp: reclaim_visit_def split: prod.splits sum.splits)
    have "owners_kept root (rc_alloc s) (rc_alloc s1)"
      using reclaim_page_table_kept pre(1) s1(1) by (metis fst_conv keeps_owners_def)
    then have inv1: "fa_inv (rc_alloc s1)"
      by (rule owners_kept_inv)
    have "owners_kept root (rc_alloc s1) (rc_alloc s')"
      using free_page_table_frame_kept inv1 s1(2) by (metis fst_conv keeps_owners_def)
    then show ?thesis
      using walk [OF pre(1,2) s1(1)] free_page_table_frame_spec [OF inv1 s1(2)] gone_mono
      by (auto simp: reclaim_goal_def)
  qed
  moreover have "visit_local (reach n) (table_tree n) (freed root n)"
    unfolding visit_local_def
  proof (intro allI impI)
    fix m m' :: page_mem and u
    assume "\<forall>w \<in> reach n m u. m' w = m w"
    from level_local [OF this, of root] show "reach n m' u = reach n m u \<and> table_tree n m' u = table_tree n m u \<and>
        freed root n m' u = freed root n m u"
      by simp
  qed
  moreover have "freed root n m u b" if "owners_kept root a b" "freed root n m u a" for m u a b
    using that gone_mono owners_kept_None by blast
  ultimately show ?thesis
    using keep unfolding visit_ok_def by blast
qed

lemma reclaim_page_table_spec:
  "fa_inv (rc_alloc s) \<Longrightarrow> table_tree n (rc_mem s) u \<Longrightarrow> reclaim_page_table n root u s = (s', Inr ()) \<Longrightarrow>
    reclaim_goal (reach n) (gone root n) (rc_mem s) u s'"
proof (induction n arbitrary: u s s')
  case 0
  have "entries_apart (\<lambda>_ _. {}) (\<lambda>_ _. True) (rc_mem s) u [0 ..< ENTRY_COUNT]"
    by (simp add: entries_apart_def)
  from reclaim_entries_spec [OF leaf_visit_ok 0(1) _ this] 0(3) show ?case
    by (simp add: reclaim_goal_def)
next
  case (Suc n)
  have ok: "visit_ok root (reach n) (table_tree n) (freed root n) (reclaim_visit n root)"
    by (rule reclaim_visit_ok_aux) (rule Suc.IH)
  have "reclaim_entries (reclaim_visit n root) u [0 ..< ENTRY_COUNT] s = (s', Inr ())"
    using Suc.prems(3) by (simp add: reclaim_visit_def [abs_def])
  from reclaim_entries_spec [OF ok Suc.prems(1) _ _ this] Suc.prems(2) show ?case
    by (fastforce simp: reclaim_goal_def)
qed

lemma reclaim_visit_ok: "visit_ok root (reach n) (table_tree n) (freed root n) (reclaim_visit n root)"
  by (rule reclaim_visit_ok_aux) (rule reclaim_page_table_spec)

section \<open>The whole address space\<close>

lemma free_page_table_frame_mem:
  "free_page_table_frame root u (s\<lparr>rc_mem := x\<rparr>) =
    (case free_page_table_frame root u s of (s', r) \<Rightarrow> (s'\<lparr>rc_mem := x\<rparr>, r))"
  by (simp add: free_page_table_frame_def split: option.split prod.split sum.split)

text \<open>A successful walk of the root is the index loop of an inner table.\<close>

lemma reclaim_root_entries_success:
  "reclaim_root_entries root is s = (s', Inr ()) \<Longrightarrow> reclaim_entries (reclaim_visit 2 root) root is s = (s', Inr ())"
proof (induction "is" arbitrary: s)
  case (Cons i "is")
  show ?case
  proof (cases "is_present (rc_mem s root i)")
    case False
    then show ?thesis
      using Cons by simp
  next
    case True
    let ?u = "entry_address (rc_mem s root i)"
    obtain s1 where s1: "reclaim_page_table 2 root ?u s = (s1, Inr ())"
      using Cons.prems True by (auto simp: Let_def split: if_splits prod.splits sum.splits)
    obtain s2 r where s2: "free_page_table_frame root ?u s1 = (s2, r)"
      by fastforce
    have mem: "rc_mem s2 = rc_mem s1"
      using s2 by (auto simp: free_page_table_frame_def split: option.splits prod.splits sum.splits)
    then show ?thesis
      using Cons True s1 s2
      by (auto simp: Let_def reclaim_visit_def free_page_table_frame_mem split: if_splits sum.splits)
  qed
qed simp

lemma reclaim_root_entries_kept:
  "fa_inv (rc_alloc s) \<Longrightarrow> owners_kept root (rc_alloc s) (rc_alloc (fst (reclaim_root_entries root is s)))"
proof (induction "is" arbitrary: s)
  case (Cons i "is")
  let ?u = "entry_address (rc_mem s root i)"
  obtain s1 r1 where s1: "reclaim_page_table 2 root ?u s = (s1, r1)"
    by fastforce
  obtain s2 r2 where s2: "free_page_table_frame root ?u (s1\<lparr>rc_mem := set_entry (rc_mem s1) root i 0\<rparr>) = (s2, r2)"
    by fastforce
  have k1: "owners_kept root (rc_alloc s) (rc_alloc s1)"
    using reclaim_page_table_kept Cons.prems s1 by (metis fst_conv keeps_owners_def)
  have "fa_inv (rc_alloc (s1\<lparr>rc_mem := set_entry (rc_mem s1) root i 0\<rparr>))"
    using owners_kept_inv [OF k1] by simp
  then have "owners_kept root (rc_alloc (s1\<lparr>rc_mem := set_entry (rc_mem s1) root i 0\<rparr>)) (rc_alloc s2)"
    using free_page_table_frame_kept s2 by (metis fst_conv keeps_owners_def)
  with k1 have k2: "owners_kept root (rc_alloc s) (rc_alloc s2)"
    using owners_kept_trans by simp
  have "owners_kept root (rc_alloc s) (rc_alloc (fst (reclaim_root_entries root is s2)))"
    using owners_kept_trans [OF k2 Cons.IH [OF owners_kept_inv [OF k2]]] .
  then show ?case
    using Cons k1 k2 s1 s2 owners_kept_refl by (auto simp: Let_def split: sum.split)
qed (simp add: owners_kept_refl)

lemma reclaim_user_address_space_kept:
  assumes "fa_inv a"
  shows "owners_kept root a (rc_alloc (fst (reclaim_user_address_space m a root)))"
proof -
  let ?s = "\<lparr>rc_mem = m, rc_alloc = a, rc_stats = reclaim_stats_empty\<rparr>"
  obtain s1 r1 where s1: "reclaim_root_entries root [0 ..< ENTRY_COUNT div 2] ?s = (s1, r1)"
    by fastforce
  have k1: "owners_kept root a (rc_alloc s1)"
    using reclaim_root_entries_kept [of ?s root "[0 ..< ENTRY_COUNT div 2]"] s1 assms by simp
  obtain s2 r2 where s2: "free_page_table_frame root root s1 = (s2, r2)"
    by fastforce
  have "owners_kept root (rc_alloc s1) (rc_alloc s2)"
    using free_page_table_frame_kept owners_kept_inv [OF k1] s2 by (metis fst_conv keeps_owners_def)
  from k1 owners_kept_trans [OF k1 this] show ?thesis
    by (simp add: reclaim_user_address_space_def s1 s2 split: sum.split)
qed

definition path_upto :: "nat \<Rightarrow> nat list \<Rightarrow> bool" where
  "path_upto n q \<longleftrightarrow> length q \<le> n \<and> (\<forall>i \<in> set q. i < ENTRY_COUNT)"

lemma path_upto_Cons: "path_upto n (i # q) \<longleftrightarrow> i < ENTRY_COUNT \<and> (\<exists>k. n = Suc k \<and> path_upto k q)"
  by (cases n) (auto simp: path_upto_def)

lemma reach_path: "u \<in> reach n m t \<Longrightarrow> \<exists>q. path_upto n q \<and> table_at m t q = Some u"
proof (induction n arbitrary: t)
  case 0
  then show ?case
    by (auto simp: path_upto_def intro!: exI [of _ "[]"])
next
  case (Suc n)
  show ?case
  proof (cases "u = t")
    case True
    then show ?thesis
      by (auto simp: path_upto_def intro!: exI [of _ "[]"])
  next
    case False
    then obtain i v where i: "i < ENTRY_COUNT" "next_table m t i = Some v" "u \<in> reach n m v"
      using Suc.prems by auto
    then obtain q where "path_upto n q" "table_at m v q = Some u"
      using Suc.IH by blast
    then show ?thesis
      using i by (auto simp: path_upto_Cons intro!: exI [of _ "i # q"])
  qed
qed

lemma table_at_append: "table_at m t (p @ q) = (case table_at m t p of None \<Rightarrow> None | Some u \<Rightarrow> table_at m u q)"
  by (induction p arbitrary: t) (simp_all split: option.split)

lemma reach_unique:
  assumes inv: "space_inv m a root" and p: "table_at m root p = Some t" "path_upto (2 - n) p" "n \<le> 2"
    and i: "i < ENTRY_COUNT" "next_table m t i = Some v" "u \<in> reach n m v"
  shows "\<exists>q. path_upto n q \<and> valid_path (p @ i # q) \<and> table_at m root (p @ i # q) = Some u"
  using reach_path [OF i(3)] p i(1,2) by (auto simp: table_at_append path_upto_def valid_path_def)

lemma children_apart:
  assumes inv: "space_inv m a root" and p: "table_at m root p = Some t" "path_upto (2 - n) p" "n \<le> 2"
    and i: "i < ENTRY_COUNT" "next_table m t i = Some u"
  shows "t \<notin> reach n m u" "j < ENTRY_COUNT \<Longrightarrow> j \<noteq> i \<Longrightarrow> next_table m t j = Some v \<Longrightarrow> reach n m u \<inter> reach n m v = {}"
proof -
  note path = reach_unique [OF inv p]
  have "valid_path p"
    using p(2,3) by (auto simp: path_upto_def valid_path_def)
  note unique = space_invD(3) [OF inv]
  show "t \<notin> reach n m u"
  proof
    assume "t \<in> reach n m u"
    then obtain q where "valid_path (p @ i # q)" "table_at m root (p @ i # q) = Some t"
      using path [OF i] by blast
    from unique [OF \<open>valid_path p\<close> this(1) p(1) this(2)] show False
      by simp
  qed
  assume j: "j < ENTRY_COUNT" "j \<noteq> i" "next_table m t j = Some v"
  have "w \<notin> reach n m v" if w: "w \<in> reach n m u" for w
  proof
    assume w': "w \<in> reach n m v"
    obtain q where "valid_path (p @ i # q)" "table_at m root (p @ i # q) = Some w"
      using path [OF i w] by blast
    moreover obtain q' where "valid_path (p @ j # q')" "table_at m root (p @ j # q') = Some w"
      using path [OF j(1,3) w'] by blast
    ultimately have "p @ i # q = p @ j # q'"
      using unique by blast
    then show False
      using j(2) by simp
  qed
  then show "reach n m u \<inter> reach n m v = {}"
    by blast
qed

lemma entries_apart_of_inv:
  assumes inv: "space_inv m a root"
  shows "table_at m root p = Some t \<Longrightarrow> path_upto (2 - n) p \<Longrightarrow> n \<le> 2 \<Longrightarrow> set is \<subseteq> {..<ENTRY_COUNT} \<Longrightarrow>
    entries_apart (reach n) (table_tree n) m t is"
proof (induction n arbitrary: p t "is")
  case 0
  have "i < ENTRY_COUNT" if "i \<in> set is" for i
    using 0(4) that by auto
  then show ?case
    by (intro entries_apartI) (use children_apart [OF inv 0(1-3)] in \<open>blast intro: table_tree.simps(1) [THEN iffD2]\<close>)+
next
  case (Suc n)
  have "table_tree (Suc n) m u" if "i \<in> set is" "next_table m t i = Some u" for i u
  proof -
    have "table_at m root (p @ [i]) = Some u" "path_upto (2 - n) (p @ [i])"
      using Suc.prems that by (auto simp: table_at_snoc path_upto_def)
    from Suc.IH [OF this, of "[0 ..< ENTRY_COUNT]"] Suc.prems(3) show ?thesis
      by (simp add: atLeast0LessThan)
  qed
  moreover have "i < ENTRY_COUNT" if "i \<in> set is" for i
    using Suc.prems(4) that by auto
  ultimately show ?case
    by (intro entries_apartI) (use children_apart [OF inv Suc.prems(1-3)] in blast)+
qed

lemma gone_tables:
  "gone root n m t a \<Longrightarrow> path_upto n (i # q) \<Longrightarrow> table_at m t (i # q) = Some u \<Longrightarrow> owner_of a u = None"
proof (induction q arbitrary: n t i)
  case Nil
  then show ?case
    by (cases n) (auto simp: path_upto_def split: option.splits)
next
  case (Cons j q)
  then obtain k v where "n = Suc k" "i < ENTRY_COUNT" "next_table m t i = Some v" "path_upto k (j # q)"
    by (auto simp: path_upto_Cons split: option.splits)
  then show ?case
    using Cons.IH [of k v j] Cons.prems by auto
qed

lemma gone_leaves:
  "gone root n m t a \<Longrightarrow> length q = n \<Longrightarrow> path_upto n q \<Longrightarrow> table_at m t q = Some u \<Longrightarrow> i < ENTRY_COUNT \<Longrightarrow>
    next_table m u i = Some f \<Longrightarrow> owner_of a f \<noteq> Some (owner_process_memory root)"
proof (induction n arbitrary: t q)
  case (Suc n)
  then obtain j p v where q: "q = j # p" "length p = n" "j < ENTRY_COUNT" "path_upto n p" "next_table m t j = Some v"
      "table_at m v p = Some u"
    by (cases q) (auto simp: path_upto_Cons split: option.splits)
  then have "gone root n m v a"
    using Suc.prems(1) by simp
  from Suc.IH [OF this q(2,4,6) Suc.prems(5,6)] show ?case .
qed (auto simp: path_upto_def)

lemma reclaim_user_address_space_frees:
  assumes inv: "space_inv m a root" and r: "reclaim_user_address_space m a root = (s', Inr st)"
  shows "owner_of (rc_alloc s') root = None"
    "valid_path (i # q) \<Longrightarrow> i < ENTRY_COUNT div 2 \<Longrightarrow> table_at m root (i # q) = Some t \<Longrightarrow> owner_of (rc_alloc s') t = None"
    "page_indexes va ! 0 < ENTRY_COUNT div 2 \<Longrightarrow> translate m root va = Some e \<Longrightarrow> \<not> is_huge e \<Longrightarrow>
      owner_of (rc_alloc s') (entry_address e) \<noteq> Some (owner_process_memory root)"
proof -
  let ?s = "\<lparr>rc_mem = m, rc_alloc = a, rc_stats = reclaim_stats_empty\<rparr>" and ?is = "[0 ..< ENTRY_COUNT div 2]"
  obtain s1 where s1: "reclaim_root_entries root ?is ?s = (s1, Inr ())" and s2: "free_page_table_frame root root s1 = (s', Inr ())"
    using r by (auto simp: reclaim_user_address_space_def split: prod.splits sum.splits)
  have a: "fa_inv (rc_alloc ?s)"
    using space_invD(1) [OF inv] by simp
  have "set ?is \<subseteq> {..<ENTRY_COUNT}" "path_upto (2 - 2) []"
    by (auto simp: path_upto_def)
  from entries_apart_of_inv [OF inv table_at.simps(1) this(2) order_refl this(1)]
  have "entries_apart (reach 2) (table_tree 2) (rc_mem ?s) root ?is"
    by (simp only: reclaim_state.simps)
  note spec = reclaim_entries_spec [OF reclaim_visit_ok a distinct_upt this reclaim_root_entries_success [OF s1]]
  have done1: "freed root 2 m u (rc_alloc s1)" if "i < ENTRY_COUNT div 2" "next_table m root i = Some u" for i u
    using bspec [OF conjunct1 [OF spec], of i] that by simp
  have "owners_kept root a (rc_alloc s1)"
    using reclaim_root_entries_kept [OF a, of root ?is] s1 by simp
  then have inv1: "fa_inv (rc_alloc s1)"
    by (rule owners_kept_inv)
  then have "owners_kept root (rc_alloc s1) (rc_alloc s')"
    using free_page_table_frame_kept s2 by (metis fst_conv keeps_owners_def)
  then have freed: "freed root 2 m u (rc_alloc s')" if "i < ENTRY_COUNT div 2" "next_table m root i = Some u" for i u
    using done1 [OF that] gone_mono owners_kept_None by blast
  show "owner_of (rc_alloc s') root = None"
    using free_page_table_frame_spec(2) [OF inv1 s2] .
  show "owner_of (rc_alloc s') t = None"
    if p: "valid_path (i # q)" "i < ENTRY_COUNT div 2" "table_at m root (i # q) = Some t"
  proof -
    obtain u where u: "next_table m root i = Some u" "table_at m u q = Some t"
      using p(3) by (auto split: option.splits)
    then show ?thesis
      using freed [OF p(2) u(1)] gone_tables [of root 2 m u "rc_alloc s'" "hd q" "tl q" t] p(1)
      by (cases q) (auto simp: valid_path_def path_upto_def)
  qed
  show "owner_of (rc_alloc s') (entry_address e) \<noteq> Some (owner_process_memory root)"
    if e: "page_indexes va ! 0 < ENTRY_COUNT div 2" "translate m root va = Some e" "\<not> is_huge e"
  proof -
    obtain i0 i1 i2 i3 where idx: "page_indexes va = [i0, i1, i2, i3]"
      by (simp add: page_indexes_def)
    have b: "i1 < ENTRY_COUNT" "i2 < ENTRY_COUNT" "i3 < ENTRY_COUNT"
      using page_index_bound [of _ va] by (simp_all add: idx)
    obtain u t where u: "next_table m root i0 = Some u" "table_at m u [i1, i2] = Some t" "next_table m t i3 = Some (entry_address e)"
      using e(2,3) by (auto simp: translate_def idx Let_def next_table_def [of m _ i3] split: option.splits if_splits)
    show ?thesis
      using gone_leaves [of root 2 m u "rc_alloc s'" "[i1, i2]" t i3] freed [OF _ u(1)] e(1) u b idx
      by (simp add: path_upto_def del: table_at.simps)
  qed
qed

end
