(* ===== verification/Page_Properties.thy ===== *)
theory Page_Properties
  imports Page_Reclaim
begin

text \<open>The properties of the page tables, over the invariant of \<^verbatim>\<open>Page_Walk\<close>.\<close>

section \<open>A sample address space\<close>

lemma table_at_empty: "table_at (\<lambda>_ _. 0) root p = Some t \<longleftrightarrow> p = [] \<and> t = root"
  by (cases p) (auto simp: next_table_def is_present_def)

lemma space_inv_empty:
  assumes "fa_inv a" "addressable a" "root \<in> set (ledger a) \<or> \<not> fa_contains a root"
  shows "space_inv (\<lambda>_ _. 0) a root"
  using assms by (auto simp: space_inv_def table_at_empty)

lemma sample_space_inv: "space_inv (\<lambda>_ _. 0) sample_allocator 0x300000"
proof (rule space_inv_empty)
  show "fa_inv sample_allocator"
    using sample_allocator_reachable by (rule fa_reachable_inv)
qed (simp_all add: sample_allocator_eq addressable_def extents_def fa_contains_def range_contains_def checked_add_def
    FRAME_SIZE_def)

lemma allocate_owned_single:
  assumes "fa_ranges a = [r]" "fa_next_range a = 0" "fa_free_stack a = []" "fr_next r < fr_end r"
    "length (fa_records a) < MAX_FRAME_RECORDS"
  shows "allocate_owned a own =
    (update_high_water (record_allocated (a\<lparr>fa_ranges := [r\<lparr>fr_next := fr_next r + FRAME_SIZE\<rparr>],
      fa_allocated_frames := fa_allocated_frames a + 1\<rparr>) (fr_next r) own), Some (fr_next r))"
  using assms bump_allocate.simps [of a own] by (simp add: allocate_owned_def Let_def)

lemmas sample_eval = sample_allocator_eq frame_allocator_new_def allocate_owned_single update_high_water_def
  record_allocated_def MAX_FRAME_RECORDS_def FRAME_SIZE_def Let_def

lemmas entry_eval = set_entry_def zero_table_def entry_value_def table_bits_def flags_user_def flags_user_accessible_def
  is_present_def is_huge_def is_user_accessible_def is_writable_def entry_address_def PRESENT_def WRITABLE_def
  USER_ACCESSIBLE_def HUGE_PAGE_def NO_EXECUTE_def ADDRESS_MASK_def ENTRY_COUNT_def

abbreviation sample_mapping :: "page_mem \<times> frame_allocator \<times> (map_error, unit) result" where
  "sample_mapping \<equiv> map_page_in_root (\<lambda>_ _. 0) sample_allocator 0x300000 0x400000 0x500000 (flags_user True False)"

lemma sample_mapping_ok: "snd (snd sample_mapping) = Inr ()"
  by (simp add: map_page_in_root_def map_page_in_table_def ensure_next_table_def page_indexes_def sample_eval entry_eval)

lemma sample_mapping_spec:
  "space_inv (fst sample_mapping) (fst (snd sample_mapping)) 0x300000"
  "translate (fst sample_mapping) 0x300000 0x400000 = Some (entry_value 0x500000 (flags_user True False))"
  "\<not> is_huge (entry_value 0x500000 (flags_user True False))"
proof -
  have f: "0x500000 AND ADDRESS_MASK = 0x500000" "entry_flags (flags_user True False)"
    by (simp_all add: ADDRESS_MASK_def entry_flags_constructors)
  note bits = entry_value_bits [OF f(1), of "flags_user True False"]
  have "sample_mapping = (fst sample_mapping, fst (snd sample_mapping), Inr ())"
    using sample_mapping_ok by (simp only: prod_eq_iff fst_conv snd_conv simp_thms)
  note spec = map_page_in_table_spec [OF sample_space_inv this [unfolded map_page_in_root_def]]
  show "space_inv (fst sample_mapping) (fst (snd sample_mapping)) 0x300000"
    "translate (fst sample_mapping) 0x300000 0x400000 = Some (entry_value 0x500000 (flags_user True False))"
    using spec bits f(2) by (simp_all add: map_page_in_root_def entry_flags_def)
  show "\<not> is_huge (entry_value 0x500000 (flags_user True False))"
    using bits f(2) by (simp add: entry_flags_def)
qed

text \<open>One user page at \<^verbatim>\<open>0x400000\<close>, below the root at \<^verbatim>\<open>0x300000\<close>.\<close>

definition sample_tables :: page_mem where
  "sample_tables =
    (\<lambda>_ _. 0)(0x300000 := (\<lambda>_. 0)(0 := entry_value 0x100000 (table_bits (flags_user True False))),
               0x100000 := (\<lambda>_. 0)(0 := entry_value 0x101000 (table_bits (flags_user True False))),
               0x101000 := (\<lambda>_. 0)(2 := entry_value 0x102000 (table_bits (flags_user True False))),
               0x102000 := (\<lambda>_. 0)(0 := entry_value 0x500000 (flags_user True False)))"

abbreviation sample_new :: "page_mem \<times> frame_allocator \<times> (map_error, u64) result" where
  "sample_new \<equiv> address_space_new (\<lambda>_ _. 0) sample_allocator 0x300000"

lemma sample_new_ok: "snd (snd sample_new) = Inr 0x100000"
  by (simp add: address_space_new_def sample_eval set_owner_def fa_contains_def range_contains_def checked_add_def
      record_index_def)

lemma sample_new_eq: "sample_new = (fst sample_new, fst (snd sample_new), Inr 0x100000)"
  using sample_new_ok by (simp only: prod_eq_iff fst_conv snd_conv simp_thms)

lemma reclaim_root_entries_absent:
  "\<forall>i \<in> set is. \<not> is_present (rc_mem s root i) \<Longrightarrow> reclaim_root_entries root is s = (s, Inr ())"
  by (induction "is") simp_all

lemma sample_new_owner: "owner_of (fst (snd sample_new)) 0x100000 = Some (owner_page_table 0x100000)"
  by (simp add: address_space_new_def sample_eval set_owner_def fa_contains_def range_contains_def checked_add_def
      record_index_def owner_of_def)

lemma sample_reclaim_ok:
  "map_sum id rs_page_table_frames (snd (reclaim_user_address_space (fst sample_new) (fst (snd sample_new)) 0x100000)) = Inr 1"
proof -
  have "\<not> is_present (fst sample_new 0x100000 i)" if "i < 256" for i
    using that
    by (simp add: address_space_new_def sample_eval set_owner_def fa_contains_def range_contains_def checked_add_def
        record_index_def zero_table_def ENTRY_COUNT_def is_present_def)
  then have "reclaim_root_entries 0x100000 [0 ..< ENTRY_COUNT div 2]
      \<lparr>rc_mem = fst sample_new, rc_alloc = a, rc_stats = reclaim_stats_empty\<rparr> =
      (\<lparr>rc_mem = fst sample_new, rc_alloc = a, rc_stats = reclaim_stats_empty\<rparr>, Inr ())" for a
    by (intro reclaim_root_entries_absent) (simp add: ENTRY_COUNT_def)
  moreover have "snd (free_owned (fst (snd sample_new)) 0x100000 (owner_page_table 0x100000)) = Inr ()"
    by (simp add: address_space_new_def sample_eval set_owner_def fa_contains_def range_contains_def checked_add_def
        record_index_def free_owned_def free_with_owner_def FREE_STACK_CAPACITY_def)
  ultimately show ?thesis
    by (auto simp: reclaim_user_address_space_def free_page_table_frame_def frame_from_start_def FRAME_SIZE_def
        reclaim_stats_empty_def saturating_add_def split: prod.split sum.split)
qed

section \<open>Mapping, unmapping, validating\<close>

text \<open>
  C7: Mapping a page refines the update of a partial function.  In an
  address space whose tables form a tree of recorded frames, a successful
  call maps a page that was unmapped before to exactly the given frame and
  flags, and every other page translates as before; a failed call (no frame
  for a table, a huge page on the way, the page already mapped) changes no
  translation.  The tree is kept in both cases, although a failed call may
  have built tables on the way.
\<close>

theorem map_page_refines:
  assumes "space_inv m a root" "entry_flags flags" "frame AND ADDRESS_MASK = frame"
    and "map_page_in_root m a root va frame flags = (m', a', r)"
  shows "space_inv m' a' root \<and> (case r of
      Inl e \<Rightarrow> \<forall>va'. translate m' root va' = translate m root va'
    | Inr _ \<Rightarrow> translate m root va = None \<and> entry_address (entry_value frame flags) = frame \<and>
        (\<forall>va'. translate m' root va' =
          (if page_indexes va' = page_indexes va then Some (entry_value frame flags) else translate m root va')))"
proof -
  have "is_present (entry_value frame flags)" "entry_address (entry_value frame flags) = frame"
    using entry_value_bits [OF assms(3)] assms(2) by (simp_all add: entry_flags_def)
  then show ?thesis
    using map_page_in_table_spec [OF assms(1) assms(4) [unfolded map_page_in_root_def]]
    by (auto simp: same_translation_def split: sum.splits)
qed

theorem map_page_refines_witness:
  "snd (snd sample_mapping) = Inr () \<and> translate (\<lambda>_ _. 0) 0x300000 0x400000 = None \<and>
    translate (fst sample_mapping) 0x300000 0x400123 = Some (entry_value 0x500000 (flags_user True False)) \<and>
    translate (fst sample_mapping) 0x300000 0x401000 = None"
proof -
  have "page_indexes 0x400123 = page_indexes 0x400000" "page_indexes 0x401000 \<noteq> page_indexes 0x400000"
    by (simp_all add: page_indexes_def)
  moreover have "0x500000 AND ADDRESS_MASK = 0x500000"
    by (simp add: ADDRESS_MASK_def)
  moreover have "translate (\<lambda>_ _. 0) 0x300000 0x401000 = None"
    by (simp add: translate_def page_indexes_def next_table_def is_present_def)
  moreover have "sample_mapping = (fst sample_mapping, fst (snd sample_mapping), Inr ())"
    using sample_mapping_ok by (simp only: prod_eq_iff fst_conv snd_conv simp_thms)
  ultimately show ?thesis
    using map_page_refines [OF sample_space_inv entry_flags_constructors(2) _, of "0x500000" "0x400000" True False
        "fst sample_mapping" "fst (snd sample_mapping)" "Inr ()"] sample_mapping_ok
    by simp
qed

text \<open>
  C27: Unmapping a page refines deletion.  It succeeds exactly when the page
  is mapped by a regular leaf entry; then that page alone loses its
  translation and the invariant is kept, and otherwise the tables are
  unchanged.
\<close>

theorem unmap_page_refines:
  assumes "space_inv m a root" "unmap_page_in_root m root va = (m', r)"
  shows "(r = Inr () \<longleftrightarrow> (\<exists>e. translate m root va = Some e \<and> \<not> is_huge e)) \<and>
    (case r of
       Inl _ \<Rightarrow> m' = m
     | Inr _ \<Rightarrow> space_inv m' a root \<and>
        (\<forall>va'. translate m' root va' = (if page_indexes va' = page_indexes va then None else translate m root va')))"
  using unmap_page_spec [OF assms] by (auto split: sum.splits)

theorem unmap_page_refines_witness:
  "snd (unmap_page_in_root (fst sample_mapping) 0x300000 0x400000) = Inr () \<and>
    translate (fst (unmap_page_in_root (fst sample_mapping) 0x300000 0x400000)) 0x300000 0x400000 = None"
  using unmap_page_refines [OF sample_mapping_spec(1) prod.collapse [symmetric], of "0x400000"] sample_mapping_spec(2,3)
  by (auto split: sum.splits)

text \<open>
  C9: A user buffer is accepted exactly when it is safe to touch.  The check
  succeeds if and only if the range lies below the canonical limit, does not
  wrap, and for every byte of it all four entries of the walk are present,
  open to user mode and not huge, with the leaf writable for a write.
\<close>

theorem user_range_checked:
  assumes "len < 2 ^ 64"
  shows "validate_user_range m root start len access = Inr () \<longleftrightarrow>
    unat start < 2 ^ 47 \<and> unat start + len \<le> 2 ^ 47 \<and> (\<forall>k < len. user_accessible m root (start + of_nat k) access)"
  using assms by (rule validate_user_range_iff)

theorem user_range_checked_witness:
  "user_accessible sample_tables 0x300000 0x400fff WriteAccess \<and> \<not> user_accessible sample_tables 0x300000 0x401000 WriteAccess"
proof -
  have "validate_user_range sample_tables 0x300000 0x400fff 1 WriteAccess = Inr ()"
    "validate_user_range sample_tables 0x300000 0x401000 1 WriteAccess = Inl NotPresent"
    by code_simp+
  then show ?thesis
    using user_range_checked [of 1 sample_tables "0x300000" "0x400fff" WriteAccess]
      user_range_checked [of 1 sample_tables "0x300000" "0x401000" WriteAccess] by simp
qed

text \<open>
  C24: A new address space shares the kernel half and nothing else.  Its
  upper half translates exactly as the active root does, no page of its lower
  half is mapped, the active root's translations are unchanged, and both
  roots satisfy the invariant.
\<close>

theorem new_address_space_isolated:
  assumes "space_inv m a (cr3 AND ADDRESS_MASK)" "address_space_new m a cr3 = (m', a', Inr root)"
  shows "space_inv m' a' root \<and> space_inv m' a' (cr3 AND ADDRESS_MASK) \<and>
    (\<forall>va. translate m' (cr3 AND ADDRESS_MASK) va = translate m (cr3 AND ADDRESS_MASK) va) \<and>
    (\<forall>va. translate m' root va =
      (if 256 \<le> page_indexes va ! 0 then translate m (cr3 AND ADDRESS_MASK) va else None))"
  using address_space_new_spec [OF assms] by (auto simp: same_translation_def ENTRY_COUNT_def)

theorem new_address_space_isolated_witness:
  "snd (snd sample_new) = Inr 0x100000 \<and> translate (fst sample_new) 0x100000 0x400000 = None"
proof -
  have k: "0x300000 AND ADDRESS_MASK = 0x300000"
    by (simp add: ADDRESS_MASK_def)
  have "page_indexes 0x400000 ! 0 = 0"
    by (simp add: page_indexes_def)
  then show ?thesis
    using new_address_space_isolated [of "\<lambda>_ _. 0" sample_allocator "0x300000", unfolded k, OF sample_space_inv sample_new_eq]
      sample_new_ok by simp
qed

text \<open>
  C11: Reclaiming an address space frees what belongs to it and only that.
  No frame changes owner except table frames and process memory of this root,
  which become free, whether the walk succeeds or stops at an error; and when
  it succeeds the root and every table of the user half is free, and no
  mapped user frame is still owned as memory of the process.
\<close>

theorem reclaim_frees_exactly:
  assumes "space_inv m a root" "reclaim_user_address_space m a root = (s, r)"
  shows "(\<forall>f. owner_of (rc_alloc s) f = owner_of a f \<or>
      owner_of (rc_alloc s) f = None \<and> owner_of a f \<in> {Some (owner_page_table root), Some (owner_process_memory root)}) \<and>
    (case r of
       Inl _ \<Rightarrow> True
     | Inr _ \<Rightarrow> owner_of (rc_alloc s) root = None \<and>
        (\<forall>i q t. valid_path (i # q) \<longrightarrow> i < 256 \<longrightarrow> table_at m root (i # q) = Some t \<longrightarrow> owner_of (rc_alloc s) t = None) \<and>
        (\<forall>va e. page_indexes va ! 0 < 256 \<longrightarrow> translate m root va = Some e \<longrightarrow> \<not> is_huge e \<longrightarrow>
          owner_of (rc_alloc s) (entry_address e) \<noteq> Some (owner_process_memory root)))"
proof (cases r)
  case Inl
  then show ?thesis
    using reclaim_user_address_space_kept [OF space_invD(1) [OF assms(1)], of root m] assms(2)
    by (simp add: owners_kept_def)
next
  case (Inr st)
  have "256 = ENTRY_COUNT div 2"
    by (simp add: ENTRY_COUNT_def)
  with Inr show ?thesis
    using reclaim_user_address_space_kept [OF space_invD(1) [OF assms(1)], of root m] assms(2)
      reclaim_user_address_space_frees [OF assms(1), of s st]
    by (auto simp: owners_kept_def simp del: table_at.simps)
qed

theorem reclaim_frees_exactly_witness:
  "owner_of (fst (snd sample_new)) 0x100000 = Some (owner_page_table 0x100000) \<and>
    owner_of (rc_alloc (fst (reclaim_user_address_space (fst sample_new) (fst (snd sample_new)) 0x100000))) 0x100000 = None"
proof -
  let ?r = "reclaim_user_address_space (fst sample_new) (fst (snd sample_new)) 0x100000"
  have k: "0x300000 AND ADDRESS_MASK = 0x300000"
    by (simp add: ADDRESS_MASK_def)
  have "space_inv (fst sample_new) (fst (snd sample_new)) 0x100000"
    using address_space_new_spec(1) [of "\<lambda>_ _. 0" sample_allocator "0x300000", unfolded k, OF sample_space_inv sample_new_eq] .
  from reclaim_frees_exactly [OF this prod.collapse [symmetric]]
  have "owner_of (rc_alloc (fst ?r)) 0x100000 = None"
    using sample_reclaim_ok by (cases "snd ?r") simp_all
  then show ?thesis
    using sample_new_owner by blast
qed

end
