(* ===== verification/Runtime_State.thy ===== *)
theory Runtime_State
  imports Vfs_Tables
begin

text \<open>
  The kernel's global state and the capability life cycle
  (\<^verbatim>\<open>ipc/runtime_state.rs\<close>, \<^verbatim>\<open>ipc/runtime_access.rs\<close>).
  The revocation list, the lineage table and the lifecycle log are the lists
  of their first \<^verbatim>\<open>count\<close> entries; the id tables and the pending
  device writes keep their full length.  The pointer to the boot configuration is not part of the record.
\<close>

definition MAX_CAP_LINEAGE :: nat where "MAX_CAP_LINEAGE = 1024"
definition MAX_REVOKED_CAPS :: nat where "MAX_REVOKED_CAPS = MAX_CAP_LINEAGE"
definition MAX_SERVICE_LIFECYCLE_EVENTS :: nat where "MAX_SERVICE_LIFECYCLE_EVENTS = 128"
definition MAX_VFS_MOUNTS :: nat where "MAX_VFS_MOUNTS = 16"
definition MAX_BOOT_NAMESPACES :: nat where "MAX_BOOT_NAMESPACES = 4"
definition MAX_BOOT_VFS_ROOTS :: nat where "MAX_BOOT_VFS_ROOTS = 8"
definition MAX_BOOT_STATE_VOLUMES :: nat where "MAX_BOOT_STATE_VOLUMES = 4"

record capability_lineage =
  cl_cap_id :: u64
  cl_parent_cap_id :: u64

datatype service_lifecycle_state =
  SvcDeclared | SvcStarting | SvcReady | SvcFailed | SvcRestarting | SvcExited

fun lifecycle_label :: "service_lifecycle_state \<Rightarrow> string" where
  "lifecycle_label SvcDeclared = ''declared''"
| "lifecycle_label SvcStarting = ''starting''"
| "lifecycle_label SvcReady = ''ready''"
| "lifecycle_label SvcFailed = ''failed''"
| "lifecycle_label SvcRestarting = ''restarting''"
| "lifecycle_label SvcExited = ''exited''"

record service_lifecycle_event =
  sl_service :: string
  sl_state :: service_lifecycle_state
  sl_status :: u64
  sl_has_status :: bool

record device_write =
  dw_sector :: u64
  dw_bytes :: "u8 list"

definition VERTEXFS_SYNC_MAX_DEVICE_WRITES :: nat where "VERTEXFS_SYNC_MAX_DEVICE_WRITES = 24"

definition device_write_empty :: device_write where
  "device_write_empty = \<lparr>dw_sector = 0, dw_bytes = replicate VERTEXFS_SECTOR_SIZE 0\<rparr>"

type_synonym id_table = "object_id option list"

record runtime_ids =
  ri_endpoint_ids :: id_table
  ri_store_object_ids :: id_table
  ri_state_volume_ids :: id_table
  ri_network_port_ids :: id_table
  ri_io_port_ids :: id_table
  ri_mmio_region_ids :: id_table
  ri_framebuffer_ids :: id_table
  ri_interrupt_line_ids :: id_table
  ri_dma_region_ids :: id_table
  ri_pci_device_ids :: id_table
  ri_virtio_device_ids :: id_table
  ri_namespace_ids :: id_table
  ri_vfs_root_ids :: id_table
  ri_vfs_mount_ids :: id_table
  ri_vfs_mount_count :: nat
  ri_timer_id :: "object_id option"
  ri_process_control_id :: "object_id option"
  ri_secret_id :: "object_id option"
  ri_state_vfs_request_endpoint :: "object_id option"
  ri_state_vfs_reply_endpoint :: "object_id option"
  ri_vertexfs_device_request_endpoint :: "object_id option"
  ri_vertexfs_device_reply_endpoint :: "object_id option"
  ri_generation_metadata_block_request_endpoint :: "object_id option"
  ri_generation_metadata_block_reply_endpoint :: "object_id option"
  ri_process_template_pids :: "process_id option list"

definition runtime_ids_new :: runtime_ids where
  "runtime_ids_new =
    \<lparr>ri_endpoint_ids = replicate MAX_OBJECTS None, ri_store_object_ids = replicate MAX_OBJECTS None,
     ri_state_volume_ids = replicate MAX_BOOT_STATE_VOLUMES None, ri_network_port_ids = replicate MAX_OBJECTS None,
     ri_io_port_ids = replicate MAX_OBJECTS None, ri_mmio_region_ids = replicate MAX_OBJECTS None,
     ri_framebuffer_ids = replicate MAX_OBJECTS None, ri_interrupt_line_ids = replicate MAX_OBJECTS None,
     ri_dma_region_ids = replicate MAX_OBJECTS None, ri_pci_device_ids = replicate MAX_OBJECTS None,
     ri_virtio_device_ids = replicate MAX_OBJECTS None, ri_namespace_ids = replicate MAX_BOOT_NAMESPACES None,
     ri_vfs_root_ids = replicate MAX_BOOT_VFS_ROOTS None, ri_vfs_mount_ids = replicate MAX_VFS_MOUNTS None,
     ri_vfs_mount_count = 0, ri_timer_id = None, ri_process_control_id = None, ri_secret_id = None,
     ri_state_vfs_request_endpoint = None, ri_state_vfs_reply_endpoint = None,
     ri_vertexfs_device_request_endpoint = None, ri_vertexfs_device_reply_endpoint = None,
     ri_generation_metadata_block_request_endpoint = None, ri_generation_metadata_block_reply_endpoint = None,
     ri_process_template_pids = replicate MAX_PROCESSES None\<rparr>"

record runtime_state =
  rt_objects :: object_table
  rt_processes :: process_table
  rt_generation_id :: string
  rt_next_cap_id :: u64
  rt_revoked_caps :: "u64 list"
  rt_cap_lineage :: "capability_lineage list"
  rt_vfs :: vfs_tables
  rt_ids :: runtime_ids
  rt_next_vfs_state_transaction_id :: u64
  rt_sync_writes :: "device_write list"
  rt_sync_write_count :: nat
  rt_lifecycle :: "service_lifecycle_event list"

definition runtime_state_new :: runtime_state where
  "runtime_state_new =
    \<lparr>rt_objects = ot_new, rt_processes = pt_new, rt_generation_id = '''', rt_next_cap_id = 1,
     rt_revoked_caps = [], rt_cap_lineage = [], rt_vfs = vfs_tables_new, rt_ids = runtime_ids_new,
     rt_next_vfs_state_transaction_id = 1, 
     rt_sync_writes = replicate VERTEXFS_SYNC_MAX_DEVICE_WRITES device_write_empty, rt_sync_write_count = 0,
     rt_lifecycle = []\<rparr>"

text \<open>Objects and processes are reset by the caller, through their own tables.\<close>

definition reset_capability_lifecycle :: "runtime_state \<Rightarrow> string \<Rightarrow> runtime_state" where
  "reset_capability_lifecycle rt generation_id =
    rt\<lparr>rt_generation_id := generation_id, rt_next_cap_id := 1, rt_revoked_caps := [], rt_cap_lineage := [],
       rt_vfs := vfs_tables_new, rt_ids := runtime_ids_new, rt_next_vfs_state_transaction_id := 1,
       rt_sync_writes := replicate VERTEXFS_SYNC_MAX_DEVICE_WRITES device_write_empty, rt_sync_write_count := 0,
       rt_lifecycle := []\<rparr>"

definition record_service_lifecycle :: "runtime_state \<Rightarrow> string \<Rightarrow> service_lifecycle_state \<Rightarrow> u64 option
    \<Rightarrow> runtime_state" where
  "record_service_lifecycle rt service state status =
    (let event = \<lparr>sl_service = service, sl_state = state, sl_status = case_option 0 id status,
                  sl_has_status = (status \<noteq> None)\<rparr>;
         log = rt_lifecycle rt
     in rt\<lparr>rt_lifecycle := (if length log < MAX_SERVICE_LIFECYCLE_EVENTS then log @ [event] else tl log @ [event])\<rparr>)"

section \<open>Capability identities\<close>

definition cap_parent_from_lineage :: "runtime_state \<Rightarrow> u64 \<Rightarrow> u64 option" where
  "cap_parent_from_lineage rt i =
    first_some (\<lambda>l. if cl_cap_id l = i then Some (cl_parent_cap_id l) else None) (rt_cap_lineage rt)"

definition cap_id_revoked :: "runtime_state \<Rightarrow> u64 \<Rightarrow> bool" where
  "cap_id_revoked rt i \<longleftrightarrow> list_ex (\<lambda>r. r = i) (rt_revoked_caps rt)"

definition can_allocate_capability :: "runtime_state \<Rightarrow> bool" where
  "can_allocate_capability rt \<longleftrightarrow>
    rt_next_cap_id rt \<noteq> 0 \<and> rt_next_cap_id rt \<noteq> u64_max \<and> length (rt_cap_lineage rt) < MAX_CAP_LINEAGE"

definition record_cap_lineage :: "runtime_state \<Rightarrow> u64 \<Rightarrow> u64 \<Rightarrow> runtime_state \<times> (ipc_error, unit) result" where
  "record_cap_lineage rt i parent =
    (if length (rt_cap_lineage rt) = MAX_CAP_LINEAGE then (rt, Inl BadCapability)
     else (rt\<lparr>rt_cap_lineage := rt_cap_lineage rt @ [\<lparr>cl_cap_id = i, cl_parent_cap_id = parent\<rparr>]\<rparr>, Inr ()))"

definition new_capability :: "runtime_state \<Rightarrow> object_id \<Rightarrow> u64 \<Rightarrow> process_id \<Rightarrow> u64 \<Rightarrow> process_id
    \<Rightarrow> runtime_state \<times> (ipc_error, capability) result" where
  "new_capability rt object rights owner_process parent delegated_by =
    (if rt_next_cap_id rt = 0 \<or> rt_next_cap_id rt = u64_max then (rt, Inl BadCapability)
     else let i = rt_next_cap_id rt
          in case record_cap_lineage rt i parent of
               (rt, Inl e) \<Rightarrow> (rt, Inl e)
             | (rt, Inr _) \<Rightarrow>
                (rt\<lparr>rt_next_cap_id := rt_next_cap_id rt + 1\<rparr>,
                 Inr \<lparr>cap_id = i, cap_object = object, cap_rights = rights, cap_owner_process = owner_process,
                      cap_parent_cap_id = parent, cap_generation_id = rt_generation_id rt,
                      cap_delegated_by = delegated_by, cap_revoked = False\<rparr>))"

definition rollback_last_capability :: "runtime_state \<Rightarrow> capability \<Rightarrow> runtime_state" where
  "rollback_last_capability rt cap =
    (let rt = (if rt_next_cap_id rt = saturating_add (cap_id cap) 1 then rt\<lparr>rt_next_cap_id := cap_id cap\<rparr> else rt)
     in if rt_cap_lineage rt \<noteq> [] \<and> cl_cap_id (last (rt_cap_lineage rt)) = cap_id cap
        then rt\<lparr>rt_cap_lineage := butlast (rt_cap_lineage rt)\<rparr> else rt)"

definition generation_cap_count_in_space :: "capability_space \<Rightarrow> string \<Rightarrow> nat" where
  "generation_cap_count_in_space space generation_id =
    length (filter (\<lambda>c. case c of Some cap \<Rightarrow> cap_generation_id cap = generation_id \<and> \<not> cap_revoked cap | None \<Rightarrow> False)
      space)"

definition generation_cap_count :: "runtime_state \<Rightarrow> string \<Rightarrow> nat" where
  "generation_cap_count rt generation_id =
    sum_list (map (\<lambda>p. generation_cap_count_in_space (proc_caps p) generation_id +
      generation_cap_count_in_space (proc_initial_caps p) generation_id) (pt_processes (rt_processes rt)))"

section \<open>Revocation\<close>

definition add_revoked_cap :: "runtime_state \<Rightarrow> u64 \<Rightarrow> runtime_state \<times> (ipc_error, bool) result" where
  "add_revoked_cap rt i =
    (if i = 0 \<or> cap_id_revoked rt i then (rt, Inr False)
     else if length (rt_revoked_caps rt) = MAX_REVOKED_CAPS then (rt, Inl BadCapability)
     else (rt\<lparr>rt_revoked_caps := rt_revoked_caps rt @ [i]\<rparr>, Inr True))"

text \<open>One pass over the lineage; the flag tells whether an id was added.\<close>

fun revoke_pass :: "capability_lineage list \<Rightarrow> runtime_state \<Rightarrow> bool \<Rightarrow> runtime_state \<times> (ipc_error, bool) result" where
  "revoke_pass [] rt changed = (rt, Inr changed)"
| "revoke_pass (l # ls) rt changed =
    (if cl_parent_cap_id l \<noteq> 0 \<and> cap_id_revoked rt (cl_parent_cap_id l)
     then case add_revoked_cap rt (cl_cap_id l) of
            (rt, Inl e) \<Rightarrow> (rt, Inl e)
          | (rt, Inr b) \<Rightarrow> revoke_pass ls rt (changed \<or> b)
     else revoke_pass ls rt changed)"

lemma add_revoked_cap_cases:
  assumes "add_revoked_cap rt i = (rt', r)"
  shows "rt' = rt\<lparr>rt_revoked_caps := rt_revoked_caps rt'\<rparr>"
    "r = Inr True \<Longrightarrow> i \<notin> set (rt_revoked_caps rt) \<and> i \<noteq> 0 \<and> rt_revoked_caps rt' = rt_revoked_caps rt @ [i]"
    "r \<noteq> Inr True \<Longrightarrow> rt' = rt" "r = Inr False \<Longrightarrow> i = 0 \<or> i \<in> set (rt_revoked_caps rt)"
  using assms by (auto simp: add_revoked_cap_def cap_id_revoked_def list_ex_iff split: if_splits)

text \<open>
  The passes repeat until one adds nothing.  A pass that adds an id takes it
  from the lineage, which bounds their number.
\<close>

definition unrevoked :: "runtime_state \<Rightarrow> u64 set" where
  "unrevoked rt = cl_cap_id ` set (rt_cap_lineage rt) - set (rt_revoked_caps rt)"

lemma revoke_pass_cases:
  assumes "revoke_pass ls rt changed = (rt', r)"
  shows "rt' = rt\<lparr>rt_revoked_caps := rt_revoked_caps rt'\<rparr> \<and> set (rt_revoked_caps rt) \<subseteq> set (rt_revoked_caps rt') \<and>
    set (rt_revoked_caps rt') \<subseteq> set (rt_revoked_caps rt) \<union> cl_cap_id ` set ls \<and>
    (r = Inr True \<longrightarrow> changed \<or> set (rt_revoked_caps rt) \<noteq> set (rt_revoked_caps rt'))"
  using assms
proof (induction ls arbitrary: rt changed)
  case (Cons l ls)
  show ?case
  proof (cases "cl_parent_cap_id l \<noteq> 0 \<and> cap_id_revoked rt (cl_parent_cap_id l)")
    case False
    then show ?thesis
      using Cons.IH [of rt changed] Cons.prems by auto
  next
    case True
    obtain rt1 r1 where r1: "add_revoked_cap rt (cl_cap_id l) = (rt1, r1)"
      by fastforce
    note c = add_revoked_cap_cases [OF r1]
    show ?thesis
    proof (cases r1)
      case Inl
      then show ?thesis
        using Cons.prems True r1 c(3) by auto
    next
      case (Inr b)
      then have "revoke_pass ls rt1 (changed \<or> b) = (rt', r)"
        using Cons.prems True r1 by simp
      from Cons.IH [OF this] show ?thesis
        using c Inr by (cases b) auto
    qed
  qed
qed auto

function revoke_loop :: "runtime_state \<Rightarrow> runtime_state \<times> (ipc_error, unit) result" where
  "revoke_loop rt =
    (case revoke_pass (rt_cap_lineage rt) rt False of
       (rt', Inl e) \<Rightarrow> (rt', Inl e)
     | (rt', Inr True) \<Rightarrow> revoke_loop rt'
     | (rt', Inr False) \<Rightarrow> (rt', Inr ()))"
  by auto
termination
proof (relation "measure (card \<circ> unrevoked)", goal_cases)
  case (2 rt rt' r b)
  then have *: "revoke_pass (rt_cap_lineage rt) rt False = (rt', Inr True)"
    by simp
  note c = revoke_pass_cases [OF *]
  have "rt_cap_lineage rt' = rt_cap_lineage (rt\<lparr>rt_revoked_caps := rt_revoked_caps rt'\<rparr>)"
    using arg_cong [OF conjunct1 [OF c], of rt_cap_lineage] .
  then have "rt_cap_lineage rt' = rt_cap_lineage rt"
    by simp
  then show ?case
    using c by (auto simp: unrevoked_def intro!: psubset_card_mono)
qed simp

declare revoke_loop.simps [simp del]

definition mark_cap_revoked :: "runtime_state \<Rightarrow> u64 \<Rightarrow> runtime_state" where
  "mark_cap_revoked rt i =
    rt\<lparr>rt_processes := (rt_processes rt)\<lparr>pt_processes :=
      map (\<lambda>p. p\<lparr>proc_caps := cspace_mark_revoked (proc_caps p) i,
                 proc_initial_caps := cspace_mark_revoked (proc_initial_caps p) i\<rparr>)
        (pt_processes (rt_processes rt))\<rparr>\<rparr>"

definition mark_all_revoked_caps :: "runtime_state \<Rightarrow> runtime_state" where
  "mark_all_revoked_caps rt = foldl mark_cap_revoked rt (rt_revoked_caps rt)"

definition revoke_cap_id :: "runtime_state \<Rightarrow> u64 \<Rightarrow> runtime_state \<times> (ipc_error, unit) result" where
  "revoke_cap_id rt i =
    (if i = 0 then (rt, Inl BadCapability)
     else case add_revoked_cap rt i of
            (rt, Inl e) \<Rightarrow> (rt, Inl e)
          | (rt, Inr _) \<Rightarrow>
             (case revoke_loop rt of
                (rt, Inl e) \<Rightarrow> (rt, Inl e)
              | (rt, Inr _) \<Rightarrow> (mark_all_revoked_caps rt, Inr ())))"

section \<open>Parents and ancestors\<close>

definition cap_parent_id :: "runtime_state \<Rightarrow> u64 \<Rightarrow> u64 option" where
  "cap_parent_id rt i =
    first_some (\<lambda>l. if cl_cap_id l = i then Some (cl_parent_cap_id l) else None) (rt_cap_lineage rt)"

definition find_cap_parent_in_space :: "capability_space \<Rightarrow> u64 \<Rightarrow> u64 option" where
  "find_cap_parent_in_space space i =
    first_some (\<lambda>c. case c of Some cap \<Rightarrow> if cap_id cap = i then Some (cap_parent_cap_id cap) else None | None \<Rightarrow> None) space"

definition find_cap_parent :: "runtime_state \<Rightarrow> u64 \<Rightarrow> u64 option" where
  "find_cap_parent rt i =
    (case cap_parent_from_lineage rt i of
       Some parent \<Rightarrow> Some parent
     | None \<Rightarrow>
        first_some (\<lambda>p. case find_cap_parent_in_space (proc_caps p) i of
                           Some parent \<Rightarrow> Some parent
                         | None \<Rightarrow> find_cap_parent_in_space (proc_initial_caps p) i)
          (pt_processes (rt_processes rt)))"

text \<open>
  The climbs along parent ids do not end when the recorded parents form a
  cycle; \<^const>\<open>None\<close> is that case.  The lineage invariant below excludes it.
\<close>

partial_function (option) ancestor_scan :: "runtime_state \<Rightarrow> u64 \<Rightarrow> bool option" where
  "ancestor_scan rt parent =
    (if parent = 0 then Some False
     else if cap_id_revoked rt parent then Some True
     else ancestor_scan rt (case find_cap_parent rt parent of None \<Rightarrow> 0 | Some p \<Rightarrow> p))"

definition capability_has_revoked_ancestor :: "runtime_state \<Rightarrow> capability \<Rightarrow> bool option" where
  "capability_has_revoked_ancestor rt cap = ancestor_scan rt (cap_parent_cap_id cap)"

partial_function (option) cap_id_revoked_or_has_revoked_ancestor :: "runtime_state \<Rightarrow> u64 \<Rightarrow> bool option" where
  "cap_id_revoked_or_has_revoked_ancestor rt current =
    (if current = 0 then Some False
     else if cap_id_revoked rt current then Some True
     else case cap_parent_id rt current of
            None \<Rightarrow> Some False
          | Some parent \<Rightarrow> cap_id_revoked_or_has_revoked_ancestor rt parent)"

end
