(* ===== verification/Cap_Lookup.thy ===== *)
theory Cap_Lookup
  imports Runtime_State
begin

text \<open>
  Looking up a capability and the object behind it
  (\<^verbatim>\<open>ipc/object_lookup.rs\<close>), reachability of an object through live
  capabilities (\<^verbatim>\<open>ipc/inspect_report.rs\<close>), and the cancellation of
  receivers that lost their authority (\<^verbatim>\<open>ipc/scheduler.rs\<close>).
  Messages written to the serial line are left out.
\<close>

section \<open>Lookup\<close>

text \<open>A climb that does not end grants nothing; \<^verbatim>\<open>Cap_Safety\<close> shows that every climb ends.\<close>

definition has_revoked_ancestor :: "runtime_state \<Rightarrow> capability \<Rightarrow> bool" where
  "has_revoked_ancestor rt cap \<longleftrightarrow> capability_has_revoked_ancestor rt cap \<noteq> Some False"

definition lookup_capability :: "runtime_state \<Rightarrow> u64 \<Rightarrow> u64 \<Rightarrow> (ipc_error, capability) result" where
  "lookup_capability rt cap_slot required_right =
    (case current_process (rt_processes rt) of
       None \<Rightarrow> Inl BadCapability
     | Some process \<Rightarrow>
        (case cspace_lookup (proc_caps process) cap_slot of
           None \<Rightarrow> Inl BadCapability
         | Some cap \<Rightarrow>
            if cap_revoked cap \<or> cap_id_revoked rt (cap_id cap) \<or> has_revoked_ancestor rt cap \<or>
               cap_generation_id cap \<noteq> rt_generation_id rt
            then Inl BadCapability
            else if required_right \<noteq> 0 \<and> cap_rights cap AND required_right \<noteq> required_right
            then Inl BadCapability
            else Inr cap))"

definition endpoint_cap_from_slot :: "runtime_state \<Rightarrow> u64 \<Rightarrow> u64 \<Rightarrow> (ipc_error, capability) result" where
  "endpoint_cap_from_slot rt cap_slot required_right =
    (case lookup_capability rt cap_slot required_right of
       Inl e \<Rightarrow> Inl e
     | Inr cap \<Rightarrow> if get_endpoint (rt_objects rt) (cap_object cap) = None then Inl BadCapability else Inr cap)"

definition endpoint_from_cap :: "runtime_state \<Rightarrow> u64 \<Rightarrow> u64 \<Rightarrow> (ipc_error, object_id) result" where
  "endpoint_from_cap rt cap_slot required_right =
    map_sum id cap_object (endpoint_cap_from_slot rt cap_slot required_right)"

definition LOG_ENDPOINT_NAME :: string where "LOG_ENDPOINT_NAME = ''serial-log''"

definition serial_log_endpoint_from_cap :: "runtime_state \<Rightarrow> u64 \<Rightarrow> u64 \<Rightarrow> (ipc_error, ipc_endpoint) result" where
  "serial_log_endpoint_from_cap rt cap_slot required_right =
    (case lookup_capability rt cap_slot required_right of
       Inl e \<Rightarrow> Inl e
     | Inr cap \<Rightarrow>
        (case ri_endpoint_ids (rt_ids rt) ! 0 of
           None \<Rightarrow> Inl BadCapability
         | Some log_endpoint_id \<Rightarrow>
            if cap_object cap \<noteq> log_endpoint_id then Inl BadCapability
            else case get_endpoint (rt_objects rt) (cap_object cap) of
                   None \<Rightarrow> Inl BadCapability
                 | Some e \<Rightarrow> if ep_name e \<noteq> LOG_ENDPOINT_NAME then Inl BadCapability else Inr e))"

text \<open>The typed lookups differ in the object table's getter only.\<close>

definition object_from_cap :: "(object_table \<Rightarrow> object_id \<Rightarrow> 'o option) \<Rightarrow> runtime_state \<Rightarrow> u64 \<Rightarrow> u64
    \<Rightarrow> (ipc_error, 'o) result" where
  "object_from_cap getter rt cap_slot required_right =
    (case lookup_capability rt cap_slot required_right of
       Inl e \<Rightarrow> Inl e
     | Inr cap \<Rightarrow>
        (case getter (rt_objects rt) (cap_object cap) of None \<Rightarrow> Inl BadCapability | Some obj \<Rightarrow> Inr obj))"

definition boot_module_from_cap where "boot_module_from_cap = object_from_cap get_boot_module"
definition timer_from_cap where "timer_from_cap = object_from_cap get_timer"
definition network_port_from_cap where "network_port_from_cap = object_from_cap get_network_port"
definition io_port_from_cap where "io_port_from_cap = object_from_cap get_io_port"
definition mmio_region_from_cap where "mmio_region_from_cap = object_from_cap get_mmio_region"
definition framebuffer_from_cap where "framebuffer_from_cap = object_from_cap get_framebuffer"
definition interrupt_line_from_cap where "interrupt_line_from_cap = object_from_cap get_interrupt_line"
definition dma_region_from_cap where "dma_region_from_cap = object_from_cap get_dma_region"
definition virtio_device_from_cap where "virtio_device_from_cap = object_from_cap get_virtio_device"
definition namespace_from_cap where "namespace_from_cap = object_from_cap get_namespace"
definition process_control_from_cap where "process_control_from_cap = object_from_cap get_process_control"
definition secret_from_cap where "secret_from_cap = object_from_cap get_secret"

definition port_in_range :: "io_port_range_object \<Rightarrow> u64 \<Rightarrow> bool" where
  "port_in_range r port \<longleftrightarrow> io_base r \<le> port \<and> port - io_base r < io_length r"

definition port_span_in_range :: "io_port_range_object \<Rightarrow> u64 \<Rightarrow> u64 \<Rightarrow> bool" where
  "port_span_in_range r port width \<longleftrightarrow>
    (if width = 0 then False
     else case checked_add port (width - 1) of
            None \<Rightarrow> False
          | Some last_port \<Rightarrow>
             if 0xffff < last_port then False else port_in_range r port \<and> port_in_range r last_port)"

section \<open>Reachability through capabilities\<close>

definition cap_space_reaches_live_object :: "runtime_state \<Rightarrow> capability_space \<Rightarrow> object_id \<Rightarrow> bool" where
  "cap_space_reaches_live_object rt space object_id \<longleftrightarrow>
    list_ex (\<lambda>c. case c of
        Some cap \<Rightarrow> cap_object cap = object_id \<and> \<not> cap_revoked cap \<and> \<not> cap_id_revoked rt (cap_id cap) \<and>
          \<not> has_revoked_ancestor rt cap \<and> cap_generation_id cap = rt_generation_id rt
      | None \<Rightarrow> False) space"

definition object_reachable_by_cap :: "runtime_state \<Rightarrow> object_id \<Rightarrow> bool" where
  "object_reachable_by_cap rt object_id \<longleftrightarrow>
    list_ex (\<lambda>p. proc_state p \<noteq> PEmpty \<and>
        (proc_state p \<noteq> Exited \<and> cap_space_reaches_live_object rt (proc_caps p) object_id \<or>
         cap_space_reaches_live_object rt (proc_initial_caps p) object_id))
      (pt_processes (rt_processes rt))"

section \<open>Receivers without authority\<close>

definition process_has_live_endpoint_cap :: "runtime_state \<Rightarrow> process \<Rightarrow> object_id \<Rightarrow> u64 \<Rightarrow> u64 \<Rightarrow> bool" where
  "process_has_live_endpoint_cap rt process endpoint i required_right \<longleftrightarrow>
    get_endpoint (rt_objects rt) endpoint \<noteq> None \<and>
    list_ex (\<lambda>c. case c of
        Some cap \<Rightarrow> cap_id cap = i \<and> cap_object cap = endpoint \<and> \<not> cap_revoked cap \<and>
          \<not> cap_id_revoked rt (cap_id cap) \<and> \<not> has_revoked_ancestor rt cap \<and>
          cap_generation_id cap = rt_generation_id rt \<and> cap_rights cap AND required_right = required_right
      | None \<Rightarrow> False) (proc_caps process)"

definition cancel_blocked_endpoint_waiter_at :: "runtime_state \<Rightarrow> nat \<Rightarrow> u64 \<Rightarrow> runtime_state \<times> bool" where
  "cancel_blocked_endpoint_waiter_at rt index status =
    (case proc_state (pt_processes (rt_processes rt) ! index) of
       BlockedOnEndpoint _ _ _ _ _ \<Rightarrow>
        (rt\<lparr>rt_processes := update_process (rt_processes rt) index
             (\<lambda>p. p\<lparr>proc_saved_frame := (proc_saved_frame p)\<lparr>fr_rax := status\<rparr>, proc_state := Ready\<rparr>)\<rparr>, True)
     | _ \<Rightarrow> (rt, False))"

text \<open>The scan over the process table, with the condition under which a waiter is cancelled.\<close>

definition cancel_waiters :: "(runtime_state \<Rightarrow> process \<Rightarrow> bool) \<Rightarrow> u64 \<Rightarrow> runtime_state \<Rightarrow> runtime_state \<times> nat" where
  "cancel_waiters should_cancel status rt =
    foldl (\<lambda>(rt, canceled) index.
        if should_cancel rt (pt_processes (rt_processes rt) ! index)
        then case cancel_blocked_endpoint_waiter_at rt index status of
               (rt, True) \<Rightarrow> (rt, canceled + 1)
             | (rt, False) \<Rightarrow> (rt, canceled)
        else (rt, canceled))
      (rt, 0) [0 ..< length (pt_processes (rt_processes rt))]"

definition cancel_unauthorized_blocked_receivers :: "u64 \<Rightarrow> runtime_state \<Rightarrow> runtime_state \<times> nat" where
  "cancel_unauthorized_blocked_receivers status rt =
    cancel_waiters (\<lambda>rt p. case proc_state p of
        BlockedOnEndpoint endpoint i _ _ _ \<Rightarrow> \<not> process_has_live_endpoint_cap rt p endpoint i RIGHT_RECEIVE
      | _ \<Rightarrow> False) status rt"

definition cancel_blocked_receivers_for_endpoint_owner :: "process_id \<Rightarrow> u64 \<Rightarrow> runtime_state \<Rightarrow> runtime_state \<times> nat" where
  "cancel_blocked_receivers_for_endpoint_owner own status rt =
    cancel_waiters (\<lambda>rt p. case proc_state p of
        BlockedOnEndpoint endpoint _ _ _ _ \<Rightarrow>
          (case get_endpoint (rt_objects rt) endpoint of Some e \<Rightarrow> ep_owner e = own | None \<Rightarrow> True)
      | _ \<Rightarrow> False) status rt"

end
