(* ===== verification/Cap_Syscalls.thy ===== *)
theory Cap_Syscalls
  imports Cap_Lookup
begin

text \<open>
  The capability system calls (\<^verbatim>\<open>ipc/capability_syscalls.rs\<close>): derive,
  copy, move, drop, transfer, revoke and inspect, each with the state it
  leaves behind on every path.
\<close>

section \<open>Derived VFS roots\<close>

definition release_unreferenced_derived_vfs_root :: "runtime_state \<Rightarrow> object_id \<Rightarrow> runtime_state" where
  "release_unreferenced_derived_vfs_root rt object =
    (if object_reachable_by_cap rt object then rt
     else rt\<lparr>rt_objects := fst (remove_derived_vfs_root (rt_objects rt) object)\<rparr>)"

definition derived_root_at :: "object_table \<Rightarrow> nat \<Rightarrow> object_id option" where
  "derived_root_at t index =
    (case ot_objects t ! index of Some (VfsRoot r) \<Rightarrow> if vr_derived r then Some (vr_id r) else None | _ \<Rightarrow> None)"

lemma occupied_dropWhile: "occupied (dropWhile (\<lambda>x. x = None) xs) = occupied xs"
  by (induction xs) (simp_all add: occupied_def)

lemma occupied_rev: "occupied (rev xs) = occupied xs"
  by (simp add: occupied_def flip: rev_filter)

lemma remove_derived_vfs_root_shrinks:
  assumes "remove_derived_vfs_root t i = (t', True)"
  shows "occupied (ot_objects t') < occupied (ot_objects t)" "length (ot_objects t') \<le> length (ot_objects t)"
proof -
  obtain j where j: "j < length (ot_objects t)" "ot_objects t ! j \<noteq> None" "t' = clear_slot t j"
    using assms
    by (auto simp: remove_derived_vfs_root_def split: option.splits simp: first_index_Some)
  then have "occupied (ot_objects t') = occupied ((ot_objects t)[j := None])"
    by (simp add: clear_slot_def trim_empty_tail_def occupied_rev occupied_dropWhile)
  then show "occupied (ot_objects t') < occupied (ot_objects t)"
    using occupied_clear [OF j(1)] j(2) by fastforce
  show "length (ot_objects t') \<le> length (ot_objects t)"
    using length_dropWhile_le [of "\<lambda>x. x = None" "rev ((ot_objects t)[j := None])"]
    by (simp add: j(3) clear_slot_def trim_empty_tail_def)
qed

lemma remove_derived_vfs_root_measure:
  "(t', True) = remove_derived_vfs_root t i \<Longrightarrow> index < length (ot_objects t) \<Longrightarrow>
    occupied (ot_objects t') + (length (ot_objects t') - index) < occupied (ot_objects t) + length (ot_objects t) - index"
  using remove_derived_vfs_root_shrinks [of t i t'] by simp

function release_roots_from :: "nat \<Rightarrow> runtime_state \<Rightarrow> runtime_state" where
  "release_roots_from index rt =
    (if index < length (ot_objects (rt_objects rt))
     then case derived_root_at (rt_objects rt) index of
            Some object \<Rightarrow>
              if \<not> object_reachable_by_cap rt object
              then case remove_derived_vfs_root (rt_objects rt) object of
                     (t, True) \<Rightarrow> release_roots_from index (rt\<lparr>rt_objects := t\<rparr>)
                   | (t, False) \<Rightarrow> release_roots_from (Suc index) rt
              else release_roots_from (Suc index) rt
          | None \<Rightarrow> release_roots_from (Suc index) rt
     else rt)"
  by auto
termination
  by (relation "measure (\<lambda>(index, rt). occupied (ot_objects (rt_objects rt)) + (length (ot_objects (rt_objects rt)) - index))")
    (auto intro: remove_derived_vfs_root_measure)

declare release_roots_from.simps [simp del]

definition release_unreferenced_derived_vfs_roots :: "runtime_state \<Rightarrow> runtime_state" where
  "release_unreferenced_derived_vfs_roots rt = release_roots_from 0 rt"

section \<open>System calls\<close>

text \<open>The common end of derive, copy and transfer: a new capability in a free slot of one space.\<close>

definition grant_current :: "runtime_state \<Rightarrow> u64 \<Rightarrow> capability \<Rightarrow> runtime_state \<times> (ipc_error, unit) result" where
  "grant_current rt slot cap =
    (case current_process_mut (rt_processes rt) of
       None \<Rightarrow> (rt, Inl BadCapability)
     | Some i \<Rightarrow>
        (case cspace_grant (proc_caps (pt_processes (rt_processes rt) ! i)) slot cap of
           (cs, Inl _) \<Rightarrow> (rt, Inl BadCapability)
         | (cs, Inr _) \<Rightarrow>
            (rt\<lparr>rt_processes := update_process (rt_processes rt) i (\<lambda>p. p\<lparr>proc_caps := cs\<rparr>)\<rparr>, Inr ())))"

definition cap_derive :: "runtime_state \<Rightarrow> u64 \<Rightarrow> u64 \<Rightarrow> u64 \<Rightarrow> runtime_state \<times> (ipc_error, unit) result" where
  "cap_derive rt parent_slot new_slot rights_mask =
    (case lookup_capability rt parent_slot 0 of
       Inl e \<Rightarrow> (rt, Inl e)
     | Inr parent \<Rightarrow>
        if rights_mask = 0 \<or> rights_mask AND NOT (cap_rights parent) \<noteq> 0 then (rt, Inl BadCapability)
        else case current_process (rt_processes rt) of
               None \<Rightarrow> (rt, Inl BadCapability)
             | Some process \<Rightarrow>
                if \<not> cspace_can_grant (proc_caps process) new_slot then (rt, Inl BadCapability)
                else case new_capability rt (cap_object parent) rights_mask (proc_pid process) (cap_id parent)
                            (proc_pid process) of
                       (rt, Inl e) \<Rightarrow> (rt, Inl e)
                     | (rt, Inr cap) \<Rightarrow> grant_current rt new_slot cap)"

definition cap_copy :: "runtime_state \<Rightarrow> u64 \<Rightarrow> u64 \<Rightarrow> u64 \<Rightarrow> runtime_state \<times> (ipc_error, unit) result" where
  "cap_copy rt source_slot target_slot rights_mask =
    (case lookup_capability rt source_slot 0 of
       Inl e \<Rightarrow> (rt, Inl e)
     | Inr source \<Rightarrow>
        if rights_mask = 0 \<or> rights_mask AND NOT (cap_rights source) \<noteq> 0 then (rt, Inl BadCapability)
        else case current_process (rt_processes rt) of
               None \<Rightarrow> (rt, Inl BadCapability)
             | Some process \<Rightarrow>
                if \<not> cspace_can_grant (proc_caps process) target_slot then (rt, Inl BadCapability)
                else case new_capability rt (cap_object source) rights_mask (proc_pid process) (cap_id source)
                            (proc_pid process) of
                       (rt, Inl e) \<Rightarrow> (rt, Inl e)
                     | (rt, Inr copied) \<Rightarrow> grant_current rt target_slot copied)"

definition cap_drop :: "runtime_state \<Rightarrow> u64 \<Rightarrow> runtime_state \<times> (ipc_error, unit) result" where
  "cap_drop rt slot =
    (case current_process_mut (rt_processes rt) of
       None \<Rightarrow> (rt, Inl BadCapability)
     | Some i \<Rightarrow>
        (case cspace_clear (proc_caps (pt_processes (rt_processes rt) ! i)) slot of
           (cs, Inl e) \<Rightarrow> (rt, Inl e)
         | (cs, Inr dropped) \<Rightarrow>
            (release_unreferenced_derived_vfs_root
               (rt\<lparr>rt_processes := update_process (rt_processes rt) i (\<lambda>p. p\<lparr>proc_caps := cs\<rparr>)\<rparr>)
               (cap_object dropped), Inr ())))"

definition cap_move :: "runtime_state \<Rightarrow> u64 \<Rightarrow> u64 \<Rightarrow> runtime_state \<times> (ipc_error, unit) result" where
  "cap_move rt source_slot target_slot =
    (case current_process_mut (rt_processes rt) of
       None \<Rightarrow> (rt, Inl BadCapability)
     | Some i \<Rightarrow>
        let caps = proc_caps (pt_processes (rt_processes rt) ! i)
        in if \<not> cspace_can_grant caps target_slot then (rt, Inl BadCapability)
           else case cspace_clear caps source_slot of
                  (cs, Inl e) \<Rightarrow> (rt, Inl e)
                | (cs, Inr cap) \<Rightarrow>
                   (case cspace_grant cs target_slot cap of
                      (cs, r) \<Rightarrow>
                        (rt\<lparr>rt_processes := update_process (rt_processes rt) i (\<lambda>p. p\<lparr>proc_caps := cs\<rparr>)\<rparr>,
                         map_sum (\<lambda>_. BadCapability) id r)))"

definition cap_revoke :: "runtime_state \<Rightarrow> u64 \<Rightarrow> runtime_state \<times> (ipc_error, unit) result" where
  "cap_revoke rt slot =
    (case lookup_capability rt slot 0 of
       Inl e \<Rightarrow> (rt, Inl e)
     | Inr cap \<Rightarrow>
        (case revoke_cap_id rt (cap_id cap) of
           (rt, Inl e) \<Rightarrow> (rt, Inl e)
         | (rt, Inr _) \<Rightarrow>
            (fst (cancel_unauthorized_blocked_receivers STATUS_BAD_CAPABILITY
               (release_unreferenced_derived_vfs_roots rt)), Inr ())))"

definition cap_inspect :: "runtime_state \<Rightarrow> u64 \<Rightarrow> (ipc_error, u64) result" where
  "cap_inspect rt slot = map_sum id cap_parent_cap_id (lookup_capability rt slot 0)"

text \<open>Both spaces of the target are computed before either is stored.\<close>

definition transfer_into :: "runtime_state \<Rightarrow> nat \<Rightarrow> u64 \<Rightarrow> capability \<Rightarrow> bool \<Rightarrow> runtime_state \<times> (ipc_error, unit) result" where
  "transfer_into rt i slot cap persist =
    (let p = pt_processes (rt_processes rt) ! i
     in case cspace_grant (proc_caps p) slot cap of
          (_, Inl _) \<Rightarrow> (rt, Inl BadCapability)
        | (caps, Inr _) \<Rightarrow>
           if persist
           then case cspace_grant (proc_initial_caps p) slot cap of
                  (_, Inl _) \<Rightarrow> (rt, Inl BadCapability)
                | (initial_caps, Inr _) \<Rightarrow>
                   (rt\<lparr>rt_processes := update_process (rt_processes rt) i
                        (\<lambda>p. p\<lparr>proc_caps := caps, proc_initial_caps := initial_caps\<rparr>)\<rparr>, Inr ())
           else (rt\<lparr>rt_processes := update_process (rt_processes rt) i (\<lambda>p. p\<lparr>proc_caps := caps\<rparr>)\<rparr>, Inr ()))"

definition cap_transfer :: "runtime_state \<Rightarrow> u64 \<Rightarrow> u64 \<Rightarrow> u64 \<Rightarrow> runtime_state \<times> (ipc_error, unit) result" where
  "cap_transfer rt control_slot target_pid packed_transfer =
    (case process_control_from_cap rt control_slot RIGHT_DELEGATE of
       Inl e \<Rightarrow> (rt, Inl e)
     | Inr _ \<Rightarrow>
        let cap_slot = packed_transfer AND 0xffff;
            target_slot = drop_bit 16 packed_transfer AND 0xffff;
            rights_mask = drop_bit 32 packed_transfer
        in case lookup_capability rt cap_slot 0 of
             Inl e \<Rightarrow> (rt, Inl e)
           | Inr cap \<Rightarrow>
              if rights_mask = 0 \<or> rights_mask AND NOT (cap_rights cap) \<noteq> 0 then (rt, Inl BadCapability)
              else case current_process (rt_processes rt) of
                     None \<Rightarrow> (rt, Inl BadCapability)
                   | Some caller \<Rightarrow>
                      (case process_of (rt_processes rt) target_pid of
                         None \<Rightarrow> (rt, Inl BadCapability)
                       | Some target \<Rightarrow>
                          if \<not> cspace_can_grant (proc_caps target) target_slot then (rt, Inl BadCapability)
                          else if proc_state target = Declared \<and> \<not> cspace_can_grant (proc_initial_caps target) target_slot
                          then (rt, Inl BadCapability)
                          else let persist = (proc_state target = Declared)
                               in case new_capability rt (cap_object cap) rights_mask target_pid (cap_id cap)
                                         (proc_pid caller) of
                                    (rt, Inl e) \<Rightarrow> (rt, Inl e)
                                  | (rt, Inr transferred) \<Rightarrow>
                                     (case process_mut (rt_processes rt) target_pid of
                                        None \<Rightarrow> (rt, Inl BadCapability)
                                      | Some i \<Rightarrow> transfer_into rt i target_slot transferred persist)))"

end
