(* ===== verification/Cap_Safety.thy ===== *)
theory Cap_Safety
  imports Cap_Syscalls "HOL-Library.Transitive_Closure_Table"
begin

text \<open>
  The capability discipline: an invariant of identities, lineage and
  revocation, the end of every climb along parents, the exact effect of a
  revocation, and what a sequence of capability calls can and cannot do to
  the authority held in the system.
\<close>

section \<open>Held capabilities and descent\<close>

definition spaces :: "runtime_state \<Rightarrow> capability_space list" where
  "spaces rt = concat (map (\<lambda>p. [proc_caps p, proc_initial_caps p]) (pt_processes (rt_processes rt)))"

definition held :: "runtime_state \<Rightarrow> capability set" where
  "held rt = {cap. \<exists>s \<in> set (spaces rt). Some cap \<in> set s}"

definition parent_of :: "runtime_state \<Rightarrow> u64 \<Rightarrow> u64 \<Rightarrow> bool" where
  "parent_of rt i j \<longleftrightarrow> j \<noteq> 0 \<and> \<lparr>cl_cap_id = i, cl_parent_cap_id = j\<rparr> \<in> set (rt_cap_lineage rt)"

abbreviation descends :: "runtime_state \<Rightarrow> u64 \<Rightarrow> u64 \<Rightarrow> bool" where
  "descends rt \<equiv> (parent_of rt)\<^sup>*\<^sup>*"

definition lineage_ok :: "u64 \<Rightarrow> capability_lineage list \<Rightarrow> bool" where
  "lineage_ok limit ls \<longleftrightarrow> distinct (map cl_cap_id ls) \<and> length ls \<le> MAX_CAP_LINEAGE \<and>
    (\<forall>l \<in> set ls. unat (cl_parent_cap_id l) < unat (cl_cap_id l) \<and> unat (cl_cap_id l) < unat limit)"

definition cap_inv :: "runtime_state \<Rightarrow> bool" where
  "cap_inv rt \<longleftrightarrow>
    rt_next_cap_id rt \<noteq> 0 \<and> lineage_ok (rt_next_cap_id rt) (rt_cap_lineage rt) \<and>
    distinct (rt_revoked_caps rt) \<and> set (rt_revoked_caps rt) \<subseteq> cl_cap_id ` set (rt_cap_lineage rt) \<and>
    (\<forall>i j. parent_of rt i j \<longrightarrow> j \<in> set (rt_revoked_caps rt) \<longrightarrow> i \<in> set (rt_revoked_caps rt)) \<and>
    (\<forall>cap \<in> held rt. \<lparr>cl_cap_id = cap_id cap, cl_parent_cap_id = cap_parent_cap_id cap\<rparr> \<in> set (rt_cap_lineage rt) \<and>
      (cap_revoked cap \<longleftrightarrow> cap_id cap \<in> set (rt_revoked_caps rt))) \<and>
    (\<forall>c \<in> held rt. \<forall>d \<in> held rt. cap_id c = cap_id d \<longrightarrow> c = d)"

lemma cap_invD:
  assumes "cap_inv rt"
  shows "rt_next_cap_id rt \<noteq> 0" "lineage_ok (rt_next_cap_id rt) (rt_cap_lineage rt)" "distinct (rt_revoked_caps rt)"
    "set (rt_revoked_caps rt) \<subseteq> cl_cap_id ` set (rt_cap_lineage rt)"
    "\<And>i j. parent_of rt i j \<Longrightarrow> j \<in> set (rt_revoked_caps rt) \<Longrightarrow> i \<in> set (rt_revoked_caps rt)"
    "\<And>cap. cap \<in> held rt \<Longrightarrow> \<lparr>cl_cap_id = cap_id cap, cl_parent_cap_id = cap_parent_cap_id cap\<rparr> \<in> set (rt_cap_lineage rt)"
    "\<And>cap. cap \<in> held rt \<Longrightarrow> cap_revoked cap \<longleftrightarrow> cap_id cap \<in> set (rt_revoked_caps rt)"
    "\<And>c d. c \<in> held rt \<Longrightarrow> d \<in> held rt \<Longrightarrow> cap_id c = cap_id d \<Longrightarrow> c = d"
  using assms unfolding cap_inv_def by blast+

lemma cap_invI:
  assumes "rt_next_cap_id rt \<noteq> 0" "lineage_ok (rt_next_cap_id rt) (rt_cap_lineage rt)" "distinct (rt_revoked_caps rt)"
    "set (rt_revoked_caps rt) \<subseteq> cl_cap_id ` set (rt_cap_lineage rt)"
    "\<And>i j. parent_of rt i j \<Longrightarrow> j \<in> set (rt_revoked_caps rt) \<Longrightarrow> i \<in> set (rt_revoked_caps rt)"
    "\<And>cap. cap \<in> held rt \<Longrightarrow> \<lparr>cl_cap_id = cap_id cap, cl_parent_cap_id = cap_parent_cap_id cap\<rparr> \<in> set (rt_cap_lineage rt)"
    "\<And>cap. cap \<in> held rt \<Longrightarrow> cap_revoked cap \<longleftrightarrow> cap_id cap \<in> set (rt_revoked_caps rt)"
    "\<And>c d. c \<in> held rt \<Longrightarrow> d \<in> held rt \<Longrightarrow> cap_id c = cap_id d \<Longrightarrow> c = d"
  shows "cap_inv rt"
  unfolding cap_inv_def using assms by blast

lemma cap_id_revoked_iff: "cap_id_revoked rt i \<longleftrightarrow> i \<in> set (rt_revoked_caps rt)"
  by (simp add: cap_id_revoked_def list_ex_iff)

lemma lineage_eta [simp]: "\<lparr>cl_cap_id = cl_cap_id l, cl_parent_cap_id = cl_parent_cap_id l\<rparr> = (l :: capability_lineage)"
  by simp

lemma lineage_parent:
  assumes "lineage_ok limit (rt_cap_lineage rt)"
  shows "cap_parent_from_lineage rt i = Some j \<longleftrightarrow> \<lparr>cl_cap_id = i, cl_parent_cap_id = j\<rparr> \<in> set (rt_cap_lineage rt)"
proof
  assume "cap_parent_from_lineage rt i = Some j"
  then obtain l where "l \<in> set (rt_cap_lineage rt)" "cl_cap_id l = i" "cl_parent_cap_id l = j"
    by (auto simp: cap_parent_from_lineage_def dest!: first_some_SomeD split: if_splits)
  then show "\<lparr>cl_cap_id = i, cl_parent_cap_id = j\<rparr> \<in> set (rt_cap_lineage rt)"
    by (metis lineage_eta)
next
  assume l: "\<lparr>cl_cap_id = i, cl_parent_cap_id = j\<rparr> \<in> set (rt_cap_lineage rt)"
  have "inj_on cl_cap_id (set (rt_cap_lineage rt))"
    using assms by (simp add: lineage_ok_def distinct_map)
  then have "cl_parent_cap_id l' = j" if "l' \<in> set (rt_cap_lineage rt)" "cl_cap_id l' = i" for l'
    using inj_onD [of cl_cap_id, OF _ _ that(1) l] that(2) by simp
  then show "cap_parent_from_lineage rt i = Some j"
    unfolding cap_parent_from_lineage_def by (intro first_some_unique [OF l]) (simp_all split: if_splits)
qed

section \<open>Climbs end\<close>

lemma parent_of_less:
  "cap_inv rt \<Longrightarrow> parent_of rt i j \<Longrightarrow> unat j < unat i"
  using cap_invD(2) [of rt] by (force simp: parent_of_def lineage_ok_def)

lemma find_cap_parent_eq:
  assumes "cap_inv rt"
  shows "find_cap_parent rt i = cap_parent_from_lineage rt i"
proof (cases "cap_parent_from_lineage rt i")
  case None
  have "find_cap_parent_in_space s i = None" if "s \<in> set (spaces rt)" for s
  proof -
    have "cap_id cap \<noteq> i" if "Some cap \<in> set s" for cap
    proof
      assume "cap_id cap = i"
      then have "\<lparr>cl_cap_id = i, cl_parent_cap_id = cap_parent_cap_id cap\<rparr> \<in> set (rt_cap_lineage rt)"
        using cap_invD(6) [OF assms, of cap] \<open>Some cap \<in> set s\<close> \<open>s \<in> set (spaces rt)\<close> by (auto simp: held_def)
      then show False
        using lineage_parent [OF cap_invD(2) [OF assms], of i "cap_parent_cap_id cap"] None by simp
    qed
    then show ?thesis
      by (auto simp: find_cap_parent_in_space_def first_some_None split: option.split)
  qed
  then show ?thesis
    using None by (auto simp: find_cap_parent_def first_some_None spaces_def split: option.split)
qed (simp add: find_cap_parent_def)

text \<open>The climb answers whether an id on the way to the root is revoked.\<close>

lemma ancestor_scan_eq:
  assumes "cap_inv rt"
  shows "ancestor_scan rt i = Some (\<exists>j. i \<noteq> 0 \<and> descends rt i j \<and> j \<in> set (rt_revoked_caps rt))"
proof (induction "unat i" arbitrary: i rule: less_induct)
  case less
  show ?case
  proof (cases "i = 0 \<or> i \<in> set (rt_revoked_caps rt)")
    case True
    then show ?thesis
      by (auto simp: ancestor_scan.simps [of rt i] cap_id_revoked_iff)
  next
    case False
    define p where "p = (case cap_parent_from_lineage rt i of None \<Rightarrow> 0 | Some p \<Rightarrow> p)"
    have step: "ancestor_scan rt i = ancestor_scan rt p"
      using False by (simp add: ancestor_scan.simps [of rt i] cap_id_revoked_iff find_cap_parent_eq [OF assms] p_def)
    have par: "parent_of rt i j \<longleftrightarrow> j = p \<and> p \<noteq> 0" for j
      unfolding parent_of_def lineage_parent [OF cap_invD(2) [OF assms], symmetric] p_def by (auto split: option.splits)
    have "descends rt i j \<longleftrightarrow> j = i \<or> p \<noteq> 0 \<and> descends rt p j" for j
      using par by (auto elim: converse_rtranclpE intro: converse_rtranclp_into_rtranclp)
    then have "(\<exists>j. descends rt i j \<and> j \<in> set (rt_revoked_caps rt)) \<longleftrightarrow>
      (\<exists>j. p \<noteq> 0 \<and> descends rt p j \<and> j \<in> set (rt_revoked_caps rt))"
      using False by auto
    moreover have "ancestor_scan rt p = Some (\<exists>j. p \<noteq> 0 \<and> descends rt p j \<and> j \<in> set (rt_revoked_caps rt))"
    proof (cases "p = 0")
      case True
      then show ?thesis
        by (simp add: ancestor_scan.simps [of rt 0])
    next
      case nz: False
      then have "unat p < unat i"
        using par parent_of_less [OF assms] by blast
      from less [OF this] show ?thesis .
    qed
    ultimately show ?thesis
      using False step by simp
  qed
qed

lemma revoked_down:
  assumes "cap_inv rt" "descends rt i j" "j \<in> set (rt_revoked_caps rt)"
  shows "i \<in> set (rt_revoked_caps rt)"
  using assms(2,3) by (induction rule: converse_rtranclp_induct) (auto intro: cap_invD(5) [OF assms(1)])

lemma has_revoked_ancestor_held:
  assumes "cap_inv rt" "cap \<in> held rt" "cap_id cap \<notin> set (rt_revoked_caps rt)"
  shows "\<not> has_revoked_ancestor rt cap"
proof -
  have "parent_of rt (cap_id cap) (cap_parent_cap_id cap)" if "cap_parent_cap_id cap \<noteq> 0"
    using that cap_invD(6) [OF assms(1,2)] by (simp add: parent_of_def)
  then have "\<not> (\<exists>j. cap_parent_cap_id cap \<noteq> 0 \<and> descends rt (cap_parent_cap_id cap) j \<and> j \<in> set (rt_revoked_caps rt))"
    using assms(3) revoked_down [OF assms(1), of "cap_id cap"] by (blast intro: converse_rtranclp_into_rtranclp)
  then show ?thesis
    by (simp add: has_revoked_ancestor_def capability_has_revoked_ancestor_def ancestor_scan_eq [OF assms(1)])
qed

section \<open>Revocation\<close>

definition revocation_ok :: "runtime_state \<Rightarrow> bool" where
  "revocation_ok rt \<longleftrightarrow> (\<exists>limit. lineage_ok limit (rt_cap_lineage rt)) \<and> distinct (rt_revoked_caps rt) \<and>
    set (rt_revoked_caps rt) \<subseteq> cl_cap_id ` set (rt_cap_lineage rt)"

definition descendants :: "runtime_state \<Rightarrow> u64 set \<Rightarrow> u64 set" where
  "descendants rt R = {i. \<exists>j \<in> R. descends rt i j}"

lemma parent_of_cong: "rt_cap_lineage rt' = rt_cap_lineage rt \<Longrightarrow> parent_of rt' = parent_of rt"
  by (simp add: parent_of_def fun_eq_iff)

lemma descendants_cong: "rt_cap_lineage rt' = rt_cap_lineage rt \<Longrightarrow> descendants rt' = descendants rt"
  using parent_of_cong [of rt' rt] by (simp add: descendants_def [abs_def])

lemma descendants_refl: "R \<subseteq> descendants rt R"
  by (auto simp: descendants_def)

lemma descendants_mono: "R \<subseteq> S \<Longrightarrow> descendants rt R \<subseteq> descendants rt S"
  by (auto simp: descendants_def)

lemma descendants_closed: "parent_of rt i j \<Longrightarrow> j \<in> descendants rt R \<Longrightarrow> i \<in> descendants rt R"
  by (auto simp: descendants_def intro: converse_rtranclp_into_rtranclp)

lemma descendants_least:
  assumes "R \<subseteq> S" "\<And>i j. parent_of rt i j \<Longrightarrow> j \<in> S \<Longrightarrow> i \<in> S"
  shows "descendants rt R \<subseteq> S"
proof -
  have "i \<in> S" if "descends rt i j" "j \<in> S" for i j
    using that by (induction rule: converse_rtranclp_induct) (auto intro: assms(2))
  then show ?thesis
    using assms(1) by (auto simp: descendants_def)
qed

text \<open>The list has room for every recorded id, so adding one never fails.\<close>

lemma revoked_room:
  assumes "revocation_ok rt" "i \<in> cl_cap_id ` set (rt_cap_lineage rt)" "i \<notin> set (rt_revoked_caps rt)"
  shows "length (rt_revoked_caps rt) < MAX_REVOKED_CAPS"
proof -
  have "set (i # rt_revoked_caps rt) \<subseteq> cl_cap_id ` set (rt_cap_lineage rt)" "distinct (i # rt_revoked_caps rt)"
    using assms by (simp_all add: revocation_ok_def)
  then have "length (i # rt_revoked_caps rt) \<le> card (cl_cap_id ` set (rt_cap_lineage rt))"
    by (metis card_mono distinct_card finite_imageI finite_set)
  also have "\<dots> \<le> length (rt_cap_lineage rt)"
    by (metis card_image_le card_length finite_set order.trans)
  also have "\<dots> \<le> MAX_REVOKED_CAPS"
    using assms(1) by (auto simp: revocation_ok_def lineage_ok_def MAX_REVOKED_CAPS_def)
  finally show ?thesis
    by simp
qed

lemma add_revoked_cap_ok:
  assumes "revocation_ok rt" "i \<in> cl_cap_id ` set (rt_cap_lineage rt)"
  shows "\<exists>R. add_revoked_cap rt i = (rt\<lparr>rt_revoked_caps := R\<rparr>, Inr (i \<notin> set (rt_revoked_caps rt))) \<and>
    set R = insert i (set (rt_revoked_caps rt)) \<and> revocation_ok (rt\<lparr>rt_revoked_caps := R\<rparr>)"
proof (cases "i \<in> set (rt_revoked_caps rt)")
  case True
  then show ?thesis
    using assms by (intro exI [of _ "rt_revoked_caps rt"]) (auto simp: add_revoked_cap_def cap_id_revoked_iff)
next
  case False
  have "i \<noteq> 0"
    using assms by (auto simp: revocation_ok_def lineage_ok_def)
  then show ?thesis
    using assms False revoked_room [OF assms False]
    by (intro exI [of _ "rt_revoked_caps rt @ [i]"]) (auto simp: add_revoked_cap_def cap_id_revoked_iff revocation_ok_def)
qed

definition pass_result :: "runtime_state \<Rightarrow> capability_lineage list \<Rightarrow> bool \<Rightarrow> u64 list \<Rightarrow> bool \<Rightarrow> bool" where
  "pass_result rt ls changed R b \<longleftrightarrow>
    revocation_ok (rt\<lparr>rt_revoked_caps := R\<rparr>) \<and> set (rt_revoked_caps rt) \<subseteq> set R \<and>
    set R \<subseteq> descendants rt (set (rt_revoked_caps rt)) \<and> (changed \<longrightarrow> b) \<and>
    (\<not> b \<longrightarrow> R = rt_revoked_caps rt \<and>
      (\<forall>l \<in> set ls. cl_parent_cap_id l \<noteq> 0 \<longrightarrow> cl_parent_cap_id l \<in> set R \<longrightarrow> cl_cap_id l \<in> set R))"

lemma pass_result_add:
  assumes par: "parent_of rt (cl_cap_id l) (cl_parent_cap_id l)" "cl_parent_cap_id l \<in> set (rt_revoked_caps rt)"
    and R1: "set R1 = insert (cl_cap_id l) (set (rt_revoked_caps rt))"
      "cl_cap_id l \<in> set (rt_revoked_caps rt) \<Longrightarrow> R1 = rt_revoked_caps rt"
    and R: "pass_result (rt\<lparr>rt_revoked_caps := R1\<rparr>) ls (changed \<or> cl_cap_id l \<notin> set (rt_revoked_caps rt)) R b"
  shows "pass_result rt (l # ls) changed R b"
proof -
  have "cl_cap_id l \<in> descendants rt (set (rt_revoked_caps rt))"
    using descendants_closed [OF par(1)] descendants_refl par(2) by blast
  then have "descendants rt (set R1) \<subseteq> descendants rt (set (rt_revoked_caps rt))"
    using R1(1) descendants_refl [of "set (rt_revoked_caps rt)" rt]
    by (intro descendants_least) (auto intro: descendants_closed)
  moreover have "descendants (rt\<lparr>rt_revoked_caps := R1\<rparr>) = descendants rt"
    by (rule descendants_cong) simp
  ultimately show ?thesis
    using R R1 by (auto simp: pass_result_def)
qed

lemma revoke_pass_spec:
  assumes "revocation_ok rt" "set ls \<subseteq> set (rt_cap_lineage rt)"
  shows "\<exists>R b. revoke_pass ls rt changed = (rt\<lparr>rt_revoked_caps := R\<rparr>, Inr b) \<and> pass_result rt ls changed R b"
  using assms
proof (induction ls arbitrary: rt changed)
  case Nil
  then show ?case
    by (intro exI [of _ "rt_revoked_caps rt"] exI [of _ changed]) (simp add: pass_result_def descendants_refl)
next
  case (Cons l ls)
  have ls: "set ls \<subseteq> set (rt_cap_lineage rt)" and l: "l \<in> set (rt_cap_lineage rt)"
    using Cons.prems(2) by simp_all
  show ?case
  proof (cases "cl_parent_cap_id l \<noteq> 0 \<and> cl_parent_cap_id l \<in> set (rt_revoked_caps rt)")
    case False
    obtain R b where "revoke_pass ls rt changed = (rt\<lparr>rt_revoked_caps := R\<rparr>, Inr b)" "pass_result rt ls changed R b"
      using Cons.IH [OF Cons.prems(1) ls] by blast
    then show ?thesis
      using False by (intro exI [of _ R] exI [of _ b]) (auto simp: cap_id_revoked_iff pass_result_def)
  next
    case True
    let ?i = "cl_cap_id l"
    obtain R1 where R1: "add_revoked_cap rt ?i = (rt\<lparr>rt_revoked_caps := R1\<rparr>, Inr (?i \<notin> set (rt_revoked_caps rt)))"
      "set R1 = insert ?i (set (rt_revoked_caps rt))" "revocation_ok (rt\<lparr>rt_revoked_caps := R1\<rparr>)"
      using add_revoked_cap_ok [OF Cons.prems(1)] l by blast
    have same: "R1 = rt_revoked_caps rt" if "?i \<in> set (rt_revoked_caps rt)"
      using R1(1) that by (simp add: add_revoked_cap_def cap_id_revoked_iff)
        (metis runtime_state.select_convs(5) runtime_state.surjective runtime_state.update_convs(5))
    let ?rt1 = "rt\<lparr>rt_revoked_caps := R1\<rparr>"
    obtain R b where "revoke_pass ls ?rt1 (changed \<or> ?i \<notin> set (rt_revoked_caps rt)) = (?rt1\<lparr>rt_revoked_caps := R\<rparr>, Inr b)"
      "pass_result ?rt1 ls (changed \<or> ?i \<notin> set (rt_revoked_caps rt)) R b"
      using Cons.IH [OF R1(3)] ls by fastforce
    moreover have "parent_of rt ?i (cl_parent_cap_id l)"
      using True l by (simp add: parent_of_def)
    ultimately show ?thesis
      using R1(1) True pass_result_add [OF _ _ R1(2) same]
      by (intro exI [of _ R] exI [of _ b]) (simp add: cap_id_revoked_iff)
  qed
qed

lemma revoke_loop_spec:
  assumes "revocation_ok rt"
  shows "\<exists>R. revoke_loop rt = (rt\<lparr>rt_revoked_caps := R\<rparr>, Inr ()) \<and> revocation_ok (rt\<lparr>rt_revoked_caps := R\<rparr>) \<and>
    set R = descendants rt (set (rt_revoked_caps rt))"
  using assms
proof (induction rt rule: revoke_loop.induct)
  case (1 rt)
  obtain R b where pass: "revoke_pass (rt_cap_lineage rt) rt False = (rt\<lparr>rt_revoked_caps := R\<rparr>, Inr b)"
    and res: "pass_result rt (rt_cap_lineage rt) False R b"
    using revoke_pass_spec [OF 1(2) order_refl] by blast
  let ?rt1 = "rt\<lparr>rt_revoked_caps := R\<rparr>"
  have D1: "descendants ?rt1 = descendants rt"
    by (rule descendants_cong) simp
  show ?case
  proof (cases b)
    case True
    have "revocation_ok ?rt1"
      using res by (simp add: pass_result_def)
    from 1(1) [OF pass [symmetric] refl _ this] True obtain S where
      S: "revoke_loop ?rt1 = (?rt1\<lparr>rt_revoked_caps := S\<rparr>, Inr ())" "revocation_ok (?rt1\<lparr>rt_revoked_caps := S\<rparr>)"
        "set S = descendants rt (set R)"
      using D1 by auto
    have "descendants rt (set R) = descendants rt (set (rt_revoked_caps rt))"
      using res descendants_least [of "set R" "descendants rt (set (rt_revoked_caps rt))" rt]
      by (auto simp: pass_result_def intro: descendants_closed dest: descendants_mono [of _ _ rt])
    then show ?thesis
      using S pass True by (intro exI [of _ S]) (simp add: revoke_loop.simps [of rt])
  next
    case False
    then have R: "R = rt_revoked_caps rt" "\<And>i j. parent_of rt i j \<Longrightarrow> j \<in> set R \<Longrightarrow> i \<in> set R"
      using res by (auto simp: pass_result_def parent_of_def)
    then have "descendants rt (set (rt_revoked_caps rt)) = set (rt_revoked_caps rt)"
      using descendants_refl by (intro subset_antisym descendants_least) auto
    moreover have "revoke_pass (rt_cap_lineage rt) rt False = (rt, Inr False)"
      using pass False R(1) by simp
    then have "revoke_loop rt = (rt, Inr ())"
      by (subst revoke_loop.simps) simp
    ultimately show ?thesis
      using 1(2) by (intro exI [of _ "rt_revoked_caps rt"]) simp
  qed
qed

section \<open>Marking\<close>

definition flag_revoked :: "u64 set \<Rightarrow> capability \<Rightarrow> capability" where
  "flag_revoked R cap = (if cap_id cap \<in> R then cap\<lparr>cap_revoked := True\<rparr> else cap)"

definition flag_process :: "u64 set \<Rightarrow> process \<Rightarrow> process" where
  "flag_process R p = p\<lparr>proc_caps := map (map_option (flag_revoked R)) (proc_caps p),
    proc_initial_caps := map (map_option (flag_revoked R)) (proc_initial_caps p)\<rparr>"

definition flag_all :: "u64 set \<Rightarrow> runtime_state \<Rightarrow> runtime_state" where
  "flag_all R rt = rt\<lparr>rt_processes := (rt_processes rt)\<lparr>pt_processes :=
    map (flag_process R) (pt_processes (rt_processes rt))\<rparr>\<rparr>"

lemma flag_revoked_simps [simp]:
  "cap_id (flag_revoked R cap) = cap_id cap" "cap_object (flag_revoked R cap) = cap_object cap"
  "cap_rights (flag_revoked R cap) = cap_rights cap" "cap_parent_cap_id (flag_revoked R cap) = cap_parent_cap_id cap"
  "cap_generation_id (flag_revoked R cap) = cap_generation_id cap"
  "cap_revoked (flag_revoked R cap) \<longleftrightarrow> cap_revoked cap \<or> cap_id cap \<in> R"
  by (simp_all add: flag_revoked_def)

lemma flag_revoked_fold:
  "flag_revoked {} = id" "flag_revoked R \<circ> flag_revoked {i} = flag_revoked (insert i R)"
  by (auto simp: flag_revoked_def fun_eq_iff)

lemma cspace_mark_revoked_eq: "cspace_mark_revoked cs i = map (map_option (flag_revoked {i})) cs"
  by (auto simp: cspace_mark_revoked_def flag_revoked_def split: option.split)

lemma flag_process_fold:
  "flag_process {} p = p" "flag_process R (flag_process {i} p) = flag_process (insert i R) p"
  by (simp_all add: flag_process_def flag_revoked_fold option.map_id0 option.map_comp)

lemma mark_cap_revoked_eq: "mark_cap_revoked rt i = flag_all {i} rt"
  by (simp add: mark_cap_revoked_def flag_all_def flag_process_def [abs_def] cspace_mark_revoked_eq)

lemma foldl_mark: "foldl mark_cap_revoked rt ids = flag_all (set ids) rt"
  by (induction ids arbitrary: rt)
    (simp_all add: mark_cap_revoked_eq flag_all_def flag_process_fold comp_def cong: map_cong)

lemma mark_all_revoked_caps_eq: "mark_all_revoked_caps rt = flag_all (set (rt_revoked_caps rt)) rt"
  by (simp add: mark_all_revoked_caps_def foldl_mark)

lemma held_iff:
  "cap \<in> held rt \<longleftrightarrow> (\<exists>p \<in> set (pt_processes (rt_processes rt)). Some cap \<in> set (proc_caps p) \<union> set (proc_initial_caps p))"
  by (auto simp: held_def spaces_def)

lemma flag_process_simps [simp]:
  "proc_caps (flag_process R p) = map (map_option (flag_revoked R)) (proc_caps p)"
  "proc_initial_caps (flag_process R p) = map (map_option (flag_revoked R)) (proc_initial_caps p)"
  "proc_pid (flag_process R p) = proc_pid p" "proc_state (flag_process R p) = proc_state p"
  by (simp_all add: flag_process_def)

lemma flag_all_simps [simp]:
  "rt_next_cap_id (flag_all R rt) = rt_next_cap_id rt" "rt_revoked_caps (flag_all R rt) = rt_revoked_caps rt"
  "rt_cap_lineage (flag_all R rt) = rt_cap_lineage rt" "rt_generation_id (flag_all R rt) = rt_generation_id rt"
  "rt_objects (flag_all R rt) = rt_objects rt"
  by (simp_all add: flag_all_def)

lemma Some_in_map_option: "Some y \<in> map_option f ` X \<longleftrightarrow> (\<exists>x. Some x \<in> X \<and> y = f x)"
  by (force simp: image_iff map_option_case split: option.splits)

lemma held_flag_all: "held (flag_all R rt) = flag_revoked R ` held rt"
proof (rule set_eqI)
  fix c
  have "c \<in> held (flag_all R rt) \<longleftrightarrow> (\<exists>d \<in> held rt. c = flag_revoked R d)"
    by (simp add: held_iff flag_all_def Some_in_map_option Bex_def) blast
  then show "c \<in> held (flag_all R rt) \<longleftrightarrow> c \<in> flag_revoked R ` held rt"
    by blast
qed

lemma held_cong: "pt_processes (rt_processes rt') = pt_processes (rt_processes rt) \<Longrightarrow> held rt' = held rt"
  by (simp add: held_def spaces_def)

lemma revocation_ok_inv: "cap_inv rt \<Longrightarrow> revocation_ok rt"
  using cap_invD(2-4) [of rt] by (auto simp: revocation_ok_def)

text \<open>Revoking an id revokes its descendants and no others, and marks every copy.\<close>

lemma revoke_cap_id_spec:
  assumes inv: "cap_inv rt" and i: "i \<in> cl_cap_id ` set (rt_cap_lineage rt)"
  shows "\<exists>R. revoke_cap_id rt i = (flag_all (set R) (rt\<lparr>rt_revoked_caps := R\<rparr>), Inr ()) \<and>
    set R = set (rt_revoked_caps rt) \<union> descendants rt {i} \<and> cap_inv (flag_all (set R) (rt\<lparr>rt_revoked_caps := R\<rparr>))"
proof -
  obtain R1 where R1: "add_revoked_cap rt i = (rt\<lparr>rt_revoked_caps := R1\<rparr>, Inr (i \<notin> set (rt_revoked_caps rt)))"
    "set R1 = insert i (set (rt_revoked_caps rt))" "revocation_ok (rt\<lparr>rt_revoked_caps := R1\<rparr>)"
    using add_revoked_cap_ok [OF revocation_ok_inv [OF inv] i] by blast
  let ?rt1 = "rt\<lparr>rt_revoked_caps := R1\<rparr>"
  have D: "descendants (rt\<lparr>rt_revoked_caps := S\<rparr>) = descendants rt" for S
    by (rule descendants_cong) simp
  obtain R where R: "revoke_loop ?rt1 = (?rt1\<lparr>rt_revoked_caps := R\<rparr>, Inr ())"
    "revocation_ok (?rt1\<lparr>rt_revoked_caps := R\<rparr>)" "set R = descendants ?rt1 (set (rt_revoked_caps ?rt1))"
    using revoke_loop_spec [OF R1(3)] by blast
  have "descendants rt (set (rt_revoked_caps rt)) = set (rt_revoked_caps rt)"
    using cap_invD(5) [OF inv] descendants_refl by (intro subset_antisym descendants_least) auto
  moreover have "descendants rt (set R1) = descendants rt (set (rt_revoked_caps rt)) \<union> descendants rt {i}"
    unfolding R1(2) by (auto simp: descendants_def)
  ultimately have set_R: "set R = set (rt_revoked_caps rt) \<union> descendants rt {i}"
    using R(3) D by simp
  have "i \<noteq> 0"
    using i cap_invD(2) [OF inv] by (auto simp: lineage_ok_def)
  then have "revoke_cap_id rt i = (flag_all (set R) (rt\<lparr>rt_revoked_caps := R\<rparr>), Inr ())"
    using R1(1) R(1) by (simp add: revoke_cap_id_def mark_all_revoked_caps_eq)
  moreover have "cap_inv (flag_all (set R) (rt\<lparr>rt_revoked_caps := R\<rparr>))"
  proof -
    have par: "parent_of (flag_all (set R) (rt\<lparr>rt_revoked_caps := R\<rparr>)) = parent_of rt"
      by (rule parent_of_cong) simp
    have held: "held (flag_all (set R) (rt\<lparr>rt_revoked_caps := R\<rparr>)) = flag_revoked (set R) ` held rt"
      using held_cong [of "rt\<lparr>rt_revoked_caps := R\<rparr>" rt] by (simp add: held_flag_all)
    have closed: "\<forall>i j. parent_of rt i j \<longrightarrow> j \<in> set R \<longrightarrow> i \<in> set R"
      unfolding set_R using cap_invD(5) [OF inv] descendants_closed by blast
    have marks: "cap_revoked (flag_revoked (set R) cap) \<longleftrightarrow> cap_id cap \<in> set R" if "cap \<in> held rt" for cap
      using cap_invD(7) [OF inv that] set_R by auto
    show ?thesis
    proof (rule cap_invI, goal_cases)
      case (5 i j)
      then show ?case
        using closed par by auto
    next
      case (6 cap)
      then show ?case
        using cap_invD(6) [OF inv] held by auto
    next
      case (7 cap)
      then show ?case
        using marks held by auto
    next
      case (8 c d)
      then show ?case
        unfolding held by (auto dest: cap_invD(8) [OF inv])
    qed (use R(2) cap_invD(1,2) [OF inv] in \<open>simp_all add: revocation_ok_def\<close>)
  qed
  ultimately show ?thesis
    using set_R by blast
qed

end
