(* ===== verification/Cap_Steps.thy ===== *)
theory Cap_Steps
  imports Cap_Safety
begin

text \<open>
  What each capability system call does to the authority in the system: it
  adds one attenuated capability, removes some, or revokes a subtree; when it
  fails it does nothing.  Sequences of these calls are the step relation of
  \<^verbatim>\<open>Cap_Properties\<close>.
\<close>

section \<open>The calling process\<close>

lemma first_some_first_index:
  "first_some (\<lambda>x. if P x then Some x else None) xs = map_option ((!) xs) (first_index P xs)"
  by (induction xs) (auto simp: option.map_comp comp_def)

lemma process_of_nth: "process_of t pid = map_option ((!) (pt_processes t)) (process_index t pid)"
  by (simp add: process_of_def process_index_def first_some_first_index)

lemma current_process_nth: "current_process t = map_option ((!) (pt_processes t)) (current_process_mut t)"
  by (simp add: current_process_def current_process_mut_def process_mut_def process_of_nth split: option.split)

lemma process_mut_length: "process_mut t pid = Some i \<Longrightarrow> i < length (pt_processes t)"
  using process_index_Some by (auto simp: process_mut_def)

lemma current_process_mut_length: "current_process_mut t = Some i \<Longrightarrow> i < length (pt_processes t)"
  using process_mut_length by (auto simp: current_process_mut_def split: option.splits)

lemma held_of_slot:
  "i < length (pt_processes (rt_processes rt)) \<Longrightarrow> cspace_lookup (proc_caps (pt_processes (rt_processes rt) ! i)) slot = Some cap \<Longrightarrow>
    cap \<in> held rt"
  using cspace_lookup_mem nth_mem by (fastforce simp: held_iff)

text \<open>A capability a lookup returns is held, unrevoked and of this generation.\<close>

lemma lookup_capability_held:
  assumes "lookup_capability rt slot right = Inr cap"
  shows "cap \<in> held rt" "cap_id cap \<notin> set (rt_revoked_caps rt)" "cap_generation_id cap = rt_generation_id rt"
    "cap_rights cap AND right = right"
proof -
  obtain i where i: "current_process_mut (rt_processes rt) = Some i"
    and "cspace_lookup (proc_caps (pt_processes (rt_processes rt) ! i)) slot = Some cap"
    using assms by (auto simp: lookup_capability_def current_process_nth split: option.splits if_splits)
  then show "cap \<in> held rt"
    using held_of_slot current_process_mut_length by blast
qed (use assms in \<open>auto simp: lookup_capability_def cap_id_revoked_iff split: option.splits if_splits\<close>)

section \<open>Shrinking\<close>

definition shrunk :: "runtime_state \<Rightarrow> runtime_state \<Rightarrow> bool" where
  "shrunk rt rt' \<longleftrightarrow> rt_next_cap_id rt' = rt_next_cap_id rt \<and> rt_revoked_caps rt' = rt_revoked_caps rt \<and>
    rt_cap_lineage rt' = rt_cap_lineage rt \<and> rt_generation_id rt' = rt_generation_id rt \<and> held rt' \<subseteq> held rt"

lemma shrunk_refl: "shrunk rt rt"
  by (simp add: shrunk_def)

lemma shrunk_trans: "shrunk rt rt' \<Longrightarrow> shrunk rt' rt'' \<Longrightarrow> shrunk rt rt''"
  by (auto simp: shrunk_def)

lemma shrunk_inv:
  assumes "cap_inv rt" "shrunk rt rt'"
  shows "cap_inv rt'"
proof -
  have eq: "rt_next_cap_id rt' = rt_next_cap_id rt" "rt_revoked_caps rt' = rt_revoked_caps rt"
    "rt_cap_lineage rt' = rt_cap_lineage rt" "parent_of rt' = parent_of rt" and "held rt' \<subseteq> held rt"
    using assms(2) parent_of_cong [of rt' rt] by (simp_all add: shrunk_def)
  then have "cap \<in> held rt" if "cap \<in> held rt'" for cap
    using that by blast
  then show ?thesis
    by (intro cap_invI) (use cap_invD [OF assms(1)] in \<open>simp_all add: eq\<close>)
qed

lemma held_update:
  assumes "i < length (pt_processes (rt_processes rt))"
    "\<And>cap. Some cap \<in> set (proc_caps (f (pt_processes (rt_processes rt) ! i))) \<union>
       set (proc_initial_caps (f (pt_processes (rt_processes rt) ! i))) \<Longrightarrow> cap \<in> X \<union> held rt"
  shows "held (rt\<lparr>rt_processes := update_process (rt_processes rt) i f\<rparr>) \<subseteq> X \<union> held rt"
proof
  fix cap
  assume "cap \<in> held (rt\<lparr>rt_processes := update_process (rt_processes rt) i f\<rparr>)"
  then obtain p where p: "p \<in> set ((pt_processes (rt_processes rt))[i := f (pt_processes (rt_processes rt) ! i)])"
    "Some cap \<in> set (proc_caps p) \<union> set (proc_initial_caps p)"
    by (auto simp: held_iff update_process_def)
  then have "p = f (pt_processes (rt_processes rt) ! i) \<or> p \<in> set (pt_processes (rt_processes rt))"
    using set_update_subset_insert by fastforce
  then show "cap \<in> X \<union> held rt"
    using p(2) assms(2) by (auto simp: held_iff)
qed

lemma held_nth:
  "i < length (pt_processes (rt_processes rt)) \<Longrightarrow>
    Some cap \<in> set (proc_caps (pt_processes (rt_processes rt) ! i)) \<union> set (proc_initial_caps (pt_processes (rt_processes rt) ! i)) \<Longrightarrow>
    cap \<in> held rt"
  using nth_mem by (fastforce simp: held_iff)

text \<open>An update of a process that adds no capability shrinks the system.\<close>

lemma shrunk_update:
  assumes "i < length (pt_processes (rt_processes rt))"
    "\<And>p cap. Some cap \<in> set (proc_caps (f p)) \<union> set (proc_initial_caps (f p)) \<Longrightarrow>
      Some cap \<in> set (proc_caps p) \<union> set (proc_initial_caps p)"
  shows "shrunk rt (rt\<lparr>rt_processes := update_process (rt_processes rt) i f\<rparr>)"
  using held_update [OF assms(1), of f "{}"] held_nth [OF assms(1)] assms(2) by (auto simp: shrunk_def)

lemma shrunk_objects: "shrunk rt (rt\<lparr>rt_objects := t\<rparr>)"
  using held_cong [of "rt\<lparr>rt_objects := t\<rparr>" rt] by (simp add: shrunk_def)

lemma set_update_None: "Some cap \<in> set (cs[k := None]) \<Longrightarrow> Some cap \<in> set cs"
  using set_update_subset_insert by fastforce

lemma release_root_shrunk: "shrunk rt (release_unreferenced_derived_vfs_root rt object)"
  by (simp add: release_unreferenced_derived_vfs_root_def shrunk_refl shrunk_objects)

lemma cap_drop_shrunk:
  assumes "cap_drop rt slot = (rt', r)"
  shows "shrunk rt rt'"
proof (cases "current_process_mut (rt_processes rt)")
  case None
  then show ?thesis
    using assms by (simp add: cap_drop_def shrunk_refl)
next
  case (Some i)
  let ?cs = "proc_caps (pt_processes (rt_processes rt) ! i)"
  show ?thesis
  proof (cases "cspace_clear ?cs slot")
    case (Pair cs r')
    have "shrunk rt (rt\<lparr>rt_processes := update_process (rt_processes rt) i (\<lambda>p. p\<lparr>proc_caps := ?cs[unat slot := None]\<rparr>)\<rparr>)"
      using held_update [of i rt "\<lambda>p. p\<lparr>proc_caps := ?cs[unat slot := None]\<rparr>" "{}"] held_nth [of i rt]
        current_process_mut_length [OF Some] set_update_None [of _ ?cs]
      by (auto simp: shrunk_def)
    then show ?thesis
      using assms Some Pair shrunk_refl release_root_shrunk shrunk_trans
      by (cases r') (auto simp: cap_drop_def cspace_clear_ok)
  qed
qed

lemma cap_move_shrunk:
  assumes "cap_move rt source target = (rt', r)"
  shows "shrunk rt rt'"
proof (cases "current_process_mut (rt_processes rt)")
  case None
  then show ?thesis
    using assms by (simp add: cap_move_def shrunk_refl)
next
  case (Some i)
  let ?cs = "proc_caps (pt_processes (rt_processes rt) ! i)"
  show ?thesis
  proof (cases "cspace_can_grant ?cs target \<and> cspace_lookup ?cs source \<noteq> None")
    case False
    then show ?thesis
      using assms Some
      by (auto simp: cap_move_def Let_def shrunk_refl cspace_clear_ok cspace_clear_error split: if_splits prod.splits sum.splits)
  next
    case True
    then obtain cap where cap: "cspace_lookup ?cs source = Some cap"
      by blast
    then have clear: "cspace_clear ?cs source = (?cs[unat source := None], Inr cap)"
      by (simp add: cspace_clear_ok)
    obtain cs2 r2 where g: "cspace_grant (?cs[unat source := None]) target cap = (cs2, r2)"
      by fastforce
    then have "Some c \<in> set ?cs" if "Some c \<in> set cs2" for c
      using that cspace_lookup_mem [OF cap] set_update_None [of c ?cs "unat source"]
        set_update_subset_insert [of "?cs[unat source := None]" "unat target" "Some cap"]
      by (auto simp: cspace_grant_def split: if_splits)
    then have "shrunk rt (rt\<lparr>rt_processes := update_process (rt_processes rt) i (\<lambda>p. p\<lparr>proc_caps := cs2\<rparr>)\<rparr>)"
      using held_update [of i rt "\<lambda>p. p\<lparr>proc_caps := cs2\<rparr>" "{}"] held_nth [of i rt] current_process_mut_length [OF Some]
      by (auto simp: shrunk_def)
    then show ?thesis
      using assms Some True clear g by (simp add: cap_move_def Let_def)
  qed
qed

section \<open>Steps that leave every capability in place\<close>

definition caps_view :: "process \<Rightarrow> process_id \<times> capability_space \<times> capability_space" where
  "caps_view p = (proc_pid p, proc_caps p, proc_initial_caps p)"

definition same_caps :: "runtime_state \<Rightarrow> runtime_state \<Rightarrow> bool" where
  "same_caps rt rt' \<longleftrightarrow> rt_next_cap_id rt' = rt_next_cap_id rt \<and> rt_revoked_caps rt' = rt_revoked_caps rt \<and>
    rt_cap_lineage rt' = rt_cap_lineage rt \<and> rt_generation_id rt' = rt_generation_id rt \<and>
    pt_current (rt_processes rt') = pt_current (rt_processes rt) \<and>
    map caps_view (pt_processes (rt_processes rt')) = map caps_view (pt_processes (rt_processes rt))"

lemma same_caps_refl: "same_caps rt rt"
  by (simp add: same_caps_def)

lemma same_caps_trans: "same_caps rt rt' \<Longrightarrow> same_caps rt' rt'' \<Longrightarrow> same_caps rt rt''"
  by (simp add: same_caps_def)

lemma same_caps_objects: "same_caps rt (rt\<lparr>rt_objects := t\<rparr>)"
  by (simp add: same_caps_def)

lemma held_views: "held rt = {cap. \<exists>v \<in> set (map caps_view (pt_processes (rt_processes rt))). Some cap \<in> set (fst (snd v)) \<union> set (snd (snd v))}"
  by (auto simp: held_iff caps_view_def)

lemma same_caps_held: "same_caps rt rt' \<Longrightarrow> held rt' = held rt"
  by (simp only: held_views same_caps_def)

lemma same_caps_shrunk: "same_caps rt rt' \<Longrightarrow> shrunk rt rt'"
  using same_caps_held [of rt rt'] by (simp add: shrunk_def same_caps_def)

lemma cancel_waiter_same:
  assumes "i < length (pt_processes (rt_processes rt))" "cancel_blocked_endpoint_waiter_at rt i status = (rt', b)"
  shows "same_caps rt rt'"
proof -
  have "xs[i := f (xs ! i)] = xs" if "i < length xs" "f (xs ! i) = xs ! i" for xs :: "'a list" and f
    using that by (simp add: list_update_same_conv)
  then show ?thesis
    using assms
    by (auto simp: cancel_blocked_endpoint_waiter_at_def same_caps_def update_process_def map_update caps_view_def
        list_update_same_conv split: process_state.splits)
qed

lemma same_caps_length:
  "same_caps rt rt' \<Longrightarrow> length (pt_processes (rt_processes rt')) = length (pt_processes (rt_processes rt))"
  using map_eq_imp_length_eq by (auto simp: same_caps_def)

lemma cancel_waiters_same: "same_caps rt (fst (cancel_waiters c status rt))"
proof -
  let ?n = "length (pt_processes (rt_processes rt))"
  let ?f = "\<lambda>(rt, canceled) index. if c rt (pt_processes (rt_processes rt) ! index)
        then case cancel_blocked_endpoint_waiter_at rt index status of
               (rt, True) \<Rightarrow> (rt, canceled + 1) | (rt, False) \<Rightarrow> (rt, canceled)
        else (rt, canceled)"
  have "same_caps s (fst (foldl ?f (s, k) is))" if "\<forall>i \<in> set is. i < length (pt_processes (rt_processes s))"
    for s k and "is" :: "nat list"
    using that
  proof (induction "is" arbitrary: s k)
    case (Cons i "is")
    obtain s' b where c1: "cancel_blocked_endpoint_waiter_at s i status = (s', b)"
      by fastforce
    then have s': "same_caps s s'" "length (pt_processes (rt_processes s')) = length (pt_processes (rt_processes s))"
      using cancel_waiter_same [OF _ c1] Cons.prems same_caps_length by simp_all
    show ?case
      using Cons.IH [of s' "k + 1"] Cons.IH [of s' k] Cons.IH [of s k] Cons.prems s' c1 same_caps_trans [OF s'(1)]
      by (cases b) auto
  qed (simp add: same_caps_refl)
  from this [of "[0 ..< ?n]" rt 0] show ?thesis
    unfolding cancel_waiters_def by simp
qed

lemma release_roots_from_same: "same_caps rt (release_roots_from index rt)"
proof (induction index rt rule: release_roots_from.induct)
  case (1 index rt)
  show ?case
  proof (cases "remove_derived_vfs_root (rt_objects rt) (the (derived_root_at (rt_objects rt) index))")
    case (Pair t b)
    then show ?thesis
      using 1 same_caps_refl [of rt] same_caps_trans [OF same_caps_objects [of rt t]]
      by (subst release_roots_from.simps) (auto split: option.split bool.split)
  qed
qed

lemma revoke_tail_same:
  "same_caps rt (fst (cancel_unauthorized_blocked_receivers status (release_unreferenced_derived_vfs_roots rt)))"
  unfolding cancel_unauthorized_blocked_receivers_def release_unreferenced_derived_vfs_roots_def
  by (rule same_caps_trans [OF release_roots_from_same cancel_waiters_same])

section \<open>Minting\<close>

definition child_of :: "runtime_state \<Rightarrow> capability \<Rightarrow> u64 \<Rightarrow> process_id \<Rightarrow> process_id \<Rightarrow> capability" where
  "child_of rt parent rights_mask own by_pid =
    \<lparr>cap_id = rt_next_cap_id rt, cap_object = cap_object parent, cap_rights = rights_mask, cap_owner_process = own,
     cap_parent_cap_id = cap_id parent, cap_generation_id = rt_generation_id rt, cap_delegated_by = by_pid,
     cap_revoked = False\<rparr>"

definition after_mint :: "runtime_state \<Rightarrow> u64 \<Rightarrow> runtime_state" where
  "after_mint rt parent_id = rt\<lparr>rt_next_cap_id := rt_next_cap_id rt + 1,
    rt_cap_lineage := rt_cap_lineage rt @ [\<lparr>cl_cap_id = rt_next_cap_id rt, cl_parent_cap_id = parent_id\<rparr>]\<rparr>"

lemma after_mint_simps [simp]:
  "rt_processes (after_mint rt i) = rt_processes rt" "rt_objects (after_mint rt i) = rt_objects rt"
  "rt_revoked_caps (after_mint rt i) = rt_revoked_caps rt" "rt_generation_id (after_mint rt i) = rt_generation_id rt"
  "held (after_mint rt i) = held rt"
  by (simp_all add: after_mint_def held_def spaces_def)

lemma new_capability_child:
  assumes "length (rt_cap_lineage rt) \<le> MAX_CAP_LINEAGE"
  shows "new_capability rt (cap_object parent) rights_mask own (cap_id parent) by_pid =
    (if can_allocate_capability rt then (after_mint rt (cap_id parent), Inr (child_of rt parent rights_mask own by_pid))
     else (rt, Inl BadCapability))"
  using assms by (auto simp: new_capability_def can_allocate_capability_def record_cap_lineage_def child_of_def after_mint_def Let_def)

definition attenuates :: "u64 \<Rightarrow> capability \<Rightarrow> bool" where
  "attenuates rights_mask cap \<longleftrightarrow> rights_mask \<noteq> 0 \<and> rights_mask AND NOT (cap_rights cap) = 0"

definition minted :: "runtime_state \<Rightarrow> capability \<Rightarrow> capability \<Rightarrow> runtime_state \<Rightarrow> bool" where
  "minted rt parent cap rt' \<longleftrightarrow> can_allocate_capability rt \<and> parent \<in> held rt \<and>
    cap_id parent \<notin> set (rt_revoked_caps rt) \<and> attenuates (cap_rights cap) parent \<and>
    cap_id cap = rt_next_cap_id rt \<and> cap_object cap = cap_object parent \<and> cap_parent_cap_id cap = cap_id parent \<and>
    cap_generation_id cap = rt_generation_id rt \<and> \<not> cap_revoked cap \<and>
    rt_next_cap_id rt' = rt_next_cap_id rt + 1 \<and> rt_revoked_caps rt' = rt_revoked_caps rt \<and>
    rt_cap_lineage rt' = rt_cap_lineage rt @ [\<lparr>cl_cap_id = rt_next_cap_id rt, cl_parent_cap_id = cap_id parent\<rparr>] \<and>
    rt_generation_id rt' = rt_generation_id rt \<and> held rt' \<subseteq> insert cap (held rt)"

lemma lineage_id_less:
  "cap_inv rt \<Longrightarrow> l \<in> set (rt_cap_lineage rt) \<Longrightarrow> unat (cl_cap_id l) < unat (rt_next_cap_id rt)"
  using cap_invD(2) by (auto simp: lineage_ok_def)

lemma held_id_less: "cap_inv rt \<Longrightarrow> cap \<in> held rt \<Longrightarrow> unat (cap_id cap) < unat (rt_next_cap_id rt)"
  using lineage_id_less [OF _ cap_invD(6)] by fastforce

lemma held_id_nonzero: "cap_inv rt \<Longrightarrow> cap \<in> held rt \<Longrightarrow> cap_id cap \<noteq> 0"
  using cap_invD(2,6) [of rt] by (fastforce simp: lineage_ok_def)

lemma next_id_fresh:
  assumes "cap_inv rt"
  shows "rt_next_cap_id rt \<notin> set (rt_revoked_caps rt)" "cap \<in> held rt \<Longrightarrow> cap_id cap \<noteq> rt_next_cap_id rt"
    "\<not> parent_of rt i (rt_next_cap_id rt)" "\<not> parent_of rt (rt_next_cap_id rt) j"
proof -
  show "rt_next_cap_id rt \<notin> set (rt_revoked_caps rt)"
    using cap_invD(4) [OF assms] by (force dest: lineage_id_less [OF assms])
  show "cap_id cap \<noteq> rt_next_cap_id rt" if "cap \<in> held rt"
    using held_id_less [OF assms that] by auto
  have less: "unat i < unat (rt_next_cap_id rt)" if "parent_of rt i j" for i j
    using that by (force simp: parent_of_def dest: lineage_id_less [OF assms])
  show "\<not> parent_of rt i (rt_next_cap_id rt)"
    using less [of i "rt_next_cap_id rt"] parent_of_less [OF assms, of i "rt_next_cap_id rt"] by linarith
  show "\<not> parent_of rt (rt_next_cap_id rt) j"
    using less [of "rt_next_cap_id rt" j] by auto
qed

lemma minted_parent_of:
  assumes "cap_inv rt" "minted rt parent cap rt'"
  shows "parent_of rt' i j \<longleftrightarrow> parent_of rt i j \<or> i = cap_id cap \<and> j = cap_id parent"
  using assms(2) held_id_nonzero [OF assms(1), of parent] by (auto simp: minted_def parent_of_def)

lemma minted_inv:
  assumes inv: "cap_inv rt" and m: "minted rt parent cap rt'"
  shows "cap_inv rt'"
proof -
  have cap_id: "cap_id cap = rt_next_cap_id rt" "cap_parent_cap_id cap = cap_id parent" "\<not> cap_revoked cap"
    using m by (simp_all add: minted_def)
  have m': "parent \<in> held rt" "cap_id parent \<notin> set (rt_revoked_caps rt)"
    "rt_next_cap_id rt' = rt_next_cap_id rt + 1" "rt_revoked_caps rt' = rt_revoked_caps rt"
    "rt_cap_lineage rt' = rt_cap_lineage rt @ [\<lparr>cl_cap_id = rt_next_cap_id rt, cl_parent_cap_id = cap_id parent\<rparr>]"
    "rt_next_cap_id rt \<noteq> u64_max" "length (rt_cap_lineage rt) < MAX_CAP_LINEAGE"
    and heldD: "\<And>c. c \<in> held rt' \<Longrightarrow> c = cap \<or> c \<in> held rt"
    using m by (auto simp: minted_def can_allocate_capability_def)
  have next': "unat (rt_next_cap_id rt + 1) = unat (rt_next_cap_id rt) + 1" "rt_next_cap_id rt + 1 \<noteq> 0"
    using m'(6) unat_increment [of "rt_next_cap_id rt"] by (auto simp: u64_max_def unat_eq_0)
  note fresh = next_id_fresh [OF inv]
  show ?thesis
  proof (rule cap_invI, goal_cases)
    case 2
    show ?case
      using cap_invD(2) [OF inv] m'(7) lineage_id_less [OF inv] held_id_less [OF inv m'(1)]
      by (fastforce simp: m'(3,5) next' lineage_ok_def)
  next
    case (5 i j)
    then show ?case
      using minted_parent_of [OF inv m] cap_invD(5) [OF inv] m'(2,4) by auto
  next
    case (6 c)
    then show ?case
      using heldD [of c] cap_invD(6) [OF inv] cap_id by (auto simp: m'(5))
  next
    case (7 c)
    then show ?case
      using heldD [of c] cap_invD(7) [OF inv] cap_id fresh(1) by (auto simp: m'(4))
  next
    case (8 c d)
    then consider "c = cap" "d = cap" | "c = cap" "d \<in> held rt" | "c \<in> held rt" "d = cap" | "c \<in> held rt" "d \<in> held rt"
      using heldD by blast
    then show ?case
      by cases (use 8(3) cap_id(1) fresh(2) [of c] fresh(2) [of d] cap_invD(8) [OF inv, of c d] in \<open>simp_all\<close>)
  qed (use cap_invD(1-4) [OF inv] in \<open>auto simp: m'(3,4,5) next'\<close>)
qed

section \<open>Derive, copy and transfer\<close>

lemma cap_copy_eq_derive: "cap_copy = cap_derive"
  by (simp add: cap_copy_def [abs_def] cap_derive_def [abs_def])

lemma lookup_current: "lookup_capability rt slot right = Inr cap \<Longrightarrow> \<exists>i. current_process_mut (rt_processes rt) = Some i"
  by (auto simp: lookup_capability_def current_process_nth split: option.splits)

definition grant_at :: "runtime_state \<Rightarrow> nat \<Rightarrow> u64 \<Rightarrow> capability \<Rightarrow> runtime_state" where
  "grant_at rt i slot cap = rt\<lparr>rt_processes := update_process (rt_processes rt) i
    (\<lambda>p. p\<lparr>proc_caps := (proc_caps p)[unat slot := Some cap]\<rparr>)\<rparr>"

text \<open>The same entry is stored in the template space of a process that has not started.\<close>

definition grant_both :: "runtime_state \<Rightarrow> nat \<Rightarrow> u64 \<Rightarrow> capability \<Rightarrow> runtime_state" where
  "grant_both rt i slot cap = rt\<lparr>rt_processes := update_process (rt_processes rt) i
    (\<lambda>p. p\<lparr>proc_caps := (proc_caps p)[unat slot := Some cap],
           proc_initial_caps := (proc_initial_caps p)[unat slot := Some cap]\<rparr>)\<rparr>"

lemma cap_derive_eq:
  assumes "cap_inv rt" "current_process_mut (rt_processes rt) = Some i"
  shows "cap_derive rt parent_slot new_slot rights_mask =
    (case lookup_capability rt parent_slot 0 of
       Inl e \<Rightarrow> (rt, Inl e)
     | Inr parent \<Rightarrow>
        let p = pt_processes (rt_processes rt) ! i
        in if attenuates rights_mask parent \<and> cspace_can_grant (proc_caps p) new_slot \<and> can_allocate_capability rt
           then (grant_at (after_mint rt (cap_id parent)) i new_slot
                  (child_of rt parent rights_mask (proc_pid p) (proc_pid p)), Inr ())
           else (rt, Inl BadCapability))"
proof -
  have len: "length (rt_cap_lineage rt) \<le> MAX_CAP_LINEAGE"
    using cap_invD(2) [OF assms(1)] by (simp add: lineage_ok_def)
  show ?thesis
    using assms(2)
    by (auto simp: cap_derive_def current_process_nth new_capability_child [OF len] grant_current_def grant_at_def
        attenuates_def Let_def update_process_def cspace_grant_def cspace_can_grant_def split: sum.split)
qed

lemma cap_derive_no_caller:
  "current_process_mut (rt_processes rt) = None \<Longrightarrow> cap_derive rt parent_slot new_slot rights_mask = (rt, Inl BadCapability)"
  by (simp add: cap_derive_def lookup_capability_def current_process_nth)

definition grant_new :: "runtime_state \<Rightarrow> nat \<Rightarrow> u64 \<Rightarrow> capability \<Rightarrow> bool \<Rightarrow> runtime_state" where
  "grant_new rt i slot cap persist = (if persist then grant_both rt i slot cap else grant_at rt i slot cap)"

lemma cap_transfer_eq:
  assumes inv: "cap_inv rt"
  shows "cap_transfer rt control_slot target_pid packed =
    (case process_control_from_cap rt control_slot RIGHT_DELEGATE of
       Inl e \<Rightarrow> (rt, Inl e)
     | Inr _ \<Rightarrow>
        (case lookup_capability rt (packed AND 0xffff) 0 of
           Inl e \<Rightarrow> (rt, Inl e)
         | Inr cap \<Rightarrow>
            (case process_mut (rt_processes rt) target_pid of
               None \<Rightarrow> (rt, Inl BadCapability)
             | Some i \<Rightarrow>
                let target = pt_processes (rt_processes rt) ! i; slot = drop_bit 16 packed AND 0xffff;
                    persist = (proc_state target = Declared)
                in if attenuates (drop_bit 32 packed) cap \<and> cspace_can_grant (proc_caps target) slot \<and>
                      (persist \<longrightarrow> cspace_can_grant (proc_initial_caps target) slot) \<and> can_allocate_capability rt
                   then (grant_new (after_mint rt (cap_id cap)) i slot
                          (child_of rt cap (drop_bit 32 packed) target_pid
                            (proc_pid (the (current_process (rt_processes rt))))) persist, Inr ())
                   else (rt, Inl BadCapability))))"
proof -
  have len: "length (rt_cap_lineage rt) \<le> MAX_CAP_LINEAGE"
    using cap_invD(2) [OF inv] by (simp add: lineage_ok_def)
  show ?thesis
  proof (cases "lookup_capability rt (packed AND 0xffff) 0")
    case (Inr cap)
    then obtain j where j: "current_process_mut (rt_processes rt) = Some j"
      using lookup_current by blast
    show ?thesis
    proof (cases "process_control_from_cap rt control_slot RIGHT_DELEGATE")
      case (Inr c)
      note ctl = this
      show ?thesis
      proof (cases "process_index (rt_processes rt) target_pid")
        case None
        then show ?thesis
          using ctl Inr \<open>lookup_capability rt _ 0 = _\<close> j
          by (simp add: cap_transfer_def Let_def process_of_nth process_mut_def current_process_nth)
      next
        case (Some i)
        then show ?thesis
          using ctl \<open>lookup_capability rt _ 0 = _\<close> j
          by (auto simp: cap_transfer_def Let_def process_of_nth process_mut_def current_process_nth attenuates_def
              new_capability_child [OF len] transfer_into_def cspace_grant_def cspace_can_grant_def grant_new_def
              grant_at_def grant_both_def update_process_def)
      qed
    qed (simp add: cap_transfer_def)
  qed (simp add: cap_transfer_def Let_def split: sum.split)
qed

section \<open>Effects\<close>

lemma grant_new_minted:
  assumes "cap_inv rt" "parent \<in> held rt" "cap_id parent \<notin> set (rt_revoked_caps rt)" "attenuates rights_mask parent"
    "can_allocate_capability rt" "i < length (pt_processes (rt_processes rt))"
  shows "minted rt parent (child_of rt parent rights_mask own by_pid)
    (grant_new (after_mint rt (cap_id parent)) i slot (child_of rt parent rights_mask own by_pid) persist)"
proof -
  let ?child = "child_of rt parent rights_mask own by_pid"
  let ?rt1 = "after_mint rt (cap_id parent)"
  have mem: "cap \<in> {?child} \<union> held ?rt1" if "Some cap \<in> set (cs[unat slot := Some ?child])"
    "set cs \<subseteq> set (proc_caps (pt_processes (rt_processes rt) ! i)) \<union> set (proc_initial_caps (pt_processes (rt_processes rt) ! i))"
    for cap cs
    using that held_nth [OF assms(6), of cap] set_update_subset_insert [of cs "unat slot" "Some ?child"] by auto
  have "held (grant_at ?rt1 i slot ?child) \<subseteq> {?child} \<union> held ?rt1"
    unfolding grant_at_def by (rule held_update) (use assms(6) mem held_nth [OF assms(6)] in \<open>auto\<close>)
  moreover have "held (grant_both ?rt1 i slot ?child) \<subseteq> {?child} \<union> held ?rt1"
    unfolding grant_both_def by (rule held_update) (use assms(6) mem in \<open>auto\<close>)
  ultimately have "held (grant_new ?rt1 i slot ?child persist) \<subseteq> {?child} \<union> held rt"
    by (simp add: grant_new_def)
  moreover have "rt_next_cap_id (grant_new ?rt1 i slot ?child persist) = rt_next_cap_id ?rt1"
    "rt_revoked_caps (grant_new ?rt1 i slot ?child persist) = rt_revoked_caps ?rt1"
    "rt_cap_lineage (grant_new ?rt1 i slot ?child persist) = rt_cap_lineage ?rt1"
    "rt_generation_id (grant_new ?rt1 i slot ?child persist) = rt_generation_id ?rt1"
    by (simp_all add: grant_new_def grant_both_def grant_at_def)
  ultimately show ?thesis
    using assms by (simp add: minted_def child_of_def) (simp add: after_mint_def)
qed

lemma cap_derive_effect:
  assumes inv: "cap_inv rt" and call: "cap_derive rt parent_slot new_slot rights_mask = (rt', r)"
  shows "(\<exists>e. r = Inl e \<and> rt' = rt) \<or> (\<exists>parent cap. r = Inr () \<and> minted rt parent cap rt')"
proof (cases "current_process_mut (rt_processes rt)")
  case None
  then show ?thesis
    using call by (auto simp: cap_derive_no_caller)
next
  case (Some i)
  show ?thesis
  proof (cases "lookup_capability rt parent_slot 0")
    case (Inl e)
    then show ?thesis
      using call by (auto simp: cap_derive_def)
  next
    case (Inr parent)
    then show ?thesis
      using call cap_derive_eq [OF inv Some, of parent_slot new_slot rights_mask] current_process_mut_length [OF Some]
        grant_new_minted [OF inv lookup_capability_held(1,2) [OF Inr], of rights_mask i _ _ new_slot False]
      by (auto simp: Let_def grant_new_def split: if_splits) blast
  qed
qed

lemma cap_transfer_effect:
  assumes inv: "cap_inv rt" and call: "cap_transfer rt control_slot target_pid packed = (rt', r)"
  shows "(\<exists>e. r = Inl e \<and> rt' = rt) \<or> (\<exists>parent cap. r = Inr () \<and> minted rt parent cap rt')"
proof (cases "lookup_capability rt (packed AND 0xffff) 0")
  case (Inl e)
  then show ?thesis
    using call unfolding cap_transfer_eq [OF inv] by (auto split: sum.splits)
next
  case (Inr parent)
  show ?thesis
  proof (cases "process_mut (rt_processes rt) target_pid")
    case None
    then show ?thesis
      using call Inr unfolding cap_transfer_eq [OF inv] by (auto split: sum.splits)
  next
    case (Some i)
    show ?thesis
      using call Inr Some process_mut_length [OF Some]
        grant_new_minted [OF inv lookup_capability_held(1,2) [OF Inr], of "drop_bit 32 packed" i]
      unfolding cap_transfer_eq [OF inv] by (auto simp: Let_def split: sum.splits if_splits) blast+
  qed
qed

lemma lookup_in_lineage:
  assumes "cap_inv rt" "lookup_capability rt slot right = Inr cap"
  shows "cap_id cap \<in> cl_cap_id ` set (rt_cap_lineage rt)"
  using cap_invD(6) [OF assms(1) lookup_capability_held(1) [OF assms(2)]] by force

lemma cap_revoke_effect:
  assumes inv: "cap_inv rt" and cap: "lookup_capability rt slot 0 = Inr cap"
  shows "\<exists>R rt'. cap_revoke rt slot = (rt', Inr ()) \<and> set R = set (rt_revoked_caps rt) \<union> descendants rt {cap_id cap} \<and>
    cap_inv (flag_all (set R) (rt\<lparr>rt_revoked_caps := R\<rparr>)) \<and> same_caps (flag_all (set R) (rt\<lparr>rt_revoked_caps := R\<rparr>)) rt'"
proof -
  obtain R where "revoke_cap_id rt (cap_id cap) = (flag_all (set R) (rt\<lparr>rt_revoked_caps := R\<rparr>), Inr ())"
    "set R = set (rt_revoked_caps rt) \<union> descendants rt {cap_id cap}"
    "cap_inv (flag_all (set R) (rt\<lparr>rt_revoked_caps := R\<rparr>))"
    using revoke_cap_id_spec [OF inv lookup_in_lineage [OF inv cap]] by blast
  moreover from this(1) have "cap_revoke rt slot =
      (fst (cancel_unauthorized_blocked_receivers STATUS_BAD_CAPABILITY
        (release_unreferenced_derived_vfs_roots (flag_all (set R) (rt\<lparr>rt_revoked_caps := R\<rparr>)))), Inr ())"
    using cap by (simp add: cap_revoke_def)
  ultimately show ?thesis
    using revoke_tail_same by blast
qed

end
