(* ===== verification/Cap_Properties.thy ===== *)
theory Cap_Properties
  imports Cap_Steps
begin

text \<open>
  Sequences of capability system calls, and the properties of the capability
  system: lookups are exact and end, a revocation is complete, exact and
  permanent, no sequence of calls amplifies authority, and a failed call
  changes nothing.
\<close>

section \<open>Steps\<close>

text \<open>
  The capability calls with any arguments and any outcome, a switch of the
  current process, a restart that reloads the template space of a process
  (\<^verbatim>\<open>start_process\<close>), and any kernel step that leaves the capability
  spaces and the lineage as they are.  The calls that mint a capability for a
  new or a looked-up object (\<^verbatim>\<open>endpoint_create\<close>,
  \<^verbatim>\<open>namespace_resolve\<close>, \<^verbatim>\<open>vfs_derive_root\<close>) and the creation of a
  process are not steps of this relation.
\<close>

inductive cap_step :: "runtime_state \<Rightarrow> runtime_state \<Rightarrow> bool" where
  step_derive: "cap_derive rt a b m = (rt', r) \<Longrightarrow> cap_step rt rt'"
| step_copy: "cap_copy rt a b m = (rt', r) \<Longrightarrow> cap_step rt rt'"
| step_move: "cap_move rt a b = (rt', r) \<Longrightarrow> cap_step rt rt'"
| step_drop: "cap_drop rt a = (rt', r) \<Longrightarrow> cap_step rt rt'"
| step_revoke: "cap_revoke rt a = (rt', r) \<Longrightarrow> cap_step rt rt'"
| step_transfer: "cap_transfer rt c pid packed = (rt', r) \<Longrightarrow> cap_step rt rt'"
| step_switch: "cap_step rt (rt\<lparr>rt_processes := set_current (rt_processes rt) pid\<rparr>)"
| step_restart: "i < length (pt_processes (rt_processes rt)) \<Longrightarrow>
    cap_step rt (rt\<lparr>rt_processes := update_process (rt_processes rt) i (\<lambda>p. p\<lparr>proc_caps := proc_initial_caps p\<rparr>)\<rparr>)"
| step_elsewhere: "same_caps rt rt' \<Longrightarrow> cap_step rt rt'"

definition revoking :: "runtime_state \<Rightarrow> u64 list \<Rightarrow> runtime_state \<Rightarrow> bool" where
  "revoking rt R rt' \<longleftrightarrow> set (rt_revoked_caps rt) \<subseteq> set R \<and> cap_inv (flag_all (set R) (rt\<lparr>rt_revoked_caps := R\<rparr>)) \<and>
    same_caps (flag_all (set R) (rt\<lparr>rt_revoked_caps := R\<rparr>)) rt'"

lemma cap_revoke_error:
  assumes "cap_inv rt" "cap_revoke rt slot = (rt', Inl e)"
  shows "rt' = rt"
proof (cases "lookup_capability rt slot 0")
  case Inl
  then show ?thesis
    using assms(2) by (simp add: cap_revoke_def)
next
  case (Inr cap)
  show ?thesis
    using cap_revoke_effect [OF assms(1) Inr] assms(2) by auto
qed

lemma cap_revoke_revoking:
  assumes "cap_inv rt" "cap_revoke rt slot = (rt', r)"
  shows "rt' = rt \<or> (\<exists>R. revoking rt R rt')"
proof (cases "lookup_capability rt slot 0")
  case Inl
  then show ?thesis
    using assms(2) by (simp add: cap_revoke_def)
next
  case (Inr cap)
  show ?thesis
    using cap_revoke_effect [OF assms(1) Inr] assms(2) by (auto simp: revoking_def)
qed

lemma switch_shrunk: "shrunk rt (rt\<lparr>rt_processes := set_current (rt_processes rt) pid\<rparr>)"
  using held_cong [of "rt\<lparr>rt_processes := set_current (rt_processes rt) pid\<rparr>" rt] by (simp add: shrunk_def set_current_def)

text \<open>Every step shrinks the system, mints one capability, or revokes.\<close>

lemma cap_step_effect:
  assumes "cap_step rt rt'" "cap_inv rt"
  shows "shrunk rt rt' \<or> (\<exists>parent cap. minted rt parent cap rt') \<or> (\<exists>R. revoking rt R rt')"
  using assms
proof cases
  case (step_derive a b m r)
  then show ?thesis
    using cap_derive_effect [OF assms(2) step_derive] shrunk_refl by blast
next
  case (step_copy a b m r)
  then show ?thesis
    using cap_derive_effect [OF assms(2) step_copy [unfolded cap_copy_eq_derive]] shrunk_refl by blast
next
  case (step_transfer c pid packed r)
  then show ?thesis
    using cap_transfer_effect [OF assms(2) step_transfer] shrunk_refl by blast
next
  case (step_revoke a r)
  then show ?thesis
    using cap_revoke_revoking [OF assms(2) step_revoke] shrunk_refl by blast
next
  case (step_restart i)
  then show ?thesis
    using shrunk_update [OF step_restart(2), of "\<lambda>p. p\<lparr>proc_caps := proc_initial_caps p\<rparr>"] by auto
qed (use cap_move_shrunk cap_drop_shrunk switch_shrunk same_caps_shrunk in \<open>blast+\<close>)

lemma revoking_held:
  assumes "revoking rt R rt'"
  shows "held rt' = flag_revoked (set R) ` held rt" "rt_revoked_caps rt' = R" "rt_cap_lineage rt' = rt_cap_lineage rt"
    "cap_inv rt'"
proof -
  have same: "same_caps (flag_all (set R) (rt\<lparr>rt_revoked_caps := R\<rparr>)) rt'"
    using assms by (simp add: revoking_def)
  show "held rt' = flag_revoked (set R) ` held rt"
    using same_caps_held [OF same] held_cong [of "rt\<lparr>rt_revoked_caps := R\<rparr>" rt] by (simp add: held_flag_all)
  show "rt_revoked_caps rt' = R" "rt_cap_lineage rt' = rt_cap_lineage rt"
    using same by (simp_all add: same_caps_def)
  have "cap_inv (flag_all (set R) (rt\<lparr>rt_revoked_caps := R\<rparr>))"
    using assms by (simp add: revoking_def)
  then show "cap_inv rt'"
    using shrunk_inv same_caps_shrunk [OF same] by blast
qed

lemma cap_step_inv:
  assumes "cap_step rt rt'" "cap_inv rt"
  shows "cap_inv rt'"
  using cap_step_effect [OF assms] shrunk_inv [OF assms(2)] minted_inv [OF assms(2)] revoking_held(4) by blast

lemma cap_steps_inv: "cap_step\<^sup>*\<^sup>* rt rt' \<Longrightarrow> cap_inv rt \<Longrightarrow> cap_inv rt'"
proof (induction rule: rtranclp_induct)
  case (step y z)
  then show ?case
    using cap_step_inv [OF step(2)] by blast
qed

lemma cap_step_grows:
  assumes "cap_step rt rt'" "cap_inv rt"
  shows "set (rt_revoked_caps rt) \<subseteq> set (rt_revoked_caps rt')" "set (rt_cap_lineage rt) \<subseteq> set (rt_cap_lineage rt')"
  using cap_step_effect [OF assms] revoking_held(2,3)
  by (auto simp: shrunk_def minted_def revoking_def)

lemma cap_steps_revoked:
  assumes "cap_step\<^sup>*\<^sup>* rt rt'" "cap_inv rt"
  shows "set (rt_revoked_caps rt) \<subseteq> set (rt_revoked_caps rt')"
  using assms
proof (induction rule: rtranclp_induct)
  case (step y z)
  then show ?case
    using cap_step_grows(1) [OF step(2) cap_steps_inv [OF step(1)]] by blast
qed simp

lemma descends_mono:
  assumes "set (rt_cap_lineage rt) \<subseteq> set (rt_cap_lineage rt')" "descends rt i j"
  shows "descends rt' i j"
  using assms(2) by (rule rtranclp_mono [THEN predicate2D, rotated]) (use assms(1) in \<open>auto simp: parent_of_def\<close>)

section \<open>Attenuation along sequences\<close>

definition covered :: "runtime_state \<Rightarrow> runtime_state \<Rightarrow> capability \<Rightarrow> bool" where
  "covered rt rt' cap \<longleftrightarrow> (\<exists>origin \<in> held rt. descends rt' (cap_id cap) (cap_id origin) \<and>
    cap_object cap = cap_object origin \<and> cap_rights cap AND NOT (cap_rights origin) = 0)"

lemma rights_trans:
  fixes a b c :: u64
  assumes "a AND NOT b = 0" "b AND NOT c = 0"
  shows "a AND NOT c = 0"
  using assms by (auto simp: bit_eq_iff bit_simps)

lemma covered_step:
  assumes inv: "cap_inv rt'" and step: "cap_step rt' rt''" and cov: "\<And>cap. cap \<in> held rt' \<Longrightarrow> covered rt rt' cap"
    and cap: "cap \<in> held rt''"
  shows "covered rt rt'' cap"
proof -
  have up: "covered rt rt'' c" if "covered rt rt' c" for c
    using that descends_mono [OF cap_step_grows(2) [OF step inv]] by (auto simp: covered_def)
  show ?thesis
    using cap_step_effect [OF step inv]
  proof (elim disjE exE)
    assume "shrunk rt' rt''"
    then show ?thesis
      using cap cov up by (auto simp: shrunk_def)
  next
    fix R
    assume "revoking rt' R rt''"
    then obtain c where "c \<in> held rt'" "cap = flag_revoked (set R) c"
      using cap revoking_held(1) by auto
    then show ?thesis
      using up [OF cov [of c]] by (simp add: covered_def)
  next
    fix parent child
    assume m: "minted rt' parent child rt''"
    show ?thesis
    proof (cases "cap = child")
      case False
      then show ?thesis
        using m cap cov up by (auto simp: minted_def)
    next
      case True
      have "covered rt rt'' parent"
        using m cov up by (auto simp: minted_def)
      then obtain origin where o: "origin \<in> held rt" "descends rt'' (cap_id parent) (cap_id origin)"
        "cap_object parent = cap_object origin" "cap_rights parent AND NOT (cap_rights origin) = 0"
        by (auto simp: covered_def)
      have "parent_of rt'' (cap_id child) (cap_id parent)"
        using minted_parent_of [OF inv m] by simp
      then have "descends rt'' (cap_id cap) (cap_id origin)"
        using o(2) True by (auto intro: converse_rtranclp_into_rtranclp)
      moreover have "cap_object cap = cap_object origin" "cap_rights cap AND NOT (cap_rights origin) = 0"
        using m True o rights_trans [of "cap_rights child" "cap_rights parent"] by (auto simp: minted_def attenuates_def)
      ultimately show ?thesis
        using o(1) by (auto simp: covered_def)
    qed
  qed
qed

section \<open>Lookup\<close>

definition live :: "runtime_state \<Rightarrow> u64 \<Rightarrow> capability \<Rightarrow> bool" where
  "live rt right cap \<longleftrightarrow> cap_id cap \<notin> set (rt_revoked_caps rt) \<and> cap_generation_id cap = rt_generation_id rt \<and>
    cap_rights cap AND right = right"

definition caller_slot :: "runtime_state \<Rightarrow> u64 \<Rightarrow> capability option" where
  "caller_slot rt slot =
    (case current_process (rt_processes rt) of None \<Rightarrow> None | Some p \<Rightarrow> cspace_lookup (proc_caps p) slot)"

lemma caller_slot_held: "caller_slot rt slot = Some cap \<Longrightarrow> cap \<in> held rt"
  using held_of_slot current_process_mut_length by (fastforce simp: caller_slot_def current_process_nth split: option.splits)

lemma lookup_capability_eq:
  assumes "cap_inv rt"
  shows "lookup_capability rt slot right =
    (case caller_slot rt slot of
       Some cap \<Rightarrow> if live rt right cap then Inr cap else Inl BadCapability
     | None \<Rightarrow> Inl BadCapability)"
proof (cases "caller_slot rt slot")
  case None
  then show ?thesis
    by (auto simp: lookup_capability_def caller_slot_def split: option.splits)
next
  case (Some cap)
  note held = caller_slot_held [OF Some]
  have "cap_revoked cap \<longleftrightarrow> cap_id cap \<in> set (rt_revoked_caps rt)"
    using cap_invD(7) [OF assms held] .
  then show ?thesis
    using Some has_revoked_ancestor_held [OF assms held]
    by (auto simp: lookup_capability_def caller_slot_def cap_id_revoked_iff live_def split: option.splits)
qed

lemma cap_parent_id_eq: "cap_parent_id rt i = cap_parent_from_lineage rt i"
  by (simp add: cap_parent_id_def cap_parent_from_lineage_def)

lemma revoked_climb_eq:
  assumes "cap_inv rt"
  shows "cap_id_revoked_or_has_revoked_ancestor rt i = ancestor_scan rt i"
proof (induction "unat i" arbitrary: i rule: less_induct)
  case less
  note unfold = cap_id_revoked_or_has_revoked_ancestor.simps [of rt i] ancestor_scan.simps [of rt i]
    find_cap_parent_eq [OF assms] cap_parent_id_eq
  show ?case
  proof (cases "cap_parent_from_lineage rt i")
    case None
    then show ?thesis
      by (simp add: unfold ancestor_scan.simps [of rt 0])
  next
    case (Some j)
    then have "unat j < unat i"
      using lineage_parent [OF cap_invD(2) [OF assms], of i j] cap_invD(2) [OF assms] by (auto simp: lineage_ok_def)
    then show ?thesis
      using less Some by (simp add: unfold)
  qed
qed

section \<open>A sample system\<close>

definition sample_cap :: "u64 \<Rightarrow> u64 \<Rightarrow> u64 \<Rightarrow> capability" where
  "sample_cap i parent rights = \<lparr>cap_id = i, cap_object = 5, cap_rights = rights, cap_owner_process = 1,
    cap_parent_cap_id = parent, cap_generation_id = ''g1'', cap_delegated_by = 1, cap_revoked = False\<rparr>"

definition sample_rt :: runtime_state where
  "sample_rt = runtime_state_new\<lparr>rt_generation_id := ''g1'', rt_next_cap_id := 4,
    rt_cap_lineage := [\<lparr>cl_cap_id = 1, cl_parent_cap_id = 0\<rparr>, \<lparr>cl_cap_id = 2, cl_parent_cap_id = 1\<rparr>,
      \<lparr>cl_cap_id = 3, cl_parent_cap_id = 0\<rparr>],
    rt_processes := \<lparr>pt_processes = [sample_process\<lparr>proc_caps :=
        Some (sample_cap 1 0 0x30) # Some (sample_cap 2 1 0x10) # Some (sample_cap 3 0 0x30) # replicate 29 None\<rparr>],
      pt_current = Some 1, pt_next_id = 2\<rparr>\<rparr>"

lemma sample_rt_simps:
  "rt_next_cap_id sample_rt = 4" "rt_revoked_caps sample_rt = []" "rt_generation_id sample_rt = ''g1''"
  "rt_cap_lineage sample_rt = [\<lparr>cl_cap_id = 1, cl_parent_cap_id = 0\<rparr>, \<lparr>cl_cap_id = 2, cl_parent_cap_id = 1\<rparr>,
      \<lparr>cl_cap_id = 3, cl_parent_cap_id = 0\<rparr>]"
  by (simp_all add: sample_rt_def runtime_state_new_def)

lemma sample_process_fields: "proc_pid sample_process = 1" "proc_initial_caps sample_process = replicate MAX_CAPS None"
  by (simp_all add: sample_process_def process_new_def cspace_new_def Let_def)

lemma held_sample: "held sample_rt = {sample_cap 1 0 0x30, sample_cap 2 1 0x10, sample_cap 3 0 0x30}"
  by (auto simp: held_iff sample_rt_def sample_process_fields)

lemma cap_inv_sample: "cap_inv sample_rt"
proof (rule cap_invI, unfold held_sample)
  fix i j
  assume "parent_of sample_rt i j" "j \<in> set (rt_revoked_caps sample_rt)"
  then show "i \<in> set (rt_revoked_caps sample_rt)"
    by (simp add: sample_rt_simps)
qed (auto simp: sample_rt_simps lineage_ok_def MAX_CAP_LINEAGE_def sample_cap_def)

lemma sample_current: "current_process_mut (rt_processes sample_rt) = Some 0"
  by (simp add: current_process_mut_def process_mut_def process_index_def sample_rt_def sample_process_fields)

lemma sample_slots:
  "caller_slot sample_rt 0 = Some (sample_cap 1 0 0x30)" "caller_slot sample_rt 1 = Some (sample_cap 2 1 0x10)"
  "caller_slot sample_rt 2 = Some (sample_cap 3 0 0x30)" "caller_slot sample_rt 3 = None"
  by (simp_all add: caller_slot_def current_process_nth sample_current) (simp_all add: sample_rt_def cspace_lookup_def)

lemma sample_lookup:
  "lookup_capability sample_rt 0 0 = Inr (sample_cap 1 0 0x30)" "lookup_capability sample_rt 1 0x10 = Inr (sample_cap 2 1 0x10)"
  "lookup_capability sample_rt 2 0x30 = Inr (sample_cap 3 0 0x30)" "lookup_capability sample_rt 1 0x20 = Inl BadCapability"
  by (simp_all add: lookup_capability_eq [OF cap_inv_sample] sample_slots live_def sample_rt_simps) (simp_all add: sample_cap_def)

section \<open>Properties\<close>

text \<open>
  C21: A capability lookup is exact.  In a state that satisfies the
  capability invariant, the caller gets the capability in its slot if and
  only if that capability is unrevoked, of the running generation and carries
  every right asked for; the cached mark and the climb along the ancestors
  never disagree with the revocation list.  In every other case the answer is
  \<^verbatim>\<open>BadCapability\<close>.
\<close>

theorem lookup_exact:
  assumes "cap_inv rt"
  shows "(lookup_capability rt slot right = Inr cap \<longleftrightarrow>
      caller_slot rt slot = Some cap \<and> cap_id cap \<notin> set (rt_revoked_caps rt) \<and>
      cap_generation_id cap = rt_generation_id rt \<and> cap_rights cap AND right = right) \<and>
    (lookup_capability rt slot right = Inl BadCapability \<or> (\<exists>c. lookup_capability rt slot right = Inr c))"
  by (auto simp: lookup_capability_eq [OF assms] live_def split: option.splits if_splits)

theorem lookup_exact_witness:
  "lookup_capability sample_rt 1 0x10 = Inr (sample_cap 2 1 0x10) \<and> cap_rights (sample_cap 2 1 0x10) AND 0x10 = 0x10 \<and>
   lookup_capability sample_rt 1 0x20 = Inl BadCapability"
  using lookup_exact [OF cap_inv_sample, of 1 "0x10" "sample_cap 2 1 0x10"] sample_lookup by simp

text \<open>
  C18: The climbs along parent capabilities end.  Neither loop has a bound
  of its own, and a cycle of parents would keep either of them running; from
  a state that satisfies the invariant no sequence of capability calls,
  process switches, restarts and steps that leave capabilities alone (the
  steps of \<^const>\<open>cap_step\<close>) reaches a state in which one of them runs forever, and the answer is whether a revoked capability
  lies on the way to the root.
\<close>

theorem ancestor_climbs_end:
  assumes "cap_inv rt" "cap_step\<^sup>*\<^sup>* rt rt'"
  shows "capability_has_revoked_ancestor rt' cap =
      Some (\<exists>j. cap_parent_cap_id cap \<noteq> 0 \<and> descends rt' (cap_parent_cap_id cap) j \<and> j \<in> set (rt_revoked_caps rt')) \<and>
    cap_id_revoked_or_has_revoked_ancestor rt' i =
      Some (\<exists>j. i \<noteq> 0 \<and> descends rt' i j \<and> j \<in> set (rt_revoked_caps rt'))"
  unfolding capability_has_revoked_ancestor_def revoked_climb_eq [OF cap_steps_inv [OF assms(2,1)]]
  by (intro conjI ancestor_scan_eq cap_steps_inv [OF assms(2,1)])

theorem ancestor_climbs_end_witness:
  "cap_step\<^sup>*\<^sup>* sample_rt (fst (cap_derive sample_rt 0 3 0x10)) \<and>
   capability_has_revoked_ancestor (fst (cap_derive sample_rt 0 3 0x10)) (sample_cap 4 1 0x10) \<noteq> None \<and>
   cap_id_revoked_or_has_revoked_ancestor (fst (cap_derive sample_rt 0 3 0x10)) 4 \<noteq> None"
proof -
  have "cap_step\<^sup>*\<^sup>* sample_rt (fst (cap_derive sample_rt 0 3 0x10))"
    by (rule r_into_rtranclp) (rule step_derive [OF prod.collapse [symmetric]])
  then show ?thesis
    using ancestor_climbs_end [OF cap_inv_sample] by simp
qed

text \<open>
  C1: Revoking is complete and exact.  A caller that can look a capability
  up can revoke it, and the call succeeds: the revocation list has room for
  the whole subtree.  Afterwards the revoked ids are those revoked before and
  the descendants of the capability, direct or not, in any process.  For
  every process, slot and right, a lookup gives what it gave before, except
  that a descendant of the revoked capability is refused; the invariant
  holds again.
\<close>

definition acting :: "process_id \<Rightarrow> runtime_state \<Rightarrow> runtime_state" where
  "acting pid rt = rt\<lparr>rt_processes := set_current (rt_processes rt) pid\<rparr>"

lemma acting_simps [simp]:
  "rt_revoked_caps (acting pid rt) = rt_revoked_caps rt" "rt_generation_id (acting pid rt) = rt_generation_id rt"
  "cap_inv (acting pid rt) \<longleftrightarrow> cap_inv rt"
proof -
  have "shrunk rt (acting pid rt)" "shrunk (acting pid rt) rt"
    using held_cong [of "acting pid rt" rt] by (simp_all add: acting_def shrunk_def set_current_def)
  then show "cap_inv (acting pid rt) \<longleftrightarrow> cap_inv rt"
    using shrunk_inv by blast
qed (simp_all add: acting_def)

lemma acting_slot:
  "caller_slot (acting pid rt) slot =
    Option.bind (first_some (\<lambda>(i, caps, initial). if i = pid then Some caps else None)
      (map caps_view (pt_processes (rt_processes rt)))) (\<lambda>caps. cspace_lookup caps slot)"
proof -
  have "first_some (\<lambda>(i, caps, initial). if i = pid then Some caps else None) (map caps_view ps) =
      map_option proc_caps (first_some (\<lambda>p. if proc_pid p = pid then Some p else None) ps)" for ps
    by (induction ps) (simp_all add: caps_view_def)
  then show ?thesis
    by (simp add: caller_slot_def acting_def set_current_def current_process_def process_of_def split: option.split)
qed

lemma acting_slot_flag:
  assumes "same_caps (flag_all R rt) rt'"
  shows "caller_slot (acting pid rt') slot = map_option (flag_revoked R) (caller_slot (acting pid rt) slot)"
proof -
  have "map caps_view (pt_processes (rt_processes rt')) = map (caps_view \<circ> flag_process R) (pt_processes (rt_processes rt))"
    using assms by (simp add: same_caps_def flag_all_def)
  moreover have "Option.bind (first_some (\<lambda>(i, caps, initial). if i = pid then Some caps else None)
        (map (caps_view \<circ> flag_process R) ps)) (\<lambda>caps. cspace_lookup caps slot) =
      map_option (flag_revoked R) (Option.bind (first_some (\<lambda>(i, caps, initial). if i = pid then Some caps else None)
        (map caps_view ps)) (\<lambda>caps. cspace_lookup caps slot))" for ps
    by (induction ps) (simp_all add: caps_view_def cspace_lookup_def)
  ultimately show ?thesis
    by (simp only: acting_slot)
qed

theorem cap_revoke_exact:
  assumes "cap_inv rt" "lookup_capability rt slot 0 = Inr cap"
  shows "\<exists>rt'. cap_revoke rt slot = (rt', Inr ()) \<and> cap_inv rt' \<and>
    set (rt_revoked_caps rt') = set (rt_revoked_caps rt) \<union> {i. descends rt i (cap_id cap)} \<and>
    (\<forall>pid s right. lookup_capability (acting pid rt') s right =
      (case lookup_capability (acting pid rt) s right of
         Inl e \<Rightarrow> Inl e
       | Inr c \<Rightarrow> if descends rt (cap_id c) (cap_id cap) then Inl BadCapability else Inr c))"
proof -
  obtain R rt' where R: "cap_revoke rt slot = (rt', Inr ())"
    "set R = set (rt_revoked_caps rt) \<union> descendants rt {cap_id cap}" "revoking rt R rt'"
    using cap_revoke_effect [OF assms] by (auto simp: revoking_def)
  note held = revoking_held [OF R(3)]
  have D: "descendants rt {cap_id cap} = {i. descends rt i (cap_id cap)}"
    by (simp add: descendants_def)
  have same: "same_caps (flag_all (set R) (rt\<lparr>rt_revoked_caps := R\<rparr>)) rt'"
    using R(3) by (simp add: revoking_def)
  then have gen: "rt_generation_id rt' = rt_generation_id rt"
    by (simp add: same_caps_def)
  have "caller_slot (acting pid rt') s = map_option (flag_revoked (set R)) (caller_slot (acting pid rt) s)" for pid s
    using acting_slot_flag [OF same] by (simp add: acting_slot)
  then have "lookup_capability (acting pid rt') s right =
      (case lookup_capability (acting pid rt) s right of
         Inl e \<Rightarrow> Inl e
       | Inr c \<Rightarrow> if descends rt (cap_id c) (cap_id cap) then Inl BadCapability else Inr c)" for pid s right
    using assms(1) held(2,4) R(2)
    by (auto simp: lookup_capability_eq live_def gen D flag_revoked_def split: option.split)
  then show ?thesis
    using R(1) held(2,4) R(2) D by blast
qed

lemma sample_descends: "descends sample_rt 2 1" "\<not> descends sample_rt 3 1"
proof -
  show "descends sample_rt 2 1"
    by (rule r_into_rtranclp) (simp add: parent_of_def sample_rt_simps)
  have "\<not> parent_of sample_rt 3 j" for j
    by (simp add: parent_of_def sample_rt_simps)
  then show "\<not> descends sample_rt 3 1"
    by (auto elim: converse_rtranclpE)
qed

lemma acting_sample: "acting 1 sample_rt = sample_rt"
  by (simp add: acting_def set_current_def sample_rt_def runtime_state_new_def)

theorem cap_revoke_exact_witness:
  "\<exists>rt'. cap_revoke sample_rt 0 = (rt', Inr ()) \<and> cap_inv rt' \<and> 2 \<in> set (rt_revoked_caps rt') \<and>
    lookup_capability (acting 1 rt') 0 0 = Inl BadCapability \<and> lookup_capability (acting 1 rt') 1 0x10 = Inl BadCapability \<and>
    lookup_capability (acting 1 rt') 2 0x30 = Inr (sample_cap 3 0 0x30)"
proof -
  have ids: "cap_id (sample_cap i p r) = i" for i p r
    by (simp add: sample_cap_def)
  obtain rt' where rt': "cap_revoke sample_rt 0 = (rt', Inr ())" "cap_inv rt'"
    "set (rt_revoked_caps rt') = set (rt_revoked_caps sample_rt) \<union> {i. descends sample_rt i 1}"
    "\<And>pid s right. lookup_capability (acting pid rt') s right =
      (case lookup_capability (acting pid sample_rt) s right of
         Inl e \<Rightarrow> Inl e
       | Inr c \<Rightarrow> if descends sample_rt (cap_id c) 1 then Inl BadCapability else Inr c)"
    using cap_revoke_exact [OF cap_inv_sample sample_lookup(1)] unfolding ids by blast
  show ?thesis
    using rt'(1,2,3) sample_descends
    by (intro exI [of _ rt']) (simp add: rt'(4) acting_sample sample_lookup ids)
qed

text \<open>
  C5: Revocation is permanent.  Once a capability has been revoked, no
  sequence of capability calls by any process, switches, restarts and steps
  that leave capabilities alone (the steps of \<^const>\<open>cap_step\<close>) leads to a state
  in which a lookup returns that capability or anything that descends from it,
  whenever the descendant was made.
\<close>

theorem revocation_permanent:
  assumes "cap_inv rt" "lookup_capability rt slot 0 = Inr cap" "cap_revoke rt slot = (rt1, r)"
    and "cap_step\<^sup>*\<^sup>* rt1 rt2" "descends rt2 (cap_id c) (cap_id cap)"
  shows "lookup_capability rt2 s right \<noteq> Inr c"
proof
  assume c: "lookup_capability rt2 s right = Inr c"
  obtain R where R: "set R = set (rt_revoked_caps rt) \<union> descendants rt {cap_id cap}" "revoking rt R rt1"
    using cap_revoke_effect [OF assms(1,2)] assms(3) by (auto simp: revoking_def)
  then have "cap_id cap \<in> set (rt_revoked_caps rt1)"
    using revoking_held(2) [OF R(2)] descendants_refl [of "{cap_id cap}" rt] by auto
  then have "cap_id cap \<in> set (rt_revoked_caps rt2)"
    using cap_steps_revoked [OF assms(4) revoking_held(4) [OF R(2)]] by blast
  then have "cap_id c \<in> set (rt_revoked_caps rt2)"
    using revoked_down [OF cap_steps_inv [OF assms(4) revoking_held(4) [OF R(2)]] assms(5)] by blast
  then show False
    using lookup_capability_held(2) [OF c] by blast
qed

theorem revocation_permanent_witness:
  "lookup_capability (fst (cap_move (fst (cap_revoke sample_rt 0)) 0 3)) 3 0 \<noteq> Inr (sample_cap 1 0 0x30)"
proof -
  have "cap_step\<^sup>*\<^sup>* (fst (cap_revoke sample_rt 0)) (fst (cap_move (fst (cap_revoke sample_rt 0)) 0 3))"
    by (rule r_into_rtranclp) (rule step_move [OF prod.collapse [symmetric]])
  then show ?thesis
    by (rule revocation_permanent [OF cap_inv_sample sample_lookup(1) prod.collapse [symmetric]]) simp
qed

text \<open>
  C2: Authority is never amplified.  Whatever sequence of derivations,
  copies, moves, drops, transfers, revocations, switches and restarts runs,
  every capability held at the end, in a live or in a template space of any
  process, descends from one that was held at the start, names the same
  object, and has no right that one lacks.
\<close>

theorem no_amplification:
  assumes "cap_inv rt" "cap_step\<^sup>*\<^sup>* rt rt'" "cap \<in> held rt'"
  shows "\<exists>origin. origin \<in> held rt \<and> descends rt' (cap_id cap) (cap_id origin) \<and>
    cap_object cap = cap_object origin \<and> cap_rights cap AND NOT (cap_rights origin) = 0"
proof -
  have "\<forall>cap \<in> held rt'. covered rt rt' cap"
    using assms(2)
  proof (induction rule: rtranclp_induct)
    case base
    have "cap_rights cap AND NOT (cap_rights cap) = 0" for cap
      by simp
    then show ?case
      by (auto simp: covered_def)
  next
    case (step y z)
    then show ?case
      using covered_step [OF cap_steps_inv [OF step(1) assms(1)] step(2)] by blast
  qed
  then show ?thesis
    using assms(3) by (auto simp: covered_def)
qed

lemma sample_derive:
  "cap_derive sample_rt 0 3 0x10 =
    (grant_at (after_mint sample_rt 1) 0 3 (sample_cap 4 1 0x10), Inr ())"
proof -
  have "cspace_can_grant (proc_caps (pt_processes (rt_processes sample_rt) ! 0)) 3"
    by (simp add: sample_rt_def cspace_can_grant_def)
  moreover have "attenuates 0x10 (sample_cap 1 0 0x30)" "can_allocate_capability sample_rt"
    "proc_pid (pt_processes (rt_processes sample_rt) ! 0) = 1"
    by (simp_all add: attenuates_def sample_cap_def can_allocate_capability_def sample_rt_simps MAX_CAP_LINEAGE_def u64_max_def)
      (simp add: sample_rt_def sample_process_fields)
  ultimately show ?thesis
    by (simp add: cap_derive_eq [OF cap_inv_sample sample_current] sample_lookup) (simp add: child_of_def sample_cap_def sample_rt_simps)
qed

lemma sample_derived_held: "sample_cap 4 1 0x10 \<in> held (fst (cap_derive sample_rt 0 3 0x10))"
  unfolding sample_derive by (simp add: held_iff grant_at_def update_process_def) (simp add: sample_rt_def set_update_memI)

theorem no_amplification_witness:
  "\<exists>origin. origin \<in> held sample_rt \<and>
    descends (fst (cap_derive sample_rt 0 3 0x10)) (cap_id (sample_cap 4 1 0x10)) (cap_id origin) \<and>
    cap_object (sample_cap 4 1 0x10) = cap_object origin \<and> 0x10 AND NOT (cap_rights origin) = 0"
proof -
  have "cap_step\<^sup>*\<^sup>* sample_rt (fst (cap_derive sample_rt 0 3 0x10))"
    by (rule r_into_rtranclp) (rule step_derive [OF prod.collapse [symmetric]])
  from no_amplification [OF cap_inv_sample this sample_derived_held] show ?thesis
    by (simp add: sample_cap_def)
qed

lemma cap_move_error:
  assumes "cap_move rt a b = (rt', Inl e)"
  shows "rt' = rt"
proof -
  have "cspace_can_grant (cs[unat a := None]) b" if "cspace_can_grant cs b" for cs
    using that by (cases "unat a < length cs") (simp_all add: cspace_can_grant_def nth_list_update)
  then have "cspace_grant (cs[unat a := None]) b cap \<noteq> (cs', Inl e)" if "cspace_can_grant cs b" for cs cs' cap e
    using that cspace_grant_error by blast
  then show ?thesis
    using assms by (auto simp: cap_move_def Let_def cspace_clear_ok cspace_clear_error map_sum_def
        split: option.splits if_splits prod.splits sum.splits)
qed

text \<open>
  C16: A capability call that fails changes nothing.  Whichever of the six
  calls returns an error, and for whatever reason (no caller, an empty or
  dead slot, excess rights, an occupied or out-of-range target, the lineage
  table full), the kernel state afterwards is the state before: no id is
  consumed, no lineage recorded, no slot cleared, no partial revocation.
\<close>

theorem failed_cap_call_changes_nothing:
  assumes "cap_inv rt"
    and "(rt', Inl e) \<in> {cap_derive rt a b m, cap_copy rt a b m, cap_move rt a b, cap_drop rt a, cap_revoke rt a,
      cap_transfer rt a pid packed}"
  shows "rt' = rt"
proof -
  consider (derive) "cap_derive rt a b m = (rt', Inl e)" | (move) "cap_move rt a b = (rt', Inl e)" | (drop) "cap_drop rt a = (rt', Inl e)"
    | (revoke) "cap_revoke rt a = (rt', Inl e)" | (transfer) "cap_transfer rt a pid packed = (rt', Inl e)"
    using assms(2) by (simp add: cap_copy_eq_derive) metis
  then show ?thesis
  proof cases
    case derive
    then show ?thesis
      using cap_derive_effect [OF assms(1) derive] by simp
  next
    case drop
    then show ?thesis
      by (auto simp: cap_drop_def split: option.splits prod.splits sum.splits)
  next
    case transfer
    then show ?thesis
      using cap_transfer_effect [OF assms(1) transfer] by simp
  qed (use cap_move_error cap_revoke_error [OF assms(1)] in \<open>blast+\<close>)
qed

theorem failed_cap_call_changes_nothing_witness:
  "cap_derive sample_rt 1 3 0x20 = (sample_rt, Inl BadCapability)"
proof -
  have "\<not> attenuates 0x20 (sample_cap 2 1 0x10)" "lookup_capability sample_rt 1 0 = Inr (sample_cap 2 1 0x10)"
    by (simp_all add: attenuates_def lookup_capability_eq [OF cap_inv_sample] sample_slots live_def sample_rt_simps)
      (simp_all add: sample_cap_def)
  then have "snd (cap_derive sample_rt 1 3 0x20) = Inl BadCapability"
    by (simp add: cap_derive_eq [OF cap_inv_sample sample_current])
  then have "cap_derive sample_rt 1 3 0x20 = (fst (cap_derive sample_rt 1 3 0x20), Inl BadCapability)"
    by (metis prod.collapse)
  then show ?thesis
    using failed_cap_call_changes_nothing [OF cap_inv_sample, of "fst (cap_derive sample_rt 1 3 0x20)" BadCapability 1 3 "0x20"]
    by simp
qed

end
