(* ===== verification/Byte_Codec.thy ===== *)
theory Byte_Codec
  imports Vfs_Types
begin

text \<open>
  Little-endian integers in byte buffers (\<^verbatim>\<open>ipc/vfs_wire.rs\<close>,
  \<^verbatim>\<open>vfs/vertexfs.rs\<close>).  A buffer is the list of its bytes; a read
  takes the bytes from the offset on, a write splices the encoded value in.
  Offsets are in range at every use; the sections of an image are cut to
  their full length before they are read.
\<close>

section \<open>Encoding\<close>

fun to_le_bytes :: "nat \<Rightarrow> 'a::len word \<Rightarrow> u8 list" where
  "to_le_bytes 0 w = []"
| "to_le_bytes (Suc n) w = ucast w # to_le_bytes n (drop_bit 8 w)"

fun from_le_bytes :: "u8 list \<Rightarrow> 'a::len word" where
  "from_le_bytes [] = 0"
| "from_le_bytes (b # bs) = push_bit 8 (from_le_bytes bs) + ucast b"

definition read_u16_le :: "u8 list \<Rightarrow> nat \<Rightarrow> u16" where
  "read_u16_le source offset = from_le_bytes (take 2 (drop offset source))"

definition read_u32_le :: "u8 list \<Rightarrow> nat \<Rightarrow> u32" where
  "read_u32_le source offset = from_le_bytes (take 4 (drop offset source))"

definition read_u64_le :: "u8 list \<Rightarrow> nat \<Rightarrow> u64" where
  "read_u64_le source offset = from_le_bytes (take 8 (drop offset source))"

definition write_u16_le :: "u8 list \<Rightarrow> nat \<Rightarrow> u16 \<Rightarrow> u8 list" where
  "write_u16_le destination offset v = splice destination offset (to_le_bytes 2 v)"

definition write_u32_le :: "u8 list \<Rightarrow> nat \<Rightarrow> u32 \<Rightarrow> u8 list" where
  "write_u32_le destination offset v = splice destination offset (to_le_bytes 4 v)"

definition write_u64_le :: "u8 list \<Rightarrow> nat \<Rightarrow> u64 \<Rightarrow> u8 list" where
  "write_u64_le destination offset v = splice destination offset (to_le_bytes 8 v)"

definition copy_bytes :: "u8 list \<Rightarrow> nat \<Rightarrow> u8 list \<Rightarrow> u8 list" where
  "copy_bytes destination offset source = splice destination offset source"

section \<open>Round trips\<close>

lemma length_to_le_bytes [simp]: "length (to_le_bytes n w) = n"
  by (induction n arbitrary: w) simp_all

lemma from_to_le_bytes: "from_le_bytes (to_le_bytes n w) = take_bit (8 * n) w"
proof (induction n arbitrary: w)
  case (Suc n)
  have "push_bit 8 (take_bit (8 * n) (drop_bit 8 w)) + take_bit 8 w = take_bit (8 * Suc n) w"
    using bits_ident [of 8 "take_bit (8 * Suc n) w"] by (simp add: drop_bit_take_bit take_bit_take_bit)
  moreover have "(ucast (ucast w :: u8) :: 'a word) = take_bit 8 w"
    by (simp add: unsigned_ucast_eq)
  ultimately show ?case
    using Suc.IH by simp
qed simp

lemma from_to_le_16 [simp]: "from_le_bytes (to_le_bytes 2 w) = (w :: u16)"
  and from_to_le_32 [simp]: "from_le_bytes (to_le_bytes 4 x) = (x :: u32)"
  and from_to_le_64 [simp]: "from_le_bytes (to_le_bytes 8 y) = (y :: u64)"
  by (simp_all add: from_to_le_bytes take_bit_word_eq_self)

section \<open>Ranges of a buffer\<close>

text \<open>
  \<^verbatim>\<open>span xs a n\<close> is the range \<^verbatim>\<open>xs[a..a + n]\<close>.  Reading it after a
  splice gives the spliced bytes, or what was there when the ranges are apart.
\<close>

definition span :: "'a list \<Rightarrow> nat \<Rightarrow> nat \<Rightarrow> 'a list" where
  "span xs a n = take n (drop a xs)"

lemma length_span: "a + n \<le> length xs \<Longrightarrow> length (span xs a n) = n"
  by (simp add: span_def)

lemma nth_span: "k < n \<Longrightarrow> a + n \<le> length xs \<Longrightarrow> span xs a n ! k = xs ! (a + k)"
  by (simp add: span_def)

lemma span_eqI:
  assumes "a + n \<le> length xs" "b + n \<le> length ys" "\<And>k. k < n \<Longrightarrow> xs ! (a + k) = ys ! (b + k)"
  shows "span xs a n = span ys b n"
  using assms by (intro nth_equalityI) (simp_all add: length_span nth_span)

lemma span_splice:
  assumes "a + length ys \<le> length xs"
  shows "span (splice xs a ys) a (length ys) = ys"
  using assms by (intro nth_equalityI) (simp_all add: length_span nth_span nth_splice)

lemma span_splice_apart:
  assumes "a + length ys \<le> length xs" "b + n \<le> length xs" "b + n \<le> a \<or> a + length ys \<le> b"
  shows "span (splice xs a ys) b n = span xs b n"
  using assms by (intro span_eqI) (auto simp: nth_splice)

lemma span_splice_inside:
  assumes "a + length ys \<le> length xs" "a \<le> b" "b + n \<le> a + length ys"
  shows "span (splice xs a ys) b n = span ys (b - a) n"
  using assms by (intro span_eqI) (auto simp: nth_splice)

lemma span_splice_outside:
  assumes "a + n \<le> length xs" "a \<le> b" "b + length ys \<le> a + n"
  shows "span (splice xs b ys) a n = splice (span xs a n) (b - a) ys"
  using assms by (intro nth_equalityI) (auto simp: nth_splice length_span nth_span add.commute)

lemma span_span: "b + m \<le> n \<Longrightarrow> a + n \<le> length xs \<Longrightarrow> span (span xs a n) b m = span xs (a + b) m"
  by (intro nth_equalityI) (simp_all add: length_span nth_span add.assoc)

lemmas read_defs = read_u16_le_def read_u32_le_def read_u64_le_def
lemmas write_defs = write_u16_le_def write_u32_le_def write_u64_le_def copy_bytes_def

lemma read_spans:
  "read_u16_le s i = from_le_bytes (span s i 2)" "read_u32_le s i = from_le_bytes (span s i 4)"
  "read_u64_le s i = from_le_bytes (span s i 8)"
  by (simp_all add: read_defs span_def)

lemma length_writes [simp]:
  "length (write_u16_le s i a) = length s" "length (write_u32_le s i b) = length s"
  "length (write_u64_le s i c) = length s" "length (copy_bytes s i bs) = length s"
  by (simp_all add: write_defs)

lemma read_write_u16: "i + 2 \<le> length s \<Longrightarrow> read_u16_le (write_u16_le s i v) i = v"
  using span_splice [of i "to_le_bytes 2 v" s] by (simp add: read_spans write_defs)

lemma read_write_u32: "i + 4 \<le> length s \<Longrightarrow> read_u32_le (write_u32_le s i v) i = v"
  using span_splice [of i "to_le_bytes 4 v" s] by (simp add: read_spans write_defs)

lemma read_write_u64: "i + 8 \<le> length s \<Longrightarrow> read_u64_le (write_u64_le s i v) i = v"
  using span_splice [of i "to_le_bytes 8 v" s] by (simp add: read_spans write_defs)

text \<open>A field after a write to a buffer: the value when it is the field written, otherwise what it was.\<close>

lemma span_writes_apart:
  "a + n \<le> i \<or> i + 2 \<le> a \<Longrightarrow> i + 2 \<le> length s \<Longrightarrow> a + n \<le> length s \<Longrightarrow> span (write_u16_le s i u) a n = span s a n"
  "a + n \<le> i \<or> i + 4 \<le> a \<Longrightarrow> i + 4 \<le> length s \<Longrightarrow> a + n \<le> length s \<Longrightarrow> span (write_u32_le s i v) a n = span s a n"
  "a + n \<le> i \<or> i + 8 \<le> a \<Longrightarrow> i + 8 \<le> length s \<Longrightarrow> a + n \<le> length s \<Longrightarrow> span (write_u64_le s i w) a n = span s a n"
  "a + n \<le> i \<or> i + length bs \<le> a \<Longrightarrow> i + length bs \<le> length s \<Longrightarrow> a + n \<le> length s \<Longrightarrow>
    span (copy_bytes s i bs) a n = span s a n"
  by (simp_all add: write_defs span_splice_apart)

lemma span_writes_hit:
  "i + 2 \<le> length s \<Longrightarrow> span (write_u16_le s i u) i 2 = to_le_bytes 2 u"
  "i + 4 \<le> length s \<Longrightarrow> span (write_u32_le s i v) i 4 = to_le_bytes 4 v"
  "i + 8 \<le> length s \<Longrightarrow> span (write_u64_le s i w) i 8 = to_le_bytes 8 w"
  "n = length bs \<Longrightarrow> i + length bs \<le> length s \<Longrightarrow> span (copy_bytes s i bs) i n = bs"
  using span_splice [of i "to_le_bytes 2 u" s] span_splice [of i "to_le_bytes 4 v" s]
    span_splice [of i "to_le_bytes 8 w" s] span_splice [of i bs s]
  by (simp_all add: write_defs)

lemmas span_writes = span_writes_apart span_writes_hit

end
