(* ===== verification/VertexFs_Image.thy ===== *)
theory VertexFs_Image
  imports Byte_Codec
begin

text \<open>
  The on-disk format of VertexFS (\<^verbatim>\<open>vfs/vertexfs.rs\<close>): the two layouts,
  the checks that accept an image at boot, the recovery from the journal, and
  the writes a sync makes.  An image is the list of its bytes; every rejection
  is \<^verbatim>\<open>InvalidBootManifest\<close>, the reason only goes to the serial line.
\<close>

section \<open>Constants and layouts\<close>

definition bytes_of :: "string \<Rightarrow> u8 list" where
  "bytes_of s = map (\<lambda>c. of_nat (of_char c)) s"

text \<open>The sixteen-byte magics are names padded with zeros.\<close>

definition magic_of :: "string \<Rightarrow> u8 list" where
  "magic_of s = bytes_of s @ replicate (16 - length s) 0"

definition VERTEXFS_CHECKSUM_OFFSET :: nat where "VERTEXFS_CHECKSUM_OFFSET = 20"
definition VERTEXFS_SECTION_RECORD_LEN :: nat where "VERTEXFS_SECTION_RECORD_LEN = 16"
definition VERTEXFS_V2_VOLUME_OFFSET :: nat where "VERTEXFS_V2_VOLUME_OFFSET = 32"
definition VERTEXFS_INODE_ENTRY_OFFSET :: nat where "VERTEXFS_INODE_ENTRY_OFFSET = 32"
definition VERTEXFS_INODE_ENTRY_LEN :: nat where "VERTEXFS_INODE_ENTRY_LEN = 64"
definition VERTEXFS_DIRECTORY_ENTRY_OFFSET :: nat where "VERTEXFS_DIRECTORY_ENTRY_OFFSET = 32"
definition VERTEXFS_DIRECTORY_ENTRY_LEN :: nat where "VERTEXFS_DIRECTORY_ENTRY_LEN = 64"
definition VERTEXFS_DIRECTORY_NAME_BYTES :: nat where
  "VERTEXFS_DIRECTORY_NAME_BYTES = VERTEXFS_DIRECTORY_ENTRY_LEN - 12"
definition VERTEXFS_INODE_ROOT :: u32 where "VERTEXFS_INODE_ROOT = 1"
definition VERTEXFS_INODE_README :: u32 where "VERTEXFS_INODE_README = 2"
definition VERTEXFS_INODE_APP_DIR :: u32 where "VERTEXFS_INODE_APP_DIR = 3"
definition VERTEXFS_INODE_APP_A :: u32 where "VERTEXFS_INODE_APP_A = 4"
definition VERTEXFS_BASE_INODE_COUNT :: nat where "VERTEXFS_BASE_INODE_COUNT = 4"
definition VERTEXFS_BASE_DIRECTORY_COUNT :: nat where "VERTEXFS_BASE_DIRECTORY_COUNT = 3"
definition VERTEXFS_DYNAMIC_INODE_FIRST :: u32 where "VERTEXFS_DYNAMIC_INODE_FIRST = 5"
definition VERTEXFS_KIND_DIR :: u16 where "VERTEXFS_KIND_DIR = 1"
definition VERTEXFS_KIND_FILE :: u16 where "VERTEXFS_KIND_FILE = 2"
definition VERTEXFS_JOURNAL_STATE_CLEAN :: u16 where "VERTEXFS_JOURNAL_STATE_CLEAN = 0"
definition VERTEXFS_JOURNAL_STATE_PENDING :: u16 where "VERTEXFS_JOURNAL_STATE_PENDING = 1"
definition VERTEXFS_JOURNAL_PAYLOAD_OFFSET :: nat where "VERTEXFS_JOURNAL_PAYLOAD_OFFSET = 64"
definition VERTEXDISK_VERTEXFS_IMAGE_SECTOR :: u64 where "VERTEXDISK_VERTEXFS_IMAGE_SECTOR = 49209"

datatype vertexfs_format = FormatV1 | FormatV2

record vertexfs_layout =
  ly_format :: vertexfs_format
  ly_superblock_magic :: "u8 list"
  ly_inode_magic :: "u8 list"
  ly_directory_magic :: "u8 list"
  ly_free_map_magic :: "u8 list"
  ly_journal_magic :: "u8 list"
  ly_version :: u16
  ly_feature_flags :: u32
  ly_generation_offset :: nat
  ly_section_table_offset :: nat
  ly_inode_table_sector :: u64
  ly_inode_table_sectors :: u64
  ly_inode_table_bytes :: nat
  ly_directory_sector :: u64
  ly_directory_sectors :: u64
  ly_directory_bytes :: nat
  ly_free_map_sector :: u64
  ly_journal_sector :: u64
  ly_data_sector :: u64
  ly_data_sectors :: u64
  ly_dynamic_file_capacity :: nat
  ly_directory_dynamic_file_capacity :: nat

definition VERTEXFS_LAYOUT_V1 :: vertexfs_layout where
  "VERTEXFS_LAYOUT_V1 =
    \<lparr>ly_format = FormatV1, ly_superblock_magic = magic_of ''VERTEXFSV1'', ly_inode_magic = magic_of ''VFSINODEV1'',
     ly_directory_magic = magic_of ''VFSDIRV1'', ly_free_map_magic = magic_of ''VFSFREEV1'',
     ly_journal_magic = magic_of ''VFSJOURNALV1'', ly_version = 1, ly_feature_flags = 15,
     ly_generation_offset = 32, ly_section_table_offset = 128, ly_inode_table_sector = 1, ly_inode_table_sectors = 2,
     ly_inode_table_bytes = VERTEXFS_SECTOR_SIZE * 2, ly_directory_sector = 3, ly_directory_sectors = 2,
     ly_directory_bytes = VERTEXFS_SECTOR_SIZE * 2, ly_free_map_sector = 5, ly_journal_sector = 6, ly_data_sector = 7,
     ly_data_sectors = 57,
     ly_dynamic_file_capacity =
       (VERTEXFS_SECTOR_SIZE * 2 - VERTEXFS_INODE_ENTRY_OFFSET) div VERTEXFS_INODE_ENTRY_LEN - VERTEXFS_BASE_INODE_COUNT,
     ly_directory_dynamic_file_capacity =
       (VERTEXFS_SECTOR_SIZE * 2 - VERTEXFS_DIRECTORY_ENTRY_OFFSET) div VERTEXFS_DIRECTORY_ENTRY_LEN
         - VERTEXFS_BASE_DIRECTORY_COUNT\<rparr>"

definition VERTEXFS_LAYOUT_V2 :: vertexfs_layout where
  "VERTEXFS_LAYOUT_V2 =
    \<lparr>ly_format = FormatV2, ly_superblock_magic = magic_of ''VERTEXFSV2'', ly_inode_magic = magic_of ''VFSINODEV2'',
     ly_directory_magic = magic_of ''VFSDIRV2'', ly_free_map_magic = magic_of ''VFSFREEV2'',
     ly_journal_magic = magic_of ''VFSJOURNALV2'', ly_version = 2, ly_feature_flags = 31,
     ly_generation_offset = 96, ly_section_table_offset = 192, ly_inode_table_sector = 1, ly_inode_table_sectors = 8,
     ly_inode_table_bytes = VERTEXFS_SECTOR_SIZE * 8, ly_directory_sector = 9, ly_directory_sectors = 8,
     ly_directory_bytes = VERTEXFS_SECTOR_SIZE * 8, ly_free_map_sector = 17, ly_journal_sector = 18, ly_data_sector = 19,
     ly_data_sectors = 45, ly_dynamic_file_capacity = 45 - 2,
     ly_directory_dynamic_file_capacity =
       (VERTEXFS_SECTOR_SIZE * 8 - VERTEXFS_DIRECTORY_ENTRY_OFFSET) div VERTEXFS_DIRECTORY_ENTRY_LEN
         - VERTEXFS_BASE_DIRECTORY_COUNT\<rparr>"

section \<open>Sectors, strings and checksums\<close>

text \<open>
  The byte range of consecutive sectors; an offset that does not fit
  \<^verbatim>\<open>usize\<close> or a range past the end gives nothing.
\<close>

definition sector_range :: "u8 list \<Rightarrow> u64 \<Rightarrow> u64 \<Rightarrow> (nat \<times> nat) option" where
  "sector_range img first_sector sector_count =
    (let start = unat first_sector * VERTEXFS_SECTOR_SIZE; len = unat sector_count * VERTEXFS_SECTOR_SIZE
     in if start < 2 ^ 64 \<and> len < 2 ^ 64 \<and> start + len < 2 ^ 64 \<and> start + len \<le> length img
        then Some (start, len) else None)"

definition vertexfs_section :: "u8 list \<Rightarrow> u64 \<Rightarrow> u64 \<Rightarrow> (init_error, u8 list) result" where
  "vertexfs_section img first_sector sector_count =
    (case sector_range img first_sector sector_count of
       None \<Rightarrow> Inl InvalidBootManifest
     | Some (start, len) \<Rightarrow> Inr (span img start len))"

definition vertexfs_sector :: "u8 list \<Rightarrow> u64 \<Rightarrow> (init_error, u8 list) result" where
  "vertexfs_sector img sector = vertexfs_section img sector 1"

definition vertexfs_image_section :: "u8 list \<Rightarrow> u64 \<Rightarrow> u64 \<Rightarrow> (ipc_error, u8 list) result" where
  "vertexfs_image_section img first_sector sector_count =
    (case sector_range img first_sector sector_count of
       None \<Rightarrow> Inl VfsNoSpace
     | Some (start, len) \<Rightarrow> Inr (span img start len))"

definition vertexfs_image_sector :: "u8 list \<Rightarrow> u64 \<Rightarrow> (ipc_error, u8 list) result" where
  "vertexfs_image_sector img sector = vertexfs_image_section img sector 1"

text \<open>
  Writing through a mutable range: the bytes of the range are replaced by
  what the function makes of them, also when it fails half way.
\<close>

type_synonym edit = "u8 list \<times> (ipc_error, unit) result"

definition update_section :: "u8 list \<Rightarrow> u64 \<Rightarrow> u64 \<Rightarrow> (u8 list \<Rightarrow> edit) \<Rightarrow> edit" where
  "update_section img first_sector sector_count f =
    (case sector_range img first_sector sector_count of
       None \<Rightarrow> (img, Inl VfsNoSpace)
     | Some (start, len) \<Rightarrow> apfst (splice img start) (f (span img start len)))"

definition vertexfs_magic_matches :: "u8 list \<Rightarrow> u8 list \<Rightarrow> bool" where
  "vertexfs_magic_matches sector magic \<longleftrightarrow> take (length magic) sector = magic"

definition is_ascii_graphic :: "u8 \<Rightarrow> bool" where
  "is_ascii_graphic b \<longleftrightarrow> 0x21 \<le> b \<and> b \<le> 0x7e"

definition vertexfs_fixed_string :: "u8 list \<Rightarrow> nat \<Rightarrow> nat \<Rightarrow> (init_error, u8 list) result" where
  "vertexfs_fixed_string buffer offset max_len =
    (if length buffer < offset + max_len then Inl InvalidBootManifest
     else let field = span buffer offset max_len; text_bytes = takeWhile (\<lambda>b. b \<noteq> 0) field
          in if \<not> list_all (\<lambda>b. is_ascii_graphic b \<or> b = 0x20) text_bytes then Inl InvalidBootManifest
             else if text_bytes = [] then Inl InvalidBootManifest
             else if \<not> list_all (\<lambda>b. b = 0) (dropWhile (\<lambda>b. b \<noteq> 0) field) then Inl InvalidBootManifest
             else Inr text_bytes)"

definition vertexfs_fixed_string_eq :: "u8 list \<Rightarrow> nat \<Rightarrow> nat \<Rightarrow> u8 list \<Rightarrow> bool" where
  "vertexfs_fixed_string_eq buffer offset max_len expected \<longleftrightarrow>
    (if expected = [] \<or> max_len < length expected \<or> length buffer < offset + max_len then False
     else span buffer offset max_len = expected @ replicate (max_len - length expected) 0)"

definition vertexfs_checksum_valid :: "u8 list \<Rightarrow> bool" where
  "vertexfs_checksum_valid bytes \<longleftrightarrow>
    vertexfs_checksum32 (splice bytes VERTEXFS_CHECKSUM_OFFSET [0, 0, 0, 0]) = read_u32_le bytes VERTEXFS_CHECKSUM_OFFSET"

definition write_vertexfs_sector_checksum :: "u8 list \<Rightarrow> u8 list" where
  "write_vertexfs_sector_checksum sector =
    (let sector = write_u32_le sector VERTEXFS_CHECKSUM_OFFSET 0
     in write_u32_le sector VERTEXFS_CHECKSUM_OFFSET (vertexfs_checksum32 sector))"

definition vertexfs_layout_from_superblock :: "u8 list \<Rightarrow> (init_error, vertexfs_layout) result" where
  "vertexfs_layout_from_superblock superblock =
    (if vertexfs_magic_matches superblock (ly_superblock_magic VERTEXFS_LAYOUT_V2) then Inr VERTEXFS_LAYOUT_V2
     else if vertexfs_magic_matches superblock (ly_superblock_magic VERTEXFS_LAYOUT_V1) then Inr VERTEXFS_LAYOUT_V1
     else Inl InvalidBootManifest)"

definition vertexfs_layout_for_image :: "u8 list \<Rightarrow> (init_error, vertexfs_layout) result" where
  "vertexfs_layout_for_image img =
    (case vertexfs_sector img 0 of Inl e \<Rightarrow> Inl e | Inr superblock \<Rightarrow> vertexfs_layout_from_superblock superblock)"

text \<open>The lookup of the layout by the system calls, which report their own error.\<close>

definition layout_of :: "u8 list \<Rightarrow> (ipc_error, vertexfs_layout) result" where
  "layout_of img = map_sum (\<lambda>_. VfsUnsupported) id (vertexfs_layout_for_image img)"

definition vertexfs_section_matches :: "vertexfs_layout \<Rightarrow> u8 list \<Rightarrow> nat \<Rightarrow> u64 \<Rightarrow> u64 \<Rightarrow> bool" where
  "vertexfs_section_matches layout superblock index first_sector sector_count \<longleftrightarrow>
    (let offset = ly_section_table_offset layout + index * VERTEXFS_SECTION_RECORD_LEN
     in read_u64_le superblock offset = first_sector \<and> read_u64_le superblock (offset + 8) = sector_count)"

definition vertexfs_inode_table_section :: "u8 list \<Rightarrow> (ipc_error, u64 \<times> u64) result" where
  "vertexfs_inode_table_section img = map_sum id (\<lambda>l. (ly_inode_table_sector l, ly_inode_table_sectors l)) (layout_of img)"

definition vertexfs_directory_section :: "u8 list \<Rightarrow> (ipc_error, u64 \<times> u64) result" where
  "vertexfs_directory_section img = map_sum id (\<lambda>l. (ly_directory_sector l, ly_directory_sectors l)) (layout_of img)"

definition vertexfs_free_map_sector :: "u8 list \<Rightarrow> (ipc_error, u64) result" where
  "vertexfs_free_map_sector img = map_sum id ly_free_map_sector (layout_of img)"

definition vertexfs_journal_sector :: "u8 list \<Rightarrow> (ipc_error, u64) result" where
  "vertexfs_journal_sector img = map_sum id ly_journal_sector (layout_of img)"

definition vertexfs_device_absolute_sector :: "u64 \<Rightarrow> (ipc_error, u64) result" where
  "vertexfs_device_absolute_sector sector =
    (if of_nat VERTEXFS_SECTORS \<le> sector then Inl VfsUnsupported
     else case checked_add VERTEXDISK_VERTEXFS_IMAGE_SECTOR sector of None \<Rightarrow> Inl VfsUnsupported | Some s \<Rightarrow> Inr s)"

section \<open>Inodes and directory entries\<close>

definition vertexfs_inode_offset :: "vertexfs_layout \<Rightarrow> nat \<Rightarrow> (ipc_error, nat) result" where
  "vertexfs_inode_offset layout index =
    (let offset = VERTEXFS_INODE_ENTRY_OFFSET + index * VERTEXFS_INODE_ENTRY_LEN
     in if ly_inode_table_bytes layout < offset + VERTEXFS_INODE_ENTRY_LEN then Inl VfsUnsupported else Inr offset)"

definition vertexfs_directory_offset :: "vertexfs_layout \<Rightarrow> nat \<Rightarrow> (ipc_error, nat) result" where
  "vertexfs_directory_offset layout index =
    (let offset = VERTEXFS_DIRECTORY_ENTRY_OFFSET + index * VERTEXFS_DIRECTORY_ENTRY_LEN
     in if ly_directory_bytes layout < offset + VERTEXFS_DIRECTORY_ENTRY_LEN then Inl VfsUnsupported else Inr offset)"

definition vertexfs_read_inode :: "u8 list \<Rightarrow> nat \<Rightarrow> vertexfs_inode" where
  "vertexfs_read_inode sector index =
    (let offset = VERTEXFS_INODE_ENTRY_OFFSET + index * VERTEXFS_INODE_ENTRY_LEN
     in \<lparr>ino_id = read_u32_le sector offset, ino_kind = read_u16_le sector (offset + 4),
         ino_size = read_u64_le sector (offset + 8), ino_first_sector = read_u64_le sector (offset + 16),
         ino_sector_count = read_u32_le sector (offset + 24), ino_checksum = read_u32_le sector (offset + 28),
         ino_parent = read_u32_le sector (offset + 32)\<rparr>)"

definition vertexfs_inode_name_offset :: "nat \<Rightarrow> nat" where
  "vertexfs_inode_name_offset index = VERTEXFS_INODE_ENTRY_OFFSET + index * VERTEXFS_INODE_ENTRY_LEN + 36"

definition vertexfs_inode_name_eq :: "u8 list \<Rightarrow> nat \<Rightarrow> u8 list \<Rightarrow> bool" where
  "vertexfs_inode_name_eq sector index expected \<longleftrightarrow>
    vertexfs_fixed_string_eq sector (vertexfs_inode_name_offset index) 28 expected"

definition vertexfs_inode_reserved_zero :: "u8 list \<Rightarrow> nat \<Rightarrow> bool" where
  "vertexfs_inode_reserved_zero sector index \<longleftrightarrow>
    read_u16_le sector (VERTEXFS_INODE_ENTRY_OFFSET + index * VERTEXFS_INODE_ENTRY_LEN + 6) = 0"

definition vertexfs_directory_entry_eq :: "u8 list \<Rightarrow> nat \<Rightarrow> u32 \<Rightarrow> u32 \<Rightarrow> u16 \<Rightarrow> u8 list \<Rightarrow> bool" where
  "vertexfs_directory_entry_eq sector index parent child kind name \<longleftrightarrow>
    (let offset = VERTEXFS_DIRECTORY_ENTRY_OFFSET + index * VERTEXFS_DIRECTORY_ENTRY_LEN
     in read_u32_le sector offset = parent \<and> read_u32_le sector (offset + 4) = child \<and>
        read_u16_le sector (offset + 8) = kind \<and> read_u16_le sector (offset + 10) = 0 \<and>
        vertexfs_fixed_string_eq sector (offset + 12) VERTEXFS_DIRECTORY_NAME_BYTES name)"

definition vertexfs_inode_covers_sector :: "vertexfs_inode \<Rightarrow> u64 \<Rightarrow> bool" where
  "vertexfs_inode_covers_sector inode sector \<longleftrightarrow>
    (case checked_add (ino_first_sector inode) (ucast (ino_sector_count inode)) of
       None \<Rightarrow> False
     | Some e \<Rightarrow> ino_first_sector inode \<le> sector \<and> sector < e)"

definition vertexfs_sector_in_section :: "u64 \<Rightarrow> u64 \<Rightarrow> u64 \<Rightarrow> bool" where
  "vertexfs_sector_in_section sector first_sector sector_count \<longleftrightarrow>
    (case checked_add first_sector sector_count of
       None \<Rightarrow> False
     | Some e \<Rightarrow> first_sector \<le> sector \<and> sector < e)"

text \<open>The scan of the first \<^verbatim>\<open>count\<close> entries for an inode id.\<close>

fun scan_inodes :: "vertexfs_layout \<Rightarrow> u8 list \<Rightarrow> u32 \<Rightarrow> nat \<Rightarrow> nat \<Rightarrow> (ipc_error, nat option) result" where
  "scan_inodes layout sector inode_id index 0 = Inr None"
| "scan_inodes layout sector inode_id index (Suc n) =
    (case vertexfs_inode_offset layout index of
       Inl e \<Rightarrow> Inl e
     | Inr offset \<Rightarrow>
        if read_u32_le sector offset = inode_id then Inr (Some offset)
        else scan_inodes layout sector inode_id (Suc index) n)"

definition vertexfs_inode_offset_by_id :: "vertexfs_layout \<Rightarrow> u8 list \<Rightarrow> u32 \<Rightarrow> (ipc_error, nat) result" where
  "vertexfs_inode_offset_by_id layout sector inode_id =
    (case scan_inodes layout sector inode_id 0 (unat (read_u16_le sector 18)) of
       Inl e \<Rightarrow> Inl e
     | Inr None \<Rightarrow> Inl VfsUnsupported
     | Inr (Some offset) \<Rightarrow> Inr offset)"

definition vertexfs_image_has_inode :: "u8 list \<Rightarrow> u32 \<Rightarrow> (ipc_error, bool) result" where
  "vertexfs_image_has_inode img inode_id =
    (case layout_of img of
       Inl e \<Rightarrow> Inl e
     | Inr layout \<Rightarrow>
        (case vertexfs_image_section img (ly_inode_table_sector layout) (ly_inode_table_sectors layout) of
           Inl e \<Rightarrow> Inl e
         | Inr sector \<Rightarrow>
            map_sum id (\<lambda>found. found \<noteq> None) (scan_inodes layout sector inode_id 0 (unat (read_u16_le sector 18)))))"

definition vertexfs_dynamic_index_for_inode :: "vertexfs_layout \<Rightarrow> u32 \<Rightarrow> (ipc_error, nat) result" where
  "vertexfs_dynamic_index_for_inode layout inode_id =
    (if inode_id < VERTEXFS_DYNAMIC_INODE_FIRST then Inl VfsUnsupported
     else let index = unat (inode_id - VERTEXFS_DYNAMIC_INODE_FIRST)
          in if ly_dynamic_file_capacity layout \<le> index then Inl VfsUnsupported else Inr index)"

definition vertexfs_dynamic_inode_at :: "u8 list \<Rightarrow> nat \<Rightarrow> (ipc_error, u32) result" where
  "vertexfs_dynamic_inode_at img index =
    (case layout_of img of
       Inl e \<Rightarrow> Inl e
     | Inr layout \<Rightarrow>
        if ly_dynamic_file_capacity layout \<le> index then Inl VfsUnsupported
        else Inr (VERTEXFS_DYNAMIC_INODE_FIRST + of_nat index))"

definition vertexfs_dynamic_data_sector_at :: "u8 list \<Rightarrow> nat \<Rightarrow> (ipc_error, u64) result" where
  "vertexfs_dynamic_data_sector_at img index =
    (case layout_of img of
       Inl e \<Rightarrow> Inl e
     | Inr layout \<Rightarrow>
        if ly_dynamic_file_capacity layout \<le> index then Inl VfsUnsupported
        else Inr (ly_data_sector layout + 2 + of_nat index))"

section \<open>Accepting an image\<close>

record vertexfs_parsed_inodes =
  pi_readme :: vertexfs_inode
  pi_app_a :: vertexfs_inode
  pi_dynamic :: "vertexfs_inode list"

record vertexfs_journal_record =
  jr_target_inode :: u32
  jr_payload :: "u8 list"

record vertexfs_boot_file =
  bf_inode :: vertexfs_inode
  bf_payload :: "u8 list"

record vertexfs_boot_files =
  bf_generation :: "u8 list"
  bf_readme :: vertexfs_boot_file
  bf_app_a :: vertexfs_boot_file
  bf_journal_replayed :: bool

text \<open>
  The array of dynamic inodes is filled from the front, so it is the list of
  its entries.
\<close>

definition dynamic_inode_ok :: "vertexfs_layout \<Rightarrow> u8 list \<Rightarrow> nat \<Rightarrow> bool" where
  "dynamic_inode_ok layout sector k \<longleftrightarrow>
    (let index = VERTEXFS_BASE_INODE_COUNT + k; inode = vertexfs_read_inode sector index
     in ino_id inode = VERTEXFS_DYNAMIC_INODE_FIRST + of_nat k \<and> ino_kind inode = VERTEXFS_KIND_FILE \<and>
        ino_parent inode = VERTEXFS_INODE_APP_DIR \<and> ino_first_sector inode = ly_data_sector layout + 2 + of_nat k \<and>
        ino_sector_count inode = 1 \<and> vertexfs_inode_reserved_zero sector index \<and>
        \<not> isl (vertexfs_fixed_string sector (vertexfs_inode_name_offset index) 28))"

definition directory_inode_ok :: "u8 list \<Rightarrow> nat \<Rightarrow> u32 \<Rightarrow> u32 \<Rightarrow> u8 list \<Rightarrow> bool" where
  "directory_inode_ok sector index i parent name \<longleftrightarrow>
    (let inode = vertexfs_read_inode sector index
     in ino_id inode = i \<and> ino_kind inode = VERTEXFS_KIND_DIR \<and> ino_size inode = 0 \<and> ino_first_sector inode = 0 \<and>
        ino_sector_count inode = 0 \<and> ino_checksum inode = 0 \<and> ino_parent inode = parent \<and>
        vertexfs_inode_reserved_zero sector index \<and> vertexfs_inode_name_eq sector index name)"

definition file_inode_ok :: "u8 list \<Rightarrow> nat \<Rightarrow> u32 \<Rightarrow> u32 \<Rightarrow> u8 list \<Rightarrow> bool" where
  "file_inode_ok sector index i parent name \<longleftrightarrow>
    (let inode = vertexfs_read_inode sector index
     in ino_id inode = i \<and> ino_kind inode = VERTEXFS_KIND_FILE \<and> ino_parent inode = parent \<and>
        vertexfs_inode_reserved_zero sector index \<and> vertexfs_inode_name_eq sector index name)"

definition vertexfs_parse_inode_table :: "vertexfs_layout \<Rightarrow> u8 list \<Rightarrow> (init_error, vertexfs_parsed_inodes) result" where
  "vertexfs_parse_inode_table layout img =
    (case vertexfs_section img (ly_inode_table_sector layout) (ly_inode_table_sectors layout) of
       Inl e \<Rightarrow> Inl e
     | Inr sector \<Rightarrow>
        let count = unat (read_u16_le sector 18); dynamic_count = count - VERTEXFS_BASE_INODE_COUNT
        in if \<not> vertexfs_magic_matches sector (ly_inode_magic layout) then Inl InvalidBootManifest
           else if read_u16_le sector 16 \<noteq> ly_version layout \<or> \<not> vertexfs_checksum_valid sector
           then Inl InvalidBootManifest
           else if count < VERTEXFS_BASE_INODE_COUNT \<or>
                   VERTEXFS_BASE_INODE_COUNT + ly_dynamic_file_capacity layout < count
           then Inl InvalidBootManifest
           else if \<not> directory_inode_ok sector 0 VERTEXFS_INODE_ROOT 0 (bytes_of ''/'') then Inl InvalidBootManifest
           else if \<not> file_inode_ok sector 1 VERTEXFS_INODE_README VERTEXFS_INODE_ROOT (bytes_of ''readme'')
           then Inl InvalidBootManifest
           else if \<not> directory_inode_ok sector 2 VERTEXFS_INODE_APP_DIR VERTEXFS_INODE_ROOT (bytes_of ''app'')
           then Inl InvalidBootManifest
           else if \<not> file_inode_ok sector 3 VERTEXFS_INODE_APP_A VERTEXFS_INODE_APP_DIR (bytes_of ''a'')
           then Inl InvalidBootManifest
           else if \<not> list_all (dynamic_inode_ok layout sector) [0 ..< dynamic_count] then Inl InvalidBootManifest
           else Inr \<lparr>pi_readme = vertexfs_read_inode sector 1, pi_app_a = vertexfs_read_inode sector 3,
                     pi_dynamic = map (\<lambda>k. vertexfs_read_inode sector (VERTEXFS_BASE_INODE_COUNT + k)) [0 ..< dynamic_count]\<rparr>)"

definition dynamic_entry_ok :: "u8 list \<Rightarrow> u8 list \<Rightarrow> vertexfs_inode list \<Rightarrow> nat \<Rightarrow> bool" where
  "dynamic_entry_ok sector inode_sector dynamic k \<longleftrightarrow>
    (case vertexfs_fixed_string inode_sector (vertexfs_inode_name_offset (VERTEXFS_BASE_INODE_COUNT + k)) 28 of
       Inl e \<Rightarrow> False
     | Inr inode_name \<Rightarrow>
        vertexfs_directory_entry_eq sector (VERTEXFS_BASE_DIRECTORY_COUNT + k) VERTEXFS_INODE_APP_DIR (ino_id (dynamic ! k))
          VERTEXFS_KIND_FILE inode_name)"

definition vertexfs_validate_directory :: "vertexfs_layout \<Rightarrow> u8 list \<Rightarrow> vertexfs_inode list \<Rightarrow> (init_error, unit) result" where
  "vertexfs_validate_directory layout img dynamic =
    (case vertexfs_section img (ly_directory_sector layout) (ly_directory_sectors layout) of
       Inl e \<Rightarrow> Inl e
     | Inr sector \<Rightarrow>
        let count = unat (read_u16_le sector 18); dynamic_count = min (ly_dynamic_file_capacity layout) (length dynamic)
        in if \<not> vertexfs_magic_matches sector (ly_directory_magic layout) then Inl InvalidBootManifest
           else if read_u16_le sector 16 \<noteq> ly_version layout \<or> \<not> vertexfs_checksum_valid sector
           then Inl InvalidBootManifest
           else if count < VERTEXFS_BASE_DIRECTORY_COUNT \<or>
                   VERTEXFS_BASE_DIRECTORY_COUNT + ly_directory_dynamic_file_capacity layout < count
           then Inl InvalidBootManifest
           else if count \<noteq> VERTEXFS_BASE_DIRECTORY_COUNT + dynamic_count then Inl InvalidBootManifest
           else if \<not> vertexfs_directory_entry_eq sector 0 VERTEXFS_INODE_ROOT VERTEXFS_INODE_README VERTEXFS_KIND_FILE
                     (bytes_of ''readme'') \<or>
                   \<not> vertexfs_directory_entry_eq sector 1 VERTEXFS_INODE_ROOT VERTEXFS_INODE_APP_DIR VERTEXFS_KIND_DIR
                     (bytes_of ''app'') \<or>
                   \<not> vertexfs_directory_entry_eq sector 2 VERTEXFS_INODE_APP_DIR VERTEXFS_INODE_APP_A VERTEXFS_KIND_FILE
                     (bytes_of ''a'')
           then Inl InvalidBootManifest
           else case vertexfs_section img (ly_inode_table_sector layout) (ly_inode_table_sectors layout) of
                  Inl e \<Rightarrow> Inl e
                | Inr inode_sector \<Rightarrow>
                   if list_all (dynamic_entry_ok sector inode_sector dynamic) [0 ..< dynamic_count] then Inr ()
                   else Inl InvalidBootManifest)"

definition vertexfs_parse_journal :: "vertexfs_layout \<Rightarrow> u8 list \<Rightarrow> (init_error, vertexfs_journal_record option) result" where
  "vertexfs_parse_journal layout img =
    (case vertexfs_sector img (ly_journal_sector layout) of
       Inl e \<Rightarrow> Inl e
     | Inr sector \<Rightarrow>
        let state = read_u16_le sector 18; target_inode = read_u32_le sector 24; payload_len = read_u32_le sector 28;
            payload_checksum = read_u32_le sector 32; payload_end = VERTEXFS_JOURNAL_PAYLOAD_OFFSET + unat payload_len;
            payload = span sector VERTEXFS_JOURNAL_PAYLOAD_OFFSET (unat payload_len)
        in if \<not> vertexfs_magic_matches sector (ly_journal_magic layout) then Inl InvalidBootManifest
           else if read_u16_le sector 16 \<noteq> ly_version layout \<or> \<not> vertexfs_checksum_valid sector
           then Inl InvalidBootManifest
           else if state = VERTEXFS_JOURNAL_STATE_CLEAN then Inr None
           else if state \<noteq> VERTEXFS_JOURNAL_STATE_PENDING then Inl InvalidBootManifest
           else if ly_format layout = FormatV2 \<and>
                   (read_u32_le sector 48 \<noteq> target_inode \<or> read_u32_le sector 52 \<noteq> payload_len \<or>
                    read_u32_le sector 56 \<noteq> payload_checksum \<or> read_u64_le sector 40 = 0)
           then Inl InvalidBootManifest
           else if length sector < payload_end then Inl InvalidBootManifest
           else if vertexfs_checksum32 payload \<noteq> payload_checksum then Inl InvalidBootManifest
           else Inr (Some \<lparr>jr_target_inode = target_inode, jr_payload = payload\<rparr>))"

definition vertexfs_file_extent_payload :: "u8 list \<Rightarrow> vertexfs_inode \<Rightarrow> (init_error, u8 list \<times> u64 \<times> u64) result" where
  "vertexfs_file_extent_payload img inode =
    (if ino_sector_count inode = 0 then Inl InvalidBootManifest
     else case checked_add (ino_first_sector inode) (ucast (ino_sector_count inode)) of
            None \<Rightarrow> Inl InvalidBootManifest
          | Some end_sector \<Rightarrow>
             (case vertexfs_layout_for_image img of
                Inl e \<Rightarrow> Inl e
              | Inr layout \<Rightarrow>
                 let max_len = ucast (ino_sector_count inode) * of_nat VERTEXFS_SECTOR_SIZE;
                     start = unat (ino_first_sector inode) * VERTEXFS_SECTOR_SIZE; len = unat (ino_size inode)
                 in if ino_first_sector inode < ly_data_sector layout \<or>
                       ly_data_sector layout + ly_data_sectors layout < end_sector
                    then Inl InvalidBootManifest
                    else if max_len < ino_size inode \<or> MAX_VERTEXFS_FILE_BYTES < len then Inl InvalidBootManifest
                    else if 2 ^ 64 \<le> start \<or> 2 ^ 64 \<le> start + len \<or> length img < start + len
                    then Inl InvalidBootManifest
                    else Inr (span img start len, ino_first_sector inode, end_sector)))"

definition vertexfs_file_payload :: "u8 list \<Rightarrow> vertexfs_inode \<Rightarrow> (init_error, u8 list \<times> u64 \<times> u64) result" where
  "vertexfs_file_payload img inode =
    (case vertexfs_file_extent_payload img inode of
       Inl e \<Rightarrow> Inl e
     | Inr (payload, first_sector, end_sector) \<Rightarrow>
        if vertexfs_checksum32 payload \<noteq> ino_checksum inode then Inl InvalidBootManifest
        else Inr (payload, first_sector, end_sector))"

definition vertexfs_extent_starts_with :: "u8 list \<Rightarrow> vertexfs_inode \<Rightarrow> u8 list \<Rightarrow> bool" where
  "vertexfs_extent_starts_with img inode payload \<longleftrightarrow>
    (let start = unat (ino_first_sector inode) * VERTEXFS_SECTOR_SIZE
     in start < 2 ^ 64 \<and> start + length payload < 2 ^ 64 \<and> start + length payload \<le> length img \<and>
        span img start (length payload) = payload)"

definition vertexfs_recoverable_file_payload :: "u8 list \<Rightarrow> vertexfs_inode \<Rightarrow> vertexfs_journal_record option
    \<Rightarrow> (init_error, u8 list \<times> u64 \<times> u64) result" where
  "vertexfs_recoverable_file_payload img inode journal =
    (case vertexfs_file_extent_payload img inode of
       Inl e \<Rightarrow> Inl e
     | Inr (payload, first_sector, end_sector) \<Rightarrow>
        if vertexfs_checksum32 payload = ino_checksum inode then Inr (payload, first_sector, end_sector)
        else case journal of
               Some r \<Rightarrow>
                 if jr_target_inode r = ino_id inode \<and> vertexfs_extent_starts_with img inode (jr_payload r)
                 then Inr (jr_payload r, first_sector, end_sector)
                 else Inl InvalidBootManifest
             | None \<Rightarrow> Inl InvalidBootManifest)"

definition sector_expected :: "vertexfs_layout \<Rightarrow> vertexfs_inode \<Rightarrow> vertexfs_inode \<Rightarrow> vertexfs_inode list \<Rightarrow> u64 \<Rightarrow> bool" where
  "sector_expected layout readme app_a dynamic sector_number \<longleftrightarrow>
    sector_number = 0 \<or>
    vertexfs_sector_in_section sector_number (ly_inode_table_sector layout) (ly_inode_table_sectors layout) \<or>
    vertexfs_sector_in_section sector_number (ly_directory_sector layout) (ly_directory_sectors layout) \<or>
    sector_number = ly_free_map_sector layout \<or> sector_number = ly_journal_sector layout \<or>
    vertexfs_inode_covers_sector readme sector_number \<or> vertexfs_inode_covers_sector app_a sector_number \<or>
    list_ex (\<lambda>inode. vertexfs_inode_covers_sector inode sector_number)
      (take (ly_dynamic_file_capacity layout) dynamic)"

definition vertexfs_validate_free_map :: "vertexfs_layout \<Rightarrow> u8 list \<Rightarrow> vertexfs_inode \<Rightarrow> vertexfs_inode
    \<Rightarrow> vertexfs_inode list \<Rightarrow> (init_error, unit) result" where
  "vertexfs_validate_free_map layout img readme app_a dynamic =
    (case vertexfs_sector img (ly_free_map_sector layout) of
       Inl e \<Rightarrow> Inl e
     | Inr sector \<Rightarrow>
        if \<not> vertexfs_magic_matches sector (ly_free_map_magic layout) then Inl InvalidBootManifest
        else if read_u16_le sector 16 \<noteq> ly_version layout \<or> \<not> vertexfs_checksum_valid sector then Inl InvalidBootManifest
        else if unat (read_u16_le sector 18) \<noteq> VERTEXFS_SECTORS then Inl InvalidBootManifest
        else if list_all (\<lambda>k. (sector ! (32 + k) = 0 \<or> sector ! (32 + k) = 1) \<and>
                   (sector ! (32 + k) = 1 \<longleftrightarrow> sector_expected layout readme app_a dynamic (of_nat k)))
                 [0 ..< VERTEXFS_SECTORS]
        then Inr () else Inl InvalidBootManifest)"

definition vertexfs_replay_journal :: "vertexfs_inode \<Rightarrow> u8 list \<Rightarrow> vertexfs_journal_record option
    \<Rightarrow> (init_error, u8 list \<times> bool) result" where
  "vertexfs_replay_journal app_a_inode base_app_a journal =
    (case journal of
       None \<Rightarrow> Inr (base_app_a, False)
     | Some r \<Rightarrow>
        if jr_target_inode r \<noteq> VERTEXFS_INODE_APP_A \<or> ino_id app_a_inode \<noteq> VERTEXFS_INODE_APP_A
        then Inl InvalidBootManifest
        else if MAX_VERTEXFS_FILE_BYTES < length (jr_payload r) then Inl InvalidBootManifest
        else if ucast (ino_sector_count app_a_inode) * of_nat VERTEXFS_SECTOR_SIZE < (of_nat (length (jr_payload r)) :: u64)
        then Inl InvalidBootManifest
        else Inr (jr_payload r, True))"

definition extents_overlap :: "u64 \<times> u64 \<Rightarrow> u64 \<times> u64 \<Rightarrow> bool" where
  "extents_overlap a b \<longleftrightarrow> fst a < snd b \<and> fst b < snd a"

text \<open>The loop over the dynamic files: each extent is checked against the two fixed files and the ones before.\<close>

fun check_dynamic_extents :: "u8 list \<Rightarrow> (u64 \<times> u64) list \<Rightarrow> vertexfs_inode list \<Rightarrow> (init_error, unit) result" where
  "check_dynamic_extents img prior [] = Inr ()"
| "check_dynamic_extents img prior (inode # inodes) =
    (case vertexfs_file_payload img inode of
       Inl e \<Rightarrow> Inl e
     | Inr (_, extent) \<Rightarrow>
        if list_ex (extents_overlap extent) prior then Inl InvalidBootManifest
        else check_dynamic_extents img (prior @ [extent]) inodes)"

definition superblock_ok :: "vertexfs_layout \<Rightarrow> u8 list \<Rightarrow> bool" where
  "superblock_ok layout superblock \<longleftrightarrow>
    (ly_format layout = FormatV2 \<longrightarrow> \<not> isl (vertexfs_fixed_string superblock VERTEXFS_V2_VOLUME_OFFSET 64)) \<and>
    vertexfs_magic_matches superblock (ly_superblock_magic layout) \<and> read_u16_le superblock 16 = ly_version layout \<and>
    unat (read_u16_le superblock 18) = VERTEXFS_SECTOR_SIZE \<and> vertexfs_checksum_valid superblock \<and>
    unat (read_u32_le superblock 24) = VERTEXFS_SECTORS \<and> read_u32_le superblock 28 = ly_feature_flags layout \<and>
    vertexfs_section_matches layout superblock 0 (ly_inode_table_sector layout) (ly_inode_table_sectors layout) \<and>
    vertexfs_section_matches layout superblock 1 (ly_directory_sector layout) (ly_directory_sectors layout) \<and>
    vertexfs_section_matches layout superblock 2 (ly_free_map_sector layout) 1 \<and>
    vertexfs_section_matches layout superblock 3 (ly_journal_sector layout) 1 \<and>
    vertexfs_section_matches layout superblock 4 (ly_data_sector layout) (ly_data_sectors layout)"

text \<open>What follows the checks of the superblock.\<close>

definition parse_files :: "vertexfs_layout \<Rightarrow> u8 list \<Rightarrow> u8 list \<Rightarrow> (init_error, vertexfs_boot_files) result" where
  "parse_files layout img generation =
    (case vertexfs_parse_journal layout img of
       Inl e \<Rightarrow> Inl e
     | Inr journal \<Rightarrow>
    (case vertexfs_parse_inode_table layout img of
       Inl e \<Rightarrow> Inl e
     | Inr inodes \<Rightarrow>
    (case vertexfs_validate_directory layout img (pi_dynamic inodes) of
       Inl e \<Rightarrow> Inl e
     | Inr _ \<Rightarrow>
    (case vertexfs_file_payload img (pi_readme inodes) of
       Inl e \<Rightarrow> Inl e
     | Inr (readme, readme_extent) \<Rightarrow>
    (case vertexfs_recoverable_file_payload img (pi_app_a inodes) journal of
       Inl e \<Rightarrow> Inl e
     | Inr (base_app_a, app_a_extent) \<Rightarrow>
        if extents_overlap readme_extent app_a_extent then Inl InvalidBootManifest
        else case check_dynamic_extents img [readme_extent, app_a_extent]
                    (take (ly_dynamic_file_capacity layout) (pi_dynamic inodes)) of
               Inl e \<Rightarrow> Inl e
             | Inr _ \<Rightarrow>
            (case vertexfs_validate_free_map layout img (pi_readme inodes) (pi_app_a inodes) (pi_dynamic inodes) of
               Inl e \<Rightarrow> Inl e
             | Inr _ \<Rightarrow>
                (case vertexfs_replay_journal (pi_app_a inodes) base_app_a journal of
                   Inl e \<Rightarrow> Inl e
                 | Inr (app_a, journal_replayed) \<Rightarrow>
                    Inr \<lparr>bf_generation = generation,
                         bf_readme = \<lparr>bf_inode = pi_readme inodes, bf_payload = readme\<rparr>,
                         bf_app_a = \<lparr>bf_inode = pi_app_a inodes, bf_payload = app_a\<rparr>,
                         bf_journal_replayed = journal_replayed\<rparr>)))))))"

definition parse_vertexfs_image :: "u8 list \<Rightarrow> (init_error, vertexfs_boot_files) result" where
  "parse_vertexfs_image img =
    (case vertexfs_sector img 0 of
       Inl e \<Rightarrow> Inl e
     | Inr superblock \<Rightarrow>
        (case vertexfs_layout_from_superblock superblock of
           Inl e \<Rightarrow> Inl e
         | Inr layout \<Rightarrow>
            if \<not> superblock_ok layout superblock then Inl InvalidBootManifest
            else case vertexfs_fixed_string superblock (ly_generation_offset layout) 64 of
                   Inl e \<Rightarrow> Inl e
                 | Inr generation \<Rightarrow> parse_files layout img generation))"

section \<open>Writing an image\<close>

text \<open>
  A slice that is out of range stops the kernel; that is the outer
  \<^const>\<open>None\<close> of the writers that cut one from a length they do not check.
\<close>

definition journal_header :: "vertexfs_layout \<Rightarrow> u16 \<Rightarrow> nat \<Rightarrow> u8 list" where
  "journal_header layout state n =
    write_u16_le (write_u16_le (copy_bytes (replicate n 0) 0 (ly_journal_magic layout)) 16 (ly_version layout)) 18 state"

definition pending_sector :: "vertexfs_layout \<Rightarrow> u32 \<Rightarrow> u8 list \<Rightarrow> nat \<Rightarrow> u8 list" where
  "pending_sector layout inode_id payload n =
    (let len = of_nat (length payload); checksum = vertexfs_checksum32 payload;
         sector = journal_header layout VERTEXFS_JOURNAL_STATE_PENDING n;
         sector = write_u32_le (write_u32_le (write_u32_le sector 24 inode_id) 28 len) 32 checksum;
         sector = (if ly_format layout = FormatV2
           then write_u32_le (write_u32_le (write_u32_le (write_u64_le sector 40 1) 48 inode_id) 52 len) 56 checksum
           else sector)
     in write_vertexfs_sector_checksum (copy_bytes sector VERTEXFS_JOURNAL_PAYLOAD_OFFSET payload))"

definition write_vertexfs_journal_pending :: "u8 list \<Rightarrow> u32 \<Rightarrow> u8 list \<Rightarrow> edit option" where
  "write_vertexfs_journal_pending img inode_id payload =
    (case layout_of img of
       Inl e \<Rightarrow> Some (img, Inl e)
     | Inr layout \<Rightarrow>
        if sector_range img (ly_journal_sector layout) 1 = None then Some (img, Inl VfsNoSpace)
        else if VERTEXFS_SECTOR_SIZE < VERTEXFS_JOURNAL_PAYLOAD_OFFSET + length payload then None
        else Some (update_section img (ly_journal_sector layout) 1
               (\<lambda>sector. (pending_sector layout inode_id payload (length sector), Inr ()))))"

definition clean_sector :: "vertexfs_layout \<Rightarrow> nat \<Rightarrow> u8 list" where
  "clean_sector layout n = write_vertexfs_sector_checksum (journal_header layout VERTEXFS_JOURNAL_STATE_CLEAN n)"

definition write_vertexfs_journal_clean :: "u8 list \<Rightarrow> edit" where
  "write_vertexfs_journal_clean img =
    (case layout_of img of
       Inl e \<Rightarrow> (img, Inl e)
     | Inr layout \<Rightarrow>
        update_section img (ly_journal_sector layout) 1 (\<lambda>sector. (clean_sector layout (length sector), Inr ())))"

definition write_vertexfs_file_extent :: "u8 list \<Rightarrow> vertexfs_file \<Rightarrow> edit option" where
  "write_vertexfs_file_extent img f =
    (let start = unat (vx_first_sector f) * VERTEXFS_SECTOR_SIZE;
         extent_len = unat (vx_sector_count f) * VERTEXFS_SECTOR_SIZE
     in if 2 ^ 64 \<le> start \<or> 2 ^ 32 \<le> extent_len \<or> 2 ^ 64 \<le> start + extent_len then Some (img, Inl VfsNoSpace)
        else if length img < start + extent_len then Some (img, Inl VfsNoSpace)
        else if extent_len < vx_len f \<or> length (vx_bytes f) < vx_len f then None
        else Some (splice img start (take (vx_len f) (vx_bytes f) @ replicate (extent_len - vx_len f) 0), Inr ()))"

definition inode_record :: "u8 list \<Rightarrow> nat \<Rightarrow> nat \<Rightarrow> u32 \<Rightarrow> u8 list" where
  "inode_record sector offset len checksum =
    write_vertexfs_sector_checksum (write_u32_le (write_u64_le sector (offset + 8) (of_nat len)) (offset + 28) checksum)"

definition write_vertexfs_inode_record :: "u8 list \<Rightarrow> vertexfs_file \<Rightarrow> u32 \<Rightarrow> edit" where
  "write_vertexfs_inode_record img f checksum =
    (case layout_of img of
       Inl e \<Rightarrow> (img, Inl e)
     | Inr layout \<Rightarrow>
        update_section img (ly_inode_table_sector layout) (ly_inode_table_sectors layout)
          (\<lambda>sector. case vertexfs_inode_offset_by_id layout sector (vx_inode_id f) of
             Inl e \<Rightarrow> (sector, Inl e)
           | Inr offset \<Rightarrow> (inode_record sector offset (vx_len f) checksum, Inr ())))"

definition write_vertexfs_fixed_vfs_name :: "u8 list \<Rightarrow> nat \<Rightarrow> nat \<Rightarrow> vfs_name \<Rightarrow> edit" where
  "write_vertexfs_fixed_vfs_name sector offset max_len name =
    (if name_len name = 0 \<or> max_len < name_len name \<or> length sector < offset + max_len then (sector, Inl VfsUnsupported)
     else (copy_bytes (splice sector offset (replicate max_len 0)) offset (vfs_name_as_bytes name), Inr ()))"

text \<open>The name is the last field of an entry; the checksum is renewed only when it was written.\<close>

definition finish_entry :: "edit \<Rightarrow> edit" where
  "finish_entry x = (case x of (sector, Inl e) \<Rightarrow> (sector, Inl e) | (sector, Inr _) \<Rightarrow> (write_vertexfs_sector_checksum sector, Inr ()))"

definition dynamic_inode_entry :: "vertexfs_layout \<Rightarrow> vertexfs_file \<Rightarrow> u32 \<Rightarrow> nat \<Rightarrow> u8 list \<Rightarrow> edit" where
  "dynamic_inode_entry layout f checksum k sector =
    (let expected = VERTEXFS_BASE_INODE_COUNT + k
     in if unat (read_u16_le sector 18) \<noteq> expected then (sector, Inl VfsUnsupported)
        else let sector = write_u16_le sector 18 (of_nat (expected + 1))
             in case vertexfs_inode_offset layout expected of
                  Inl e \<Rightarrow> (sector, Inl e)
                | Inr offset \<Rightarrow>
                   let sector = write_u16_le (write_u16_le (write_u32_le sector offset (vx_inode_id f)) (offset + 4)
                         VERTEXFS_KIND_FILE) (offset + 6) 0;
                       sector = write_u64_le (write_u64_le sector (offset + 8) (of_nat (vx_len f))) (offset + 16)
                         (vx_first_sector f);
                       sector = write_u32_le (write_u32_le (write_u32_le sector (offset + 24) (vx_sector_count f))
                         (offset + 28) checksum) (offset + 32) (vx_parent_inode_id f)
                   in finish_entry (write_vertexfs_fixed_vfs_name sector (offset + 36) 28 (vx_vfs_name f)))"

definition dynamic_directory_entry :: "vertexfs_layout \<Rightarrow> vertexfs_file \<Rightarrow> nat \<Rightarrow> u8 list \<Rightarrow> edit" where
  "dynamic_directory_entry layout f k sector =
    (let expected = VERTEXFS_BASE_DIRECTORY_COUNT + k
     in if unat (read_u16_le sector 18) \<noteq> expected then (sector, Inl VfsUnsupported)
        else let sector = write_u16_le sector 18 (of_nat (expected + 1))
             in case vertexfs_directory_offset layout expected of
                  Inl e \<Rightarrow> (sector, Inl e)
                | Inr offset \<Rightarrow>
                   let sector = write_u32_le (write_u32_le sector offset (vx_parent_inode_id f)) (offset + 4) (vx_inode_id f);
                       sector = write_u16_le (write_u16_le sector (offset + 8) VERTEXFS_KIND_FILE) (offset + 10) 0
                   in finish_entry (write_vertexfs_fixed_vfs_name sector (offset + 12) VERTEXFS_DIRECTORY_NAME_BYTES (vx_vfs_name f)))"

definition claim_sector :: "vertexfs_file \<Rightarrow> u8 list \<Rightarrow> edit" where
  "claim_sector f sector =
    (let i = 32 + unat (vx_first_sector f)
     in if length sector \<le> i then (sector, Inl VfsUnsupported)
        else if sector ! i \<noteq> 0 then (sector, Inl VfsNoSpace)
        else (write_vertexfs_sector_checksum (sector[i := 1]), Inr ()))"

text \<open>Edits one after the other; the first error stops them.\<close>

definition and_then :: "edit \<Rightarrow> (u8 list \<Rightarrow> edit) \<Rightarrow> edit" where
  "and_then x g = (case x of (img, Inl e) \<Rightarrow> (img, Inl e) | (img, Inr _) \<Rightarrow> g img)"

definition write_vertexfs_dynamic_metadata :: "u8 list \<Rightarrow> vertexfs_file \<Rightarrow> u32 \<Rightarrow> edit" where
  "write_vertexfs_dynamic_metadata img f checksum =
    (case layout_of img of
       Inl e \<Rightarrow> (img, Inl e)
     | Inr layout \<Rightarrow>
    (case vertexfs_dynamic_index_for_inode layout (vx_inode_id f) of
       Inl e \<Rightarrow> (img, Inl e)
     | Inr k \<Rightarrow>
        if vx_parent_inode_id f \<noteq> VERTEXFS_INODE_APP_DIR then (img, Inl VfsUnsupported)
        else case vertexfs_dynamic_data_sector_at img k of
               Inl e \<Rightarrow> (img, Inl e)
             | Inr data_sector \<Rightarrow>
                if vx_first_sector f \<noteq> data_sector \<or> vx_sector_count f \<noteq> 1 then (img, Inl VfsUnsupported)
                else and_then (and_then
                  (update_section img (ly_inode_table_sector layout) (ly_inode_table_sectors layout)
                    (dynamic_inode_entry layout f checksum k))
                  (\<lambda>img. update_section img (ly_directory_sector layout) (ly_directory_sectors layout)
                    (dynamic_directory_entry layout f k)))
                  (\<lambda>img. update_section img (ly_free_map_sector layout) 1 (claim_sector f))))"

end
