(* ===== verification/VertexFs_Sync.thy ===== *)
theory VertexFs_Sync
  imports VertexFs_Image Runtime_State
begin

text \<open>
  Committing a VertexFS file to the image and queueing the sectors for the
  block device (\<^verbatim>\<open>ipc/runtime_state.rs\<close>).  The sectors are written to
  the device one at a time, in the order they were recorded.
\<close>

section \<open>Sequencing\<close>

text \<open>
  A call in the kernel: \<^const>\<open>None\<close> when an index out of range stops it,
  otherwise the state it leaves and its result, which the next call sees
  unless it is an error.
\<close>

type_synonym ('s, 'a) call = "('s \<times> (ipc_error, 'a) result) option"

definition call_bind :: "('s, 'a) call \<Rightarrow> ('a \<Rightarrow> 's \<Rightarrow> ('s, 'b) call) \<Rightarrow> ('s, 'b) call" where
  "call_bind x g =
    (case x of None \<Rightarrow> None | Some (s, Inl e) \<Rightarrow> Some (s, Inl e) | Some (s, Inr a) \<Rightarrow> g a s)"

definition lift_result :: "(ipc_error, 'a) result \<Rightarrow> 's \<Rightarrow> ('s, 'a) call" where
  "lift_result r s = Some (s, r)"

definition set_image :: "runtime_state \<Rightarrow> u8 list \<Rightarrow> runtime_state" where
  "set_image rt img = rt\<lparr>rt_vfs := (rt_vfs rt)\<lparr>vt_image := img\<rparr>\<rparr>"

definition image_of :: "runtime_state \<Rightarrow> u8 list" where
  "image_of rt = vt_image (rt_vfs rt)"

definition edit_image :: "(u8 list \<Rightarrow> edit option) \<Rightarrow> runtime_state \<Rightarrow> (runtime_state, unit) call" where
  "edit_image f rt = map_option (apfst (set_image rt)) (f (image_of rt))"

section \<open>Recording device writes\<close>

definition record_vertexfs_sync_sector :: "u64 \<Rightarrow> runtime_state \<Rightarrow> (runtime_state, unit) call" where
  "record_vertexfs_sync_sector sector rt =
    (if rt_sync_write_count rt = length (rt_sync_writes rt) then Some (rt, Inl VfsNoSpace)
     else case vertexfs_image_sector (image_of rt) sector of
            Inl e \<Rightarrow> Some (rt, Inl e)
          | Inr bytes \<Rightarrow>
             Some (rt\<lparr>rt_sync_writes := (rt_sync_writes rt)[rt_sync_write_count rt := \<lparr>dw_sector = sector, dw_bytes = bytes\<rparr>],
                     rt_sync_write_count := rt_sync_write_count rt + 1\<rparr>, Inr ()))"

text \<open>The loop that records consecutive sectors, of a section or of a file.\<close>

fun record_sectors :: "u64 \<Rightarrow> nat \<Rightarrow> runtime_state \<Rightarrow> (runtime_state, unit) call" where
  "record_sectors sector 0 rt = Some (rt, Inr ())"
| "record_sectors sector (Suc n) rt =
    call_bind (record_vertexfs_sync_sector sector rt) (\<lambda>_. record_sectors (sector + 1) n)"

definition record_vertexfs_sync_section :: "u64 \<Rightarrow> u64 \<Rightarrow> runtime_state \<Rightarrow> (runtime_state, unit) call" where
  "record_vertexfs_sync_section first_sector sector_count rt = record_sectors first_sector (unat sector_count) rt"

section \<open>Commit\<close>

definition commit_metadata :: "vertexfs_file \<Rightarrow> u32 \<Rightarrow> runtime_state \<Rightarrow> (runtime_state, unit) call" where
  "commit_metadata f checksum rt =
    call_bind (lift_result (vertexfs_image_has_inode (image_of rt) (vx_inode_id f)) rt) (\<lambda>has_inode rt.
    call_bind (lift_result (vertexfs_inode_table_section (image_of rt)) rt) (\<lambda>(inode_sector, inode_sectors) rt.
      if has_inode
      then call_bind (edit_image (\<lambda>img. Some (write_vertexfs_inode_record img f checksum)) rt) (\<lambda>_.
             record_vertexfs_sync_section inode_sector inode_sectors)
      else call_bind (lift_result (vertexfs_directory_section (image_of rt)) rt) (\<lambda>(directory_sector, directory_sectors) rt.
           call_bind (lift_result (vertexfs_free_map_sector (image_of rt)) rt) (\<lambda>free_map_sector rt.
           call_bind (edit_image (\<lambda>img. Some (write_vertexfs_dynamic_metadata img f checksum)) rt) (\<lambda>_ rt.
           call_bind (record_vertexfs_sync_section inode_sector inode_sectors rt) (\<lambda>_ rt.
           call_bind (record_vertexfs_sync_section directory_sector directory_sectors rt) (\<lambda>_.
             record_vertexfs_sync_sector free_map_sector)))))))"

text \<open>What follows the record of the pending journal.\<close>

definition commit_payload :: "vertexfs_file \<Rightarrow> u32 \<Rightarrow> u64 \<Rightarrow> runtime_state \<Rightarrow> (runtime_state, nat) call" where
  "commit_payload f checksum journal_sector rt =
    call_bind (edit_image (\<lambda>img. write_vertexfs_file_extent img f) rt) (\<lambda>_ rt.
    call_bind (record_sectors (vx_first_sector f) (unat (vx_sector_count f)) rt) (\<lambda>_ rt.
    call_bind (commit_metadata f checksum rt) (\<lambda>_ rt.
    call_bind (edit_image (\<lambda>img. Some (write_vertexfs_journal_clean img)) rt) (\<lambda>_ rt.
    call_bind (record_vertexfs_sync_sector journal_sector rt) (\<lambda>_ rt.
      Some (rt, case parse_vertexfs_image (image_of rt) of
         Inl _ \<Rightarrow> Inl VfsUnsupported
       | Inr _ \<Rightarrow> Inr (rt_sync_write_count rt)))))))"

definition commit_vertexfs_file_to_image :: "vertexfs_file \<Rightarrow> u32 \<Rightarrow> runtime_state \<Rightarrow> (runtime_state, nat) call" where
  "commit_vertexfs_file_to_image f checksum rt =
    (let extent_len = unat (vx_sector_count f) * VERTEXFS_SECTOR_SIZE
     in if 2 ^ 32 \<le> extent_len then Some (rt, Inl VfsNoSpace)
        else if extent_len < vx_len f \<or> VERTEXFS_SECTOR_SIZE - VERTEXFS_JOURNAL_PAYLOAD_OFFSET < vx_len f
        then Some (rt, Inl VfsNoSpace)
        else call_bind (lift_result (vertexfs_journal_sector (image_of rt)) (rt\<lparr>rt_sync_write_count := 0\<rparr>)) (\<lambda>journal_sector rt.
             if length (vx_bytes f) < vx_len f then None
             else call_bind (edit_image (\<lambda>img.
                    write_vertexfs_journal_pending img (vx_inode_id f) (take (vx_len f) (vx_bytes f))) rt) (\<lambda>_ rt.
                  call_bind (record_vertexfs_sync_sector journal_sector rt) (\<lambda>_.
                    commit_payload f checksum journal_sector))))"

end
