(* ===== verification/VertexFs_Safety.thy ===== *)
theory VertexFs_Safety
  imports VertexFs_Sync
begin

text \<open>
  The VertexFS image after a crash: what each check of the parser reads,
  what each write of a sync changes, and which images the device can hold
  when the machine stops between two sector writes.
\<close>

section \<open>Layouts\<close>

text \<open>The sections of both layouts follow each other and end with the image.\<close>

definition layout_ok :: "vertexfs_layout \<Rightarrow> bool" where
  "layout_ok l \<longleftrightarrow>
    unat (ly_inode_table_sector l) = 1 \<and> unat (ly_directory_sector l) = 1 + unat (ly_inode_table_sectors l) \<and>
    unat (ly_free_map_sector l) = unat (ly_directory_sector l) + unat (ly_directory_sectors l) \<and>
    unat (ly_journal_sector l) = unat (ly_free_map_sector l) + 1 \<and>
    unat (ly_data_sector l) = unat (ly_journal_sector l) + 1 \<and>
    unat (ly_data_sector l + ly_data_sectors l) = VERTEXFS_SECTORS \<and> unat (ly_data_sector l) < VERTEXFS_SECTORS \<and>
    2 \<le> unat (ly_inode_table_sectors l) \<and> ly_inode_table_bytes l = unat (ly_inode_table_sectors l) * VERTEXFS_SECTOR_SIZE \<and>
    length (ly_journal_magic l) = 16 \<and> length (ly_inode_magic l) = 16 \<and>
    VERTEXFS_INODE_ENTRY_OFFSET + (VERTEXFS_BASE_INODE_COUNT + ly_dynamic_file_capacity l) * VERTEXFS_INODE_ENTRY_LEN
      \<le> ly_inode_table_bytes l"

lemma layouts_ok: "layout_ok VERTEXFS_LAYOUT_V1" "layout_ok VERTEXFS_LAYOUT_V2"
  by (simp_all add: layout_ok_def VERTEXFS_LAYOUT_V1_def VERTEXFS_LAYOUT_V2_def VERTEXFS_SECTORS_def VERTEXFS_SECTOR_SIZE_def
      VERTEXFS_INODE_ENTRY_OFFSET_def VERTEXFS_INODE_ENTRY_LEN_def VERTEXFS_BASE_INODE_COUNT_def magic_of_def bytes_of_def)

lemma layout_from_superblock_ok:
  "vertexfs_layout_from_superblock sb = Inr l \<Longrightarrow> layout_ok l"
  using layouts_ok by (auto simp: vertexfs_layout_from_superblock_def split: if_splits)

lemma layout_numbers:
  assumes "layout_ok l"
  shows "unat (ly_inode_table_sector l) = 1" "unat (ly_directory_sector l) = 1 + unat (ly_inode_table_sectors l)"
    "unat (ly_free_map_sector l) = unat (ly_directory_sector l) + unat (ly_directory_sectors l)"
    "unat (ly_journal_sector l) = unat (ly_free_map_sector l) + 1"
    "unat (ly_data_sector l) = unat (ly_journal_sector l) + 1"
    "unat (ly_data_sector l + ly_data_sectors l) = 64" "unat (ly_data_sector l) < 64"
    "2 \<le> unat (ly_inode_table_sectors l)" "ly_inode_table_bytes l = unat (ly_inode_table_sectors l) * 512"
    "length (ly_journal_magic l) = 16" "length (ly_inode_magic l) = 16"
    "32 + (4 + ly_dynamic_file_capacity l) * 64 \<le> unat (ly_inode_table_sectors l) * 512"
  using assms
  by (simp_all add: layout_ok_def VERTEXFS_SECTORS_def VERTEXFS_SECTOR_SIZE_def VERTEXFS_INODE_ENTRY_OFFSET_def
      VERTEXFS_INODE_ENTRY_LEN_def VERTEXFS_BASE_INODE_COUNT_def)

section \<open>Sectors of a full image\<close>

abbreviation full_image :: "u8 list \<Rightarrow> bool" where
  "full_image img \<equiv> length img = VERTEXFS_IMAGE_BYTES"

lemma image_bytes: "VERTEXFS_IMAGE_BYTES = 32768"
  by (simp add: VERTEXFS_IMAGE_BYTES_def VERTEXFS_SECTOR_SIZE_def VERTEXFS_SECTORS_def)

lemma sector_range_full:
  assumes "full_image img" "unat a + unat n \<le> 64"
  shows "sector_range img a n = Some (unat a * 512, unat n * 512)"
  using assms by (simp add: sector_range_def VERTEXFS_SECTOR_SIZE_def image_bytes)

lemma section_full:
  assumes "full_image img" "unat a + unat n \<le> 64"
  shows "vertexfs_section img a n = Inr (span img (unat a * 512) (unat n * 512))"
    "vertexfs_image_section img a n = Inr (span img (unat a * 512) (unat n * 512))"
  by (simp_all add: vertexfs_section_def vertexfs_image_section_def sector_range_full [OF assms])

lemma sector_full:
  assumes "full_image img" "unat a < 64"
  shows "vertexfs_sector img a = Inr (span img (unat a * 512) 512)"
    "vertexfs_image_sector img a = Inr (span img (unat a * 512) 512)"
  using section_full [OF assms(1), of a 1] assms(2) by (simp_all add: vertexfs_sector_def vertexfs_image_sector_def)

lemma update_section_full:
  assumes "full_image img" "unat a + unat n \<le> 64"
  shows "update_section img a n f = apfst (splice img (unat a * 512)) (f (span img (unat a * 512) (unat n * 512)))"
  by (simp add: update_section_def sector_range_full [OF assms])

section \<open>Checksums\<close>

lemma checksum32_from_zeros: "checksum32_from acc i (replicate n 0) = acc"
  by (induction n arbitrary: i) simp_all

lemma splice_splice: "length ys = length zs \<Longrightarrow> a + length ys \<le> length xs \<Longrightarrow> splice (splice xs a ys) a zs = splice xs a zs"
  by (intro nth_equalityI) (simp_all add: nth_splice)

lemma checksum_written:
  assumes "24 \<le> length s"
  shows "vertexfs_checksum_valid (write_vertexfs_sector_checksum s)"
proof -
  define z where "z = write_u32_le s 20 0"
  have zero: "to_le_bytes 4 (0 :: u32) = [0, 0, 0, 0]"
    by (simp add: numeral_eq_Suc)
  have w: "write_vertexfs_sector_checksum s = write_u32_le z 20 (vertexfs_checksum32 z)"
    by (simp add: write_vertexfs_sector_checksum_def Let_def VERTEXFS_CHECKSUM_OFFSET_def z_def)
  have "write_u32_le (write_u32_le z 20 c) 20 0 = z" for c
    using assms unfolding z_def write_u32_le_def by (simp only: splice_splice length_splice length_to_le_bytes)
  then show ?thesis
    using assms
    by (simp add: vertexfs_checksum_valid_def VERTEXFS_CHECKSUM_OFFSET_def w read_write_u32 z_def write_u32_le_def [symmetric] flip: zero)
qed

lemma length_sector_checksum [simp]: "length (write_vertexfs_sector_checksum s) = length s"
  by (simp add: write_vertexfs_sector_checksum_def Let_def)

lemma span_sector_checksum:
  assumes "24 \<le> length s" "a + n \<le> length s" "a + n \<le> 20 \<or> 24 \<le> a"
  shows "span (write_vertexfs_sector_checksum s) a n = span s a n"
  using assms by (simp add: write_vertexfs_sector_checksum_def Let_def VERTEXFS_CHECKSUM_OFFSET_def write_u32_le_def span_splice_apart)

section \<open>What an accepted image consists of\<close>

definition image_parts :: "u8 list \<Rightarrow> u8 list \<Rightarrow> vertexfs_layout \<Rightarrow> vertexfs_journal_record option \<Rightarrow> vertexfs_parsed_inodes
    \<Rightarrow> u8 list \<Rightarrow> u64 \<times> u64 \<Rightarrow> u8 list \<Rightarrow> u64 \<times> u64 \<Rightarrow> bool" where
  "image_parts img superblock l journal inodes readme readme_extent base app_extent \<longleftrightarrow>
    vertexfs_sector img 0 = Inr superblock \<and> vertexfs_layout_from_superblock superblock = Inr l \<and>
    superblock_ok l superblock \<and> vertexfs_parse_journal l img = Inr journal \<and>
    vertexfs_parse_inode_table l img = Inr inodes \<and> vertexfs_validate_directory l img (pi_dynamic inodes) = Inr () \<and>
    vertexfs_file_payload img (pi_readme inodes) = Inr (readme, readme_extent) \<and>
    vertexfs_recoverable_file_payload img (pi_app_a inodes) journal = Inr (base, app_extent) \<and>
    \<not> extents_overlap readme_extent app_extent \<and>
    check_dynamic_extents img [readme_extent, app_extent] (take (ly_dynamic_file_capacity l) (pi_dynamic inodes)) = Inr () \<and>
    vertexfs_validate_free_map l img (pi_readme inodes) (pi_app_a inodes) (pi_dynamic inodes) = Inr ()"

lemma parse_parts:
  assumes "image_parts img sb l journal inodes readme re base ae"
    and "vertexfs_fixed_string sb (ly_generation_offset l) 64 = Inr generation"
    and "vertexfs_replay_journal (pi_app_a inodes) base journal = Inr (app, replayed)"
  shows "parse_vertexfs_image img = Inr \<lparr>bf_generation = generation,
    bf_readme = \<lparr>bf_inode = pi_readme inodes, bf_payload = readme\<rparr>,
    bf_app_a = \<lparr>bf_inode = pi_app_a inodes, bf_payload = app\<rparr>, bf_journal_replayed = replayed\<rparr>"
  using assms by (simp add: image_parts_def parse_vertexfs_image_def parse_files_def)

lemma parse_partsE:
  assumes "parse_vertexfs_image img = Inr boot"
  obtains sb l journal inodes readme re base ae generation app replayed
  where "image_parts img sb l journal inodes readme re base ae"
    "vertexfs_fixed_string sb (ly_generation_offset l) 64 = Inr generation"
    "vertexfs_replay_journal (pi_app_a inodes) base journal = Inr (app, replayed)"
    "boot = \<lparr>bf_generation = generation, bf_readme = \<lparr>bf_inode = pi_readme inodes, bf_payload = readme\<rparr>,
      bf_app_a = \<lparr>bf_inode = pi_app_a inodes, bf_payload = app\<rparr>, bf_journal_replayed = replayed\<rparr>"
proof -
  from assms obtain sb l generation where 1: "vertexfs_sector img 0 = Inr sb" "vertexfs_layout_from_superblock sb = Inr l"
      "superblock_ok l sb" "vertexfs_fixed_string sb (ly_generation_offset l) 64 = Inr generation"
      "parse_files l img generation = Inr boot"
    by (auto simp: parse_vertexfs_image_def split: sum.splits if_splits)
  from 1(5) obtain journal inodes readme re base ae app replayed where 2: "vertexfs_parse_journal l img = Inr journal"
      "vertexfs_parse_inode_table l img = Inr inodes" "vertexfs_validate_directory l img (pi_dynamic inodes) = Inr ()"
      "vertexfs_file_payload img (pi_readme inodes) = Inr (readme, re)"
      "vertexfs_recoverable_file_payload img (pi_app_a inodes) journal = Inr (base, ae)" "\<not> extents_overlap re ae"
      "check_dynamic_extents img [re, ae] (take (ly_dynamic_file_capacity l) (pi_dynamic inodes)) = Inr ()"
      "vertexfs_validate_free_map l img (pi_readme inodes) (pi_app_a inodes) (pi_dynamic inodes) = Inr ()"
      "vertexfs_replay_journal (pi_app_a inodes) base journal = Inr (app, replayed)"
      "boot = \<lparr>bf_generation = generation, bf_readme = \<lparr>bf_inode = pi_readme inodes, bf_payload = readme\<rparr>,
        bf_app_a = \<lparr>bf_inode = pi_app_a inodes, bf_payload = app\<rparr>, bf_journal_replayed = replayed\<rparr>"
    unfolding parse_files_def by (auto split: sum.splits if_splits)
  from 1 2 have "image_parts img sb l journal inodes readme re base ae"
    by (simp add: image_parts_def)
  then show thesis
    using 1(4) 2(9, 10) by (rule that)
qed

section \<open>The journal sector\<close>

lemma magic_span: "vertexfs_magic_matches s m \<longleftrightarrow> span s 0 (length m) = m"
  by (simp add: vertexfs_magic_matches_def span_def)

text \<open>The sector written for a pending record holds that record; the clean one holds none.\<close>

lemma journal_header_fields:
  assumes "layout_ok l" "64 \<le> n"
  shows "length (journal_header l st n) = n" "span (journal_header l st n) 0 16 = ly_journal_magic l"
    "span (journal_header l st n) 16 2 = to_le_bytes 2 (ly_version l)" "span (journal_header l st n) 18 2 = to_le_bytes 2 st"
  using layout_numbers [OF assms(1)] assms(2) by (simp_all add: journal_header_def span_writes)

lemma length_journal_sectors [simp]:
  "length (pending_sector l i p n) = n" "length (clean_sector l n) = n"
  by (simp_all add: pending_sector_def clean_sector_def journal_header_def Let_def)

lemma pending_sector_fields:
  fixes l i p
  defines "s \<equiv> pending_sector l i p 512"
  assumes "layout_ok l" "length p \<le> 448"
  shows "vertexfs_checksum_valid s" "span s 0 16 = ly_journal_magic l" "span s 16 2 = to_le_bytes 2 (ly_version l)"
    "span s 18 2 = to_le_bytes 2 VERTEXFS_JOURNAL_STATE_PENDING" "span s 24 4 = to_le_bytes 4 i"
    "span s 28 4 = to_le_bytes 4 (of_nat (length p) :: u32)" "span s 32 4 = to_le_bytes 4 (vertexfs_checksum32 p)"
    "span s 64 (length p) = p"
    "ly_format l = FormatV2 \<Longrightarrow> span s 40 8 = to_le_bytes 8 (1 :: u64) \<and> span s 48 4 = to_le_bytes 4 i \<and>
      span s 52 4 = to_le_bytes 4 (of_nat (length p) :: u32) \<and> span s 56 4 = to_le_bytes 4 (vertexfs_checksum32 p)"
  using assms(2,3) journal_header_fields [OF assms(2), of 512]
  by (simp_all add: s_def pending_sector_def Let_def VERTEXFS_JOURNAL_PAYLOAD_OFFSET_def checksum_written span_sector_checksum
      span_writes)

lemma parse_pending:
  assumes "layout_ok l" "full_image img" "length p \<le> 448"
    and "span img (unat (ly_journal_sector l) * 512) 512 = pending_sector l i p 512"
  shows "vertexfs_parse_journal l img = Inr (Some \<lparr>jr_target_inode = i, jr_payload = p\<rparr>)"
proof -
  have "unat (of_nat (length p) :: u32) = length p"
    using assms(3) by (simp add: unat_of_nat)
  then show ?thesis
    using assms layout_numbers [OF assms(1)] pending_sector_fields [OF assms(1,3), of i]
    by (simp add: vertexfs_parse_journal_def sector_full Let_def magic_span read_spans VERTEXFS_JOURNAL_STATE_CLEAN_def
        VERTEXFS_JOURNAL_STATE_PENDING_def VERTEXFS_JOURNAL_PAYLOAD_OFFSET_def)
qed

lemma parse_clean:
  assumes "layout_ok l" "full_image img" "span img (unat (ly_journal_sector l) * 512) 512 = clean_sector l 512"
  shows "vertexfs_parse_journal l img = Inr None"
  using assms layout_numbers [OF assms(1)] journal_header_fields [OF assms(1), of 512]
  by (simp add: vertexfs_parse_journal_def sector_full Let_def magic_span read_spans clean_sector_def span_sector_checksum
      checksum_written)

section \<open>Images that differ in the synced file only\<close>

text \<open>
  \<^verbatim>\<open>synced_apart\<close>: two images agree outside the inode table, the journal
  and the sectors from \<^verbatim>\<open>a\<close> to \<^verbatim>\<open>b\<close>, the extent of the file.
\<close>

definition in_sectors :: "nat \<Rightarrow> nat \<Rightarrow> nat \<Rightarrow> bool" where
  "in_sectors first n i \<longleftrightarrow> first * 512 \<le> i \<and> i < (first + n) * 512"

definition synced_apart :: "vertexfs_layout \<Rightarrow> u64 \<times> u64 \<Rightarrow> u8 list \<Rightarrow> u8 list \<Rightarrow> bool" where
  "synced_apart l ext x y \<longleftrightarrow> full_image x \<and> full_image y \<and>
    (\<forall>i < length x. in_sectors 1 (unat (ly_inode_table_sectors l)) i \<or> in_sectors (unat (ly_journal_sector l)) 1 i \<or>
       in_sectors (unat (fst ext)) (unat (snd ext) - unat (fst ext)) i \<or> x ! i = y ! i)"

lemma synced_apart_span:
  assumes "synced_apart l ext x y" "a + n \<le> VERTEXFS_IMAGE_BYTES"
    and "\<And>i. a \<le> i \<Longrightarrow> i < a + n \<Longrightarrow> \<not> in_sectors 1 (unat (ly_inode_table_sectors l)) i \<and>
      \<not> in_sectors (unat (ly_journal_sector l)) 1 i \<and> \<not> in_sectors (unat (fst ext)) (unat (snd ext) - unat (fst ext)) i"
  shows "span y a n = span x a n"
proof (rule span_eqI)
  show "a + n \<le> length y" "a + n \<le> length x"
    using assms(1,2) by (simp_all add: synced_apart_def)
  fix k
  assume "k < n"
  then have "a + k < length x"
    using assms(1,2) by (simp add: synced_apart_def)
  then show "y ! (a + k) = x ! (a + k)"
    using assms(1) assms(3) [of "a + k"] \<open>k < n\<close> unfolding synced_apart_def by fastforce
qed

definition in_data :: "vertexfs_layout \<Rightarrow> u64 \<times> u64 \<Rightarrow> bool" where
  "in_data l ext \<longleftrightarrow> ly_data_sector l \<le> fst ext \<and> fst ext \<le> snd ext \<and> snd ext \<le> ly_data_sector l + ly_data_sectors l"

lemma in_dataD:
  assumes "layout_ok l" "in_data l ext"
  shows "unat (ly_journal_sector l) < unat (fst ext)" "unat (fst ext) \<le> unat (snd ext)" "unat (snd ext) \<le> 64"
proof -
  have "unat (ly_data_sector l) \<le> unat (fst ext)" "unat (snd ext) \<le> unat (ly_data_sector l + ly_data_sectors l)"
    "unat (fst ext) \<le> unat (snd ext)"
    using assms(2) by (auto simp: in_data_def word_le_nat_alt)
  then show "unat (ly_journal_sector l) < unat (fst ext)" "unat (fst ext) \<le> unat (snd ext)" "unat (snd ext) \<le> 64"
    using layout_numbers [OF assms(1)] by simp_all
qed

lemma synced_apart_sections:
  assumes "layout_ok l" "in_data l ext" "synced_apart l ext x y"
  shows "vertexfs_sector y 0 = vertexfs_sector x 0"
    "vertexfs_section y (ly_directory_sector l) (ly_directory_sectors l)
      = vertexfs_section x (ly_directory_sector l) (ly_directory_sectors l)"
    "vertexfs_sector y (ly_free_map_sector l) = vertexfs_sector x (ly_free_map_sector l)"
proof -
  note n = layout_numbers [OF assms(1)] in_dataD [OF assms(1,2)]
  have full: "full_image x" "full_image y"
    using assms(3) by (simp_all add: synced_apart_def)
  have "span y 0 512 = span x 0 512"
    "span y (unat (ly_directory_sector l) * 512) (unat (ly_directory_sectors l) * 512)
      = span x (unat (ly_directory_sector l) * 512) (unat (ly_directory_sectors l) * 512)"
    "span y (unat (ly_free_map_sector l) * 512) 512 = span x (unat (ly_free_map_sector l) * 512) 512"
    using n by (intro synced_apart_span [OF assms(3)]; simp add: image_bytes in_sectors_def)+
  with n full show "vertexfs_sector y 0 = vertexfs_sector x 0"
    "vertexfs_section y (ly_directory_sector l) (ly_directory_sectors l)
      = vertexfs_section x (ly_directory_sector l) (ly_directory_sectors l)"
    "vertexfs_sector y (ly_free_map_sector l) = vertexfs_sector x (ly_free_map_sector l)"
    by (simp_all add: sector_full section_full)
qed

text \<open>What a readable extent is, and that another file's stays readable.\<close>

lemma extent_payload_iff:
  assumes "full_image img" "vertexfs_layout_for_image img = Inr l" "layout_ok l"
  shows "vertexfs_file_extent_payload img inode = Inr (p, ext) \<longleftrightarrow>
    ino_sector_count inode \<noteq> 0 \<and>
    checked_add (ino_first_sector inode) (ucast (ino_sector_count inode)) = Some (snd ext) \<and>
    fst ext = ino_first_sector inode \<and> in_data l ext \<and>
    ino_size inode \<le> ucast (ino_sector_count inode) * of_nat VERTEXFS_SECTOR_SIZE \<and>
    unat (ino_size inode) \<le> MAX_VERTEXFS_FILE_BYTES \<and>
    unat (ino_first_sector inode) * 512 + unat (ino_size inode) \<le> VERTEXFS_IMAGE_BYTES \<and>
    p = span img (unat (ino_first_sector inode) * 512) (unat (ino_size inode))"
proof (cases "checked_add (ino_first_sector inode) (ucast (ino_sector_count inode))")
  case None
  then show ?thesis
    by (simp add: vertexfs_file_extent_payload_def)
next
  case (Some e)
  then have "ino_first_sector inode \<le> e"
    by (simp add: checked_add_Some word_le_nat_alt)
  with Some show ?thesis
    using assms
    by (cases ext) (auto simp: vertexfs_file_extent_payload_def Let_def in_data_def VERTEXFS_SECTOR_SIZE_def image_bytes not_less not_le)
qed

lemma layout_of_synced:
  assumes "layout_ok l" "in_data l ext" "synced_apart l ext x y"
  shows "vertexfs_layout_for_image y = vertexfs_layout_for_image x"
  by (simp add: vertexfs_layout_for_image_def synced_apart_sections [OF assms])

lemma size_in_extent:
  assumes "checked_add a (ucast (n :: u32)) = Some (b :: u64)" "(k :: u64) \<le> ucast n * of_nat VERTEXFS_SECTOR_SIZE"
  shows "unat k \<le> (unat b - unat a) * 512"
proof -
  have "unat (ucast n :: u64) \<le> unat n" "unat n < 2 ^ 32"
    using unsigned_less [of n, where 'a = nat] by (simp_all add: unsigned_ucast_eq)
  then have "unat (ucast n :: u64) * 512 < 2 ^ 64"
    by simp
  then have "unat (ucast n * of_nat VERTEXFS_SECTOR_SIZE :: u64) = unat (ucast n :: u64) * 512"
    by (simp add: VERTEXFS_SECTOR_SIZE_def unat_word_ariths)
  then show ?thesis
    using assms by (simp add: checked_add_Some word_le_nat_alt)
qed

lemma other_payload_kept:
  assumes "layout_ok l" "in_data l ext" "synced_apart l ext x y" "vertexfs_layout_for_image x = Inr l"
    and "vertexfs_file_payload x inode = Inr (p, e)" "\<not> extents_overlap e ext"
  shows "vertexfs_file_payload y inode = Inr (p, e)"
proof -
  have full: "full_image x" "full_image y"
    using assms(3) by (simp_all add: synced_apart_def)
  have x: "vertexfs_file_extent_payload x inode = Inr (p, e)"
    using assms(5) by (auto simp: vertexfs_file_payload_def split: sum.splits if_splits)
  note px = x [unfolded extent_payload_iff [OF full(1) assms(4,1)]]
  have e: "in_data l e" "fst e = ino_first_sector inode" "unat (ino_size inode) \<le> (unat (snd e) - unat (fst e)) * 512"
    using px size_in_extent [of "ino_first_sector inode" "ino_sector_count inode" "snd e"] by simp_all
  have apart: "unat (snd ext) \<le> unat (fst e) \<or> unat (snd e) \<le> unat (fst ext)"
    using assms(6) by (auto simp: extents_overlap_def word_less_nat_alt)
  have "span y (unat (ino_first_sector inode) * 512) (unat (ino_size inode))
      = span x (unat (ino_first_sector inode) * 512) (unat (ino_size inode))"
    using e apart in_dataD [OF assms(1,2)] in_dataD [OF assms(1) e(1)] layout_numbers [OF assms(1)]
    by (intro synced_apart_span [OF assms(3)]) (auto simp: image_bytes in_sectors_def)
  then have "vertexfs_file_extent_payload y inode = Inr (p, e)"
    using px assms(4) by (simp add: extent_payload_iff [OF full(2) _ assms(1)] layout_of_synced [OF assms(1-3)])
  then show ?thesis
    using assms(5) x by (simp add: vertexfs_file_payload_def split: if_splits prod.splits)
qed

lemma dynamic_extents_kept:
  assumes "layout_ok l" "in_data l ext" "synced_apart l ext x y" "vertexfs_layout_for_image x = Inr l"
    and "check_dynamic_extents x prior inodes = Inr ()" "ext \<in> set prior"
  shows "check_dynamic_extents y prior inodes = Inr ()"
  using assms(5,6)
proof (induction inodes arbitrary: prior)
  case (Cons inode inodes)
  then obtain p e where x: "vertexfs_file_payload x inode = Inr (p, e)" "\<not> list_ex (extents_overlap e) prior"
      "check_dynamic_extents x (prior @ [e]) inodes = Inr ()"
    by (auto split: sum.splits if_splits)
  then have "\<not> extents_overlap e ext"
    using Cons.prems(2) by (auto simp: list_ex_iff)
  then have "vertexfs_file_payload y inode = Inr (p, e)"
    by (rule other_payload_kept [OF assms(1-4) x(1)])
  then show ?case
    using x Cons.IH [OF x(3)] Cons.prems(2) by simp
qed simp

section \<open>Recording an inode\<close>

text \<open>
  The record of \<^verbatim>\<open>app/a\<close>, the fourth entry of the table: its size and
  checksum change, every other field of every entry stays.
\<close>

lemma inode_record_span:
  assumes "256 \<le> length s" "a + n \<le> length s" "a + n \<le> 20 \<or> 24 \<le> a" "a + n \<le> 232 \<or> 240 \<le> a" "a + n \<le> 252 \<or> 256 \<le> a"
  shows "span (inode_record s 224 k c) a n = span s a n"
  using assms by (simp add: inode_record_def span_sector_checksum span_writes)

lemma inode_record_fields:
  assumes "256 \<le> length s"
  shows "length (inode_record s 224 k c) = length s" "vertexfs_checksum_valid (inode_record s 224 k c)"
    "span (inode_record s 224 k c) 232 8 = to_le_bytes 8 (of_nat k :: u64)"
    "span (inode_record s 224 k c) 252 4 = to_le_bytes 4 c"
  using assms by (simp_all add: inode_record_def span_sector_checksum span_writes checksum_written)

lemmas inode_entry_defs = VERTEXFS_INODE_ENTRY_OFFSET_def VERTEXFS_INODE_ENTRY_LEN_def

lemma inode_record_read:
  assumes "32 + (i + 1) * 64 \<le> length s" "256 \<le> length s"
  shows "vertexfs_read_inode (inode_record s 224 k c) i =
    (if i = 3 then (vertexfs_read_inode s i)\<lparr>ino_size := of_nat k, ino_checksum := c\<rparr> else vertexfs_read_inode s i)"
proof -
  consider "i = 3" | "i < 3" | "3 < i"
    by linarith
  then show ?thesis
    using assms
    by cases (simp_all add: vertexfs_read_inode_def Let_def inode_entry_defs read_spans inode_record_span inode_record_fields)
qed

lemma inode_record_names:
  assumes "32 + (i + 1) * 64 \<le> length s" "256 \<le> length s"
  shows "vertexfs_inode_reserved_zero (inode_record s 224 k c) i = vertexfs_inode_reserved_zero s i"
    "vertexfs_fixed_string (inode_record s 224 k c) (vertexfs_inode_name_offset i) 28
      = vertexfs_fixed_string s (vertexfs_inode_name_offset i) 28"
    "vertexfs_inode_name_eq (inode_record s 224 k c) i name = vertexfs_inode_name_eq s i name"
proof -
  consider "i = 0" | "i = 1" | "i = 2" | "i = 3" | "3 < i"
    by linarith
  then have "span (inode_record s 224 k c) (32 + i * 64 + 6) 2 = span s (32 + i * 64 + 6) 2 \<and>
      span (inode_record s 224 k c) (32 + i * 64 + 36) 28 = span s (32 + i * 64 + 36) 28"
    using assms by cases (simp_all add: inode_record_span)
  then show "vertexfs_inode_reserved_zero (inode_record s 224 k c) i = vertexfs_inode_reserved_zero s i"
    "vertexfs_fixed_string (inode_record s 224 k c) (vertexfs_inode_name_offset i) 28
      = vertexfs_fixed_string s (vertexfs_inode_name_offset i) 28"
    "vertexfs_inode_name_eq (inode_record s 224 k c) i name = vertexfs_inode_name_eq s i name"
    using assms(2)
    by (simp_all add: vertexfs_inode_reserved_zero_def vertexfs_fixed_string_def vertexfs_inode_name_eq_def
        vertexfs_fixed_string_eq_def vertexfs_inode_name_offset_def inode_entry_defs read_spans inode_record_fields Let_def)
qed

lemmas inode_record_simps = inode_record_read inode_record_names inode_record_fields inode_record_span

definition table_of :: "vertexfs_layout \<Rightarrow> u8 list \<Rightarrow> u8 list" where
  "table_of l img = span img 512 (unat (ly_inode_table_sectors l) * 512)"

lemma table_section:
  assumes "layout_ok l" "full_image img"
  shows "vertexfs_section img (ly_inode_table_sector l) (ly_inode_table_sectors l) = Inr (table_of l img)"
    "vertexfs_image_section img (ly_inode_table_sector l) (ly_inode_table_sectors l) = Inr (table_of l img)"
    "length (table_of l img) = unat (ly_inode_table_sectors l) * 512"
  using assms layout_numbers [OF assms(1)] by (simp_all add: section_full table_of_def length_span image_bytes)

definition recorded :: "vertexfs_parsed_inodes \<Rightarrow> nat \<Rightarrow> u32 \<Rightarrow> vertexfs_parsed_inodes" where
  "recorded inodes k c = inodes\<lparr>pi_app_a := (pi_app_a inodes)\<lparr>ino_size := of_nat k, ino_checksum := c\<rparr>\<rparr>"

lemma parse_recorded_table:
  assumes "layout_ok l" "full_image x" "full_image y" "vertexfs_parse_inode_table l x = Inr inodes"
    and "table_of l y = inode_record (table_of l x) 224 k c"
  shows "vertexfs_parse_inode_table l y = Inr (recorded inodes k c)"
proof -
  define s where "s = table_of l x"
  note n = layout_numbers [OF assms(1)] table_section [OF assms(1,2)]
  have len: "32 + (4 + ly_dynamic_file_capacity l) * 64 \<le> length s" "1024 \<le> length s"
    using n by (simp_all add: s_def)
  from assms(4) have "unat (read_u16_le s 18) - 4 \<le> ly_dynamic_file_capacity l"
    by (auto simp: vertexfs_parse_inode_table_def n(13) s_def Let_def VERTEXFS_BASE_INODE_COUNT_def split: if_splits)
  then have k: "32 + (4 + i + 1) * 64 \<le> length s" if "i < unat (read_u16_le s 18) - 4" for i
    using len that by simp
  have dynamic: "list_all (dynamic_inode_ok l (inode_record s 224 k c)) [0 ..< unat (read_u16_le s 18) - 4]
      = list_all (dynamic_inode_ok l s) [0 ..< unat (read_u16_le s 18) - 4]"
    using len k by (intro list.pred_cong) (simp_all add: dynamic_inode_ok_def Let_def inode_record_simps VERTEXFS_BASE_INODE_COUNT_def)
  have entries: "map (\<lambda>i. vertexfs_read_inode (inode_record s 224 k c) (4 + i)) [0 ..< unat (read_u16_le s 18) - 4]
      = map (\<lambda>i. vertexfs_read_inode s (4 + i)) [0 ..< unat (read_u16_le s 18) - 4]"
    using len k by (intro map_cong) (simp_all add: inode_record_simps)
  show ?thesis
    using assms(4) len n dynamic entries
    by (auto simp: vertexfs_parse_inode_table_def table_section [OF assms(1)] assms(2,3,5) s_def [symmetric] Let_def read_spans
        magic_span inode_record_simps VERTEXFS_BASE_INODE_COUNT_def directory_inode_ok_def file_inode_ok_def recorded_def
        split: if_splits)
qed

text \<open>The entry of \<^verbatim>\<open>app/a\<close> is found where the parser expects it.\<close>

lemma app_a_offset:
  assumes "layout_ok l" "full_image img" "vertexfs_parse_inode_table l img = Inr inodes"
  shows "vertexfs_inode_offset_by_id l (table_of l img) VERTEXFS_INODE_APP_A = Inr 224"
    "scan_inodes l (table_of l img) VERTEXFS_INODE_APP_A 0 (unat (read_u16_le (table_of l img) 18)) = Inr (Some 224)"
    "ino_id (pi_app_a inodes) = VERTEXFS_INODE_APP_A"
proof -
  let ?s = "table_of l img"
  have ids: "read_u32_le ?s 32 = 1" "read_u32_le ?s 96 = 2" "read_u32_le ?s 160 = 3" "read_u32_le ?s 224 = 4"
      "4 \<le> unat (read_u16_le ?s 18)" "ino_id (pi_app_a inodes) = VERTEXFS_INODE_APP_A"
    using assms(3)
    by (auto simp: vertexfs_parse_inode_table_def table_section [OF assms(1,2)] Let_def directory_inode_ok_def file_inode_ok_def
        vertexfs_read_inode_def inode_entry_defs VERTEXFS_INODE_ROOT_def VERTEXFS_INODE_README_def VERTEXFS_INODE_APP_DIR_def
        VERTEXFS_INODE_APP_A_def VERTEXFS_BASE_INODE_COUNT_def split: if_splits)
  then obtain m where m: "unat (read_u16_le ?s 18) = Suc (Suc (Suc (Suc m)))"
    by (metis add_Suc le_Suc_ex numeral_eq_Suc pred_numeral_simps(2) pred_numeral_simps(3) plus_nat.add_0 BitM.simps(1) BitM.simps(2)
        numeral_1_eq_Suc_0 numeral_One One_nat_def)
  then show "scan_inodes l ?s VERTEXFS_INODE_APP_A 0 (unat (read_u16_le ?s 18)) = Inr (Some 224)"
    using ids layout_numbers [OF assms(1)]
    by (simp add: vertexfs_inode_offset_def Let_def inode_entry_defs VERTEXFS_INODE_APP_A_def)
  then show "vertexfs_inode_offset_by_id l ?s VERTEXFS_INODE_APP_A = Inr 224"
    by (simp add: vertexfs_inode_offset_by_id_def)
  show "ino_id (pi_app_a inodes) = VERTEXFS_INODE_APP_A"
    by (rule ids(6))
qed

lemma directory_kept:
  assumes "layout_ok l" "in_data l ext" "synced_apart l ext x y"
    and "vertexfs_validate_directory l x dynamic = Inr ()"
    and "table_of l y = table_of l x \<or> table_of l y = inode_record (table_of l x) 224 k c"
  shows "vertexfs_validate_directory l y dynamic = Inr ()"
proof -
  have full: "full_image x" "full_image y"
    using assms(3) by (simp_all add: synced_apart_def)
  note n = layout_numbers [OF assms(1)] table_section [OF assms(1) full(1)]
  have "vertexfs_fixed_string (table_of l y) (vertexfs_inode_name_offset (4 + i)) 28
      = vertexfs_fixed_string (table_of l x) (vertexfs_inode_name_offset (4 + i)) 28"
    if "i < ly_dynamic_file_capacity l" for i
    using assms(5) n that by (auto simp: inode_record_names)
  then have "list_all (dynamic_entry_ok d (table_of l y) dynamic) [0 ..< min (ly_dynamic_file_capacity l) (length dynamic)]
      = list_all (dynamic_entry_ok d (table_of l x) dynamic) [0 ..< min (ly_dynamic_file_capacity l) (length dynamic)]" for d
    by (intro list.pred_cong) (simp_all add: dynamic_entry_ok_def VERTEXFS_BASE_INODE_COUNT_def)
  then have "vertexfs_validate_directory l y dynamic = vertexfs_validate_directory l x dynamic"
    by (cases "vertexfs_section x (ly_directory_sector l) (ly_directory_sectors l)")
      (simp_all add: vertexfs_validate_directory_def synced_apart_sections [OF assms(1-3)] table_section [OF assms(1)] full Let_def)
  then show ?thesis
    using assms(4) by simp
qed

text \<open>
  The parts of an image after any of the writes of a sync of \<^verbatim>\<open>app/a\<close>:
  what is left to show is the journal and the payload it makes readable.
\<close>

lemma parts_after_write:
  assumes "image_parts x sb l j inodes readme re base ext" "layout_ok l" "in_data l ext" "synced_apart l ext x y"
    and "table_of l y = table_of l x \<and> inodes' = inodes \<or>
      table_of l y = inode_record (table_of l x) 224 k c \<and> inodes' = recorded inodes k c"
    and "vertexfs_parse_journal l y = Inr j'"
    and "vertexfs_recoverable_file_payload y (pi_app_a inodes') j' = Inr (base', ext)"
  shows "image_parts y sb l j' inodes' readme re base' ext"
proof -
  have full: "full_image x" "full_image y"
    using assms(4) by (simp_all add: synced_apart_def)
  have x: "vertexfs_sector x 0 = Inr sb" "vertexfs_layout_from_superblock sb = Inr l" "superblock_ok l sb"
    "vertexfs_parse_inode_table l x = Inr inodes" "vertexfs_validate_directory l x (pi_dynamic inodes) = Inr ()"
    "vertexfs_file_payload x (pi_readme inodes) = Inr (readme, re)" "\<not> extents_overlap re ext"
    "check_dynamic_extents x [re, ext] (take (ly_dynamic_file_capacity l) (pi_dynamic inodes)) = Inr ()"
    "vertexfs_validate_free_map l x (pi_readme inodes) (pi_app_a inodes) (pi_dynamic inodes) = Inr ()"
    using assms(1) by (simp_all add: image_parts_def)
  have lx: "vertexfs_layout_for_image x = Inr l"
    using x(1,2) by (simp add: vertexfs_layout_for_image_def)
  have same: "pi_readme inodes' = pi_readme inodes" "pi_dynamic inodes' = pi_dynamic inodes"
    "vertexfs_inode_covers_sector (pi_app_a inodes') = vertexfs_inode_covers_sector (pi_app_a inodes)"
    using assms(5) by (auto simp: recorded_def vertexfs_inode_covers_sector_def fun_eq_iff split: option.splits)
  have table: "vertexfs_parse_inode_table l y = Inr inodes'"
    using assms(5)
  proof
    assume "table_of l y = table_of l x \<and> inodes' = inodes"
    with x(4) show ?thesis
      by (simp add: vertexfs_parse_inode_table_def table_section [OF assms(2)] full)
  qed (simp add: parse_recorded_table [OF assms(2) full x(4)])
  have "vertexfs_validate_directory l y (pi_dynamic inodes') = Inr ()"
    using directory_kept [OF assms(2-4) x(5)] assms(5) same by auto
  moreover have "sector_expected l (pi_readme inodes') (pi_app_a inodes') (pi_dynamic inodes')
      = sector_expected l (pi_readme inodes) (pi_app_a inodes) (pi_dynamic inodes)"
    by (simp add: sector_expected_def same fun_eq_iff)
  then have "vertexfs_validate_free_map l y (pi_readme inodes') (pi_app_a inodes') (pi_dynamic inodes') = Inr ()"
    using x(9) unfolding vertexfs_validate_free_map_def by (simp only: synced_apart_sections [OF assms(2-4)])
  ultimately show ?thesis
    using x table assms(6,7) other_payload_kept [OF assms(2-4) lx x(6,7)] dynamic_extents_kept [OF assms(2-4) lx x(8)]
    by (simp add: image_parts_def same synced_apart_sections [OF assms(2-4)])
qed

end
