(* ===== verification/VertexFs_Crash.thy ===== *)
theory VertexFs_Crash
  imports VertexFs_Safety
begin

text \<open>
  A sync interrupted between two device writes.  The block driver is sent one
  recorded sector after the other, each after the previous one was
  acknowledged, so when the machine stops the device holds the image it held
  before with a prefix of the recorded writes applied.
\<close>

section \<open>The device\<close>

definition apply_write :: "u8 list \<Rightarrow> device_write \<Rightarrow> u8 list" where
  "apply_write dev w = splice dev (unat (dw_sector w) * VERTEXFS_SECTOR_SIZE) (dw_bytes w)"

definition apply_writes :: "device_write list \<Rightarrow> u8 list \<Rightarrow> u8 list" where
  "apply_writes ws dev = foldl apply_write dev ws"

definition sync_writes :: "runtime_state \<Rightarrow> device_write list" where
  "sync_writes rt = take (rt_sync_write_count rt) (rt_sync_writes rt)"

definition sector_write :: "u8 list \<Rightarrow> u64 \<Rightarrow> device_write" where
  "sector_write img a = \<lparr>dw_sector = a, dw_bytes = span img (unat a * 512) 512\<rparr>"

lemma apply_writes_append: "apply_writes (ws @ vs) dev = apply_writes vs (apply_writes ws dev)"
  by (simp add: apply_writes_def)

lemma unat_sector_offset: "unat a + i \<le> 64 \<Longrightarrow> unat ((a :: u64) + of_nat i) = unat a + i"
  by (simp add: unat_word_ariths unat_of_nat)

lemma splice_extend:
  assumes "a + n + m \<le> length xs" "length ys = length xs"
  shows "splice (splice xs a (span ys a n)) (a + n) (span ys (a + n) m) = splice xs a (span ys a (n + m))"
  using assms by (intro nth_equalityI) (auto simp: nth_splice length_span nth_span)

text \<open>Consecutive sectors of an image written in order write the range up to the last one.\<close>

lemma apply_sector_writes:
  assumes "full_image dev" "full_image img" "unat a + n \<le> 64"
  shows "apply_writes (map (\<lambda>i. sector_write img (a + of_nat i)) [0 ..< n]) dev
    = splice dev (unat a * 512) (span img (unat a * 512) (n * 512))"
  using assms(3)
proof (induction n)
  case (Suc n)
  then show ?case
    using splice_extend [of "unat a * 512" "n * 512" 512 dev img] assms(1,2)
    by (simp add: apply_writes_append apply_writes_def [of "[_]"] apply_write_def sector_write_def unat_sector_offset
        image_bytes VERTEXFS_SECTOR_SIZE_def algebra_simps)
qed (simp add: apply_writes_def span_def)

section \<open>What the kernel records\<close>

text \<open>The array of writes has a slot for each of the next \<^verbatim>\<open>n\<close> sectors; recording them fills it in order.\<close>

definition room_for :: "runtime_state \<Rightarrow> nat \<Rightarrow> bool" where
  "room_for rt n \<longleftrightarrow> rt_sync_write_count rt + n \<le> length (rt_sync_writes rt)"

definition recorded_writes :: "runtime_state \<Rightarrow> runtime_state \<Rightarrow> device_write list \<Rightarrow> bool" where
  "recorded_writes rt rt' ws \<longleftrightarrow> image_of rt' = image_of rt \<and> sync_writes rt' = sync_writes rt @ ws \<and>
    rt_sync_write_count rt' = rt_sync_write_count rt + length ws \<and>
    length (rt_sync_writes rt') = length (rt_sync_writes rt)"

lemma record_sector_run:
  assumes "full_image (image_of rt)" "unat a < 64" "room_for rt 1"
  shows "\<exists>rt'. record_vertexfs_sync_sector a rt = Some (rt', Inr ()) \<and>
    recorded_writes rt rt' [sector_write (image_of rt) a]"
  using assms
  by (auto simp: record_vertexfs_sync_sector_def sector_full room_for_def recorded_writes_def sync_writes_def sector_write_def
      image_of_def take_Suc_conv_app_nth)

lemma record_sectors_run:
  assumes "full_image (image_of rt)" "unat a + n \<le> 64" "room_for rt n"
  shows "\<exists>rt'. record_sectors a n rt = Some (rt', Inr ()) \<and>
    recorded_writes rt rt' (map (\<lambda>i. sector_write (image_of rt) (a + of_nat i)) [0 ..< n])"
  using assms
proof (induction n arbitrary: a rt)
  case 0
  then show ?case
    by (simp add: recorded_writes_def)
next
  case (Suc n)
  then obtain rt1 where 1: "record_vertexfs_sync_sector a rt = Some (rt1, Inr ())"
      "recorded_writes rt rt1 [sector_write (image_of rt) a]"
    using record_sector_run [of rt a] by (auto simp: room_for_def)
  have "unat (a + 1) = unat a + 1"
    using Suc.prems(2) unat_sector_offset [of a 1] by simp
  then obtain rt' where 2: "record_sectors (a + 1) n rt1 = Some (rt', Inr ())"
      "recorded_writes rt1 rt' (map (\<lambda>i. sector_write (image_of rt) (a + 1 + of_nat i)) [0 ..< n])"
    using Suc.IH [of rt1 "a + 1"] Suc.prems 1(2) by (auto simp: room_for_def recorded_writes_def)
  have "map (\<lambda>i. sector_write (image_of rt) (a + of_nat i)) [0 ..< Suc n]
      = sector_write (image_of rt) a # map (\<lambda>i. sector_write (image_of rt) (a + 1 + of_nat i)) [0 ..< n]"
    by (simp add: upt_conv_Cons map_Suc_upt [symmetric] comp_def add.assoc del: upt_Suc)
  with 1 2 show ?case
    by (auto simp: call_bind_def recorded_writes_def simp del: upt_Suc)
qed

section \<open>Images during a sync\<close>

lemma synced_apart_refl: "full_image x \<Longrightarrow> synced_apart l ext x x"
  by (simp add: synced_apart_def)

lemma synced_apart_splice:
  assumes "synced_apart l ext x y" "a + length ys \<le> VERTEXFS_IMAGE_BYTES"
    and "\<And>i. a \<le> i \<Longrightarrow> i < a + length ys \<Longrightarrow> in_sectors 1 (unat (ly_inode_table_sectors l)) i \<or>
      in_sectors (unat (ly_journal_sector l)) 1 i \<or> in_sectors (unat (fst ext)) (unat (snd ext) - unat (fst ext)) i"
  shows "synced_apart l ext x (splice y a ys)"
  using assms unfolding synced_apart_def by (auto simp: nth_splice)

lemma unat_ucast_u32: "unat (ucast (n :: u32) :: u64) = unat n"
  using unsigned_less [of n, where 'a = nat] by (simp add: unsigned_ucast_eq take_bit_nat_eq_self_iff)

lemma unat_extent_bytes: "unat (ucast (n :: u32) * of_nat VERTEXFS_SECTOR_SIZE :: u64) = unat n * 512"
  using unsigned_less [of n, where 'a = nat] by (simp add: VERTEXFS_SECTOR_SIZE_def unat_word_ariths unat_ucast_u32)

definition journal_of :: "vertexfs_layout \<Rightarrow> u8 list \<Rightarrow> u8 list" where
  "journal_of l img = span img (unat (ly_journal_sector l) * 512) 512"

text \<open>
  As soon as the pending record is on the device, the image is accepted and
  the record's payload is what \<^verbatim>\<open>app/a\<close> holds, whichever of the later
  writes are there: the payload in the first sector of the extent, and the
  size and checksum in the inode table.
\<close>

lemma recorded_payload:
  assumes "full_image y" "vertexfs_layout_for_image y = Inr l" "layout_ok l"
    and "vertexfs_file_extent_payload x (pi_app_a inodes) = Inr (base, ext)" "vertexfs_layout_for_image x = Inr l" "full_image x"
    and p: "length p \<le> 448" "length p \<le> unat (ino_sector_count (pi_app_a inodes)) * 512"
    and "span y (unat (fst ext) * 512) (length p) = p"
  shows "vertexfs_recoverable_file_payload y (pi_app_a (recorded inodes (length p) (vertexfs_checksum32 p))) j = Inr (p, ext)"
proof -
  note px = assms(4) [unfolded extent_payload_iff [OF assms(6,5,3)]]
  have "unat (of_nat (length p) :: u64) = length p"
    using p by (simp add: unat_of_nat)
  moreover from this have "(of_nat (length p) :: u64) \<le> ucast (ino_sector_count (pi_app_a inodes)) * of_nat VERTEXFS_SECTOR_SIZE"
    using p by (simp add: word_le_nat_alt unat_extent_bytes)
  moreover have "unat (fst ext) * 512 + 512 \<le> VERTEXFS_IMAGE_BYTES"
    using px in_dataD [OF assms(3), of ext]
    by (auto simp: image_bytes checked_add_Some unat_ucast_u32 word_neq_0_conv word_less_nat_alt)
  ultimately have "vertexfs_file_extent_payload y (pi_app_a (recorded inodes (length p) (vertexfs_checksum32 p))) = Inr (p, ext)"
    using px p assms(9)
    by (simp add: extent_payload_iff [OF assms(1-3)] recorded_def MAX_VERTEXFS_FILE_BYTES_def image_bytes)
  then show ?thesis
    by (simp add: vertexfs_recoverable_file_payload_def recorded_def split: prod.splits)
qed

lemma recoverable_while_pending:
  assumes "image_parts x sb l None inodes readme re base ext" "layout_ok l" "synced_apart l ext x y" "in_data l ext"
    and p: "length p \<le> 448" "length p \<le> unat (ino_sector_count (pi_app_a inodes)) * 512"
    and cases: "inodes' = inodes \<and> span y (unat (fst ext) * 512) 512 = span x (unat (fst ext) * 512) 512 \<or>
      inodes' = inodes \<and> span y (unat (fst ext) * 512) (length p) = p \<or>
      inodes' = recorded inodes (length p) (vertexfs_checksum32 p) \<and> span y (unat (fst ext) * 512) (length p) = p"
  shows "\<exists>base'. vertexfs_recoverable_file_payload y (pi_app_a inodes')
    (Some \<lparr>jr_target_inode = VERTEXFS_INODE_APP_A, jr_payload = p\<rparr>) = Inr (base', ext)"
proof -
  have full: "full_image x" "full_image y"
    using assms(3) by (simp_all add: synced_apart_def)
  have lx: "vertexfs_layout_for_image x = Inr l"
    using assms(1) by (simp add: image_parts_def vertexfs_layout_for_image_def)
  then have ly: "vertexfs_layout_for_image y = Inr l"
    by (simp add: layout_of_synced [OF assms(2,4,3)])
  have x: "vertexfs_file_extent_payload x (pi_app_a inodes) = Inr (base, ext)"
      "vertexfs_checksum32 base = ino_checksum (pi_app_a inodes)"
    using assms(1) by (auto simp: image_parts_def vertexfs_recoverable_file_payload_def split: sum.splits if_splits)
  have id: "ino_id (pi_app_a inodes) = VERTEXFS_INODE_APP_A"
    using assms(1) app_a_offset(3) [OF assms(2) full(1)] by (simp add: image_parts_def)
  note px = x(1) [unfolded extent_payload_iff [OF full(1) lx assms(2)]]
  have small: "unat (ino_size (pi_app_a inodes)) \<le> 512"
    using px by (simp add: MAX_VERTEXFS_FILE_BYTES_def)
  have room: "unat (fst ext) * 512 + 512 \<le> VERTEXFS_IMAGE_BYTES"
    using px in_dataD [OF assms(2,4)] by (auto simp: image_bytes checked_add_Some unat_ucast_u32 word_neq_0_conv word_less_nat_alt)
  have old: "vertexfs_file_extent_payload y (pi_app_a inodes)
      = Inr (span y (unat (fst ext) * 512) (unat (ino_size (pi_app_a inodes))), ext)"
    using px by (simp add: extent_payload_iff [OF full(2) ly assms(2)])
  from cases consider
      (none) "inodes' = inodes" "span y (unat (fst ext) * 512) 512 = span x (unat (fst ext) * 512) 512"
    | (data) "inodes' = inodes" "span y (unat (fst ext) * 512) (length p) = p"
    | (inode) "inodes' = recorded inodes (length p) (vertexfs_checksum32 p)" "span y (unat (fst ext) * 512) (length p) = p"
    by blast
  then show ?thesis
  proof cases
    case none
    have "span y (unat (fst ext) * 512) n = span x (unat (fst ext) * 512) n" if "n \<le> 512" for n
      using span_span [of 0 n 512 "unat (fst ext) * 512" x] span_span [of 0 n 512 "unat (fst ext) * 512" y] none(2) that room full
      by simp
    then show ?thesis
      using none(1) old px x(2) small by (simp add: vertexfs_recoverable_file_payload_def)
  next
    case data
    then show ?thesis
      using old px id room p full
      by (auto simp: vertexfs_recoverable_file_payload_def vertexfs_extent_starts_with_def Let_def VERTEXFS_SECTOR_SIZE_def
          image_bytes)
  next
    case inode
    show ?thesis
      unfolding inode(1) by (rule exI) (rule recorded_payload [OF full(2) ly assms(2) x(1) lx full(1) p inode(2)])
  qed
qed

text \<open>The boot files of an image whose pending record is replayed, and of one that is clean again.\<close>

definition boot_with :: "vertexfs_boot_files \<Rightarrow> vertexfs_inode \<Rightarrow> u8 list \<Rightarrow> bool \<Rightarrow> vertexfs_boot_files" where
  "boot_with boot inode p replayed = boot\<lparr>bf_app_a := \<lparr>bf_inode = inode, bf_payload = p\<rparr>, bf_journal_replayed := replayed\<rparr>"

lemma pending_image_parses:
  assumes "image_parts x sb l None inodes readme re base ext" "layout_ok l" "synced_apart l ext x y" "in_data l ext"
    and boot: "vertexfs_fixed_string sb (ly_generation_offset l) 64 = Inr (bf_generation boot)"
      "bf_readme boot = \<lparr>bf_inode = pi_readme inodes, bf_payload = readme\<rparr>"
    and p: "length p \<le> 448" "length p \<le> unat (ino_sector_count (pi_app_a inodes)) * 512"
    and journal: "journal_of l y = pending_sector l VERTEXFS_INODE_APP_A p 512"
    and cases: "table_of l y = table_of l x \<and> inodes' = inodes \<and>
        (span y (unat (fst ext) * 512) 512 = span x (unat (fst ext) * 512) 512 \<or> span y (unat (fst ext) * 512) (length p) = p) \<or>
      table_of l y = inode_record (table_of l x) 224 (length p) (vertexfs_checksum32 p) \<and>
        inodes' = recorded inodes (length p) (vertexfs_checksum32 p) \<and> span y (unat (fst ext) * 512) (length p) = p"
  shows "parse_vertexfs_image y = Inr (boot_with boot (pi_app_a inodes') p True)"
proof -
  let ?j = "\<lparr>jr_target_inode = VERTEXFS_INODE_APP_A, jr_payload = p\<rparr>"
  have full: "full_image x" "full_image y"
    using assms(3) by (simp_all add: synced_apart_def)
  obtain base' where r: "vertexfs_recoverable_file_payload y (pi_app_a inodes') (Some ?j) = Inr (base', ext)"
    using recoverable_while_pending [OF assms(1-4) p, of inodes'] cases by blast
  have parts: "image_parts y sb l (Some ?j) inodes' readme re base' ext"
    using cases parse_pending [OF assms(2) full(2) p(1)] journal
    by (intro parts_after_write [OF assms(1,2,4,3) _ _ r]) (auto simp: journal_of_def)
  have "ino_id (pi_app_a inodes) = VERTEXFS_INODE_APP_A"
    using assms(1) app_a_offset(3) [OF assms(2) full(1)] by (simp add: image_parts_def)
  then have "vertexfs_replay_journal (pi_app_a inodes') base' (Some ?j) = Inr (p, True)"
    using cases p
    by (auto simp: vertexfs_replay_journal_def recorded_def MAX_VERTEXFS_FILE_BYTES_def word_less_nat_alt unat_extent_bytes unat_of_nat)
  moreover have "pi_readme inodes' = pi_readme inodes"
    using cases by (auto simp: recorded_def)
  ultimately show ?thesis
    using boot by (simp add: parse_parts [OF parts boot(1)] boot_with_def)
qed

lemma clean_image_parses:
  assumes "image_parts x sb l None inodes readme re base ext" "layout_ok l" "synced_apart l ext x y" "in_data l ext"
    and boot: "vertexfs_fixed_string sb (ly_generation_offset l) 64 = Inr (bf_generation boot)"
      "bf_readme boot = \<lparr>bf_inode = pi_readme inodes, bf_payload = readme\<rparr>"
    and p: "length p \<le> 448" "length p \<le> unat (ino_sector_count (pi_app_a inodes)) * 512"
    and y: "journal_of l y = clean_sector l 512" "span y (unat (fst ext) * 512) (length p) = p"
      "table_of l y = inode_record (table_of l x) 224 (length p) (vertexfs_checksum32 p)"
  shows "parse_vertexfs_image y
    = Inr (boot_with boot (pi_app_a (recorded inodes (length p) (vertexfs_checksum32 p))) p False)"
proof -
  let ?inodes = "recorded inodes (length p) (vertexfs_checksum32 p)"
  have full: "full_image x" "full_image y"
    using assms(3) by (simp_all add: synced_apart_def)
  have lx: "vertexfs_layout_for_image x = Inr l"
    using assms(1) by (simp add: image_parts_def vertexfs_layout_for_image_def)
  have "vertexfs_file_extent_payload x (pi_app_a inodes) = Inr (base, ext)"
    using assms(1) by (auto simp: image_parts_def vertexfs_recoverable_file_payload_def split: sum.splits if_splits)
  then have r: "vertexfs_recoverable_file_payload y (pi_app_a ?inodes) None = Inr (p, ext)"
    using lx by (intro recorded_payload [OF full(2) _ assms(2) _ lx full(1) p y(2)])
      (simp_all add: layout_of_synced [OF assms(2,4,3)])
  have parts: "image_parts y sb l None ?inodes readme re p ext"
    using y parse_clean [OF assms(2) full(2)]
    by (intro parts_after_write [OF assms(1,2,4,3) _ _ r]) (auto simp: journal_of_def)
  have "vertexfs_replay_journal (pi_app_a ?inodes) p None = Inr (p, False)"
    by (simp add: vertexfs_replay_journal_def)
  from parse_parts [OF parts boot(1) this] show ?thesis
    using boot(2) by (simp add: boot_with_def recorded_def)
qed

section \<open>The images of a commit\<close>

lemma set_image_simps [simp]:
  "image_of (set_image rt img) = img" "room_for (set_image rt img) = room_for rt"
  "sync_writes (set_image rt img) = sync_writes rt" "rt_sync_write_count (set_image rt img) = rt_sync_write_count rt"
  "rt_sync_writes (set_image rt img) = rt_sync_writes rt"
  by (simp_all add: image_of_def set_image_def room_for_def sync_writes_def fun_eq_iff)

lemma layout_of_Inr: "layout_of img = Inr l \<longleftrightarrow> vertexfs_layout_for_image img = Inr l"
  by (cases "vertexfs_layout_for_image img") (simp_all add: layout_of_def)

lemma pending_edit:
  assumes "full_image img" "vertexfs_layout_for_image img = Inr l" "layout_ok l" "length p \<le> 448"
  shows "write_vertexfs_journal_pending img i p
    = Some (splice img (unat (ly_journal_sector l) * 512) (pending_sector l i p 512), Inr ())"
  using assms layout_numbers [OF assms(3)]
  by (simp add: write_vertexfs_journal_pending_def layout_of_Inr [THEN iffD2] sector_range_full update_section_full
      VERTEXFS_SECTOR_SIZE_def VERTEXFS_JOURNAL_PAYLOAD_OFFSET_def length_span image_bytes)

lemma clean_edit:
  assumes "full_image img" "vertexfs_layout_for_image img = Inr l" "layout_ok l"
  shows "write_vertexfs_journal_clean img = (splice img (unat (ly_journal_sector l) * 512) (clean_sector l 512), Inr ())"
  using assms layout_numbers [OF assms(3)]
  by (simp add: write_vertexfs_journal_clean_def layout_of_Inr [THEN iffD2] update_section_full length_span image_bytes)

lemma extent_edit:
  assumes "full_image img" "(unat (vx_first_sector f) + unat (vx_sector_count f)) * 512 \<le> VERTEXFS_IMAGE_BYTES"
    and "vx_len f \<le> unat (vx_sector_count f) * 512" "vx_len f \<le> length (vx_bytes f)"
  shows "write_vertexfs_file_extent img f = Some (splice img (unat (vx_first_sector f) * 512)
    (take (vx_len f) (vx_bytes f) @ replicate (unat (vx_sector_count f) * 512 - vx_len f) 0), Inr ())"
  using assms by (simp add: write_vertexfs_file_extent_def Let_def VERTEXFS_SECTOR_SIZE_def image_bytes algebra_simps)

lemma inode_edit:
  assumes "full_image img" "vertexfs_layout_for_image img = Inr l" "layout_ok l"
    and "vertexfs_inode_offset_by_id l (table_of l img) (vx_inode_id f) = Inr off"
  shows "write_vertexfs_inode_record img f c = (splice img 512 (inode_record (table_of l img) off (vx_len f) c), Inr ())"
  using assms layout_numbers [OF assms(3)]
  by (simp add: write_vertexfs_inode_record_def layout_of_Inr [THEN iffD2] update_section_full table_of_def)

text \<open>
  The four images of a commit of \<^verbatim>\<open>app/a\<close>, and the sectors recorded from
  them: the journal with the pending record, the extent, the inode table, the
  journal clean again.
\<close>

definition commit_images :: "vertexfs_layout \<Rightarrow> vertexfs_file \<Rightarrow> u8 list \<Rightarrow> u8 list \<times> u8 list \<times> u8 list \<times> u8 list" where
  "commit_images l f x =
    (let p = take (vx_len f) (vx_bytes f);
         x1 = splice x (unat (ly_journal_sector l) * 512) (pending_sector l (vx_inode_id f) p 512);
         x2 = splice x1 (unat (vx_first_sector f) * 512) (p @ replicate (unat (vx_sector_count f) * 512 - vx_len f) 0);
         x3 = splice x2 512 (inode_record (table_of l x) 224 (vx_len f) (vertexfs_checksum32 p));
         x4 = splice x3 (unat (ly_journal_sector l) * 512) (clean_sector l 512)
     in (x1, x2, x3, x4))"

definition commit_writes :: "vertexfs_layout \<Rightarrow> vertexfs_file \<Rightarrow> u8 list \<Rightarrow> device_write list" where
  "commit_writes l f x = (case commit_images l f x of (x1, x2, x3, x4) \<Rightarrow>
    [sector_write x1 (ly_journal_sector l)] @
    map (\<lambda>i. sector_write x2 (vx_first_sector f + of_nat i)) [0 ..< unat (vx_sector_count f)] @
    map (\<lambda>i. sector_write x3 (ly_inode_table_sector l + of_nat i)) [0 ..< unat (ly_inode_table_sectors l)] @
    [sector_write x4 (ly_journal_sector l)])"

definition app_sync :: "vertexfs_file \<Rightarrow> u64 \<times> u64 \<Rightarrow> bool" where
  "app_sync f ext \<longleftrightarrow> vx_inode_id f = VERTEXFS_INODE_APP_A \<and> vx_first_sector f = fst ext \<and>
    unat (fst ext) + unat (vx_sector_count f) = unat (snd ext) \<and> vx_sector_count f \<noteq> 0 \<and> vx_len f \<le> 448 \<and>
    vx_len f \<le> length (vx_bytes f)"

lemma app_sync_count: "app_sync f ext \<Longrightarrow> 1 \<le> unat (vx_sector_count f)"
  by (simp add: app_sync_def word_neq_0_conv word_less_nat_alt Suc_leI)

lemma commit_images_facts:
  assumes "layout_ok l" "in_data l ext" "full_image x" "app_sync f ext" "commit_images l f x = (x1, x2, x3, x4)"
  shows "synced_apart l ext x x1" "synced_apart l ext x x2" "synced_apart l ext x x3" "synced_apart l ext x x4"
    "journal_of l x1 = pending_sector l VERTEXFS_INODE_APP_A (take (vx_len f) (vx_bytes f)) 512"
    "journal_of l x2 = journal_of l x1" "journal_of l x3 = journal_of l x1" "journal_of l x4 = clean_sector l 512"
    "table_of l x1 = table_of l x" "table_of l x2 = table_of l x"
    "table_of l x3 = inode_record (table_of l x) 224 (vx_len f) (vertexfs_checksum32 (take (vx_len f) (vx_bytes f)))"
    "table_of l x4 = table_of l x3"
    "span x1 (unat (fst ext) * 512) 512 = span x (unat (fst ext) * 512) 512"
    "span x2 (unat (fst ext) * 512) (vx_len f) = take (vx_len f) (vx_bytes f)"
    "span x3 (unat (fst ext) * 512) (vx_len f) = take (vx_len f) (vx_bytes f)"
    "span x4 (unat (fst ext) * 512) (vx_len f) = take (vx_len f) (vx_bytes f)"
    "full_image x1" "full_image x2" "full_image x3" "full_image x4"
proof -
  define p where "p = take (vx_len f) (vx_bytes f)"
  define e where "e = p @ replicate (unat (vx_sector_count f) * 512 - vx_len f) 0"
  note n = layout_numbers [OF assms(1)] in_dataD [OF assms(1,2)] app_sync_count [OF assms(4)]
  have f: "vx_inode_id f = VERTEXFS_INODE_APP_A" "vx_first_sector f = fst ext"
    "unat (fst ext) + unat (vx_sector_count f) = unat (snd ext)" "vx_len f \<le> 448" "vx_len f \<le> length (vx_bytes f)"
    using assms(4) by (simp_all add: app_sync_def)
  have len: "length p = vx_len f" "length e = unat (vx_sector_count f) * 512" "length (table_of l x) = unat (ly_inode_table_sectors l) * 512"
    using f n table_section(3) [OF assms(1,3)] by (simp_all add: p_def e_def)
  have e_p: "span e 0 (vx_len f) = p"
    using len by (simp add: e_def span_def)
  let ?j = "unat (ly_journal_sector l) * 512" and ?r = "inode_record (table_of l x) 224 (vx_len f) (vertexfs_checksum32 p)"
  have r: "length ?r = unat (ly_inode_table_sectors l) * 512"
    using len n by (simp add: inode_record_fields)
  have x: "x1 = splice x ?j (pending_sector l VERTEXFS_INODE_APP_A p 512)" "x2 = splice x1 (unat (fst ext) * 512) e"
    "x3 = splice x2 512 ?r" "x4 = splice x3 ?j (clean_sector l 512)"
    using assms(5) f by (auto simp: commit_images_def Let_def p_def e_def)
  show full: "full_image x1" "full_image x2" "full_image x3" "full_image x4"
    using x assms(3) by simp_all
  show s1: "synced_apart l ext x x1"
    unfolding x(1) using n by (intro synced_apart_splice [OF synced_apart_refl [OF assms(3)]]) (auto simp: image_bytes in_sectors_def)
  show s2: "synced_apart l ext x x2"
    unfolding x(2) using n len f by (intro synced_apart_splice [OF s1]) (auto simp: image_bytes in_sectors_def)
  show s3: "synced_apart l ext x x3"
    unfolding x(3) using n len r by (intro synced_apart_splice [OF s2]) (auto simp: image_bytes in_sectors_def)
  show "synced_apart l ext x x4"
    unfolding x(4) using n len by (intro synced_apart_splice [OF s3]) (auto simp: image_bytes in_sectors_def)
  note sp = image_bytes assms(3) full span_splice_apart span_splice [of _ "pending_sector _ _ _ 512", simplified]
    span_splice [of _ "clean_sector _ 512", simplified] len r
  show j1: "journal_of l x1 = pending_sector l VERTEXFS_INODE_APP_A (take (vx_len f) (vx_bytes f)) 512"
    "journal_of l x4 = clean_sector l 512"
    using n by (simp_all add: journal_of_def x(1,4) sp p_def)
  show j2: "journal_of l x2 = journal_of l x1" 
    using n f by (simp add: journal_of_def x(2) sp)
  show "journal_of l x3 = journal_of l x1"
    using n f j2 by (simp add: journal_of_def x(3) sp)
  show t1: "table_of l x1 = table_of l x"
    using n by (simp add: table_of_def x(1) sp)
  show "table_of l x2 = table_of l x"
    using n f t1 by (simp add: table_of_def x(2) sp)
  show "table_of l x3 = inode_record (table_of l x) 224 (vx_len f) (vertexfs_checksum32 (take (vx_len f) (vx_bytes f)))"
    using span_splice [of 512 ?r x2, folded x(3)] n full unfolding r p_def [symmetric] table_of_def [of l x3]
    by (simp add: image_bytes)
  show "table_of l x4 = table_of l x3"
    using n by (simp add: table_of_def x(4) sp)
  show "span x1 (unat (fst ext) * 512) 512 = span x (unat (fst ext) * 512) 512"
    using n f by (simp add: x(1) sp)
  show p2: "span x2 (unat (fst ext) * 512) (vx_len f) = take (vx_len f) (vx_bytes f)"
    using n f e_p by (simp add: x(2) sp span_splice_inside p_def)
  show p3: "span x3 (unat (fst ext) * 512) (vx_len f) = take (vx_len f) (vx_bytes f)"
    using n f p2 by (simp add: x(3) sp)
  show "span x4 (unat (fst ext) * 512) (vx_len f) = take (vx_len f) (vx_bytes f)"
    using n f p3 by (simp add: x(4) sp)
qed

section \<open>The device after a prefix of the writes\<close>

lemma splice_back: "a + length ys \<le> length xs \<Longrightarrow> splice xs a (span (splice xs a ys) a (length ys)) = splice xs a ys"
  by (simp add: span_splice)

lemma splice_agree:
  assumes "length ys = length xs" "a + n \<le> length xs" "\<And>i. i < length xs \<Longrightarrow> i < a \<or> a + n \<le> i \<Longrightarrow> ys ! i = xs ! i"
  shows "splice xs a (span ys a n) = ys"
  using assms by (intro nth_equalityI) (auto simp: nth_splice length_span nth_span not_less not_le)

lemma device_after_journal:
  assumes "layout_ok l" "full_image x" "commit_images l f x = (x1, x2, x3, x4)"
  shows "apply_write x (sector_write x1 (ly_journal_sector l)) = x1"
    "apply_write x3 (sector_write x4 (ly_journal_sector l)) = x4"
proof -
  have "x1 = splice x (unat (ly_journal_sector l) * 512) (pending_sector l (vx_inode_id f) (take (vx_len f) (vx_bytes f)) 512)"
    "x4 = splice x3 (unat (ly_journal_sector l) * 512) (clean_sector l 512)" "full_image x3"
    using assms by (auto simp: commit_images_def Let_def)
  then show "apply_write x (sector_write x1 (ly_journal_sector l)) = x1"
    "apply_write x3 (sector_write x4 (ly_journal_sector l)) = x4"
    using layout_numbers [OF assms(1)] assms(2)
      splice_back [of "unat (ly_journal_sector l) * 512" "pending_sector l (vx_inode_id f) (take (vx_len f) (vx_bytes f)) 512" x]
      splice_back [of "unat (ly_journal_sector l) * 512" "clean_sector l 512" x3]
    by (simp_all add: apply_write_def sector_write_def VERTEXFS_SECTOR_SIZE_def image_bytes)
qed

lemma device_after_extent:
  assumes "layout_ok l" "in_data l ext" "full_image x" "app_sync f ext" "commit_images l f x = (x1, x2, x3, x4)"
    and "i \<le> unat (vx_sector_count f)"
  defines "y \<equiv> apply_writes (map (\<lambda>i. sector_write x2 (vx_first_sector f + of_nat i)) [0 ..< i]) x1"
  shows "y = splice x1 (unat (fst ext) * 512) (span x2 (unat (fst ext) * 512) (i * 512))"
    "i = unat (vx_sector_count f) \<Longrightarrow> y = x2"
proof -
  note facts = commit_images_facts [OF assms(1-5)]
  have f: "vx_first_sector f = fst ext" "unat (fst ext) + unat (vx_sector_count f) = unat (snd ext)" "unat (snd ext) \<le> 64"
    "vx_len f \<le> 448" "vx_len f \<le> length (vx_bytes f)"
    using assms(4) in_dataD [OF assms(1,2)] by (simp_all add: app_sync_def)
  show y: "y = splice x1 (unat (fst ext) * 512) (span x2 (unat (fst ext) * 512) (i * 512))"
    using f assms(6) facts apply_sector_writes [of x1 x2 "fst ext" i] by (simp add: y_def)
  have "x2 = splice x1 (unat (fst ext) * 512)
      (take (vx_len f) (vx_bytes f) @ replicate (unat (vx_sector_count f) * 512 - vx_len f) 0)"
    using assms(5) f by (auto simp: commit_images_def Let_def)
  then show "y = x2" if "i = unat (vx_sector_count f)"
    using splice_back [of "unat (fst ext) * 512" "take (vx_len f) (vx_bytes f) @ replicate (unat (vx_sector_count f) * 512 - vx_len f) 0" x1]
      app_sync_count [OF assms(4)] f facts that y by (simp add: image_bytes algebra_simps)
qed

text \<open>The record lies in the first sector of the table, so the first of its writes makes it complete.\<close>

lemma device_after_table:
  assumes "layout_ok l" "in_data l ext" "full_image x" "app_sync f ext" "commit_images l f x = (x1, x2, x3, x4)"
    and "1 \<le> i" "i \<le> unat (ly_inode_table_sectors l)"
  shows "apply_writes (map (\<lambda>i. sector_write x3 (ly_inode_table_sector l + of_nat i)) [0 ..< i]) x2 = x3"
proof -
  note facts = commit_images_facts [OF assms(1-5)] and n = layout_numbers [OF assms(1)] in_dataD [OF assms(1,2)]
  let ?r = "inode_record (table_of l x) 224 (vx_len f) (vertexfs_checksum32 (take (vx_len f) (vx_bytes f)))"
  have len: "length (table_of l x) = unat (ly_inode_table_sectors l) * 512" "length ?r = unat (ly_inode_table_sectors l) * 512"
    using table_section(3) [OF assms(1,3)] n by (simp_all add: inode_record_fields)
  have x3: "x3 = splice x2 512 ?r"
    using assms(5) by (auto simp: commit_images_def Let_def)
  have same: "?r ! (j - 512) = x2 ! j" if j: "1024 \<le> j" "j < 512 + length ?r" for j
  proof -
    have "?r ! (j - 512) = span ?r 512 (length ?r - 512) ! (j - 1024)"
      using j n len(2) by (simp add: nth_span)
    also have "\<dots> = span (table_of l x) 512 (length ?r - 512) ! (j - 1024)"
      using n len by (simp add: inode_record_span)
    also have "\<dots> = table_of l x2 ! (j - 512)"
      using j n len facts by (simp add: nth_span)
    also have "\<dots> = x2 ! j"
      using j n len(2) facts(18) by (simp add: table_of_def nth_span image_bytes)
    finally show ?thesis .
  qed
  have "splice x2 512 (span x3 512 (i * 512)) = x3"
  proof (rule splice_agree)
    show "length x3 = length x2" "512 + i * 512 \<le> length x2"
      using facts n assms(7) by (simp_all add: image_bytes)
    fix j
    assume "j < length x2" "j < 512 \<or> 512 + i * 512 \<le> j"
    then show "x3 ! j = x2 ! j"
      using same [of j] assms(6) len(2) n facts unfolding x3 by (auto simp: nth_splice image_bytes)
  qed
  then show ?thesis
    using apply_sector_writes [of x2 x3 "ly_inode_table_sector l" i] facts n assms(7) by simp
qed

lemma commit_prefixes:
  assumes "layout_ok l" "in_data l ext" "full_image x" "app_sync f ext" "commit_images l f x = (x1, x2, x3, x4)"
    and "k \<le> length (commit_writes l f x)"
  defines "y \<equiv> apply_writes (take k (commit_writes l f x)) x"
  obtains "k = 0" "y = x"
  | i where "0 < k" "k < length (commit_writes l f x)" "i \<le> unat (vx_sector_count f)"
      "y = splice x1 (unat (fst ext) * 512) (span x2 (unat (fst ext) * 512) (i * 512))"
  | "0 < k" "k < length (commit_writes l f x)" "y = x3"
  | "0 < k" "k = length (commit_writes l f x)" "y = x4"
proof -
  define c t where "c = unat (vx_sector_count f)" and "t = unat (ly_inode_table_sectors l)"
  define es where "es = (\<lambda>n. map (\<lambda>i. sector_write x2 (vx_first_sector f + of_nat i)) [0 ..< n])"
  define ts where "ts = (\<lambda>n. map (\<lambda>i. sector_write x3 (ly_inode_table_sector l + of_nat i)) [0 ..< n])"
  have ws: "commit_writes l f x
      = [sector_write x1 (ly_journal_sector l)] @ es c @ ts t @ [sector_write x4 (ly_journal_sector l)]"
    by (simp add: commit_writes_def assms(5) es_def ts_def c_def t_def)
  have len [simp]: "length (es n) = n" "length (ts n) = n" for n
    by (simp_all add: es_def ts_def)
  have take [simp]: "n \<le> m \<Longrightarrow> take n (es m) = es n" "n \<le> m \<Longrightarrow> take n (ts m) = ts n" for n m
    by (simp_all add: es_def ts_def take_map)
  note j = device_after_journal [OF assms(1,3,5)]
  have e: "apply_writes (es i) x1 = splice x1 (unat (fst ext) * 512) (span x2 (unat (fst ext) * 512) (i * 512))" if "i \<le> c" for i
    using device_after_extent(1) [OF assms(1-5)] that by (simp add: es_def c_def)
  have ec: "apply_writes (es c) x1 = x2"
    using device_after_extent(2) [OF assms(1-5)] by (simp add: es_def c_def)
  have t: "apply_writes (ts i) x2 = x3" if "1 \<le> i" "i \<le> t" for i
    using device_after_table [OF assms(1-5)] that by (simp add: ts_def t_def)
  have "1 \<le> t"
    using layout_numbers [OF assms(1)] by (simp add: t_def)
  have k: "k \<le> 2 + c + t" and total: "length (commit_writes l f x) = 2 + c + t"
    using assms(6) by (simp_all add: ws)
  from k consider (none) "k = 0" | (data) "1 \<le> k" "k \<le> 1 + c" | (table) "1 + c < k" "k \<le> 1 + c + t" | (all) "k = 2 + c + t"
    by linarith
  then show thesis
  proof cases
    case none
    then show thesis
      by (intro that(1)) (simp_all add: y_def apply_writes_def)
  next
    case data
    then have "take k (commit_writes l f x) = sector_write x1 (ly_journal_sector l) # es (k - 1)"
      by (cases k) (simp_all add: ws)
    then have "y = apply_writes (es (k - 1)) x1"
      using j by (simp add: y_def apply_writes_def)
    then show thesis
      using data e [of "k - 1"] \<open>1 \<le> t\<close> by (intro that(2) [of "k - 1"]) (simp_all add: total c_def)
  next
    case table
    then have "take k (commit_writes l f x) = sector_write x1 (ly_journal_sector l) # es c @ ts (k - 1 - c)"
      by (cases k) (simp_all add: ws)
    then have "y = apply_writes (ts (k - 1 - c)) (apply_writes (es c) x1)"
      using j by (simp add: y_def apply_writes_def)
    then show thesis
      using table t [of "k - 1 - c"] ec by (intro that(3)) (simp_all add: total)
  next
    case all
    then have "y = apply_write (apply_writes (ts t) (apply_writes (es c) x1)) (sector_write x4 (ly_journal_sector l))"
      using j by (simp add: y_def apply_writes_def ws)
    then show thesis
      using all t [of t] ec j \<open>1 \<le> t\<close> by (intro that(4)) (simp_all add: total)
  qed
qed

section \<open>The commit\<close>

lemma edit_image_ok: "g (image_of rt) = Some (img, Inr ()) \<Longrightarrow> edit_image g rt = Some (set_image rt img, Inr ())"
  by (simp add: edit_image_def)

lemma commit_metadata_run:
  fixes c :: u32
  assumes "layout_ok l" "full_image img" "vertexfs_layout_for_image img = Inr l" "image_of rt = img"
    and "vertexfs_parse_inode_table l x = Inr inodes" "full_image x" "table_of l img = table_of l x"
    and "vx_inode_id f = VERTEXFS_INODE_APP_A" "room_for rt (unat (ly_inode_table_sectors l))"
  defines "img' \<equiv> splice img 512 (inode_record (table_of l x) 224 (vx_len f) c)"
  shows "\<exists>rt'. commit_metadata f c rt = Some (rt', Inr ()) \<and> recorded_writes (set_image rt img') rt'
    (map (\<lambda>i. sector_write img' (ly_inode_table_sector l + of_nat i)) [0 ..< unat (ly_inode_table_sectors l)])"
proof -
  note off = app_a_offset [OF assms(1,6,5)] and n = layout_numbers [OF assms(1)]
  have "vertexfs_image_has_inode img (vx_inode_id f) = Inr True"
    using off(2) by (simp add: vertexfs_image_has_inode_def layout_of_Inr [THEN iffD2, OF assms(3)] table_section [OF assms(1,2)]
        assms(7,8))
  moreover have "write_vertexfs_inode_record img f c = (img', Inr ())"
    using inode_edit [OF assms(2,3,1), of f 224 c] off(1) by (simp add: assms(7,8) img'_def)
  moreover have "vertexfs_inode_table_section img = Inr (ly_inode_table_sector l, ly_inode_table_sectors l)"
    by (simp add: vertexfs_inode_table_section_def layout_of_Inr [THEN iffD2, OF assms(3)])
  ultimately show ?thesis
    using record_sectors_run [of "set_image rt img'" "ly_inode_table_sector l" "unat (ly_inode_table_sectors l)"] n assms(2,9)
    by (simp add: commit_metadata_def call_bind_def lift_result_def edit_image_ok assms(4) record_vertexfs_sync_section_def
        img'_def)
qed

lemma commit_run:
  assumes x: "image_parts (image_of rt) sb l None inodes readme re base ext" "layout_ok l" "in_data l ext" "full_image (image_of rt)"
    and f: "app_sync f ext" "vx_len f \<le> unat (vx_sector_count f) * 512"
    and room: "unat (vx_sector_count f) + unat (ly_inode_table_sectors l) + 2 \<le> length (rt_sync_writes rt)"
    and images: "commit_images l f (image_of rt) = (x1, x2, x3, x4)" and parses: "\<not> isl (parse_vertexfs_image x4)"
  shows "\<exists>rt'. commit_vertexfs_file_to_image f (vertexfs_checksum32 (take (vx_len f) (vx_bytes f))) rt
      = Some (rt', Inr (length (commit_writes l f (image_of rt)))) \<and>
    sync_writes rt' = commit_writes l f (image_of rt) \<and> image_of rt' = x4"
proof -
  note facts = commit_images_facts [OF x(2-4) f(1) images] and n = layout_numbers [OF x(2)] in_dataD [OF x(2,3)]
  define p where "p = take (vx_len f) (vx_bytes f)"
  have fx: "vx_inode_id f = VERTEXFS_INODE_APP_A" "vx_first_sector f = fst ext"
    "unat (fst ext) + unat (vx_sector_count f) = unat (snd ext)" "vx_len f \<le> 448" "vx_len f \<le> length (vx_bytes f)"
    using f(1) by (simp_all add: app_sync_def)
  have lx: "vertexfs_layout_for_image (image_of rt) = Inr l" "vertexfs_parse_inode_table l (image_of rt) = Inr inodes"
    using x(1) by (simp_all add: image_parts_def vertexfs_layout_for_image_def)
  have ly: "vertexfs_layout_for_image x1 = Inr l" "vertexfs_layout_for_image x2 = Inr l" "vertexfs_layout_for_image x3 = Inr l"
    using lx(1) by (simp_all add: layout_of_synced [OF x(2,3) facts(1)] layout_of_synced [OF x(2,3) facts(2)]
        layout_of_synced [OF x(2,3) facts(3)])
  have e1: "write_vertexfs_journal_pending (image_of rt) (vx_inode_id f) p = Some (x1, Inr ())"
    using pending_edit [OF x(4) lx(1) x(2), of p "vx_inode_id f"] images fx by (auto simp: commit_images_def Let_def p_def)
  have e2: "write_vertexfs_file_extent x1 f = Some (x2, Inr ())"
    using extent_edit [OF facts(17), of f] images fx f(2) n by (auto simp: commit_images_def Let_def image_bytes)
  have e4: "write_vertexfs_journal_clean x3 = (x4, Inr ())"
    using clean_edit [OF facts(19) ly(3) x(2)] images by (auto simp: commit_images_def Let_def)
  define rt0 where "rt0 = rt\<lparr>rt_sync_write_count := 0\<rparr>"
  have r0: "image_of rt0 = image_of rt" "sync_writes rt0 = []" "rt_sync_write_count rt0 = 0" "rt_sync_writes rt0 = rt_sync_writes rt"
    by (simp_all add: rt0_def image_of_def sync_writes_def)
  obtain rt1 where 1: "record_vertexfs_sync_sector (ly_journal_sector l) (set_image rt0 x1) = Some (rt1, Inr ())"
      "recorded_writes (set_image rt0 x1) rt1 [sector_write x1 (ly_journal_sector l)]"
    using record_sector_run [of "set_image rt0 x1" "ly_journal_sector l"] facts(17) n room r0 by (auto simp: room_for_def)
  obtain rt2 where 2: "record_sectors (vx_first_sector f) (unat (vx_sector_count f)) (set_image rt1 x2) = Some (rt2, Inr ())"
      "recorded_writes (set_image rt1 x2) rt2
        (map (\<lambda>i. sector_write x2 (vx_first_sector f + of_nat i)) [0 ..< unat (vx_sector_count f)])"
    using record_sectors_run [of "set_image rt1 x2" "vx_first_sector f" "unat (vx_sector_count f)"] facts(18) n room r0 fx 1(2)
    by (auto simp: room_for_def recorded_writes_def)
  have "splice x2 512 (inode_record (table_of l (image_of rt)) 224 (vx_len f) (vertexfs_checksum32 p)) = x3"
    using images by (auto simp: commit_images_def Let_def p_def)
  then obtain rt3 where 3: "commit_metadata f (vertexfs_checksum32 p) rt2 = Some (rt3, Inr ())"
      "recorded_writes (set_image rt2 x3) rt3
        (map (\<lambda>i. sector_write x3 (ly_inode_table_sector l + of_nat i)) [0 ..< unat (ly_inode_table_sectors l)])"
    using commit_metadata_run [OF x(2) facts(18) ly(2) _ lx(2) x(4) facts(10) fx(1), of rt2 "vertexfs_checksum32 p"] room r0 1(2) 2(2)
    by (auto simp: room_for_def recorded_writes_def)
  obtain rt4 where 4: "record_vertexfs_sync_sector (ly_journal_sector l) (set_image rt3 x4) = Some (rt4, Inr ())"
      "recorded_writes (set_image rt3 x4) rt4 [sector_write x4 (ly_journal_sector l)]"
    using record_sector_run [of "set_image rt3 x4" "ly_journal_sector l"] facts(20) n room r0 1(2) 2(2) 3(2)
    by (auto simp: room_for_def recorded_writes_def)
  have "unat (vx_sector_count f) * 512 < 2 ^ 32"
    using fx n by simp
  then show ?thesis
    using 1 2 3 4 e1 e2 e4 fx f(2) r0 parses images
    by (auto simp: commit_vertexfs_file_to_image_def commit_payload_def Let_def call_bind_def lift_result_def edit_image_def recorded_writes_def
        vertexfs_journal_sector_def layout_of_Inr [THEN iffD2, OF lx(1)] rt0_def [symmetric] p_def [symmetric] commit_writes_def
        VERTEXFS_SECTOR_SIZE_def VERTEXFS_JOURNAL_PAYLOAD_OFFSET_def image_of_def [of "_\<lparr>rt_sync_write_count := _\<rparr>"]
        split: sum.splits)
qed

end
