(* ===== verification/VertexFs_Sample.thy ===== *)
theory VertexFs_Sample
  imports VertexFs_Safety
begin

text \<open>
  A small VertexFS volume in the first layout, with the two files every
  volume has, used to exhibit the theorems on a concrete image.
\<close>

section \<open>The sections\<close>

definition sample_section :: "u8 list \<Rightarrow> u16 \<Rightarrow> u8 list \<Rightarrow> nat \<Rightarrow> u8 list" where
  "sample_section magic count body pad =
    write_vertexfs_sector_checksum (magic @ to_le_bytes 2 (1 :: u16) @ to_le_bytes 2 count @ replicate 4 0 @ body @ replicate pad 0)"

definition sample_inode :: "u32 \<Rightarrow> u16 \<Rightarrow> u64 \<Rightarrow> u64 \<Rightarrow> u32 \<Rightarrow> u32 \<Rightarrow> u32 \<Rightarrow> string \<Rightarrow> u8 list" where
  "sample_inode i kind len first count checksum parent name =
    to_le_bytes 4 i @ to_le_bytes 2 kind @ to_le_bytes 2 (0 :: u16) @ to_le_bytes 8 len @ to_le_bytes 8 first @ to_le_bytes 4 count @
    to_le_bytes 4 checksum @ to_le_bytes 4 parent @ (bytes_of name @ replicate (28 - length name) 0)"

definition sample_entry :: "u32 \<Rightarrow> u32 \<Rightarrow> u16 \<Rightarrow> string \<Rightarrow> u8 list" where
  "sample_entry parent child kind name =
    to_le_bytes 4 parent @ to_le_bytes 4 child @ to_le_bytes 2 kind @ to_le_bytes 2 (0 :: u16) @
    (bytes_of name @ replicate (52 - length name) 0)"

definition sample_superblock :: "u8 list" where
  "sample_superblock = sample_section (magic_of ''VERTEXFSV1'') 512
    (to_le_bytes 4 (64 :: u32) @ to_le_bytes 4 (15 :: u32) @ (bytes_of ''g1'' @ replicate 62 0) @ replicate 32 0 @
     to_le_bytes 8 (1 :: u64) @ to_le_bytes 8 (2 :: u64) @ to_le_bytes 8 (3 :: u64) @ to_le_bytes 8 (2 :: u64) @
     to_le_bytes 8 (5 :: u64) @ to_le_bytes 8 (1 :: u64) @ to_le_bytes 8 (6 :: u64) @ to_le_bytes 8 (1 :: u64) @
     to_le_bytes 8 (7 :: u64) @ to_le_bytes 8 (57 :: u64)) 304"

definition sample_readme :: "u8 list" where "sample_readme = [104, 105]"
definition sample_app_a :: "u8 list" where "sample_app_a = [111, 108, 100]"

definition sample_inode_table :: "u8 list" where
  "sample_inode_table = sample_section (magic_of ''VFSINODEV1'') 4
    (replicate 8 0 @ sample_inode 1 1 0 0 0 0 0 ''/'' @
     sample_inode 2 2 2 7 1 (vertexfs_checksum32 sample_readme) 1 ''readme'' @
     sample_inode 3 1 0 0 0 0 1 ''app'' @ sample_inode 4 2 3 8 1 (vertexfs_checksum32 sample_app_a) 3 ''a'') 736"

definition sample_directory :: "u8 list" where
  "sample_directory = sample_section (magic_of ''VFSDIRV1'') 3
    (replicate 8 0 @ sample_entry 1 2 2 ''readme'' @ sample_entry 1 3 1 ''app'' @ sample_entry 3 4 2 ''a'') 800"

definition sample_free_map :: "u8 list" where
  "sample_free_map = sample_section (magic_of ''VFSFREEV1'') 64 (replicate 8 0 @ replicate 9 1) 471"

definition sample_image :: "u8 list" where
  "sample_image = sample_superblock @ sample_inode_table @ sample_directory @ sample_free_map @ clean_sector VERTEXFS_LAYOUT_V1 512 @
    (sample_readme @ replicate 510 0) @ (sample_app_a @ replicate 509 0) @ replicate (55 * 512) 0"

section \<open>Reading them\<close>

lemma span_append:
  "length xs \<le> a \<Longrightarrow> span (xs @ ys) a n = span ys (a - length xs) n"
  "length xs = n \<Longrightarrow> span (xs @ ys) 0 n = xs"
  "length xs < n \<Longrightarrow> span (xs @ ys) 0 n = xs @ span ys 0 (n - length xs)"
  by (simp_all add: span_def)

lemma span_replicate: "a + n \<le> m \<Longrightarrow> span (replicate m x) a n = replicate n x"
  by (simp add: span_def)

lemma length_bytes_of [simp]: "length (bytes_of s) = length s"
  by (simp add: bytes_of_def)

lemma bytes_of_empty [simp]: "bytes_of s = [] \<longleftrightarrow> s = []"
  by (simp add: bytes_of_def)

lemma length_magic_of [simp]: "length s \<le> 16 \<Longrightarrow> length (magic_of s) = 16"
  by (simp add: magic_of_def)

lemma length_sample_section [simp]: "length (sample_section m c b n) = length m + 8 + length b + n"
  by (simp add: sample_section_def)

lemma length_sample_inode [simp]: "length s \<le> 28 \<Longrightarrow> length (sample_inode i k z f c h p s) = 64"
  by (simp add: sample_inode_def)

lemma length_sample_entry [simp]: "length s \<le> 52 \<Longrightarrow> length (sample_entry p i k s) = 64"
  by (simp add: sample_entry_def)

lemma length_samples [simp]:
  "length sample_superblock = 512" "length sample_inode_table = 1024" "length sample_directory = 1024" "length sample_free_map = 512"
  "length sample_readme = 2" "length sample_app_a = 3"
  by (simp_all add: sample_superblock_def sample_inode_table_def sample_directory_def sample_free_map_def sample_readme_def sample_app_a_def)

lemma sample_image_full: "full_image sample_image"
  by (simp add: sample_image_def sample_readme_def sample_app_a_def image_bytes)

lemma sample_section_span:
  assumes "length m = 16" "a + k \<le> 20 \<or> 24 \<le> a" "a + k \<le> 24 + length b + n"
  shows "span (sample_section m c b n) a k
    = span (m @ to_le_bytes 2 (1 :: u16) @ to_le_bytes 2 c @ replicate 4 0 @ b @ replicate n 0) a k"
  using assms by (simp add: sample_section_def span_sector_checksum)

lemma sample_section_valid: "length m = 16 \<Longrightarrow> vertexfs_checksum_valid (sample_section m c b n)"
  by (simp add: sample_section_def checksum_written)

lemmas sample_span = sample_section_span span_append span_replicate

lemma sample_sectors:
  "vertexfs_sector sample_image 0 = Inr sample_superblock" "table_of VERTEXFS_LAYOUT_V1 sample_image = sample_inode_table"
  "vertexfs_section sample_image 3 2 = Inr sample_directory" "vertexfs_sector sample_image 5 = Inr sample_free_map"
  "span sample_image 3072 512 = clean_sector VERTEXFS_LAYOUT_V1 512" "span sample_image 3584 2 = sample_readme"
  "span sample_image 4096 3 = sample_app_a"
  using sample_image_full
  by (simp_all add: sector_full section_full table_of_def VERTEXFS_LAYOUT_V1_def [THEN arg_cong [where f = ly_inode_table_sectors]])
   (simp_all add: sample_image_def span_append)

section \<open>The parser accepts it\<close>

lemma v1_fields:
  "ly_format VERTEXFS_LAYOUT_V1 = FormatV1" "ly_superblock_magic VERTEXFS_LAYOUT_V1 = magic_of ''VERTEXFSV1''"
  "ly_inode_magic VERTEXFS_LAYOUT_V1 = magic_of ''VFSINODEV1''" "ly_directory_magic VERTEXFS_LAYOUT_V1 = magic_of ''VFSDIRV1''"
  "ly_free_map_magic VERTEXFS_LAYOUT_V1 = magic_of ''VFSFREEV1''" "ly_version VERTEXFS_LAYOUT_V1 = 1"
  "ly_feature_flags VERTEXFS_LAYOUT_V1 = 15" "ly_generation_offset VERTEXFS_LAYOUT_V1 = 32"
  "ly_section_table_offset VERTEXFS_LAYOUT_V1 = 128" "ly_inode_table_sector VERTEXFS_LAYOUT_V1 = 1"
  "ly_inode_table_sectors VERTEXFS_LAYOUT_V1 = 2" "ly_directory_sector VERTEXFS_LAYOUT_V1 = 3"
  "ly_directory_sectors VERTEXFS_LAYOUT_V1 = 2" "ly_free_map_sector VERTEXFS_LAYOUT_V1 = 5"
  "ly_journal_sector VERTEXFS_LAYOUT_V1 = 6" "ly_data_sector VERTEXFS_LAYOUT_V1 = 7" "ly_data_sectors VERTEXFS_LAYOUT_V1 = 57"
  "ly_dynamic_file_capacity VERTEXFS_LAYOUT_V1 = 11" "ly_directory_dynamic_file_capacity VERTEXFS_LAYOUT_V1 = 12"
  by (simp_all add: VERTEXFS_LAYOUT_V1_def VERTEXFS_SECTOR_SIZE_def VERTEXFS_INODE_ENTRY_OFFSET_def VERTEXFS_INODE_ENTRY_LEN_def
      VERTEXFS_BASE_INODE_COUNT_def VERTEXFS_DIRECTORY_ENTRY_OFFSET_def VERTEXFS_DIRECTORY_ENTRY_LEN_def
      VERTEXFS_BASE_DIRECTORY_COUNT_def)

lemma sample_superblock_ok: "superblock_ok VERTEXFS_LAYOUT_V1 sample_superblock"
  by (simp add: superblock_ok_def v1_fields magic_span read_spans sample_superblock_def sample_span sample_section_valid
      vertexfs_section_matches_def Let_def VERTEXFS_SECTION_RECORD_LEN_def VERTEXFS_SECTOR_SIZE_def VERTEXFS_SECTORS_def)

lemma sample_layout: "vertexfs_layout_from_superblock sample_superblock = Inr VERTEXFS_LAYOUT_V1"
proof -
  have "magic_of ''VERTEXFSV1'' \<noteq> magic_of ''VERTEXFSV2''"
    by (simp add: magic_of_def bytes_of_def)
  then show ?thesis
    by (simp add: vertexfs_layout_from_superblock_def magic_span sample_superblock_def sample_span VERTEXFS_LAYOUT_V1_def
        VERTEXFS_LAYOUT_V2_def)
qed

lemma sample_generation: "vertexfs_fixed_string sample_superblock 32 64 = Inr (bytes_of ''g1'')"
proof -
  have "span sample_superblock 32 64 = bytes_of ''g1'' @ replicate 62 0"
    by (simp add: sample_superblock_def sample_span)
  then show ?thesis
    by (simp add: vertexfs_fixed_string_def Let_def bytes_of_def is_ascii_graphic_def list_all_iff)
qed

lemmas sample_inode_simps = Let_def magic_span read_spans sample_span sample_section_valid sample_inode_def sample_entry_def
  VERTEXFS_INODE_ENTRY_OFFSET_def VERTEXFS_INODE_ENTRY_LEN_def VERTEXFS_DIRECTORY_ENTRY_OFFSET_def VERTEXFS_DIRECTORY_ENTRY_LEN_def
  VERTEXFS_DIRECTORY_NAME_BYTES_def VERTEXFS_BASE_INODE_COUNT_def VERTEXFS_BASE_DIRECTORY_COUNT_def VERTEXFS_INODE_ROOT_def
  VERTEXFS_INODE_README_def VERTEXFS_INODE_APP_DIR_def VERTEXFS_INODE_APP_A_def VERTEXFS_KIND_DIR_def VERTEXFS_KIND_FILE_def
  vertexfs_fixed_string_eq_def

lemma sample_inodes:
  "directory_inode_ok sample_inode_table 0 VERTEXFS_INODE_ROOT 0 (bytes_of ''/'')"
  "file_inode_ok sample_inode_table 1 VERTEXFS_INODE_README VERTEXFS_INODE_ROOT (bytes_of ''readme'')"
  "directory_inode_ok sample_inode_table 2 VERTEXFS_INODE_APP_DIR VERTEXFS_INODE_ROOT (bytes_of ''app'')"
  "file_inode_ok sample_inode_table 3 VERTEXFS_INODE_APP_A VERTEXFS_INODE_APP_DIR (bytes_of ''a'')"
  by (simp_all add: directory_inode_ok_def file_inode_ok_def vertexfs_read_inode_def vertexfs_inode_reserved_zero_def
      vertexfs_inode_name_eq_def vertexfs_inode_name_offset_def sample_inode_table_def sample_inode_simps)

definition sample_inode_records :: vertexfs_parsed_inodes where
  "sample_inode_records =
    \<lparr>pi_readme = \<lparr>ino_id = 2, ino_kind = 2, ino_size = 2, ino_first_sector = 7, ino_sector_count = 1,
       ino_checksum = vertexfs_checksum32 sample_readme, ino_parent = 1\<rparr>,
     pi_app_a = \<lparr>ino_id = 4, ino_kind = 2, ino_size = 3, ino_first_sector = 8, ino_sector_count = 1,
       ino_checksum = vertexfs_checksum32 sample_app_a, ino_parent = 3\<rparr>,
     pi_dynamic = []\<rparr>"

lemma sample_table_parses: "vertexfs_parse_inode_table VERTEXFS_LAYOUT_V1 sample_image = Inr sample_inode_records"
proof -
  have "vertexfs_section sample_image 1 2 = Inr sample_inode_table"
    using table_section(1) [OF layouts_ok(1) sample_image_full] by (simp add: v1_fields sample_sectors)
  moreover have "vertexfs_magic_matches sample_inode_table (magic_of ''VFSINODEV1'')" "read_u16_le sample_inode_table 16 = 1"
    "vertexfs_checksum_valid sample_inode_table" "read_u16_le sample_inode_table 18 = 4"
    by (simp_all add: sample_inode_table_def sample_inode_simps)
  moreover have "vertexfs_read_inode sample_inode_table 1 = pi_readme sample_inode_records"
    "vertexfs_read_inode sample_inode_table 3 = pi_app_a sample_inode_records"
    by (simp_all add: vertexfs_read_inode_def sample_inode_table_def sample_inode_records_def sample_inode_simps)
  ultimately show ?thesis
    by (simp add: vertexfs_parse_inode_table_def v1_fields Let_def sample_inodes [unfolded One_nat_def] VERTEXFS_BASE_INODE_COUNT_def)
      (simp add: sample_inode_records_def)
qed

lemma sample_directory_valid: "vertexfs_validate_directory VERTEXFS_LAYOUT_V1 sample_image [] = Inr ()"
proof -
  have "vertexfs_section sample_image 1 2 = Inr sample_inode_table"
    using table_section(1) [OF layouts_ok(1) sample_image_full] by (simp add: v1_fields sample_sectors)
  moreover have "vertexfs_magic_matches sample_directory (magic_of ''VFSDIRV1'')" "read_u16_le sample_directory 16 = 1"
    "vertexfs_checksum_valid sample_directory" "read_u16_le sample_directory 18 = 3"
    by (simp_all add: sample_directory_def sample_inode_simps)
  moreover have
    "vertexfs_directory_entry_eq sample_directory 0 VERTEXFS_INODE_ROOT VERTEXFS_INODE_README VERTEXFS_KIND_FILE (bytes_of ''readme'')"
    "vertexfs_directory_entry_eq sample_directory 1 VERTEXFS_INODE_ROOT VERTEXFS_INODE_APP_DIR VERTEXFS_KIND_DIR (bytes_of ''app'')"
    "vertexfs_directory_entry_eq sample_directory 2 VERTEXFS_INODE_APP_DIR VERTEXFS_INODE_APP_A VERTEXFS_KIND_FILE (bytes_of ''a'')"
    by (simp_all add: vertexfs_directory_entry_eq_def sample_directory_def sample_inode_simps)
  ultimately show ?thesis
    by (simp add: vertexfs_validate_directory_def v1_fields Let_def sample_sectors VERTEXFS_BASE_DIRECTORY_COUNT_def)
qed

lemma sample_extents:
  "vertexfs_file_payload sample_image (pi_readme sample_inode_records) = Inr (sample_readme, (7, 8))"
  "vertexfs_file_payload sample_image (pi_app_a sample_inode_records) = Inr (sample_app_a, (8, 9))"
proof -
  have "vertexfs_layout_for_image sample_image = Inr VERTEXFS_LAYOUT_V1"
    by (simp add: vertexfs_layout_for_image_def sample_sectors sample_layout)
  note ext = extent_payload_iff [OF sample_image_full this layouts_ok(1)]
  have "vertexfs_file_extent_payload sample_image (pi_readme sample_inode_records) = Inr (sample_readme, (7, 8))"
    "vertexfs_file_extent_payload sample_image (pi_app_a sample_inode_records) = Inr (sample_app_a, (8, 9))"
    unfolding ext
    by (simp_all add: sample_inode_records_def sample_sectors checked_add_def in_data_def v1_fields MAX_VERTEXFS_FILE_BYTES_def
        image_bytes VERTEXFS_SECTOR_SIZE_def)
  then show "vertexfs_file_payload sample_image (pi_readme sample_inode_records) = Inr (sample_readme, (7, 8))"
    "vertexfs_file_payload sample_image (pi_app_a sample_inode_records) = Inr (sample_app_a, (8, 9))"
    by (simp_all add: vertexfs_file_payload_def) (simp_all add: sample_inode_records_def)
qed

lemma sample_free_map_valid:
  "vertexfs_validate_free_map VERTEXFS_LAYOUT_V1 sample_image (pi_readme sample_inode_records) (pi_app_a sample_inode_records) [] = Inr ()"
proof -
  have fields: "vertexfs_magic_matches sample_free_map (magic_of ''VFSFREEV1'')" "read_u16_le sample_free_map 16 = 1"
    "vertexfs_checksum_valid sample_free_map" "read_u16_le sample_free_map 18 = 64"
    by (simp_all add: sample_free_map_def sample_inode_simps)
  have "span sample_free_map 32 64 = replicate 9 1 @ replicate 55 0"
    by (simp add: sample_free_map_def sample_span)
  then have flags: "sample_free_map ! (32 + k) = (if k < 9 then 1 else 0)" if "k < 64" for k
    using that nth_span [of k 64 32 sample_free_map] by (cases "k < 9") (simp_all add: nth_append)
  have "sector_expected VERTEXFS_LAYOUT_V1 (pi_readme sample_inode_records) (pi_app_a sample_inode_records) [] (of_nat k) = (k < 9)"
    if "k < 64" for k
    using that
    by (auto simp: sector_expected_def v1_fields sample_inode_records_def vertexfs_sector_in_section_def checked_add_def
        vertexfs_inode_covers_sector_def word_less_nat_alt word_le_nat_alt unat_of_nat word_unat_eq_iff)
  then show ?thesis
    using fields flags
    by (simp add: vertexfs_validate_free_map_def v1_fields sample_sectors VERTEXFS_SECTORS_def list_all_iff)
qed

definition sample_boot :: vertexfs_boot_files where
  "sample_boot = \<lparr>bf_generation = bytes_of ''g1'',
    bf_readme = \<lparr>bf_inode = pi_readme sample_inode_records, bf_payload = sample_readme\<rparr>,
    bf_app_a = \<lparr>bf_inode = pi_app_a sample_inode_records, bf_payload = sample_app_a\<rparr>, bf_journal_replayed = False\<rparr>"

lemma sample_image_parses: "parse_vertexfs_image sample_image = Inr sample_boot"
proof -
  have "image_parts sample_image sample_superblock VERTEXFS_LAYOUT_V1 None sample_inode_records sample_readme (7, 8) sample_app_a (8, 9)"
    using sample_extents parse_clean [OF layouts_ok(1) sample_image_full]
    by (auto simp: image_parts_def sample_sectors sample_layout sample_superblock_ok sample_table_parses sample_free_map_valid v1_fields
        sample_directory_valid extents_overlap_def vertexfs_recoverable_file_payload_def vertexfs_file_payload_def
        sample_inode_records_def [THEN arg_cong [where f = pi_dynamic]] split: sum.splits if_splits)
  from parse_parts [OF this, of "bytes_of ''g1''" sample_app_a False] show ?thesis
    by (simp add: v1_fields sample_generation vertexfs_replay_journal_def sample_boot_def)
qed

end
