(* ===== verification/VertexFs_Properties.thy ===== *)
theory VertexFs_Properties
  imports VertexFs_Crash VertexFs_Sample
begin

text \<open>
  Crash consistency of VertexFS: an interrupted sync of \<^verbatim>\<open>app/a\<close> always
  leaves an image that mounts, with the old payload or the new one and the
  rest of the volume as it was; an interrupted sync of any other file leaves
  one that does not mount.
\<close>

section \<open>Interrupted syncs\<close>

lemma table_sectors_bound:
  assumes "vertexfs_layout_from_superblock sb = Inr l"
  shows "unat (ly_inode_table_sectors l) \<le> 8"
  using assms by (auto simp: vertexfs_layout_from_superblock_def VERTEXFS_LAYOUT_V1_def VERTEXFS_LAYOUT_V2_def split: if_splits)

lemma pending_prefix:
  assumes "layout_ok l" "in_data l ext" "full_image x" "app_sync f ext" "commit_images l f x = (x1, x2, x3, x4)"
    and "i \<le> unat (vx_sector_count f)"
  defines "y \<equiv> splice x1 (unat (fst ext) * 512) (span x2 (unat (fst ext) * 512) (i * 512))"
  shows "synced_apart l ext x y" "table_of l y = table_of l x"
    "journal_of l y = pending_sector l VERTEXFS_INODE_APP_A (take (vx_len f) (vx_bytes f)) 512"
    "span y (unat (fst ext) * 512) 512 = span x (unat (fst ext) * 512) 512 \<or>
      span y (unat (fst ext) * 512) (vx_len f) = take (vx_len f) (vx_bytes f)"
proof -
  note facts = commit_images_facts [OF assms(1-5)] and n = layout_numbers [OF assms(1)] in_dataD [OF assms(1,2)]
  have f: "unat (fst ext) + unat (vx_sector_count f) = unat (snd ext)" "vx_len f \<le> 448"
    using assms(4) by (simp_all add: app_sync_def)
  have len: "length (span x2 (unat (fst ext) * 512) (i * 512)) = i * 512"
    using n f assms(6) facts(18) by (simp add: length_span image_bytes)
  show "synced_apart l ext x y"
    unfolding y_def using n f assms(6) len by (intro synced_apart_splice [OF facts(1)]) (auto simp: image_bytes in_sectors_def)
  show "table_of l y = table_of l x"
    using n f assms(6) len facts(9,17) by (simp add: y_def table_of_def span_splice_apart image_bytes)
  show "journal_of l y = pending_sector l VERTEXFS_INODE_APP_A (take (vx_len f) (vx_bytes f)) 512"
    using n f assms(6) len facts(5,17) by (simp add: y_def journal_of_def span_splice_apart image_bytes)
  show "span y (unat (fst ext) * 512) 512 = span x (unat (fst ext) * 512) 512 \<or>
      span y (unat (fst ext) * 512) (vx_len f) = take (vx_len f) (vx_bytes f)"
  proof (cases i)
    case 0
    then show ?thesis
      using facts(13) by (simp add: y_def span_def)
  next
    case (Suc m)
    then have "span y (unat (fst ext) * 512) (vx_len f) = span x2 (unat (fst ext) * 512) (vx_len f)"
      using n f assms(6) len facts(17,18) by (simp add: y_def span_splice_inside span_span image_bytes)
    then show ?thesis
      using facts(14) by simp
  qed
qed

lemma sync_prefix_boot:
  assumes parts: "image_parts x sb l None inodes readme re base ext"
    and l: "layout_ok l" "in_data l ext" "full_image x" "app_sync f ext" "vx_sector_count f = ino_sector_count (pi_app_a inodes)"
    and x: "parse_vertexfs_image x = Inr boot"
    and boot: "vertexfs_fixed_string sb (ly_generation_offset l) 64 = Inr (bf_generation boot)"
      "bf_readme boot = \<lparr>bf_inode = pi_readme inodes, bf_payload = readme\<rparr>"
  shows "\<exists>inode. parse_vertexfs_image (apply_writes (take k (commit_writes l f x)) x) = Inr (if k = 0 then boot
    else boot_with boot inode (take (vx_len f) (vx_bytes f)) (k < length (commit_writes l f x)))"
proof -
  obtain x1 x2 x3 x4 where images: "commit_images l f x = (x1, x2, x3, x4)"
    by (cases "commit_images l f x")
  note facts = commit_images_facts [OF l(1-4) images]
  let ?ws = "commit_writes l f x" and ?p = "take (vx_len f) (vx_bytes f)"
  have p: "length ?p = vx_len f" "length ?p \<le> 448" "length ?p \<le> unat (ino_sector_count (pi_app_a inodes)) * 512"
    using l(4,5) app_sync_count [OF l(4)] by (auto simp: app_sync_def)
  have ws: "0 < length ?ws"
    by (simp add: commit_writes_def images)
  note pending = pending_image_parses [OF parts l(1) _ l(2) boot p(2,3)] and clean = clean_image_parses [OF parts l(1) _ l(2) boot p(2,3)]
  have "min k (length ?ws) \<le> length ?ws"
    by simp
  then show ?thesis
  proof (cases rule: commit_prefixes [OF l(1-4) images, consumes 1, case_names none data table all])
    case none
    then show ?thesis
      using x ws by (simp add: min_def split: if_splits)
  next
    case (data i)
    note y = pending_prefix [OF l(1-4) images data(3)]
    show ?thesis
      using pending [OF y(1), of inodes] y(2-4) data(1,2,4) p(1) by (auto simp: min_def split: if_splits)
  next
    case table
    then show ?thesis
      using pending [OF facts(3), of "recorded inodes (vx_len f) (vertexfs_checksum32 ?p)"] facts(5,7,11,15) p(1)
      by (auto simp: min_def split: if_splits)
  next
    case all
    then show ?thesis
      using clean [OF facts(4)] facts(8,11,12,16) p(1) by (auto simp: min_def split: if_splits)
  qed
qed

lemma apply_all_writes:
  assumes "layout_ok l" "in_data l ext" "full_image x" "app_sync f ext" "commit_images l f x = (x1, x2, x3, x4)"
  shows "apply_writes (commit_writes l f x) x = x4"
  using commit_prefixes [OF assms order_refl] by (force simp: commit_writes_def assms(5))

lemma mounted_appE:
  assumes "full_image img" "parse_vertexfs_image img = Inr boot" "\<not> bf_journal_replayed boot"
  obtains sb l inodes readme re base ext where "image_parts img sb l None inodes readme re base ext"
    "layout_ok l" "unat (ly_inode_table_sectors l) \<le> 8" "in_data l ext"
    "fst ext = ino_first_sector (bf_inode (bf_app_a boot))"
    "unat (fst ext) + unat (ino_sector_count (bf_inode (bf_app_a boot))) = unat (snd ext)"
    "ino_sector_count (bf_inode (bf_app_a boot)) \<noteq> 0"
    "vertexfs_fixed_string sb (ly_generation_offset l) 64 = Inr (bf_generation boot)"
    "bf_readme boot = \<lparr>bf_inode = pi_readme inodes, bf_payload = readme\<rparr>" "bf_inode (bf_app_a boot) = pi_app_a inodes"
proof -
  from assms(2) obtain sb l journal inodes readme re base ext generation app replayed
    where parts: "image_parts img sb l journal inodes readme re base ext"
      and gen: "vertexfs_fixed_string sb (ly_generation_offset l) 64 = Inr generation"
      and replay: "vertexfs_replay_journal (pi_app_a inodes) base journal = Inr (app, replayed)"
      and boot: "boot = \<lparr>bf_generation = generation, bf_readme = \<lparr>bf_inode = pi_readme inodes, bf_payload = readme\<rparr>,
        bf_app_a = \<lparr>bf_inode = pi_app_a inodes, bf_payload = app\<rparr>, bf_journal_replayed = replayed\<rparr>"
    by (rule parse_partsE)
  have "journal = None"
    using replay boot assms(3) by (auto simp: vertexfs_replay_journal_def split: option.splits if_splits)
  with parts have parts: "image_parts img sb l None inodes readme re base ext"
    by simp
  have l: "layout_ok l" "unat (ly_inode_table_sectors l) \<le> 8" "vertexfs_layout_for_image img = Inr l"
    using parts layout_from_superblock_ok table_sectors_bound by (auto simp: image_parts_def vertexfs_layout_for_image_def)
  have "vertexfs_file_extent_payload img (pi_app_a inodes) = Inr (base, ext)"
    using parts by (auto simp: image_parts_def vertexfs_recoverable_file_payload_def split: sum.splits if_splits)
  then show thesis
    using that [OF parts l(1,2)] gen boot
    by (auto simp: extent_payload_iff [OF assms(1) l(3,1)] checked_add_Some unat_ucast_u32)
qed

text \<open>
  C3: A sync of the file \<^verbatim>\<open>app/a\<close> is atomic across a crash.  On a volume
  that mounts with a clean journal, committing new contents of at most 448
  bytes succeeds, and when the machine stops after any number \<^verbatim>\<open>k\<close> of the
  recorded device writes, the image on the device mounts again: the file holds
  the old payload if nothing was written and the new one otherwise, the other
  files and the generation are unchanged, and the journal is replayed exactly
  when the sync was interrupted.
\<close>

theorem interrupted_sync_recovers:
  assumes "length (image_of rt) = VERTEXFS_IMAGE_BYTES" "parse_vertexfs_image (image_of rt) = Inr boot"
    and "\<not> bf_journal_replayed boot" "vx_inode_id f = VERTEXFS_INODE_APP_A"
    and "vx_first_sector f = ino_first_sector (bf_inode (bf_app_a boot))"
    and "vx_sector_count f = ino_sector_count (bf_inode (bf_app_a boot))"
    and "vx_len f \<le> 448" "vx_len f \<le> length (vx_bytes f)" "unat (vx_sector_count f) + 10 \<le> length (rt_sync_writes rt)"
  shows "\<exists>rt' boot'. commit_vertexfs_file_to_image f (vertexfs_checksum32 (take (vx_len f) (vx_bytes f))) rt
      = Some (rt', Inr (length (sync_writes rt'))) \<and>
    parse_vertexfs_image (apply_writes (take k (sync_writes rt')) (image_of rt)) = Inr boot' \<and>
    bf_payload (bf_app_a boot') = (if k = 0 then bf_payload (bf_app_a boot) else take (vx_len f) (vx_bytes f)) \<and>
    bf_readme boot' = bf_readme boot \<and> bf_generation boot' = bf_generation boot \<and>
    bf_journal_replayed boot' = (0 < k \<and> k < length (sync_writes rt'))"
proof -
  from assms(1-3) obtain sb l inodes readme re base ext where parts: "image_parts (image_of rt) sb l None inodes readme re base ext"
    and l: "layout_ok l" "unat (ly_inode_table_sectors l) \<le> 8" "in_data l ext"
    and ext: "fst ext = ino_first_sector (bf_inode (bf_app_a boot))"
      "unat (fst ext) + unat (ino_sector_count (bf_inode (bf_app_a boot))) = unat (snd ext)"
      "ino_sector_count (bf_inode (bf_app_a boot)) \<noteq> 0"
    and boot: "vertexfs_fixed_string sb (ly_generation_offset l) 64 = Inr (bf_generation boot)"
      "bf_readme boot = \<lparr>bf_inode = pi_readme inodes, bf_payload = readme\<rparr>" "bf_inode (bf_app_a boot) = pi_app_a inodes"
    by (rule mounted_appE)
  have f: "app_sync f ext"
    using assms ext by (simp add: app_sync_def)
  then have "vx_len f \<le> unat (vx_sector_count f) * 512"
    using app_sync_count [OF f] assms(7) by linarith
  moreover obtain x1 x2 x3 x4 where images: "commit_images l f (image_of rt) = (x1, x2, x3, x4)"
    by (cases "commit_images l f (image_of rt)")
  moreover note after = sync_prefix_boot [OF parts l(1,3) assms(1) f assms(6) [unfolded boot(3)] assms(2) boot(1,2)]
  have "\<not> isl (parse_vertexfs_image x4)"
    using after [of "length (commit_writes l f (image_of rt))"] apply_all_writes [OF l(1,3) assms(1) f images] by auto
  ultimately obtain rt' where "commit_vertexfs_file_to_image f (vertexfs_checksum32 (take (vx_len f) (vx_bytes f))) rt
      = Some (rt', Inr (length (sync_writes rt')))" "sync_writes rt' = commit_writes l f (image_of rt)"
    using commit_run [OF parts l(1,3) assms(1) f _ _ images] assms(9) l(2) by auto
  then show ?thesis
    using after [of k] assms(3) by (auto simp: boot_with_def)
qed

section \<open>Files the journal cannot restore\<close>

text \<open>Whatever a commit does later, the writes recorded so far stay at the front.\<close>

definition grows :: "runtime_state \<Rightarrow> runtime_state \<Rightarrow> bool" where
  "grows rt rt' \<longleftrightarrow> (room_for rt 0 \<longrightarrow> room_for rt' 0 \<and> (\<exists>ws. sync_writes rt' = sync_writes rt @ ws))"

lemma grows_refl: "grows rt rt"
  by (simp add: grows_def)

lemma grows_trans: "grows a b \<Longrightarrow> grows b c \<Longrightarrow> grows a c"
  by (force simp: grows_def)

lemma grows_set_image [simp]: "grows rt (set_image rt img)"
  by (simp add: grows_def)

lemma call_bind_ok:
  "call_bind x g = Some (s', Inr b) \<longleftrightarrow> (\<exists>s a. x = Some (s, Inr a) \<and> g a s = Some (s', Inr b))"
  by (auto simp: call_bind_def split: option.splits sum.splits prod.splits)

lemma grows_bind:
  assumes "call_bind x g = Some (s', Inr b)" "\<And>s a. x = Some (s, Inr a) \<Longrightarrow> grows rt s"
    and "\<And>s a. g a s = Some (s', Inr b) \<Longrightarrow> grows s s'"
  shows "grows rt s'"
  using assms grows_trans by (auto simp: call_bind_ok)

lemma grows_record: "record_vertexfs_sync_sector a rt = Some (rt', Inr u) \<Longrightarrow> grows rt rt'"
  by (auto simp: record_vertexfs_sync_sector_def grows_def room_for_def sync_writes_def take_Suc_conv_app_nth
      split: if_splits sum.splits)

lemma grows_sectors: "record_sectors a n rt = Some (rt', Inr u) \<Longrightarrow> grows rt rt'"
proof (induction n arbitrary: a rt)
  case (Suc n)
  from Suc.prems show ?case
    unfolding record_sectors.simps by (rule grows_bind) (auto intro: grows_record Suc.IH)
qed (simp add: grows_refl)

lemma grows_edit: "edit_image g rt = Some (rt', r) \<Longrightarrow> grows rt rt'"
  by (auto simp: edit_image_def)

lemma grows_lift: "lift_result r rt = Some (rt', r') \<Longrightarrow> grows rt rt'"
  by (simp add: lift_result_def grows_refl)

lemma grows_metadata: "commit_metadata f c rt = Some (rt', Inr u) \<Longrightarrow> grows rt rt'"
  unfolding commit_metadata_def record_vertexfs_sync_section_def
  by (elim grows_bind; (auto split: prod.splits if_splits intro: grows_record grows_sectors grows_edit grows_lift; fail)?)
    (auto split: prod.splits if_splits elim!: grows_bind intro: grows_record grows_sectors grows_edit grows_lift)

lemma grows_payload: "commit_payload f c j rt = Some (rt', Inr n) \<Longrightarrow> grows rt rt'"
  unfolding commit_payload_def
  by (elim grows_bind; (auto intro: grows_record grows_sectors grows_edit grows_metadata; fail)?)
    (auto elim!: grows_bind intro: grows_record grows_sectors grows_edit grows_metadata grows_refl)

lemma commit_starts_with_journal:
  assumes "commit_vertexfs_file_to_image f c rt = Some (rt', Inr n)" "full_image (image_of rt)"
    and "vertexfs_layout_for_image (image_of rt) = Inr l" "layout_ok l"
  defines "x1 \<equiv> splice (image_of rt) (unat (ly_journal_sector l) * 512)
    (pending_sector l (vx_inode_id f) (take (vx_len f) (vx_bytes f)) 512)"
  shows "\<exists>ws. sync_writes rt' = sector_write x1 (ly_journal_sector l) # ws" "vx_len f \<le> 448"
proof -
  define rt0 where "rt0 = rt\<lparr>rt_sync_write_count := 0\<rparr>"
  have r0: "image_of rt0 = image_of rt" "sync_writes rt0 = []" "room_for rt0 0"
    by (simp_all add: rt0_def image_of_def sync_writes_def room_for_def)
  show len: "vx_len f \<le> 448"
    using assms(1) by (simp add: commit_vertexfs_file_to_image_def Let_def VERTEXFS_SECTOR_SIZE_def
        VERTEXFS_JOURNAL_PAYLOAD_OFFSET_def split: if_splits)
  have "write_vertexfs_journal_pending (image_of rt0) (vx_inode_id f) (take (vx_len f) (vx_bytes f)) = Some (x1, Inr ())"
    using pending_edit [OF assms(2-4), of "take (vx_len f) (vx_bytes f)" "vx_inode_id f"] len r0 by (simp add: x1_def)
  then have "edit_image (\<lambda>img. write_vertexfs_journal_pending img (vx_inode_id f) (take (vx_len f) (vx_bytes f))) rt0
      = Some (set_image rt0 x1, Inr ())"
    by (rule edit_image_ok)
  then have "call_bind (record_vertexfs_sync_sector (ly_journal_sector l) (set_image rt0 x1)) (\<lambda>_.
      commit_payload f c (ly_journal_sector l)) = Some (rt', Inr n)"
    using assms(1) by (simp add: commit_vertexfs_file_to_image_def Let_def call_bind_def lift_result_def rt0_def
        vertexfs_journal_sector_def layout_of_Inr [THEN iffD2, OF assms(3)] split: if_splits)
  then obtain rt1 where 1: "record_vertexfs_sync_sector (ly_journal_sector l) (set_image rt0 x1) = Some (rt1, Inr ())" "grows rt1 rt'"
    using grows_payload by (auto simp: call_bind_ok)
  have "rt_sync_write_count rt0 \<noteq> length (rt_sync_writes rt0)"
    using 1(1) by (auto simp: record_vertexfs_sync_sector_def split: if_splits)
  then have "room_for (set_image rt0 x1) 1"
    using r0(3) by (simp add: room_for_def)
  then have "recorded_writes (set_image rt0 x1) rt1 [sector_write x1 (ly_journal_sector l)]" "room_for rt1 0"
    using record_sector_run [of "set_image rt0 x1" "ly_journal_sector l"] 1(1) layout_numbers [OF assms(4)] assms(2)
    by (auto simp: x1_def recorded_writes_def room_for_def)
  then have "sync_writes rt1 = [sector_write x1 (ly_journal_sector l)]" "room_for rt1 0"
    using r0(2) by (simp_all add: recorded_writes_def)
  then show "\<exists>ws. sync_writes rt' = sector_write x1 (ly_journal_sector l) # ws"
    using 1(2) by (auto simp: grows_def)
qed

text \<open>
  C22: The journal restores only \<^verbatim>\<open>app/a\<close>.  The pending record that a
  sync of any other file writes first makes the image unmountable, since the
  parser rejects every record whose target is not that inode; and that image
  is what the device holds when the sync is interrupted after its first write.
\<close>

theorem interrupted_sync_of_other_file_unmountable:
  assumes "length (image_of rt) = VERTEXFS_IMAGE_BYTES" "parse_vertexfs_image (image_of rt) = Inr boot"
    and "vx_inode_id f \<noteq> VERTEXFS_INODE_APP_A" "vx_len f \<le> 448"
  shows "\<exists>img. write_vertexfs_journal_pending (image_of rt) (vx_inode_id f) (take (vx_len f) (vx_bytes f)) = Some (img, Inr ()) \<and>
    isl (parse_vertexfs_image img) \<and>
    (\<forall>c rt' n. commit_vertexfs_file_to_image f c rt = Some (rt', Inr n) \<longrightarrow>
      apply_writes (take 1 (sync_writes rt')) (image_of rt) = img)"
proof -
  from assms(2) obtain sb l journal inodes readme re base ext generation app replayed
    where parts: "image_parts (image_of rt) sb l journal inodes readme re base ext"
    by (rule parse_partsE)
  have l: "layout_ok l" "vertexfs_layout_for_image (image_of rt) = Inr l"
    using parts layout_from_superblock_ok by (auto simp: image_parts_def vertexfs_layout_for_image_def)
  let ?p = "take (vx_len f) (vx_bytes f)" and ?j = "unat (ly_journal_sector l) * 512"
  define x1 where "x1 = splice (image_of rt) ?j (pending_sector l (vx_inode_id f) ?p 512)"
  have edit: "write_vertexfs_journal_pending (image_of rt) (vx_inode_id f) ?p = Some (x1, Inr ())"
    using pending_edit [OF assms(1) l(2,1), of ?p] assms(4) by (simp add: x1_def)
  have dev: "apply_writes (take 1 (sync_writes rt')) (image_of rt) = x1"
    if "commit_vertexfs_file_to_image f c rt = Some (rt', Inr n)" for c rt' n
    using commit_starts_with_journal(1) [OF that assms(1) l(2,1)] layout_numbers [OF l(1)] assms(1)
      splice_back [of ?j "pending_sector l (vx_inode_id f) ?p 512" "image_of rt"]
    by (auto simp: apply_writes_def apply_write_def sector_write_def x1_def VERTEXFS_SECTOR_SIZE_def image_bytes)
  have "span x1 ?j 512 = pending_sector l (vx_inode_id f) ?p 512"
    using span_splice [of ?j "pending_sector l (vx_inode_id f) ?p 512" "image_of rt"] layout_numbers [OF l(1)] assms(1)
    by (simp add: x1_def image_bytes)
  then have "vertexfs_parse_journal l x1 = Inr (Some \<lparr>jr_target_inode = vx_inode_id f, jr_payload = ?p\<rparr>)"
    using parse_pending [OF l(1), of x1 ?p] assms(1,4) by (simp add: x1_def)
  moreover have "vertexfs_layout_for_image x1 = Inr l"
    using l(2) layout_numbers [OF l(1)] assms(1)
    by (simp add: vertexfs_layout_for_image_def sector_full x1_def span_splice_apart image_bytes)
  ultimately have "parse_vertexfs_image x1 \<noteq> Inr b" for b
    using assms(3)
    by (auto simp: image_parts_def vertexfs_layout_for_image_def vertexfs_replay_journal_def elim!: parse_partsE split: if_splits)
  then have "isl (parse_vertexfs_image x1)"
    by (metis isl_def sum.exhaust)
  with edit dev show ?thesis
    by blast
qed

section \<open>On the sample volume\<close>

definition sample_volume :: runtime_state where
  "sample_volume = set_image runtime_state_new sample_image"

definition sample_edit :: "u32 \<Rightarrow> u64 \<Rightarrow> vertexfs_file" where
  "sample_edit i first = vertexfs_file_empty\<lparr>vx_inode_id := i, vx_first_sector := first, vx_sector_count := 1,
    vx_bytes := [110, 101, 119, 33], vx_len := 4\<rparr>"

lemma sample_volume_simps:
  "image_of sample_volume = sample_image" "length (rt_sync_writes sample_volume) = 24"
  by (simp_all add: sample_volume_def runtime_state_new_def VERTEXFS_SYNC_MAX_DEVICE_WRITES_def)

theorem interrupted_sync_recovers_witness:
  "\<exists>rt' boot'. commit_vertexfs_file_to_image (sample_edit 4 8) (vertexfs_checksum32 [110, 101, 119, 33]) sample_volume
      = Some (rt', Inr (length (sync_writes rt'))) \<and>
    parse_vertexfs_image (apply_writes (take 2 (sync_writes rt')) sample_image) = Inr boot' \<and>
    bf_payload (bf_app_a boot') = [110, 101, 119, 33] \<and> bf_payload (bf_readme boot') = [104, 105]"
  using interrupted_sync_recovers [of sample_volume sample_boot "sample_edit 4 8" 2] sample_image_full
  by (force simp: sample_volume_simps sample_image_parses sample_edit_def VERTEXFS_INODE_APP_A_def sample_boot_def
      sample_inode_records_def sample_readme_def)

theorem interrupted_sync_of_other_file_unmountable_witness:
  "\<exists>img. write_vertexfs_journal_pending sample_image 2 [110, 101, 119, 33] = Some (img, Inr ()) \<and> isl (parse_vertexfs_image img)"
  using interrupted_sync_of_other_file_unmountable [of sample_volume sample_boot "sample_edit 2 7"] sample_image_full
  by (auto simp: sample_volume_simps sample_image_parses sample_edit_def VERTEXFS_INODE_APP_A_def)

end
