(* ===== verification/User_Memory.thy ===== *)
theory User_Memory
  imports Page_Safety
begin

text \<open>
  Copies between the kernel and user memory (\<^verbatim>\<open>usercopy.rs\<close>).
  The machine state is the page tables, the root in CR3, the offset of the
  direct map and the bytes of physical memory.  Page tables and bytes are
  separate stores: the frame allocator never gives one frame to a table and
  to a process.
\<close>

record machine =
  mc_tables :: page_mem
  mc_cr3 :: u64
  mc_hhdm :: "u64 option"
  mc_bytes :: "u64 \<Rightarrow> u8"

definition switch_address_space :: "machine \<Rightarrow> u64 \<Rightarrow> machine" where
  "switch_address_space m cr3 = m\<lparr>mc_cr3 := cr3\<rparr>"

definition active_root_table_physical :: "machine \<Rightarrow> u64" where
  "active_root_table_physical m = mc_cr3 m AND ADDRESS_MASK"

text \<open>The physical address an access to a virtual address goes to.\<close>

definition byte_address :: "machine \<Rightarrow> u64 \<Rightarrow> u64 option" where
  "byte_address m va =
    map_option (\<lambda>e. entry_address e + (va AND 0xfff)) (translate (mc_tables m) (active_root_table_physical m) va)"

datatype user_copy_error =
    HhdmUnavailable
  | BufferTooSmall
  | InvalidRange user_range_error

definition usercopy_validate :: "machine \<Rightarrow> u64 \<Rightarrow> nat \<Rightarrow> user_access \<Rightarrow> (user_copy_error, unit) result" where
  "usercopy_validate m user_ptr len access =
    (case mc_hhdm m of
       None \<Rightarrow> Inl HhdmUnavailable
     | Some _ \<Rightarrow>
        map_sum InvalidRange id
          (validate_user_range (mc_tables m) (active_root_table_physical m) user_ptr len access))"

definition validate_user_buffer :: "machine \<Rightarrow> u64 \<Rightarrow> nat \<Rightarrow> user_access \<Rightarrow> (user_copy_error, unit) result" where
  "validate_user_buffer m user_ptr len access = usercopy_validate m user_ptr len access"

text \<open>
  The loads and stores of the copy.  In a validated range every address
  translates (lemma \<^verbatim>\<open>validated_address\<close> below); elsewhere a load gives
  zero and a store is dropped.
\<close>

definition load_byte :: "machine \<Rightarrow> u64 \<Rightarrow> u8" where
  "load_byte m va = (case byte_address m va of Some a \<Rightarrow> mc_bytes m a | None \<Rightarrow> 0)"

definition load_bytes :: "machine \<Rightarrow> u64 \<Rightarrow> nat \<Rightarrow> u8 list" where
  "load_bytes m va n = map (\<lambda>k. load_byte m (va + of_nat k)) [0 ..< n]"

definition store_byte :: "u64 \<Rightarrow> u8 \<Rightarrow> machine \<Rightarrow> machine" where
  "store_byte va b m =
    (case byte_address m va of Some a \<Rightarrow> m\<lparr>mc_bytes := (mc_bytes m)(a := b)\<rparr> | None \<Rightarrow> m)"

fun store_bytes :: "u64 \<Rightarrow> u8 list \<Rightarrow> machine \<Rightarrow> machine" where
  "store_bytes va [] m = m"
| "store_bytes va (b # bs) m = store_bytes (va + 1) bs (store_byte va b m)"

definition copy_from_user :: "machine \<Rightarrow> u8 list \<Rightarrow> u64 \<Rightarrow> nat \<Rightarrow> (user_copy_error, u8 list) result" where
  "copy_from_user m dst user_ptr len =
    (if length dst < len then Inl BufferTooSmall
     else case usercopy_validate m user_ptr len ReadAccess of
            Inl e \<Rightarrow> Inl e
          | Inr _ \<Rightarrow> Inr (load_bytes m user_ptr len @ drop len dst))"

definition copy_to_user :: "machine \<Rightarrow> u64 \<Rightarrow> u8 list \<Rightarrow> machine \<times> (user_copy_error, unit) result" where
  "copy_to_user m user_ptr src =
    (case usercopy_validate m user_ptr (length src) WriteAccess of
       Inl e \<Rightarrow> (m, Inl e)
     | Inr _ \<Rightarrow> (store_bytes user_ptr src m, Inr ()))"

section \<open>Validated ranges translate\<close>

lemma user_accessible_translate:
  assumes "user_accessible m root va access"
  shows "\<exists>e. translate m root va = Some e \<and> is_present e \<and> is_user_accessible e \<and> (access = WriteAccess \<longrightarrow> is_writable e)"
proof -
  obtain t where "table_at m root (take 3 (page_indexes va)) = Some t" "user_entry_ok access True (m t (page_indexes va ! 3))"
    using assms [unfolded user_accessible_def, rule_format, of 3] by auto
  then show ?thesis
    by (auto simp: translate_def user_entry_ok_def Let_def)
qed

lemma user_accessible_read: "user_accessible m root va WriteAccess \<Longrightarrow> user_accessible m root va ReadAccess"
  by (auto simp: user_accessible_def user_entry_ok_def)

definition writable_at :: "machine \<Rightarrow> u64 \<Rightarrow> bool" where
  "writable_at m va \<longleftrightarrow> user_accessible (mc_tables m) (active_root_table_physical m) va WriteAccess"

lemma validated_address:
  "user_accessible (mc_tables m) (active_root_table_physical m) va access \<Longrightarrow> \<exists>a. byte_address m va = Some a"
  using user_accessible_translate by (fastforce simp: byte_address_def)

lemma usercopy_validate_iff:
  assumes "len < 2 ^ 64"
  shows "usercopy_validate m p len access = Inr () \<longleftrightarrow> mc_hhdm m \<noteq> None \<and> unat p < 2 ^ 47 \<and> unat p + len \<le> 2 ^ 47 \<and>
    (\<forall>k < len. user_accessible (mc_tables m) (active_root_table_physical m) (p + of_nat k) access)"
proof -
  have "map_sum InvalidRange id r = Inr () \<longleftrightarrow> r = Inr ()" for r :: "(user_range_error, unit) result"
    by (cases r) simp_all
  then show ?thesis
    using validate_user_range_iff [OF assms] by (auto simp: usercopy_validate_def split: option.split)
qed

section \<open>Stores\<close>

definition same_translations :: "machine \<Rightarrow> machine \<Rightarrow> bool" where
  "same_translations m m' \<longleftrightarrow> m' = m\<lparr>mc_bytes := mc_bytes m'\<rparr>"

lemma store_byte_frame: "store_byte va b m = m\<lparr>mc_bytes := mc_bytes (store_byte va b m)\<rparr>"
  by (simp add: store_byte_def split: option.split)

lemma byte_address_bytes [simp]: "byte_address (m\<lparr>mc_bytes := f\<rparr>) va = byte_address m va"
  by (simp add: byte_address_def active_root_table_physical_def)

lemma byte_address_store [simp]: "byte_address (store_byte va b m) = byte_address m"
  by (rule ext) (subst store_byte_frame, simp)

lemma store_bytes_frame: "store_bytes va bs m = m\<lparr>mc_bytes := mc_bytes (store_bytes va bs m)\<rparr>"
proof (induction bs arbitrary: va m)
  case (Cons b bs)
  have "store_bytes (va + 1) bs (store_byte va b m) =
      (store_byte va b m)\<lparr>mc_bytes := mc_bytes (store_bytes (va + 1) bs (store_byte va b m))\<rparr>"
    by (rule Cons.IH)
  also have "\<dots> = m\<lparr>mc_bytes := mc_bytes (store_bytes (va + 1) bs (store_byte va b m))\<rparr>"
    by (subst store_byte_frame) simp
  finally show ?case
    by simp
qed simp

lemma byte_address_stores [simp]: "byte_address (store_bytes va bs m) = byte_address m"
  by (rule ext) (subst store_bytes_frame, simp)

lemma store_bytes_changed:
  assumes "mc_bytes (store_bytes va bs m) a \<noteq> mc_bytes m a"
  shows "\<exists>k < length bs. byte_address m (va + of_nat k) = Some a"
  using assms
proof (induction bs arbitrary: va m)
  case (Cons b bs)
  show ?case
  proof (cases "mc_bytes (store_bytes (va + 1) bs (store_byte va b m)) a = mc_bytes (store_byte va b m) a")
    case True
    then have "mc_bytes (store_byte va b m) a \<noteq> mc_bytes m a"
      using Cons.prems by simp
    then have "byte_address m va = Some a"
      by (auto simp: store_byte_def split: option.splits if_splits)
    then show ?thesis
      by (intro exI [of _ 0]) simp
  next
    case False
    then obtain k where "k < length bs" "byte_address m (va + 1 + of_nat k) = Some a"
      using Cons.IH by fastforce
    then show ?thesis
      by (intro exI [of _ "Suc k"]) (simp add: add.assoc)
  qed
qed simp

text \<open>Distinct physical addresses keep what was stored at each.\<close>

lemma store_bytes_get:
  assumes "k < length bs" "inj_on (\<lambda>k. byte_address m (va + of_nat k)) {..< length bs}" "byte_address m (va + of_nat k) = Some a"
  shows "mc_bytes (store_bytes va bs m) a = bs ! k"
  using assms
proof (induction bs arbitrary: va m k)
  case (Cons b bs)
  have inj: "inj_on (\<lambda>k. byte_address (store_byte va b m) (va + 1 + of_nat k)) {..< length bs}"
  proof (rule inj_onI)
    fix i j
    assume ij: "i \<in> {..< length bs}" "j \<in> {..< length bs}"
      "byte_address (store_byte va b m) (va + 1 + of_nat i) = byte_address (store_byte va b m) (va + 1 + of_nat j)"
    then have "Suc i = Suc j"
      using inj_onD [OF Cons.prems(2), of "Suc i" "Suc j"] by (simp add: add.assoc)
    then show "i = j"
      by simp
  qed
  show ?case
  proof (cases k)
    case 0
    then have a: "byte_address m va = Some a"
      using Cons.prems(3) by simp
    have "byte_address m (va + 1 + of_nat j) \<noteq> Some a" if "j < length bs" for j
      using inj_onD [OF Cons.prems(2), of 0 "Suc j"] a that by (auto simp: add.assoc)
    then have "mc_bytes (store_bytes (va + 1) bs (store_byte va b m)) a = mc_bytes (store_byte va b m) a"
      using store_bytes_changed [of "va + 1" bs "store_byte va b m" a] by auto
    then show ?thesis
      using 0 a by (simp add: store_byte_def)
  next
    case (Suc j)
    then show ?thesis
      using Cons.IH [OF _ inj, of j] Cons.prems(1,3) by (simp add: add.assoc)
  qed
qed simp

end
