(* ===== verification/Page_Cache.thy ===== *)
theory Page_Cache
  imports VertexFs_Sync User_Memory
begin

text \<open>
  The page cache in front of the VertexFS files (\<^verbatim>\<open>ipc/runtime_state.rs\<close>):
  lookup and eviction, reads into user memory, writes and truncation, and the
  writeback states around a sync.  A page is found under the first VertexFS
  mount, the inode of its file and its offset.  Progress messages on the
  serial line are left out.
\<close>

section \<open>Keys\<close>

fun vertexfs_mount_scan :: "kernel_object option list \<Rightarrow> u64" where
  "vertexfs_mount_scan [] = 0"
| "vertexfs_mount_scan (x # xs) =
    (case x of
       Some (VfsMount mount) \<Rightarrow> if vm_source mount = ''vertexfs'' then vm_id mount else vertexfs_mount_scan xs
     | _ \<Rightarrow> vertexfs_mount_scan xs)"

definition vertexfs_page_cache_mount_id :: "object_table \<Rightarrow> u64" where
  "vertexfs_page_cache_mount_id ot = vertexfs_mount_scan (ot_objects ot)"

definition inode_key :: "vertexfs_file \<Rightarrow> nat \<Rightarrow> u32" where
  "inode_key f backing = (if vx_inode_id f \<noteq> 0 then vx_inode_id f else saturating_sub (- 1) (of_nat backing))"

definition vertexfs_page_cache_inode_key :: "vfs_tables \<Rightarrow> nat \<Rightarrow> (ipc_error, u32) result" where
  "vertexfs_page_cache_inode_key v backing =
    (if vt_vx_file_count v \<le> backing then Inl VfsBadHandle else Inr (inode_key (vt_vx_files v ! backing) backing))"

definition page_matches :: "nat \<Rightarrow> u64 \<Rightarrow> u32 \<Rightarrow> u64 \<Rightarrow> vfs_page \<Rightarrow> bool" where
  "page_matches backing mount_id inode_id page_offset p \<longleftrightarrow>
    pg_valid p \<and> pg_backing p = backing \<and> pg_mount_id p = mount_id \<and> pg_inode_id p = inode_id \<and>
    pg_page_offset p = page_offset"

definition vertexfs_page_cache_lookup :: "vfs_tables \<Rightarrow> nat \<Rightarrow> u64 \<Rightarrow> u32 \<Rightarrow> u64 \<Rightarrow> nat option" where
  "vertexfs_page_cache_lookup v backing mount_id inode_id page_offset =
    first_index (page_matches backing mount_id inode_id page_offset) (vt_pages v)"

section \<open>Dirty bytes and victims\<close>

definition dirty_bytes_of :: "(vfs_page \<Rightarrow> bool) \<Rightarrow> vfs_tables \<Rightarrow> nat" where
  "dirty_bytes_of q v =
    min (2 ^ 64 - 1) (VERTEXFS_SECTOR_SIZE * length (filter (\<lambda>p. pg_valid p \<and> pg_dirty p \<and> q p) (vt_pages v)))"

definition vertexfs_page_cache_dirty_bytes :: "vfs_tables \<Rightarrow> nat" where
  "vertexfs_page_cache_dirty_bytes v = dirty_bytes_of (\<lambda>_. True) v"

definition vertexfs_page_cache_dirty_bytes_for_mount :: "vfs_tables \<Rightarrow> u64 \<Rightarrow> nat" where
  "vertexfs_page_cache_dirty_bytes_for_mount v mount_id = dirty_bytes_of (\<lambda>p. pg_mount_id p = mount_id) v"

definition update_vertexfs_page_cache_high_water :: "vfs_tables \<Rightarrow> vfs_tables" where
  "update_vertexfs_page_cache_high_water v =
    (if ps_high_water_dirty_bytes (vt_page_stats v) < vertexfs_page_cache_dirty_bytes v
     then v\<lparr>vt_page_stats := (vt_page_stats v)\<lparr>ps_high_water_dirty_bytes := vertexfs_page_cache_dirty_bytes v\<rparr>\<rparr>
     else v)"

definition evictable :: "vfs_page \<Rightarrow> bool" where
  "evictable p \<longleftrightarrow> pg_valid p \<and> \<not> pg_dirty p \<and> \<not> pg_pinned p \<and> \<not> pg_writeback p"

definition vertexfs_page_cache_victim :: "vfs_tables \<Rightarrow> vfs_tables \<times> (ipc_error, nat) result" where
  "vertexfs_page_cache_victim v =
    (case first_index (\<lambda>p. \<not> pg_valid p) (vt_pages v) of
       Some i \<Rightarrow> (v, Inr i)
     | None \<Rightarrow>
        (case first_index evictable (vt_pages v) of
           Some i \<Rightarrow>
             (v\<lparr>vt_page_stats := (vt_page_stats v)\<lparr>ps_clean_evictions := saturating_add (ps_clean_evictions (vt_page_stats v)) 1\<rparr>\<rparr>,
              Inr i)
         | None \<Rightarrow>
             (v\<lparr>vt_page_stats := (vt_page_stats v)\<lparr>ps_dirty_eviction_blocks :=
                  saturating_add (ps_dirty_eviction_blocks (vt_page_stats v)) 1\<rparr>\<rparr>, Inl VfsNoSpace)))"

section \<open>Pages in and out of the cache\<close>

definition load_page :: "object_table \<Rightarrow> vfs_tables \<Rightarrow> nat \<Rightarrow> u64 \<Rightarrow> nat \<Rightarrow> u32 \<Rightarrow> vfs_page" where
  "load_page ot v backing page_offset len inode_id =
    (let f = vt_vx_files v ! backing; page_start = unat page_offset * VERTEXFS_SECTOR_SIZE
     in \<lparr>pg_valid = True, pg_dirty = vx_dirty f, pg_pinned = False, pg_writeback = False, pg_writeback_error = False,
         pg_mount_id = vertexfs_page_cache_mount_id ot, pg_inode_id = inode_id, pg_backing = backing,
         pg_page_offset = page_offset, pg_len = len,
         pg_bytes = span (vx_bytes f) page_start len @ replicate (VERTEXFS_SECTOR_SIZE - len) 0\<rparr>)"

definition ensure_vertexfs_page_cache_page :: "object_table \<Rightarrow> nat \<Rightarrow> u64 \<Rightarrow> vfs_tables \<Rightarrow> (vfs_tables, nat \<times> bool) call" where
  "ensure_vertexfs_page_cache_page ot backing page_offset v =
    (case vertexfs_page_cache_inode_key v backing of
       Inl e \<Rightarrow> Some (v, Inl e)
     | Inr inode_id \<Rightarrow>
        (case vertexfs_page_cache_lookup v backing (vertexfs_page_cache_mount_id ot) inode_id page_offset of
           Some index \<Rightarrow> Some (v, Inr (index, True))
         | None \<Rightarrow>
            (case vertexfs_page_cache_victim v of
               (v, Inl e) \<Rightarrow> Some (v, Inl e)
             | (v, Inr slot) \<Rightarrow>
                let f = vt_vx_files v ! backing; page_start = unat page_offset * VERTEXFS_SECTOR_SIZE;
                    len = (if page_start < vx_len f then min VERTEXFS_SECTOR_SIZE (vx_len f - page_start) else 0)
                in if 2 ^ 64 \<le> page_start then Some (v, Inl VfsNoSpace)
                   else if length (vx_bytes f) < page_start + len \<and> 0 < len then None
                   else Some (update_vertexfs_page_cache_high_water
                          (v\<lparr>vt_pages := (vt_pages v)[slot := load_page ot v backing page_offset len inode_id]\<rparr>),
                        Inr (slot, False)))))"

definition ensure_vertexfs_page_cache_dirty :: "nat \<Rightarrow> vfs_tables \<Rightarrow> (vfs_tables, unit) call" where
  "ensure_vertexfs_page_cache_dirty page_index v =
    (if length (vt_pages v) \<le> page_index \<or> \<not> pg_valid (vt_pages v ! page_index) then Some (v, Inl VfsBadHandle)
     else if pg_dirty (vt_pages v ! page_index) then Some (v, Inr ())
     else let next_global = vertexfs_page_cache_dirty_bytes v + VERTEXFS_SECTOR_SIZE;
              next_mount = vertexfs_page_cache_dirty_bytes_for_mount v (pg_mount_id (vt_pages v ! page_index)) + VERTEXFS_SECTOR_SIZE
          in if 2 ^ 64 \<le> next_global \<or> 2 ^ 64 \<le> next_mount then Some (v, Inl VfsNoSpace)
             else if VERTEXFS_PAGE_CACHE_DIRTY_BYTE_LIMIT < next_global \<or>
                     VERTEXFS_PAGE_CACHE_PER_MOUNT_DIRTY_BYTE_LIMIT < next_mount
             then Some (v\<lparr>vt_page_stats := (vt_page_stats v)\<lparr>ps_dirty_limit_rejections :=
                    saturating_add (ps_dirty_limit_rejections (vt_page_stats v)) 1\<rparr>\<rparr>, Inl VfsNoSpace)
             else Some (v, Inr ()))"

section \<open>Reads\<close>

text \<open>The counters of a read: a hit or a miss, and a read that continues the previous one in the same page.\<close>

definition count_read :: "bool \<Rightarrow> nat \<Rightarrow> nat \<Rightarrow> u64 \<Rightarrow> vfs_tables \<Rightarrow> vfs_tables" where
  "count_read hit backing start page_offset v =
    (let st = vt_page_stats v;
         st = (if hit then st\<lparr>ps_read_hits := saturating_add (ps_read_hits st) 1\<rparr>
               else st\<lparr>ps_read_misses := saturating_add (ps_read_misses st) 1\<rparr>)
     in v\<lparr>vt_page_stats :=
          (if ps_last_read_valid st \<and> ps_last_read_backing st = backing \<and> ps_last_read_next_offset st = of_nat start \<and>
              ps_last_read_page_offset st = page_offset
           then st\<lparr>ps_readahead_hits := saturating_add (ps_readahead_hits st) 1\<rparr> else st)\<rparr>)"

definition remember_read :: "nat \<Rightarrow> u64 \<Rightarrow> u64 \<Rightarrow> vfs_tables \<Rightarrow> vfs_tables" where
  "remember_read backing next_offset page_offset v =
    v\<lparr>vt_page_stats := (vt_page_stats v)\<lparr>ps_last_read_valid := True, ps_last_read_backing := backing,
        ps_last_read_next_offset := next_offset, ps_last_read_page_offset := page_offset\<rparr>\<rparr>"

definition read_vertexfs_page_cache :: "object_table \<Rightarrow> nat \<Rightarrow> u64 \<Rightarrow> u64 \<Rightarrow> nat \<Rightarrow> vfs_tables \<times> machine
    \<Rightarrow> (vfs_tables \<times> machine, nat \<times> u64) call" where
  "read_vertexfs_page_cache ot backing offset destination max_len s =
    (case s of (v, m) \<Rightarrow>
     if vt_vx_file_count v \<le> backing then Some ((v, m), Inl VfsBadHandle)
     else let file_len = vx_len (vt_vx_files v ! backing);
              start = min (unat offset) file_len;
              copy_len = min (file_len - start) max_len;
              page_offset = of_nat (start div VERTEXFS_SECTOR_SIZE);
              page_start = start mod VERTEXFS_SECTOR_SIZE
          in if copy_len = 0 then Some ((v, m), Inr (0, offset))
             else case ensure_vertexfs_page_cache_page ot backing page_offset v of
                    None \<Rightarrow> None
                  | Some (v, Inl e) \<Rightarrow> Some ((v, m), Inl e)
                  | Some (v, Inr (page_index, hit)) \<Rightarrow>
                     let page = vt_pages v ! page_index; v = count_read hit backing start page_offset v
                     in if length (pg_bytes page) < page_start + copy_len then None
                        else case copy_to_user m destination (span (pg_bytes page) page_start copy_len) of
                               (m, Inl _) \<Rightarrow> Some ((v, m), Inl InvalidUserBuffer)
                             | (m, Inr _) \<Rightarrow>
                                (case checked_add offset (of_nat copy_len) of
                                   None \<Rightarrow> Some ((v, m), Inl VfsUnsupported)
                                 | Some next_offset \<Rightarrow>
                                    Some ((remember_read backing next_offset page_offset v, m), Inr (copy_len, next_offset))))"

section \<open>Writes and truncation\<close>

definition dirtied :: "vfs_page \<Rightarrow> vfs_page" where
  "dirtied p = p\<lparr>pg_dirty := True, pg_pinned := False, pg_writeback := False, pg_writeback_error := False\<rparr>"

definition write_page :: "nat \<Rightarrow> u8 list \<Rightarrow> vfs_page \<Rightarrow> vfs_page" where
  "write_page page_start bytes p =
    dirtied (p\<lparr>pg_bytes := splice (pg_bytes p) page_start bytes, pg_len := max (pg_len p) (page_start + length bytes)\<rparr>)"

definition write_file :: "nat \<Rightarrow> u8 list \<Rightarrow> vertexfs_file \<Rightarrow> vertexfs_file" where
  "write_file start bytes f =
    (let f = f\<lparr>vx_bytes := splice (vx_bytes f) start bytes, vx_len := max (vx_len f) (start + length bytes), vx_dirty := True\<rparr>
     in f\<lparr>vx_checksum := vertexfs_checksum32 (take (vx_len f) (vx_bytes f))\<rparr>)"

definition write_vertexfs_page_cache :: "object_table \<Rightarrow> nat \<Rightarrow> u64 \<Rightarrow> u8 list \<Rightarrow> vfs_tables \<Rightarrow> (vfs_tables, nat \<times> u64) call" where
  "write_vertexfs_page_cache ot backing offset bytes v =
    (let start = unat offset; e = start + length bytes
     in if MAX_VERTEXFS_FILE_BYTES < length bytes then Some (v, Inl VfsNoSpace)
        else if 2 ^ 64 \<le> e \<or> MAX_VERTEXFS_FILE_BYTES < e then Some (v, Inl VfsNoSpace)
        else if vt_vx_file_count v \<le> backing then Some (v, Inl VfsBadHandle)
        else if bytes = [] then Some (v, Inr (0, offset))
        else call_bind (ensure_vertexfs_page_cache_page ot backing (of_nat (start div VERTEXFS_SECTOR_SIZE)) v)
               (\<lambda>(page_index, _) v. call_bind (ensure_vertexfs_page_cache_dirty page_index v) (\<lambda>_ v.
                  Some (update_vertexfs_page_cache_high_water
                    (v\<lparr>vt_pages := (vt_pages v)[page_index := write_page (start mod VERTEXFS_SECTOR_SIZE) bytes (vt_pages v ! page_index)],
                       vt_vx_files := (vt_vx_files v)[backing := write_file start bytes (vt_vx_files v ! backing)]\<rparr>),
                   Inr (length bytes, of_nat e)))))"

text \<open>The bytes between the two lengths are cleared, in the page and in the file.\<close>

definition clear_between :: "nat \<Rightarrow> nat \<Rightarrow> u8 list \<Rightarrow> u8 list" where
  "clear_between old_len len bytes = splice bytes (min old_len len) (replicate (max old_len len - min old_len len) 0)"

definition truncate_file :: "nat \<Rightarrow> vertexfs_file \<Rightarrow> vertexfs_file" where
  "truncate_file len f =
    (let f = f\<lparr>vx_bytes := clear_between (vx_len f) len (vx_bytes f), vx_len := len, vx_dirty := True\<rparr>
     in f\<lparr>vx_checksum := vertexfs_checksum32 (take (vx_len f) (vx_bytes f))\<rparr>)"

definition truncate_vertexfs_page_cache :: "object_table \<Rightarrow> nat \<Rightarrow> nat \<Rightarrow> vfs_tables \<Rightarrow> (vfs_tables, unit) call" where
  "truncate_vertexfs_page_cache ot backing len v =
    (if MAX_VERTEXFS_FILE_BYTES < len then Some (v, Inl VfsNoSpace)
     else if vt_vx_file_count v \<le> backing then Some (v, Inl VfsBadHandle)
     else let old_len = vx_len (vt_vx_files v ! backing)
          in if old_len = len then Some (v, Inr ())
             else call_bind (ensure_vertexfs_page_cache_page ot backing 0 v) (\<lambda>(page_index, _) v.
                  call_bind (ensure_vertexfs_page_cache_dirty page_index v) (\<lambda>_ v.
                    Some (update_vertexfs_page_cache_high_water
                      (v\<lparr>vt_pages := (vt_pages v)[page_index := dirtied ((vt_pages v ! page_index)
                           \<lparr>pg_bytes := clear_between old_len len (pg_bytes (vt_pages v ! page_index)), pg_len := len\<rparr>)],
                         vt_vx_files := (vt_vx_files v)[backing := truncate_file len (vt_vx_files v ! backing)]\<rparr>), Inr ()))))"

section \<open>Writeback\<close>

definition of_file :: "nat \<Rightarrow> vfs_page \<Rightarrow> bool" where
  "of_file backing p \<longleftrightarrow> pg_valid p \<and> pg_backing p = backing"

definition begin_vertexfs_page_cache_writeback :: "nat \<Rightarrow> vfs_tables \<Rightarrow> vfs_tables \<times> (ipc_error, unit) result" where
  "begin_vertexfs_page_cache_writeback backing v =
    (if vt_vx_file_count v \<le> backing then (v, Inl VfsBadHandle)
     else let started = list_ex (\<lambda>p. of_file backing p \<and> pg_dirty p) (vt_pages v);
              v = v\<lparr>vt_pages := map (\<lambda>p. if of_file backing p \<and> pg_dirty p then p\<lparr>pg_pinned := True, pg_writeback := True\<rparr> else p)
                    (vt_pages v)\<rparr>
          in (if started then v\<lparr>vt_page_stats := (vt_page_stats v)\<lparr>ps_writeback_started :=
                   saturating_add (ps_writeback_started (vt_page_stats v)) 1\<rparr>\<rparr> else v, Inr ()))"

definition finish_vertexfs_page_cache_writeback :: "nat \<Rightarrow> vfs_tables \<Rightarrow> vfs_tables \<times> (ipc_error, unit) result" where
  "finish_vertexfs_page_cache_writeback backing v =
    (if vt_vx_file_count v \<le> backing then (v, Inl VfsBadHandle)
     else let completed = list_ex (\<lambda>p. of_file backing p \<and> pg_dirty p) (vt_pages v);
              v = v\<lparr>vt_pages := map (\<lambda>p. if of_file backing p
                      then p\<lparr>pg_dirty := False, pg_pinned := False, pg_writeback := False, pg_writeback_error := False,
                             pg_len := vx_len (vt_vx_files v ! backing)\<rparr> else p) (vt_pages v)\<rparr>
          in (if completed then v\<lparr>vt_page_stats := (vt_page_stats v)\<lparr>ps_writeback_completed :=
                   saturating_add (ps_writeback_completed (vt_page_stats v)) 1\<rparr>\<rparr> else v, Inr ()))"

definition record_vertexfs_page_cache_writeback_error :: "nat \<Rightarrow> vfs_tables \<Rightarrow> vfs_tables" where
  "record_vertexfs_page_cache_writeback_error backing v =
    (if vt_vx_file_count v \<le> backing then v
     else let recorded = list_ex (of_file backing) (vt_pages v);
              v = v\<lparr>vt_vx_files := (vt_vx_files v)[backing := (vt_vx_files v ! backing)\<lparr>vx_dirty := True\<rparr>],
                    vt_pages := map (\<lambda>p. if of_file backing p
                      then p\<lparr>pg_dirty := True, pg_pinned := False, pg_writeback := False, pg_writeback_error := True\<rparr> else p)
                      (vt_pages v)\<rparr>
          in if recorded
             then update_vertexfs_page_cache_high_water
               (v\<lparr>vt_page_stats := (vt_page_stats v)\<lparr>ps_writeback_errors := saturating_add (ps_writeback_errors (vt_page_stats v)) 1\<rparr>\<rparr>)
             else v)"

definition load_vertexfs_image :: "u8 list \<Rightarrow> vfs_tables \<Rightarrow> vfs_tables \<times> (init_error, unit) result" where
  "load_vertexfs_image img v =
    (if length img \<noteq> length (vt_image v) then (v, Inl InvalidBootManifest)
     else (v\<lparr>vt_image := img, vt_pages := map (\<lambda>_. vfs_page_empty) (vt_pages v), vt_page_stats := vfs_page_cache_stats_empty,
             vt_image_loaded := True\<rparr>, Inr ()))"

section \<open>Syncing a file\<close>

datatype vertexfs_sync_result = Journaled u32 u32 nat | Cached u32

definition finish_vertexfs_sync_file :: "nat \<Rightarrow> u32 \<Rightarrow> vfs_tables \<Rightarrow> vfs_tables \<times> (ipc_error, unit) result" where
  "finish_vertexfs_sync_file backing checksum v =
    (if vt_vx_file_count v \<le> backing then (v, Inl VfsBadHandle)
     else finish_vertexfs_page_cache_writeback backing
       (v\<lparr>vt_vx_files := (vt_vx_files v)[backing := (vt_vx_files v ! backing)\<lparr>vx_checksum := checksum, vx_dirty := False\<rparr>]\<rparr>))"

definition prepare_vertexfs_sync_file :: "nat \<Rightarrow> runtime_state \<Rightarrow> (runtime_state, vertexfs_sync_result) call" where
  "prepare_vertexfs_sync_file backing rt =
    (if vt_vx_file_count (rt_vfs rt) \<le> backing then Some (rt, Inl VfsBadHandle)
     else case begin_vertexfs_page_cache_writeback backing (rt_vfs rt) of
            (v, Inl e) \<Rightarrow> Some (rt\<lparr>rt_vfs := v\<rparr>, Inl e)
          | (v, Inr _) \<Rightarrow>
             let rt = rt\<lparr>rt_vfs := v\<rparr>; f = vt_vx_files v ! backing; checksum = vertexfs_checksum32 (take (vx_len f) (vx_bytes f));
                 failed = (\<lambda>rt. rt\<lparr>rt_vfs := record_vertexfs_page_cache_writeback_error backing (rt_vfs rt)\<rparr>)
             in if length (vx_bytes f) < vx_len f then None
                else if vx_inode_id f = 0
                then (case finish_vertexfs_sync_file backing checksum v of
                        (v, Inl e) \<Rightarrow> Some (rt\<lparr>rt_vfs := v\<rparr>, Inl e)
                      | (v, Inr _) \<Rightarrow> Some (rt\<lparr>rt_vfs := v\<rparr>, Inr (Cached checksum)))
                else if \<not> vt_image_loaded v then Some (failed rt, Inl VfsUnsupported)
                else case commit_vertexfs_file_to_image f checksum rt of
                       None \<Rightarrow> None
                     | Some (rt, Inl e) \<Rightarrow> Some (failed rt, Inl e)
                     | Some (rt, Inr write_count) \<Rightarrow> Some (rt, Inr (Journaled (vx_inode_id f) checksum write_count)))"

section \<open>New files\<close>

text \<open>The scan for an inode that neither a file nor the image uses; an index past the layout ends it.\<close>

fun find_dynamic_inode :: "vfs_tables \<Rightarrow> nat \<Rightarrow> nat \<Rightarrow> (ipc_error, (u32 \<times> u64) option) result" where
  "find_dynamic_inode v index 0 = Inr None"
| "find_dynamic_inode v index (Suc n) =
    (case vertexfs_dynamic_inode_at (vt_image v) index of
       Inl _ \<Rightarrow> Inr None
     | Inr candidate \<Rightarrow>
        if vertexfs_dynamic_inode_in_use v candidate then find_dynamic_inode v (Suc index) n
        else case vertexfs_image_has_inode (vt_image v) candidate of
               Inl e \<Rightarrow> Inl e
             | Inr True \<Rightarrow> find_dynamic_inode v (Suc index) n
             | Inr False \<Rightarrow> map_sum id (\<lambda>s. Some (candidate, s)) (vertexfs_dynamic_data_sector_at (vt_image v) index))"

definition add_empty_vertexfs_file :: "vfs_name \<Rightarrow> u32 \<Rightarrow> vfs_tables \<Rightarrow> vfs_tables \<times> (ipc_error, nat) result" where
  "add_empty_vertexfs_file name parent_inode_id v =
    (if 28 < name_len name \<or> parent_inode_id \<noteq> VERTEXFS_INODE_APP_DIR then (v, Inl VfsUnsupported)
     else if \<not> vt_image_loaded v then (v, Inl VfsUnsupported)
     else case find_dynamic_inode v 0 MAX_VERTEXFS_FILES of
            Inl e \<Rightarrow> (v, Inl e)
          | Inr None \<Rightarrow> (v, Inl VfsNoSpace)
          | Inr (Some (inode_id, first_sector)) \<Rightarrow>
             if inode_id = 0 then (v, Inl VfsNoSpace)
             else case first_index (\<lambda>i. \<not> vertexfs_file_in_use v i) [0 ..< length (vt_vx_files v)] of
                    None \<Rightarrow> (v, Inl VfsNoSpace)
                  | Some index \<Rightarrow>
                     let v = invalidate_vertexfs_page_cache v index
                     in (v\<lparr>vt_vx_files := (vt_vx_files v)[index := vertexfs_file_empty
                            \<lparr>vx_vfs_name := name, vx_inode_id := inode_id, vx_parent_inode_id := parent_inode_id,
                             vx_first_sector := first_sector, vx_sector_count := 1\<rparr>],
                           vt_vx_file_count := max (vt_vx_file_count v) (index + 1)\<rparr>, Inr index))"

end
