(* ===== verification/Page_Cache_Safety.thy ===== *)
theory Page_Cache_Safety
  imports Page_Cache
begin

text \<open>
  The page cache is transparent: every cached page of the VertexFS mount holds
  the contents of its file, so a read through the cache gives the bytes of the
  file.
\<close>

section \<open>The invariant\<close>

text \<open>A file fits one sector and is zero past its length.\<close>

definition file_ok :: "vertexfs_file \<Rightarrow> bool" where
  "file_ok f \<longleftrightarrow> length (vx_bytes f) = 512 \<and> vx_len f \<le> 512 \<and> (\<forall>i < 512. vx_len f \<le> i \<longrightarrow> vx_bytes f ! i = 0)"

definition page_ok :: "vertexfs_file \<Rightarrow> nat \<Rightarrow> vfs_page \<Rightarrow> bool" where
  "page_ok f backing p \<longleftrightarrow> pg_page_offset p = 0 \<and> pg_inode_id p = inode_key f backing \<and> pg_bytes p = vx_bytes f \<and>
    pg_len p = vx_len f"

definition cached :: "u64 \<Rightarrow> vfs_page \<Rightarrow> bool" where
  "cached mid p \<longleftrightarrow> pg_valid p \<and> pg_mount_id p = mid"

definition pages_ok :: "u64 \<Rightarrow> vertexfs_file list \<Rightarrow> vfs_page list \<Rightarrow> bool" where
  "pages_ok mid files ps \<longleftrightarrow>
    (\<forall>i < length ps. cached mid (ps ! i) \<longrightarrow>
      pg_backing (ps ! i) < length files \<and> page_ok (files ! pg_backing (ps ! i)) (pg_backing (ps ! i)) (ps ! i) \<and>
      (\<forall>j < length ps. cached mid (ps ! j) \<and> pg_backing (ps ! j) = pg_backing (ps ! i) \<longrightarrow> j = i))"

definition cache_inv :: "u64 \<Rightarrow> vfs_tables \<Rightarrow> bool" where
  "cache_inv mid v \<longleftrightarrow> vt_vx_file_count v \<le> length (vt_vx_files v) \<and> list_all file_ok (vt_vx_files v) \<and>
    pages_ok mid (vt_vx_files v) (vt_pages v)"

lemma file_ok_nth: "cache_inv mid v \<Longrightarrow> i < length (vt_vx_files v) \<Longrightarrow> file_ok (vt_vx_files v ! i)"
  by (simp add: cache_inv_def list_all_length)

lemma pages_okI:
  assumes "\<And>i. i < length ps \<Longrightarrow> cached mid (ps ! i) \<Longrightarrow> pg_backing (ps ! i) < length files \<and>
      page_ok (files ! pg_backing (ps ! i)) (pg_backing (ps ! i)) (ps ! i)"
    and "\<And>i j. i < length ps \<Longrightarrow> j < length ps \<Longrightarrow> cached mid (ps ! i) \<Longrightarrow> cached mid (ps ! j) \<Longrightarrow>
      pg_backing (ps ! j) = pg_backing (ps ! i) \<Longrightarrow> j = i"
  shows "pages_ok mid files ps"
  unfolding pages_ok_def using assms by blast

lemma pages_okD:
  assumes "pages_ok mid files ps" "i < length ps" "cached mid (ps ! i)"
  shows "pg_backing (ps ! i) < length files" "page_ok (files ! pg_backing (ps ! i)) (pg_backing (ps ! i)) (ps ! i)"
    "j < length ps \<Longrightarrow> cached mid (ps ! j) \<Longrightarrow> pg_backing (ps ! j) = pg_backing (ps ! i) \<Longrightarrow> j = i"
  using assms unfolding pages_ok_def by blast+

text \<open>Changes that keep every page's validity, key and contents keep the invariant.\<close>

lemma pages_ok_map:
  assumes "pages_ok mid files ps" "length files' = length files"
    and "\<And>p. pg_valid (g p) = pg_valid p \<and> pg_mount_id (g p) = pg_mount_id p \<and> pg_backing (g p) = pg_backing p"
    and "\<And>i p. i < length files \<Longrightarrow> p \<in> set ps \<Longrightarrow> pg_backing p = i \<Longrightarrow> page_ok (files ! i) i p \<Longrightarrow> page_ok (files' ! i) i (g p)"
  shows "pages_ok mid files' (map g ps)"
proof (rule pages_okI)
  have c: "cached mid (g p) = cached mid p" "pg_backing (g p) = pg_backing p" for p
    using assms(3) by (simp_all add: cached_def)
  fix i
  assume i: "i < length (map g ps)" "cached mid (map g ps ! i)"
  then show "pg_backing (map g ps ! i) < length files' \<and>
      page_ok (files' ! pg_backing (map g ps ! i)) (pg_backing (map g ps ! i)) (map g ps ! i)"
    using pages_okD(1,2) [OF assms(1), of i] assms(2,4) c by simp
  fix j
  assume "j < length (map g ps)" "cached mid (map g ps ! j)" "pg_backing (map g ps ! j) = pg_backing (map g ps ! i)"
  then show "j = i"
    using pages_okD(3) [OF assms(1), of i j] i c by simp
qed

lemma pages_ok_drop:
  assumes "pages_ok mid files ps" "\<And>p. cached mid (g p) \<Longrightarrow> g p = p"
    and "length files \<le> length files'"
    and "\<And>p. p \<in> set ps \<Longrightarrow> cached mid (g p) \<Longrightarrow> files' ! pg_backing p = files ! pg_backing p"
  shows "pages_ok mid files' (map g ps)"
proof (rule pages_okI)
  fix i
  assume i: "i < length (map g ps)" "cached mid (map g ps ! i)"
  then have p: "g (ps ! i) = ps ! i" "cached mid (ps ! i)"
    using assms(2) [of "ps ! i"] by simp_all
  then show "pg_backing (map g ps ! i) < length files' \<and>
      page_ok (files' ! pg_backing (map g ps ! i)) (pg_backing (map g ps ! i)) (map g ps ! i)"
    using pages_okD(1,2) [OF assms(1), of i] assms(3) assms(4) [of "ps ! i"] i by simp
  fix j
  assume j: "j < length (map g ps)" "cached mid (map g ps ! j)" "pg_backing (map g ps ! j) = pg_backing (map g ps ! i)"
  then have "g (ps ! j) = ps ! j"
    using assms(2) [of "ps ! j"] by simp
  then show "j = i"
    using pages_okD(3) [OF assms(1), of i j] i j p by simp
qed

section \<open>Loading a page\<close>

lemma high_water_fields [simp]:
  "vt_pages (update_vertexfs_page_cache_high_water v) = vt_pages v"
  "vt_vx_files (update_vertexfs_page_cache_high_water v) = vt_vx_files v"
  "vt_vx_file_count (update_vertexfs_page_cache_high_water v) = vt_vx_file_count v"
  by (simp_all add: update_vertexfs_page_cache_high_water_def)

definition same_files :: "vfs_tables \<Rightarrow> vfs_tables \<Rightarrow> bool" where
  "same_files v v' \<longleftrightarrow> vt_vx_files v' = vt_vx_files v \<and> vt_vx_file_count v' = vt_vx_file_count v \<and>
    length (vt_pages v') = length (vt_pages v)"

text \<open>
  A page that must stay: it has changes that are not on the device yet, or is
  being written there.  There is no room for a file when every page must stay
  and none holds that file.
\<close>

definition held :: "vfs_page \<Rightarrow> bool" where
  "held p \<longleftrightarrow> pg_valid p \<and> (pg_dirty p \<or> pg_pinned p \<or> pg_writeback p)"

definition no_room :: "u64 \<Rightarrow> nat \<Rightarrow> vfs_page list \<Rightarrow> bool" where
  "no_room mid backing ps \<longleftrightarrow> list_all (\<lambda>p. held p \<and> \<not> (cached mid p \<and> pg_backing p = backing)) ps"

lemma victim_spec:
  assumes "vertexfs_page_cache_victim v = (v', r)"
  shows "same_files v v'" "vt_pages v' = vt_pages v" "r = Inr i \<Longrightarrow> i < length (vt_pages v)"
    "r = Inr i \<Longrightarrow> \<not> pg_valid (vt_pages v ! i) \<or> evictable (vt_pages v ! i)"
    "r = Inl e \<Longrightarrow> e = VfsNoSpace \<and> list_all held (vt_pages v)"
  using assms
  by (auto simp: vertexfs_page_cache_victim_def same_files_def first_index_Some first_index_None list_all_iff held_def evictable_def
      split: option.splits)

lemma padded_bytes:
  assumes "file_ok f"
  shows "span (vx_bytes f) 0 (vx_len f) @ replicate (512 - vx_len f) 0 = vx_bytes f"
  using assms by (intro nth_equalityI) (auto simp: file_ok_def length_span nth_append nth_span)

lemma load_page_ok:
  assumes "file_ok (vt_vx_files v ! backing)" "mid = vertexfs_page_cache_mount_id ot"
  shows "cached mid (load_page ot v backing 0 (vx_len (vt_vx_files v ! backing)) (inode_key (vt_vx_files v ! backing) backing))"
    "page_ok (vt_vx_files v ! backing) backing
      (load_page ot v backing 0 (vx_len (vt_vx_files v ! backing)) (inode_key (vt_vx_files v ! backing) backing))"
    "pg_backing (load_page ot v backing 0 (vx_len (vt_vx_files v ! backing)) (inode_key (vt_vx_files v ! backing) backing)) = backing"
  using padded_bytes [OF assms(1)] assms
  by (simp_all add: load_page_def Let_def cached_def page_ok_def VERTEXFS_SECTOR_SIZE_def)

lemma pages_ok_insert:
  assumes "pages_ok mid files ps" "\<And>j. j < length ps \<Longrightarrow> cached mid (ps ! j) \<Longrightarrow> pg_backing (ps ! j) \<noteq> pg_backing p"
    and "pg_backing p < length files" "page_ok (files ! pg_backing p) (pg_backing p) p"
  shows "pages_ok mid files (ps[slot := p])"
proof (rule pages_okI)
  fix i
  assume i: "i < length (ps[slot := p])" "cached mid (ps[slot := p] ! i)"
  then show "pg_backing (ps[slot := p] ! i) < length files \<and>
      page_ok (files ! pg_backing (ps[slot := p] ! i)) (pg_backing (ps[slot := p] ! i)) (ps[slot := p] ! i)"
    using pages_okD(1,2) [OF assms(1), of i] assms(3,4) by (cases "i = slot") simp_all
  fix j
  assume j: "j < length (ps[slot := p])" "cached mid (ps[slot := p] ! j)" "pg_backing (ps[slot := p] ! j) = pg_backing (ps[slot := p] ! i)"
  show "j = i"
    using i j assms(2) [of i] assms(2) [of j] pages_okD(3) [OF assms(1), of i j]
    by (cases "i = slot"; cases "j = slot") auto
qed

text \<open>
  Ensuring the page of an existing file never stops the kernel; on success it
  is in the slot returned, and nothing else changed for the files.
\<close>

definition has_page :: "u64 \<Rightarrow> nat \<Rightarrow> nat \<Rightarrow> vfs_tables \<Rightarrow> bool" where
  "has_page mid backing i v \<longleftrightarrow> i < length (vt_pages v) \<and> cached mid (vt_pages v ! i) \<and> pg_backing (vt_pages v ! i) = backing"

lemma ensure_page_spec:
  assumes "cache_inv mid v" "mid = vertexfs_page_cache_mount_id ot" "backing < vt_vx_file_count v"
  shows "\<exists>v' r. ensure_vertexfs_page_cache_page ot backing 0 v = Some (v', r) \<and> same_files v v' \<and> cache_inv mid v' \<and>
    (\<forall>i hit. r = Inr (i, hit) \<longrightarrow> has_page mid backing i v') \<and>
    (\<forall>e. r = Inl e \<longrightarrow> e = VfsNoSpace \<and> no_room mid backing (vt_pages v))"
proof -
  let ?f = "vt_vx_files v ! backing"
  have b: "backing < length (vt_vx_files v)" and ps: "pages_ok mid (vt_vx_files v) (vt_pages v)" and fs: "list_all file_ok (vt_vx_files v)"
    using assms(1,3) by (auto simp: cache_inv_def)
  have f: "file_ok ?f"
    using file_ok_nth [OF assms(1) b] .
  have key: "vertexfs_page_cache_inode_key v backing = Inr (inode_key ?f backing)"
    using assms(3) by (simp add: vertexfs_page_cache_inode_key_def)
  show ?thesis
  proof (cases "vertexfs_page_cache_lookup v backing mid (inode_key ?f backing) 0")
    case (Some i)
    then have "has_page mid backing i v"
      by (auto simp: vertexfs_page_cache_lookup_def first_index_Some page_matches_def has_page_def cached_def)
    moreover have "ensure_vertexfs_page_cache_page ot backing 0 v = Some (v, Inr (i, True))"
      using Some key assms(2) by (simp add: ensure_vertexfs_page_cache_page_def)
    ultimately show ?thesis
      using assms(1) by (simp add: same_files_def)
  next
    case None
    have free: "pg_backing (vt_pages v ! j) \<noteq> backing" if "j < length (vt_pages v)" "cached mid (vt_pages v ! j)" for j
    proof
      assume "pg_backing (vt_pages v ! j) = backing"
      then have "page_matches backing mid (inode_key ?f backing) 0 (vt_pages v ! j)"
        using pages_okD(2) [OF ps that] that(2) by (auto simp: page_matches_def cached_def page_ok_def)
      then show False
        using None nth_mem [OF that(1)] by (auto simp: vertexfs_page_cache_lookup_def first_index_None)
    qed
    obtain v1 r where vic: "vertexfs_page_cache_victim v = (v1, r)"
      by (cases "vertexfs_page_cache_victim v")
    note vs = victim_spec [OF vic]
    show ?thesis
    proof (cases r)
      case (Inl e)
      then have "e = VfsNoSpace \<and> no_room mid backing (vt_pages v)"
        using vs(5) free by (auto simp: no_room_def list_all_length)
      with Inl show ?thesis
        using key None vic vs assms by (auto simp: ensure_vertexfs_page_cache_page_def cache_inv_def same_files_def)
    next
      case (Inr slot)
      let ?p = "load_page ot v1 backing 0 (vx_len ?f) (inode_key ?f backing)"
      have files: "vt_vx_files v1 = vt_vx_files v" "vt_vx_file_count v1 = vt_vx_file_count v" "vt_pages v1 = vt_pages v"
        using vs(1,2) by (simp_all add: same_files_def)
      note p = load_page_ok [of v1 backing mid ot, unfolded files, OF f assms(2)]
      have "pages_ok mid (vt_vx_files v) ((vt_pages v)[slot := ?p])"
        using ps free b p by (intro pages_ok_insert) simp_all
      moreover have "min 512 (vx_len ?f) = vx_len ?f" "\<not> length (vx_bytes ?f) < vx_len ?f"
        using f by (auto simp: file_ok_def)
      then have "ensure_vertexfs_page_cache_page ot backing 0 v
          = Some (update_vertexfs_page_cache_high_water (v1\<lparr>vt_pages := (vt_pages v)[slot := ?p]\<rparr>), Inr (slot, False))"
        using key None vic Inr assms(2) files by (simp add: ensure_vertexfs_page_cache_page_def Let_def VERTEXFS_SECTOR_SIZE_def)
      ultimately show ?thesis
        using files vs(3) [OF Inr] p assms(1) by (auto simp: has_page_def cache_inv_def same_files_def)
    qed
  qed
qed

section \<open>Every operation keeps the invariant\<close>

lemma ensure_dirty_spec:
  assumes "ensure_vertexfs_page_cache_dirty i v = Some (v', r)"
  shows "same_files v v' \<and> vt_pages v' = vt_pages v"
  using assms by (auto simp: ensure_vertexfs_page_cache_dirty_def same_files_def Let_def split: if_splits)

lemma ensure_dirty_total: "\<exists>v' r. ensure_vertexfs_page_cache_dirty i v = Some (v', r)"
  by (simp add: ensure_vertexfs_page_cache_dirty_def Let_def)

text \<open>A change of one file and of its page together.\<close>

lemma cache_inv_update:
  assumes "cache_inv mid v" "has_page mid backing i v" "backing < length (vt_vx_files v)" "file_ok f"
    and "page_ok f backing p" "pg_backing p = backing"
  shows "cache_inv mid (v\<lparr>vt_pages := (vt_pages v)[i := p], vt_vx_files := (vt_vx_files v)[backing := f]\<rparr>)"
proof -
  let ?ps = "(vt_pages v)[i := p]" and ?fs = "(vt_vx_files v)[backing := f]"
  have ps: "pages_ok mid (vt_vx_files v) (vt_pages v)"
    using assms(1) by (simp add: cache_inv_def)
  have i: "i < length (vt_pages v)" "cached mid (vt_pages v ! i)" "pg_backing (vt_pages v ! i) = backing"
    using assms(2) by (simp_all add: has_page_def)
  have other: "pg_backing (vt_pages v ! m) \<noteq> backing" if "m \<noteq> i" "m < length (vt_pages v)" "cached mid (vt_pages v ! m)" for m
    using pages_okD(3) [OF ps i(1,2), of m] that i(3) by auto
  have "pages_ok mid ?fs ?ps"
  proof (rule pages_okI)
    fix j
    assume j: "j < length ?ps" "cached mid (?ps ! j)"
    show "pg_backing (?ps ! j) < length ?fs \<and> page_ok (?fs ! pg_backing (?ps ! j)) (pg_backing (?ps ! j)) (?ps ! j)"
    proof (cases "j = i")
      case False
      then show ?thesis
        using other [of j] j pages_okD(1,2) [OF ps, of j] by simp
    qed (use assms i in simp)
    fix k
    assume k: "k < length ?ps" "cached mid (?ps ! k)" "pg_backing (?ps ! k) = pg_backing (?ps ! j)"
    consider "j = i" "k = i" | "j = i" "k \<noteq> i" | "j \<noteq> i" "k = i" | "j \<noteq> i" "k \<noteq> i"
      by blast
    then show "k = j"
    proof cases
      case 2
      then show ?thesis
        using k i other [of k] assms(6) by simp
    next
      case 3
      then show ?thesis
        using k j i other [of j] assms(6) by simp
    next
      case 4
      then show ?thesis
        using k j pages_okD(3) [OF ps, of j k] by simp
    qed simp
  qed
  then show ?thesis
    using assms(1,4) by (auto simp: cache_inv_def list_all_iff dest!: set_update_subset_insert [THEN subsetD])
qed

lemma cache_inv_high_water [simp]: "cache_inv mid (update_vertexfs_page_cache_high_water v) = cache_inv mid v"
  by (simp add: cache_inv_def)

lemma write_file_ok:
  assumes "file_ok f" "start + length bytes \<le> 512"
  shows "file_ok (write_file start bytes f)"
  using assms by (auto simp: file_ok_def write_file_def Let_def nth_splice)

lemma truncate_file_ok:
  assumes "file_ok f" "len \<le> 512"
  shows "file_ok (truncate_file len f)"
  using assms by (auto simp: file_ok_def truncate_file_def Let_def clear_between_def nth_splice max_def min_def)

lemma write_page_ok:
  assumes "page_ok f backing p"
  shows "page_ok (write_file start bytes f) backing (write_page start bytes p)"
  using assms by (simp add: page_ok_def write_file_def write_page_def dirtied_def Let_def inode_key_def)

lemma pg_backing_write_page: "pg_backing (write_page start bytes p) = pg_backing p"
  by (simp add: write_page_def dirtied_def)

lemma truncate_page_ok:
  assumes "page_ok f backing p"
  shows "page_ok (truncate_file len f) backing
    (dirtied (p\<lparr>pg_bytes := clear_between (vx_len f) len (pg_bytes p), pg_len := len\<rparr>))"
  using assms by (simp add: page_ok_def truncate_file_def dirtied_def Let_def inode_key_def)

text \<open>Both editing calls end and keep the invariant, whatever they return.\<close>

lemma edit_page_spec:
  assumes "cache_inv mid v" "mid = vertexfs_page_cache_mount_id ot" "backing < vt_vx_file_count v"
    and f: "\<And>g. file_ok g \<Longrightarrow> file_ok (ff g)"
    and p: "\<And>g q. page_ok g backing q \<Longrightarrow> pg_backing q = backing \<Longrightarrow> g = vt_vx_files v ! backing \<Longrightarrow>
      page_ok (ff g) backing (pf q) \<and> pg_backing (pf q) = backing"
  shows "\<exists>v' r. call_bind (ensure_vertexfs_page_cache_page ot backing 0 v) (\<lambda>(i, _) v.
      call_bind (ensure_vertexfs_page_cache_dirty i v) (\<lambda>_ v.
        Some (update_vertexfs_page_cache_high_water (v\<lparr>vt_pages := (vt_pages v)[i := pf (vt_pages v ! i)],
          vt_vx_files := (vt_vx_files v)[backing := ff (vt_vx_files v ! backing)]\<rparr>), Inr x))) = Some (v', r) \<and>
    cache_inv mid v' \<and> vt_vx_file_count v' = vt_vx_file_count v \<and>
    vt_vx_files v' = (if isl r then vt_vx_files v else (vt_vx_files v)[backing := ff (vt_vx_files v ! backing)])"
proof -
  obtain v1 r1 where 1: "ensure_vertexfs_page_cache_page ot backing 0 v = Some (v1, r1)" "same_files v v1" "cache_inv mid v1"
      "\<And>i hit. r1 = Inr (i, hit) \<Longrightarrow> has_page mid backing i v1"
    using ensure_page_spec [OF assms(1-3)] by blast
  show ?thesis
  proof (cases r1)
    case (Inl e)
    then show ?thesis
      using 1 by (simp add: call_bind_def same_files_def)
  next
    case (Inr ih)
    then obtain i hit where r1: "r1 = Inr (i, hit)"
      by (cases ih) simp
    obtain v2 r2 where 2: "ensure_vertexfs_page_cache_dirty i v1 = Some (v2, r2)"
      using ensure_dirty_total by blast
    then have s: "same_files v1 v2" "vt_pages v2 = vt_pages v1"
      using ensure_dirty_spec by blast+
    have inv: "cache_inv mid v2" and has: "has_page mid backing i v2"
      using 1(3) 1(4) [OF r1] s by (simp_all add: cache_inv_def same_files_def has_page_def)
    have files: "vt_vx_files v2 = vt_vx_files v" "vt_vx_file_count v2 = vt_vx_file_count v"
      using 1(2) s(1) by (simp_all add: same_files_def)
    have b: "backing < length (vt_vx_files v2)"
      using assms(3) inv files by (simp add: cache_inv_def)
    have "page_ok (vt_vx_files v2 ! backing) backing (vt_pages v2 ! i)" "pg_backing (vt_pages v2 ! i) = backing"
      using pages_okD(2) [of mid "vt_vx_files v2" "vt_pages v2" i] inv has by (auto simp: cache_inv_def has_page_def)
    then have "cache_inv mid (v2\<lparr>vt_pages := (vt_pages v2)[i := pf (vt_pages v2 ! i)],
        vt_vx_files := (vt_vx_files v2)[backing := ff (vt_vx_files v2 ! backing)]\<rparr>)"
      using f [OF file_ok_nth [OF inv b]] p files by (intro cache_inv_update [OF inv has b]) auto
    then show ?thesis
      using 1(1) r1 2 files inv by (cases r2) (simp_all add: call_bind_def)
  qed
qed

lemma write_cache_spec:
  assumes "cache_inv mid v" "mid = vertexfs_page_cache_mount_id ot"
  shows "\<exists>v' r. write_vertexfs_page_cache ot backing offset bytes v = Some (v', r) \<and> cache_inv mid v' \<and>
    vt_vx_file_count v' = vt_vx_file_count v \<and>
    vt_vx_files v' = (if isl r \<or> bytes = [] then vt_vx_files v
      else (vt_vx_files v)[backing := write_file (unat offset) bytes (vt_vx_files v ! backing)])"
proof (cases "unat offset + length bytes \<le> 512 \<and> backing < vt_vx_file_count v \<and> bytes \<noteq> []")
  case True
  then have "unat offset div 512 = 0" "unat offset mod 512 = unat offset" "length bytes \<le> 512"
    by (cases bytes; simp)+
  then have eq: "write_vertexfs_page_cache ot backing offset bytes v
      = call_bind (ensure_vertexfs_page_cache_page ot backing 0 v) (\<lambda>(i, _) v.
      call_bind (ensure_vertexfs_page_cache_dirty i v) (\<lambda>_ v.
        Some (update_vertexfs_page_cache_high_water (v\<lparr>vt_pages := (vt_pages v)[i := write_page (unat offset) bytes (vt_pages v ! i)],
          vt_vx_files := (vt_vx_files v)[backing := write_file (unat offset) bytes (vt_vx_files v ! backing)]\<rparr>),
          Inr (length bytes, of_nat (unat offset + length bytes)))))"
    using True by (simp add: write_vertexfs_page_cache_def Let_def MAX_VERTEXFS_FILE_BYTES_def VERTEXFS_SECTOR_SIZE_def del: of_nat_add)
  have page: "page_ok (write_file (unat offset) bytes g) backing (write_page (unat offset) bytes q) \<and>
      pg_backing (write_page (unat offset) bytes q) = backing" if "page_ok g backing q" "pg_backing q = backing" for g q
    using write_page_ok [OF that(1)] that(2) by (simp add: pg_backing_write_page)
  obtain v' r where "write_vertexfs_page_cache ot backing offset bytes v = Some (v', r)" "cache_inv mid v'"
      "vt_vx_file_count v' = vt_vx_file_count v"
      "vt_vx_files v' = (if isl r then vt_vx_files v
        else (vt_vx_files v)[backing := write_file (unat offset) bytes (vt_vx_files v ! backing)])"
    unfolding eq using True write_file_ok [of _ "unat offset" bytes] page edit_page_spec [OF assms, of backing
        "write_file (unat offset) bytes" "write_page (unat offset) bytes" "(length bytes, of_nat (unat offset + length bytes))"]
    by blast
  then show ?thesis
    using True by auto
next
  case False
  then show ?thesis
    using assms(1) by (auto simp: write_vertexfs_page_cache_def Let_def MAX_VERTEXFS_FILE_BYTES_def)
qed

lemma truncate_cache_spec:
  assumes "cache_inv mid v" "mid = vertexfs_page_cache_mount_id ot"
  shows "\<exists>v' r. truncate_vertexfs_page_cache ot backing len v = Some (v', r) \<and> cache_inv mid v'"
proof (cases "len \<le> 512 \<and> backing < vt_vx_file_count v \<and> vx_len (vt_vx_files v ! backing) \<noteq> len")
  case True
  let ?pf = "\<lambda>q. dirtied (q\<lparr>pg_bytes := clear_between (vx_len (vt_vx_files v ! backing)) len (pg_bytes q), pg_len := len\<rparr>)"
  have eq: "truncate_vertexfs_page_cache ot backing len v
      = call_bind (ensure_vertexfs_page_cache_page ot backing 0 v) (\<lambda>(i, _) v.
      call_bind (ensure_vertexfs_page_cache_dirty i v) (\<lambda>_ v.
        Some (update_vertexfs_page_cache_high_water (v\<lparr>vt_pages := (vt_pages v)[i := ?pf (vt_pages v ! i)],
          vt_vx_files := (vt_vx_files v)[backing := truncate_file len (vt_vx_files v ! backing)]\<rparr>), Inr ())))"
    using True by (simp add: truncate_vertexfs_page_cache_def Let_def MAX_VERTEXFS_FILE_BYTES_def)
  have "page_ok (truncate_file len g) backing (?pf q) \<and> pg_backing (?pf q) = backing"
    if "page_ok g backing q" "pg_backing q = backing" "g = vt_vx_files v ! backing" for g q
    using truncate_page_ok [OF that(1), of len] that(2,3) by (simp add: dirtied_def)
  then show ?thesis
    unfolding eq using True truncate_file_ok [of _ len] edit_page_spec [OF assms, of backing "truncate_file len" ?pf "()"] by blast
next
  case False
  then show ?thesis
    using assms(1) by (auto simp: truncate_vertexfs_page_cache_def Let_def MAX_VERTEXFS_FILE_BYTES_def)
qed

text \<open>The writeback states change flags only.\<close>

lemma begin_writeback_inv:
  "cache_inv mid v \<Longrightarrow> cache_inv mid (fst (begin_vertexfs_page_cache_writeback backing v))"
  by (auto simp: begin_vertexfs_page_cache_writeback_def Let_def cache_inv_def page_ok_def intro!: pages_ok_map split: if_splits)

lemma finish_sync_inv:
  assumes "cache_inv mid v"
  shows "cache_inv mid (fst (finish_vertexfs_sync_file backing c v))"
proof (cases "vt_vx_file_count v \<le> backing")
  case True
  then show ?thesis
    using assms by (simp add: finish_vertexfs_sync_file_def)
next
  case False
  let ?f = "vt_vx_files v ! backing" and ?g = "(vt_vx_files v ! backing)\<lparr>vx_checksum := c, vx_dirty := False\<rparr>"
  have b: "backing < length (vt_vx_files v)"
    using False assms by (simp add: cache_inv_def)
  then have "file_ok ?g"
    using file_ok_nth [OF assms] by (simp add: file_ok_def)
  then have "list_all file_ok ((vt_vx_files v)[backing := ?g])"
    using assms by (auto simp: cache_inv_def list_all_iff dest!: set_update_subset_insert [THEN subsetD])
  moreover have "pages_ok mid ((vt_vx_files v)[backing := ?g]) (map (\<lambda>p. if of_file backing p
      then p\<lparr>pg_dirty := False, pg_pinned := False, pg_writeback := False, pg_writeback_error := False, pg_len := vx_len ?f\<rparr> else p)
      (vt_pages v))"
    using assms b
    by (intro pages_ok_map [of _ "vt_vx_files v"]) (auto simp: cache_inv_def page_ok_def of_file_def inode_key_def nth_list_update split: if_splits)
  ultimately show ?thesis
    using False assms b
    by (auto simp: finish_vertexfs_sync_file_def finish_vertexfs_page_cache_writeback_def Let_def cache_inv_def cong: if_cong)
qed

lemma writeback_error_inv:
  assumes "cache_inv mid v"
  shows "cache_inv mid (record_vertexfs_page_cache_writeback_error backing v)"
proof (cases "vt_vx_file_count v \<le> backing")
  case True
  then show ?thesis
    using assms by (simp add: record_vertexfs_page_cache_writeback_error_def)
next
  case False
  let ?g = "(vt_vx_files v ! backing)\<lparr>vx_dirty := True\<rparr>"
  have b: "backing < length (vt_vx_files v)"
    using False assms by (simp add: cache_inv_def)
  then have "file_ok ?g"
    using file_ok_nth [OF assms] by (simp add: file_ok_def)
  then have "list_all file_ok ((vt_vx_files v)[backing := ?g])"
    using assms by (auto simp: cache_inv_def list_all_iff dest!: set_update_subset_insert [THEN subsetD])
  moreover have "pages_ok mid ((vt_vx_files v)[backing := ?g]) (map (\<lambda>p. if of_file backing p
      then p\<lparr>pg_dirty := True, pg_pinned := False, pg_writeback := False, pg_writeback_error := True\<rparr> else p) (vt_pages v))"
    using assms b
    by (intro pages_ok_map [of _ "vt_vx_files v"]) (auto simp: cache_inv_def page_ok_def of_file_def inode_key_def nth_list_update split: if_splits)
  ultimately show ?thesis
    using False assms
    by (auto simp: record_vertexfs_page_cache_writeback_error_def Let_def cache_inv_def)
qed

text \<open>Dropping the pages of a slot before its file is replaced.\<close>

lemma replace_file_inv:
  assumes "cache_inv mid v" "file_ok f" "n \<le> length (vt_vx_files v)"
  shows "cache_inv mid ((invalidate_vertexfs_page_cache v i)\<lparr>vt_vx_files := (vt_vx_files v)[i := f], vt_vx_file_count := n\<rparr>)"
proof -
  have "pages_ok mid ((vt_vx_files v)[i := f]) (map (\<lambda>p. if pg_valid p \<and> pg_backing p = i then vfs_page_empty else p) (vt_pages v))"
    using assms(1)
    by (intro pages_ok_drop [of _ "vt_vx_files v"]) (auto simp: cache_inv_def cached_def vfs_page_empty_def split: if_splits)
  then show ?thesis
    using assms
    by (auto simp: cache_inv_def invalidate_vertexfs_page_cache_def Let_def list_all_iff dest!: set_update_subset_insert [THEN subsetD])
qed

lemma empty_file_ok: "file_ok vertexfs_file_empty"
  by (simp add: file_ok_def vertexfs_file_empty_def MAX_VERTEXFS_FILE_BYTES_def)

lemma invalidate_fields [simp]:
  "vt_vx_files (invalidate_vertexfs_page_cache v i) = vt_vx_files v"
  "vt_vx_file_count (invalidate_vertexfs_page_cache v i) = vt_vx_file_count v"
  by (simp_all add: invalidate_vertexfs_page_cache_def Let_def)

lemma release_file_inv:
  assumes "cache_inv mid v"
  shows "cache_inv mid (fst (release_vertexfs_file v i))"
proof -
  have "cache_inv mid ((invalidate_vertexfs_page_cache v i)\<lparr>vt_vx_files := (vt_vx_files v)[i := vertexfs_file_empty],
      vt_vx_file_count := trim_count q (vt_vx_file_count v)\<rparr>)" for q
    using assms le_trans [OF trim_count_le] by (intro replace_file_inv [OF assms empty_file_ok]) (simp add: cache_inv_def)
  then show ?thesis
    using assms by (simp add: release_vertexfs_file_def Let_def)
qed

lemma add_empty_inv:
  assumes "cache_inv mid v"
  shows "cache_inv mid (fst (add_empty_vertexfs_file name parent v))"
proof -
  have "cache_inv mid ((invalidate_vertexfs_page_cache v i)\<lparr>vt_vx_files := (vt_vx_files v)[i := vertexfs_file_empty
      \<lparr>vx_vfs_name := name, vx_inode_id := k, vx_parent_inode_id := parent, vx_first_sector := s, vx_sector_count := 1\<rparr>],
      vt_vx_file_count := max (vt_vx_file_count v) (i + 1)\<rparr>)" if "i < length (vt_vx_files v)" for i k s
    using empty_file_ok that assms by (intro replace_file_inv [OF assms]) (simp_all add: file_ok_def cache_inv_def)
  then show ?thesis
    using assms
    by (auto simp: add_empty_vertexfs_file_def Let_def first_index_Some split: sum.splits option.splits prod.splits if_splits)
qed

text \<open>A commit works on the image and the recorded writes only.\<close>

definition same_cache :: "runtime_state \<Rightarrow> runtime_state \<Rightarrow> bool" where
  "same_cache rt rt' \<longleftrightarrow> rt_objects rt' = rt_objects rt \<and> vt_vx_files (rt_vfs rt') = vt_vx_files (rt_vfs rt) \<and>
    vt_vx_file_count (rt_vfs rt') = vt_vx_file_count (rt_vfs rt) \<and> vt_pages (rt_vfs rt') = vt_pages (rt_vfs rt)"

lemma same_cache_bind:
  assumes "call_bind x g = Some (s', r)" "\<And>s q. x = Some (s, q) \<Longrightarrow> same_cache rt s"
    and "\<And>s a. g a s = Some (s', r) \<Longrightarrow> same_cache s s'"
  shows "same_cache rt s'"
proof -
  obtain s q where x: "x = Some (s, q)"
    using assms(1) by (auto simp: call_bind_def split: option.splits)
  have "same_cache rt s"
    by (rule assms(2) [OF x])
  moreover have "s' = s \<or> same_cache s s'"
    using assms(1,3) x by (auto simp: call_bind_def split: sum.splits)
  ultimately show ?thesis
    by (auto simp: same_cache_def)
qed

lemma same_cache_refl: "same_cache rt rt"
  by (simp add: same_cache_def)

lemma same_cache_record: "record_vertexfs_sync_sector a rt = Some (rt', r) \<Longrightarrow> same_cache rt rt'"
  by (auto simp: record_vertexfs_sync_sector_def same_cache_def split: if_splits sum.splits)

lemma same_cache_sectors: "record_sectors a n rt = Some (rt', r) \<Longrightarrow> same_cache rt rt'"
proof (induction n arbitrary: a rt)
  case (Suc n)
  from Suc.prems show ?case
    unfolding record_sectors.simps by (rule same_cache_bind) (auto intro: same_cache_record Suc.IH)
qed (simp add: same_cache_refl)

lemma same_cache_edit: "edit_image g rt = Some (rt', r) \<Longrightarrow> same_cache rt rt'"
  by (auto simp: edit_image_def set_image_def same_cache_def)

lemma same_cache_lift: "lift_result q rt = Some (rt', r) \<Longrightarrow> same_cache rt rt'"
  by (simp add: lift_result_def same_cache_refl)

lemmas same_cache_calls = same_cache_record same_cache_sectors same_cache_edit same_cache_lift same_cache_refl

lemma same_cache_metadata: "commit_metadata f c rt = Some (rt', r) \<Longrightarrow> same_cache rt rt'"
  unfolding commit_metadata_def record_vertexfs_sync_section_def
  by (elim same_cache_bind) (auto split: prod.splits if_splits elim!: same_cache_bind intro: same_cache_calls)

lemma same_cache_payload: "commit_payload f c j rt = Some (rt', r) \<Longrightarrow> same_cache rt rt'"
  unfolding commit_payload_def
  by (elim same_cache_bind) (auto intro: same_cache_calls same_cache_metadata)

lemma same_cache_commit:
  assumes "commit_vertexfs_file_to_image f c rt = Some (rt', r)"
  shows "same_cache rt rt'"
proof -
  have "same_cache rt s" if "lift_result q (rt\<lparr>rt_sync_write_count := 0\<rparr>) = Some (s, r)" for q s and r :: "(ipc_error, u64) result"
    using that by (auto simp: lift_result_def same_cache_def)
  then show ?thesis
    using assms unfolding commit_vertexfs_file_to_image_def Let_def
    by (auto split: if_splits intro: same_cache_calls elim!: same_cache_bind intro: same_cache_payload)
qed

lemma prepare_sync_inv:
  assumes "cache_inv mid (rt_vfs rt)" "prepare_vertexfs_sync_file backing rt = Some (rt', r)"
  shows "cache_inv mid (rt_vfs rt') \<and> rt_objects rt' = rt_objects rt"
proof -
  obtain v q where b: "begin_vertexfs_page_cache_writeback backing (rt_vfs rt) = (v, q)"
    by (cases "begin_vertexfs_page_cache_writeback backing (rt_vfs rt)")
  then have v: "cache_inv mid v"
    using begin_writeback_inv [OF assms(1), of backing] by simp
  have "cache_inv mid (rt_vfs rt1) \<and> rt_objects rt1 = rt_objects rt"
    if "commit_vertexfs_file_to_image f c (rt\<lparr>rt_vfs := v\<rparr>) = Some (rt1, q)" for f c rt1 q
    using same_cache_commit [OF that] v by (simp add: same_cache_def cache_inv_def)
  moreover have "cache_inv mid w" if "finish_vertexfs_sync_file backing c v = (w, q)" for c w q
    using finish_sync_inv [OF v, of backing c] that by simp
  ultimately show ?thesis
    using assms b v writeback_error_inv
    by (auto simp: prepare_vertexfs_sync_file_def Let_def split: if_splits sum.splits option.splits prod.splits)
qed

section \<open>Reads\<close>

definition file_contents :: "vertexfs_file \<Rightarrow> u8 list" where
  "file_contents f = take (vx_len f) (vx_bytes f)"

definition requested :: "vertexfs_file \<Rightarrow> u64 \<Rightarrow> nat \<Rightarrow> u8 list" where
  "requested f offset max_len = take max_len (drop (unat offset) (file_contents f))"

lemma count_read_fields [simp]:
  "vt_pages (count_read hit b s p v) = vt_pages v" "vt_vx_files (count_read hit b s p v) = vt_vx_files v"
  "vt_vx_file_count (count_read hit b s p v) = vt_vx_file_count v"
  "vt_pages (remember_read b next p v) = vt_pages v" "vt_vx_files (remember_read b next p v) = vt_vx_files v"
  "vt_vx_file_count (remember_read b next p v) = vt_vx_file_count v"
  by (simp_all add: count_read_def remember_read_def Let_def)

lemma requested_span:
  assumes "file_ok f" "c = min (vx_len f - min (unat offset) (vx_len f)) max_len" "0 < c"
  shows "min (unat offset) (vx_len f) div 512 = 0" "min (unat offset) (vx_len f) mod 512 = min (unat offset) (vx_len f)"
    "min (unat offset) (vx_len f) + c \<le> 512" "span (vx_bytes f) (min (unat offset) (vx_len f)) c = requested f offset max_len"
    "min (unat offset) (vx_len f) = unat offset"
proof -
  have f: "length (vx_bytes f) = 512" "vx_len f \<le> 512"
    using assms(1) by (simp_all add: file_ok_def)
  have lt: "unat offset < vx_len f"
    using assms(2,3) by (auto simp: min_def split: if_splits)
  then show o: "min (unat offset) (vx_len f) = unat offset"
    by simp
  from lt o show "min (unat offset) (vx_len f) div 512 = 0" "min (unat offset) (vx_len f) mod 512 = min (unat offset) (vx_len f)"
    using f by simp_all
  show "min (unat offset) (vx_len f) + c \<le> 512"
    using f o lt assms(2) by simp
  show "span (vx_bytes f) (min (unat offset) (vx_len f)) c = requested f offset max_len"
    unfolding o using f lt assms(2) o
    by (simp add: span_def requested_def file_contents_def drop_take min.commute)
qed

lemma requested_empty: "min (vx_len f - min (unat offset) (vx_len f)) max_len = 0 \<Longrightarrow> file_ok f \<Longrightarrow> requested f offset max_len = []"
  by (auto simp: requested_def file_contents_def file_ok_def min_def split: if_splits)

text \<open>
  What the result of a read promises: on success the bytes asked for are in
  user memory; for want of room it fails only when there is none.
\<close>

definition read_ok :: "bool \<Rightarrow> vertexfs_file \<Rightarrow> u64 \<Rightarrow> u64 \<Rightarrow> nat \<Rightarrow> machine \<Rightarrow> machine \<Rightarrow> (ipc_error, nat \<times> u64) result \<Rightarrow> bool" where
  "read_ok full f offset destination max_len m m' r \<longleftrightarrow>
    (case r of
       Inr (n, next) \<Rightarrow> n = length (requested f offset max_len) \<and> unat next = unat offset + n \<and>
         (if n = 0 then m' = m else copy_to_user m destination (requested f offset max_len) = (m', Inr ()))
     | Inl e \<Rightarrow> e = VfsNoSpace \<and> full \<and> m' = m \<or>
         e = InvalidUserBuffer \<and> m' = m \<and> isl (snd (copy_to_user m destination (requested f offset max_len))))"

lemma read_cache_spec:
  assumes "cache_inv mid v" "mid = vertexfs_page_cache_mount_id ot" "backing < vt_vx_file_count v"
  shows "\<exists>v' m' r. read_vertexfs_page_cache ot backing offset destination max_len (v, m) = Some ((v', m'), r) \<and>
    cache_inv mid v' \<and> vt_vx_files v' = vt_vx_files v \<and>
    read_ok (no_room mid backing (vt_pages v)) (vt_vx_files v ! backing) offset destination max_len m m' r"
proof -
  let ?f = "vt_vx_files v ! backing"
  define start where "start = min (unat offset) (vx_len ?f)"
  define c where "c = min (vx_len ?f - start) max_len"
  have b: "backing < length (vt_vx_files v)"
    using assms(1,3) by (simp add: cache_inv_def)
  note f = file_ok_nth [OF assms(1) b]
  show ?thesis
  proof (cases "c = 0")
    case True
    then show ?thesis
      using assms requested_empty [OF _ f]
      by (simp add: read_vertexfs_page_cache_def Let_def c_def start_def read_ok_def)
  next
    case False
    note rs = requested_span [OF f c_def [unfolded start_def], folded start_def]
    have rs: "start div 512 = 0" "start mod 512 = start" "start + c \<le> 512" "span (vx_bytes ?f) start c = requested ?f offset max_len"
      "start = unat offset"
      using rs False by simp_all
    obtain v1 r1 where 1: "ensure_vertexfs_page_cache_page ot backing 0 v = Some (v1, r1)" "same_files v v1" "cache_inv mid v1"
        "\<And>i hit. r1 = Inr (i, hit) \<Longrightarrow> has_page mid backing i v1" "\<And>e. r1 = Inl e \<Longrightarrow> e = VfsNoSpace \<and> no_room mid backing (vt_pages v)"
      using ensure_page_spec [OF assms] by blast
    have read: "read_vertexfs_page_cache ot backing offset destination max_len (v, m) = (case r1 of
        Inl e \<Rightarrow> Some ((v1, m), Inl e)
      | Inr (i, hit) \<Rightarrow> if length (pg_bytes (vt_pages v1 ! i)) < start + c then None
          else case copy_to_user m destination (span (pg_bytes (vt_pages v1 ! i)) start c) of
            (m, Inl _) \<Rightarrow> Some ((count_read hit backing start 0 v1, m), Inl InvalidUserBuffer)
          | (m, Inr _) \<Rightarrow> (case checked_add offset (of_nat c) of
              None \<Rightarrow> Some ((count_read hit backing start 0 v1, m), Inl VfsUnsupported)
            | Some next \<Rightarrow> Some ((remember_read backing next 0 (count_read hit backing start 0 v1), m), Inr (c, next))))"
      using assms(3) False rs(1,2) 1(1)
      by (simp add: read_vertexfs_page_cache_def Let_def start_def [symmetric] c_def [symmetric] VERTEXFS_SECTOR_SIZE_def
          split: sum.splits prod.splits option.splits)
    show ?thesis
    proof (cases r1)
      case (Inl e)
      then show ?thesis
        using read 1 by (auto simp: read_ok_def same_files_def)
    next
      case (Inr ih)
      then obtain i hit where r1: "r1 = Inr (i, hit)"
        by (cases ih) simp
      then have "page_ok (vt_vx_files v1 ! backing) backing (vt_pages v1 ! i)"
        using 1(3) 1(4) [OF r1] pages_okD(2) [of mid "vt_vx_files v1" "vt_pages v1" i] by (auto simp: cache_inv_def has_page_def)
      then have bytes: "pg_bytes (vt_pages v1 ! i) = vx_bytes ?f"
        using 1(2) by (simp add: page_ok_def same_files_def)
      have "unat (of_nat c :: u64) = c"
        using rs(3) by (simp add: unat_of_nat)
      then have "checked_add offset (of_nat c) \<noteq> None"
        using rs(3,5) by (simp add: checked_add_None)
      then obtain nx where nx: "checked_add offset (of_nat c) = Some nx" "unat nx = unat offset + c"
        using \<open>unat (of_nat c :: u64) = c\<close> by (auto simp: checked_add_Some)
      have len: "length (requested ?f offset max_len) = c"
        using rs f by (simp add: rs(4) [symmetric] length_span file_ok_def)
      obtain m1 q where copy: "copy_to_user m destination (requested ?f offset max_len) = (m1, q)"
        by (cases "copy_to_user m destination (requested ?f offset max_len)")
      then have "m1 = m" if "q = Inl e" for e
        using that by (auto simp: copy_to_user_def split: sum.splits)
      then show ?thesis
        using read r1 bytes rs f nx len copy 1(2,3) False
        by (cases q) (auto simp: read_ok_def same_files_def cache_inv_def file_ok_def)
    qed
  qed
qed

end
