(* ===== verification/User_Copy.thy ===== *)
theory User_Copy
  imports User_Memory Page_Properties
begin

text \<open>
  What the copies between the kernel and user memory promise: no byte outside
  the user-writable pages of the range is ever written, and what was written
  is read back.
\<close>

lemma store_bytes_validated:
  assumes "usercopy_validate m p (length src) WriteAccess = Inr ()" "length src < 2 ^ 64"
    and "mc_bytes (store_bytes p src m) a \<noteq> mc_bytes m a"
  shows "\<exists>k < length src. writable_at m (p + of_nat k) \<and> byte_address m (p + of_nat k) = Some a \<and> unat p + k < 2 ^ 47"
  using assms store_bytes_changed [OF assms(3)] by (fastforce simp: usercopy_validate_iff writable_at_def)

text \<open>
  C13: A copy to user memory is confined.  Page tables, address space and
  direct map are never touched; when the range is refused nothing changes,
  and otherwise every byte of physical memory that changes is the target of
  an address of the range, in the lower half, whose page is present, open to
  user mode and writable.
\<close>

theorem copy_to_user_confined:
  assumes "length src < 2 ^ 64"
  shows "mc_tables (fst (copy_to_user m p src)) = mc_tables m \<and> mc_cr3 (fst (copy_to_user m p src)) = mc_cr3 m \<and>
    (isl (snd (copy_to_user m p src)) \<longrightarrow> fst (copy_to_user m p src) = m) \<and>
    (\<forall>a. mc_bytes (fst (copy_to_user m p src)) a \<noteq> mc_bytes m a \<longrightarrow>
      (\<exists>k < length src. writable_at m (p + of_nat k) \<and> byte_address m (p + of_nat k) = Some a \<and> unat p + k < 2 ^ 47))"
proof (cases "usercopy_validate m p (length src) WriteAccess")
  case (Inl e)
  then show ?thesis
    by (simp add: copy_to_user_def)
next
  case (Inr u)
  have "mc_tables (store_bytes p src m) = mc_tables m" "mc_cr3 (store_bytes p src m) = mc_cr3 m"
    using store_bytes_frame [of p src m] by (metis machine.select_convs(1,2) machine.surjective machine.update_convs(4))+
  with Inr show ?thesis
    using store_bytes_validated [OF _ assms, of m p] by (simp add: copy_to_user_def)
qed

text \<open>The bytes of a successful copy are what the range reads as afterwards.\<close>

lemma copied_bytes:
  assumes "copy_to_user m p src = (m', Inr ())" "length src < 2 ^ 64"
    and "inj_on (\<lambda>k. byte_address m (p + of_nat k)) {..< length src}"
  shows "load_bytes m' p (length src) = src"
proof (rule nth_equalityI)
  have v: "usercopy_validate m p (length src) WriteAccess = Inr ()" and m': "m' = store_bytes p src m"
    using assms(1) by (auto simp: copy_to_user_def split: sum.splits)
  fix k
  assume "k < length (load_bytes m' p (length src))"
  then have k: "k < length src"
    by (simp add: load_bytes_def)
  then obtain a where a: "byte_address m (p + of_nat k) = Some a"
    using v validated_address by (fastforce simp: usercopy_validate_iff [OF assms(2)])
  then show "load_bytes m' p (length src) ! k = src ! k"
    using k store_bytes_get [OF k assms(3) a] by (simp add: load_bytes_def load_byte_def m')
qed (simp add: load_bytes_def)

text \<open>
  C29: What is copied out is read back.  When no two addresses of the range
  share a byte of physical memory, a successful copy to user memory followed
  by a copy of the same range into a kernel buffer succeeds and gives the same
  bytes, followed by the rest of the buffer.
\<close>

theorem user_copy_roundtrip:
  assumes "copy_to_user m p src = (m', Inr ())" "length src < 2 ^ 64" "length src \<le> length dst"
    and "inj_on (\<lambda>k. byte_address m (p + of_nat k)) {..< length src}"
  shows "copy_from_user m' dst p (length src) = Inr (src @ drop (length src) dst)"
proof -
  have v: "usercopy_validate m p (length src) WriteAccess = Inr ()" and m': "m' = store_bytes p src m"
    using assms(1) by (auto simp: copy_to_user_def split: sum.splits)
  have frame: "m' = m\<lparr>mc_bytes := mc_bytes m'\<rparr>"
    unfolding m' by (rule store_bytes_frame)
  have "usercopy_validate m p (length src) ReadAccess = Inr ()"
    using v user_accessible_read by (auto simp: usercopy_validate_iff [OF assms(2)])
  then have "usercopy_validate m' p (length src) ReadAccess = Inr ()"
    by (subst frame) (simp add: usercopy_validate_def active_root_table_physical_def split: option.splits)
  moreover have "load_bytes m' p (length src) = src"
    by (rule copied_bytes [OF assms(1,2,4)])
  ultimately show ?thesis
    using assms(3) by (simp add: copy_from_user_def)
qed

definition sample_machine :: machine where
  "sample_machine = \<lparr>mc_tables = sample_tables, mc_cr3 = 0x300000, mc_hhdm = Some 0, mc_bytes = (\<lambda>_. 0)\<rparr>"

theorem copy_to_user_confined_witness:
  "mc_bytes (fst (copy_to_user sample_machine 0x400000 [7])) 0x500000 = 7 \<and> writable_at sample_machine 0x400000 \<and>
    mc_tables (fst (copy_to_user sample_machine 0x400000 [7])) = sample_tables"
proof -
  have "mc_bytes (fst (copy_to_user sample_machine 0x400000 [7])) 0x500000 = 7"
    by code_simp
  moreover have "mc_bytes sample_machine 0x500000 = 0" "mc_tables sample_machine = sample_tables"
    by (simp_all add: sample_machine_def)
  ultimately show ?thesis
    using copy_to_user_confined [of "[7]" sample_machine "0x400000"] by (auto dest: spec [where x = "0x500000"])
qed

theorem user_copy_roundtrip_witness:
  "copy_from_user (fst (copy_to_user sample_machine 0x400000 [7])) [0, 9] 0x400000 1 = Inr [7, 9]"
proof -
  have "snd (copy_to_user sample_machine 0x400000 [7]) = Inr ()"
    by code_simp
  then have "copy_to_user sample_machine 0x400000 [7] = (fst (copy_to_user sample_machine 0x400000 [7]), Inr ())"
    by (simp add: prod_eq_iff)
  then show ?thesis
    using user_copy_roundtrip [of sample_machine "0x400000" "[7]" _ "[0, 9]"] by (simp add: lessThan_Suc)
qed

end
