(* ===== verification/Page_Cache_Properties.thy ===== *)
theory Page_Cache_Properties
  imports Page_Cache_Safety User_Copy
begin

text \<open>
  The page cache along any sequence of file operations: it never serves
  anything but the current contents of the file.
\<close>

section \<open>Steps\<close>

inductive cache_step :: "runtime_state \<Rightarrow> runtime_state \<Rightarrow> bool" where
  cs_read: "read_vertexfs_page_cache (rt_objects rt) backing offset destination n (rt_vfs rt, m) = Some ((v, m'), r) \<Longrightarrow>
    cache_step rt (rt\<lparr>rt_vfs := v\<rparr>)"
| cs_write: "write_vertexfs_page_cache (rt_objects rt) backing offset bytes (rt_vfs rt) = Some (v, q) \<Longrightarrow>
    cache_step rt (rt\<lparr>rt_vfs := v\<rparr>)"
| cs_truncate: "truncate_vertexfs_page_cache (rt_objects rt) backing n (rt_vfs rt) = Some (v, u) \<Longrightarrow>
    cache_step rt (rt\<lparr>rt_vfs := v\<rparr>)"
| cs_prepare: "prepare_vertexfs_sync_file backing rt = Some (rt', p) \<Longrightarrow> cache_step rt rt'"
| cs_finish: "cache_step rt (rt\<lparr>rt_vfs := fst (finish_vertexfs_sync_file backing c (rt_vfs rt))\<rparr>)"
| cs_failed: "cache_step rt (rt\<lparr>rt_vfs := record_vertexfs_page_cache_writeback_error backing (rt_vfs rt)\<rparr>)"
| cs_release: "cache_step rt (rt\<lparr>rt_vfs := fst (release_vertexfs_file (rt_vfs rt) backing)\<rparr>)"
| cs_create: "cache_step rt (rt\<lparr>rt_vfs := fst (add_empty_vertexfs_file name parent (rt_vfs rt))\<rparr>)"

definition coherent :: "runtime_state \<Rightarrow> bool" where
  "coherent rt \<longleftrightarrow> cache_inv (vertexfs_page_cache_mount_id (rt_objects rt)) (rt_vfs rt)"

lemma read_step_inv:
  assumes "cache_inv mid v" "mid = vertexfs_page_cache_mount_id ot"
    and "read_vertexfs_page_cache ot backing offset destination n (v, m) = Some ((v', m'), r)"
  shows "cache_inv mid v'"
proof (cases "vt_vx_file_count v \<le> backing")
  case True
  then show ?thesis
    using assms by (simp add: read_vertexfs_page_cache_def)
next
  case False
  then show ?thesis
    using read_cache_spec [OF assms(1,2), of backing offset destination n m] assms(3) by auto
qed

lemma coherent_step:
  assumes "cache_step rt rt'" "coherent rt"
  shows "coherent rt'"
  using assms
proof (induction rule: cache_step.induct)
  case (cs_read rt backing offset destination n m v m' r)
  then show ?case
    using read_step_inv [OF _ refl] by (simp add: coherent_def)
next
  case (cs_write rt backing offset bytes v q)
  then show ?case
    using write_cache_spec [of _ "rt_vfs rt" "rt_objects rt" backing offset bytes] by (auto simp: coherent_def)
next
  case (cs_truncate rt backing n v u)
  then show ?case
    using truncate_cache_spec [of _ "rt_vfs rt" "rt_objects rt" backing n] by (auto simp: coherent_def)
next
  case (cs_prepare backing rt rt' p)
  then show ?case
    using prepare_sync_inv by (auto simp: coherent_def)
qed (simp_all add: coherent_def finish_sync_inv writeback_error_inv release_file_inv add_empty_inv)

lemma coherent_steps: "cache_step\<^sup>*\<^sup>* rt rt' \<Longrightarrow> coherent rt \<Longrightarrow> coherent rt'"
  by (induction rule: rtranclp_induct) (auto intro: coherent_step)

text \<open>
  C8: The page cache is transparent.  After any sequence of reads, writes,
  truncations, syncs that complete or fail, releases and creations of VertexFS
  files, a read through the cache ends, leaves every file as it is, and on
  success has copied to user memory exactly the bytes a direct read of the
  file would give, and advanced the offset by their number.  It fails, with
  memory unchanged, only in two cases: the user buffer is refused, or every
  page of the cache is valid and dirty, pinned or under writeback and none of
  them holds the file; as long as a page is free or clean, a read into a
  buffer that is accepted succeeds.
\<close>

theorem page_cache_transparent:
  assumes "coherent rt0" "cache_step\<^sup>*\<^sup>* rt0 rt" "backing < vt_vx_file_count (rt_vfs rt)"
  shows "\<exists>v m' r. read_vertexfs_page_cache (rt_objects rt) backing offset destination max_len (rt_vfs rt, m) = Some ((v, m'), r) \<and>
    vt_vx_files v = vt_vx_files (rt_vfs rt) \<and>
    read_ok (no_room (vertexfs_page_cache_mount_id (rt_objects rt)) backing (vt_pages (rt_vfs rt)))
      (vt_vx_files (rt_vfs rt) ! backing) offset destination max_len m m' r"
  using read_cache_spec [OF coherent_steps [OF assms(2,1), unfolded coherent_def] refl assms(3)] by blast

text \<open>
  C25: Bytes written through the page cache are read back through it.  After a
  successful write, a read of the same range that succeeds copies exactly
  those bytes to user memory, and no other file changed.
\<close>

theorem page_cache_write_read:
  assumes "coherent rt" "write_vertexfs_page_cache (rt_objects rt) backing offset bytes (rt_vfs rt) = Some (v, Inr w)" "bytes \<noteq> []"
    and "read_vertexfs_page_cache (rt_objects rt) backing offset destination (length bytes) (v, m) = Some ((v', m'), Inr (n, nx))"
  shows "n = length bytes \<and> copy_to_user m destination bytes = (m', Inr ()) \<and>
    (\<forall>i. i \<noteq> backing \<longrightarrow> vt_vx_files v' ! i = vt_vx_files (rt_vfs rt) ! i)"
proof -
  let ?mid = "vertexfs_page_cache_mount_id (rt_objects rt)" and ?f = "vt_vx_files (rt_vfs rt) ! backing"
  have v: "cache_inv ?mid v" "vt_vx_files v = (vt_vx_files (rt_vfs rt))[backing := write_file (unat offset) bytes ?f]"
      "vt_vx_file_count v = vt_vx_file_count (rt_vfs rt)"
    using write_cache_spec [OF assms(1) [unfolded coherent_def] refl, of backing offset bytes] assms(2,3) by auto
  have range: "unat offset + length bytes \<le> 512" "backing < vt_vx_file_count (rt_vfs rt)"
    using assms(2,3) by (auto simp: write_vertexfs_page_cache_def Let_def MAX_VERTEXFS_FILE_BYTES_def split: if_splits)
  have b: "backing < length (vt_vx_files (rt_vfs rt))"
    using assms(1) range(2) by (simp add: coherent_def cache_inv_def)
  have f: "length (vx_bytes ?f) = 512"
    using file_ok_nth [OF assms(1) [unfolded coherent_def] b] by (simp add: file_ok_def)
  have "requested (write_file (unat offset) bytes ?f) offset (length bytes) = span (splice (vx_bytes ?f) (unat offset) bytes) (unat offset) (length bytes)"
    using f range(1)
    by (simp add: requested_def file_contents_def write_file_def Let_def span_def drop_take)
  then have "requested (vt_vx_files v ! backing) offset (length bytes) = bytes"
    using b f range(1) v(2) span_splice [of "unat offset" bytes "vx_bytes ?f"] by simp
  moreover have "read_ok (no_room ?mid backing (vt_pages v)) (vt_vx_files v ! backing) offset destination (length bytes) m m' (Inr (n, nx)) \<and> vt_vx_files v' = vt_vx_files v"
    using read_cache_spec [OF v(1) refl, of backing offset destination "length bytes" m] range(2) v(3) assms(4) by auto
  ultimately show ?thesis
    using assms(3) v(2) by (auto simp: read_ok_def)
qed

section \<open>A cache of one page\<close>

definition small_cache :: vfs_tables where
  "small_cache = vfs_tables_new\<lparr>vt_vx_files := [vertexfs_file_empty], vt_vx_file_count := 1, vt_pages := [vfs_page_empty]\<rparr>"

definition small_state :: runtime_state where
  "small_state = runtime_state_new\<lparr>rt_vfs := small_cache\<rparr>"

definition written_page :: vfs_page where
  "written_page = write_page 0 [7] (load_page ot_new small_cache 0 0 0 (- 1))"

lemma small_state_coherent: "coherent small_state"
  by (simp add: coherent_def small_state_def small_cache_def runtime_state_new_def cache_inv_def pages_ok_def
      file_ok_def vertexfs_file_empty_def vfs_page_empty_def MAX_VERTEXFS_FILE_BYTES_def cached_def)

lemma small_cache_fields:
  "vt_vx_files small_cache = [vertexfs_file_empty]" "vt_vx_file_count small_cache = 1" "vt_pages small_cache = [vfs_page_empty]"
  by (simp_all add: small_cache_def)

lemma small_page_fields: "\<not> pg_valid vfs_page_empty" "vx_len vertexfs_file_empty = 0" "\<not> vx_dirty vertexfs_file_empty"
  "inode_key vertexfs_file_empty 0 = - 1"
  by (simp_all add: vfs_page_empty_def vertexfs_file_empty_def inode_key_def saturating_sub_def)

lemma small_ensure:
  "ensure_vertexfs_page_cache_page ot_new 0 0 small_cache =
    Some (small_cache\<lparr>vt_pages := [load_page ot_new small_cache 0 0 0 (- 1)]\<rparr>, Inr (0, False))"
  by (simp add: ensure_vertexfs_page_cache_page_def vertexfs_page_cache_inode_key_def vertexfs_page_cache_lookup_def
      small_cache_fields small_page_fields page_matches_def vertexfs_page_cache_victim_def Let_def VERTEXFS_SECTOR_SIZE_def
      update_vertexfs_page_cache_high_water_def vertexfs_page_cache_dirty_bytes_def dirty_bytes_of_def load_page_def)

lemma small_dirty:
  "ensure_vertexfs_page_cache_dirty 0 (small_cache\<lparr>vt_pages := [load_page ot_new small_cache 0 0 0 (- 1)]\<rparr>) =
    Some (small_cache\<lparr>vt_pages := [load_page ot_new small_cache 0 0 0 (- 1)]\<rparr>, Inr ())"
  by (simp add: ensure_vertexfs_page_cache_dirty_def vertexfs_page_cache_dirty_bytes_def dirty_bytes_of_def load_page_def
      small_cache_fields small_page_fields Let_def vertexfs_page_cache_dirty_bytes_for_mount_def VERTEXFS_SECTOR_SIZE_def
      VERTEXFS_PAGE_CACHE_DIRTY_BYTE_LIMIT_def VERTEXFS_PAGE_CACHE_PER_MOUNT_DIRTY_BYTE_LIMIT_def)

lemma small_write:
  "\<exists>v. write_vertexfs_page_cache ot_new 0 0 [7] small_cache = Some (v, Inr (1, 1)) \<and> vt_pages v = [written_page] \<and>
    vt_vx_files v = [write_file 0 [7] vertexfs_file_empty] \<and> vt_vx_file_count v = 1"
  by (simp add: write_vertexfs_page_cache_def Let_def MAX_VERTEXFS_FILE_BYTES_def small_cache_fields small_ensure small_dirty
      call_bind_def update_vertexfs_page_cache_high_water_def written_page_def)

lemma small_read:
  assumes "vt_pages v = [written_page]" "vt_vx_files v = [write_file 0 [7] vertexfs_file_empty]" "vt_vx_file_count v = 1"
  shows "\<exists>v' m'. read_vertexfs_page_cache ot_new 0 0 0x400000 1 (v, sample_machine) = Some ((v', m'), Inr (1, 1))"
proof -
  have "snd (copy_to_user sample_machine 0x400000 [7]) = Inr ()"
    by code_simp
  then obtain m' where copy: "copy_to_user sample_machine 0x400000 [7] = (m', Inr ())"
    by (cases "copy_to_user sample_machine 0x400000 [7]") simp
  have page: "page_matches 0 (vertexfs_page_cache_mount_id ot_new) (- 1) 0 written_page"
    by (simp add: page_matches_def written_page_def write_page_def dirtied_def load_page_def Let_def)
  have bytes: "pg_bytes written_page = splice (replicate 512 0) 0 [7]"
    by (simp add: written_page_def write_page_def dirtied_def load_page_def Let_def VERTEXFS_SECTOR_SIZE_def span_def)
  have "\<not> length (pg_bytes written_page) < 0 + 1"
    by (simp add: bytes del: splice.simps)
  moreover have "span (pg_bytes written_page) 0 1 = [7]"
    using span_splice [of 0 "[7]" "replicate 512 0"] by (simp add: bytes del: splice.simps)
  moreover have "vx_len (write_file 0 [7] vertexfs_file_empty) = 1" "inode_key (write_file 0 [7] vertexfs_file_empty) 0 = - 1"
    by (simp_all add: write_file_def Let_def vertexfs_file_empty_def inode_key_def saturating_sub_def)
  ultimately show ?thesis
    using copy page assms
    by (simp add: read_vertexfs_page_cache_def Let_def ensure_vertexfs_page_cache_page_def vertexfs_page_cache_inode_key_def
        vertexfs_page_cache_lookup_def VERTEXFS_SECTOR_SIZE_def checked_add_def)
qed

lemma small_state_fields: "rt_objects small_state = ot_new" "rt_vfs small_state = small_cache"
  by (simp_all add: small_state_def runtime_state_new_def)

theorem page_cache_transparent_witness:
  "\<exists>rt v m' r. cache_step\<^sup>*\<^sup>* small_state rt \<and> file_contents (vt_vx_files (rt_vfs rt) ! 0) = [7] \<and>
    read_vertexfs_page_cache (rt_objects rt) 0 0 0x400000 1 (rt_vfs rt, sample_machine) = Some ((v, m'), r) \<and>
    read_ok (no_room (vertexfs_page_cache_mount_id (rt_objects rt)) 0 (vt_pages (rt_vfs rt)))
      (vt_vx_files (rt_vfs rt) ! 0) 0 0x400000 1 sample_machine m' r"
proof -
  obtain v where v: "write_vertexfs_page_cache ot_new 0 0 [7] small_cache = Some (v, Inr (1, 1))"
      "vt_vx_files v = [write_file 0 [7] vertexfs_file_empty]" "vt_vx_file_count v = 1"
    using small_write by blast
  define rt where "rt = small_state\<lparr>rt_vfs := v\<rparr>"
  have "cache_step small_state rt"
    unfolding rt_def by (rule cs_write [of _ 0 0 "[7]"]) (simp add: small_state_fields v(1))
  then have steps: "cache_step\<^sup>*\<^sup>* small_state rt"
    by (rule r_into_rtranclp)
  have "file_contents (vt_vx_files (rt_vfs rt) ! 0) = [7]"
    using span_splice [of 0 "[7]" "vx_bytes vertexfs_file_empty"]
    by (simp add: rt_def v(2) file_contents_def write_file_def Let_def span_def vertexfs_file_empty_def
        MAX_VERTEXFS_FILE_BYTES_def del: splice.simps)
  then show ?thesis
    using steps page_cache_transparent [OF small_state_coherent steps, of 0 0 "0x400000" 1 sample_machine]
    by (auto simp: rt_def v(3))
qed

theorem page_cache_write_read_witness:
  "\<exists>v v' m'. write_vertexfs_page_cache ot_new 0 0 [7] small_cache = Some (v, Inr (1, 1)) \<and>
    read_vertexfs_page_cache ot_new 0 0 0x400000 1 (v, sample_machine) = Some ((v', m'), Inr (1, 1)) \<and>
    copy_to_user sample_machine 0x400000 [7] = (m', Inr ())"
proof -
  obtain v where v: "write_vertexfs_page_cache ot_new 0 0 [7] small_cache = Some (v, Inr (1, 1))"
      "vt_pages v = [written_page]" "vt_vx_files v = [write_file 0 [7] vertexfs_file_empty]" "vt_vx_file_count v = 1"
    using small_write by blast
  obtain v' m' where r: "read_vertexfs_page_cache ot_new 0 0 0x400000 1 (v, sample_machine) = Some ((v', m'), Inr (1, 1))"
    using small_read [OF v(2-4)] by blast
  show ?thesis
    using page_cache_write_read [OF small_state_coherent, of 0 0 "[7]" v "(1, 1)" "0x400000" sample_machine v' m' 1 1] v(1) r
    by (auto simp: small_state_fields)
qed

end
