(* ===== verification/Scheduler.thy ===== *)
theory Scheduler
  imports Cap_Syscalls User_Memory Byte_Codec
begin

text \<open>
  The scheduler (\<^verbatim>\<open>ipc/scheduler.rs\<close>): deadlines, the halt until the
  next interrupt, the choice of the next process and the delivery of a message
  to a blocked receiver; with it the interrupt entries of
  \<^verbatim>\<open>exceptions.rs\<close> taken in kernel mode and the interrupt objects of
  \<^verbatim>\<open>ipc/device_syscalls.rs\<close>.  Trace output is left out.

  The hardware is part of the state: the successive values of the time-stamp
  counter, the CPUID leaves, and the interrupts each halt ends with.
\<close>

section \<open>The kernel and its clock\<close>

text \<open>The drivers the kernel itself has for the random-number and network devices (\<^verbatim>\<open>device/virtio.rs\<close>).\<close>

record virtio_queue_state =
  vq_dma_physical :: u64
  vq_dma_virtual :: u64
  vq_queue_size :: u16
  vq_avail_offset :: nat
  vq_used_offset :: nat
  vq_data_offset :: nat
  vq_avail_idx :: u16
  vq_used_idx :: u16
  vq_submissions :: u64
  vq_completions :: u64
  vq_interrupt_waits :: u64
  vq_timeouts :: u64
  vq_last_error :: string

record virtio_rng_state =
  rng_initialized :: bool
  rng_io_base :: u16
  rng_queue :: virtio_queue_state
  rng_owner :: process_id
  rng_reset_count :: u64
  rng_last_error :: string

record virtio_net_state =
  net_initialized :: bool
  net_io_base :: u16
  net_rx :: virtio_queue_state
  net_tx :: virtio_queue_state
  net_rx_posted :: bool
  net_owner :: process_id
  net_reset_count :: u64
  net_last_error :: string

definition virtio_queue_state_new :: "u64 \<Rightarrow> u64 \<Rightarrow> virtio_queue_state" where
  "virtio_queue_state_new dma_physical dma_virtual =
    \<lparr>vq_dma_physical = dma_physical, vq_dma_virtual = dma_virtual, vq_queue_size = 0, vq_avail_offset = 0, vq_used_offset = 0,
     vq_data_offset = 0, vq_avail_idx = 0, vq_used_idx = 0, vq_submissions = 0, vq_completions = 0, vq_interrupt_waits = 0,
     vq_timeouts = 0, vq_last_error = ''none''\<rparr>"

definition virtio_queue_state_empty :: virtio_queue_state where
  "virtio_queue_state_empty = virtio_queue_state_new 0 0"

definition virtio_rng_state_new :: virtio_rng_state where
  "virtio_rng_state_new =
    \<lparr>rng_initialized = False, rng_io_base = 0, rng_queue = virtio_queue_state_empty, rng_owner = process_id_empty,
     rng_reset_count = 0, rng_last_error = ''none''\<rparr>"

definition virtio_net_state_new :: virtio_net_state where
  "virtio_net_state_new =
    \<lparr>net_initialized = False, net_io_base = 0, net_rx = virtio_queue_state_empty, net_tx = virtio_queue_state_empty,
     net_rx_posted = False, net_owner = process_id_empty, net_reset_count = 0, net_last_error = ''none''\<rparr>"

datatype interrupt = TimerTick | LegacyIrq u64

record kernel =
  kn_rt :: runtime_state
  kn_mc :: machine
  kn_alloc :: "frame_allocator option"
  kn_rng :: virtio_rng_state
  kn_net :: virtio_net_state
  kn_frame :: syscall_frame
  kn_clock :: "nat \<Rightarrow> u64"
  kn_reads :: nat
  kn_cpuid :: "u32 \<Rightarrow> u32 \<times> u32 \<times> u32"
  kn_interrupts :: "nat \<Rightarrow> interrupt list"
  kn_halts :: nat

abbreviation kn_processes :: "kernel \<Rightarrow> process list" where
  "kn_processes k \<equiv> pt_processes (rt_processes (kn_rt k))"

definition on_rt :: "(runtime_state \<Rightarrow> runtime_state) \<Rightarrow> kernel \<Rightarrow> kernel" where
  "on_rt f k = k\<lparr>kn_rt := f (kn_rt k)\<rparr>"

definition read_tsc :: "kernel \<Rightarrow> kernel \<times> u64" where
  "read_tsc k = (k\<lparr>kn_reads := Suc (kn_reads k)\<rparr>, kn_clock k (kn_reads k))"

definition FALLBACK_TSC_TICKS_PER_MS :: u64 where "FALLBACK_TSC_TICKS_PER_MS = 1000000"

definition tsc_ticks_per_ms :: "kernel \<Rightarrow> u64" where
  "tsc_ticks_per_ms k =
    (let (eax, ebx, ecx) = kn_cpuid k 0x15; hz = saturating_mul (ucast ecx) (ucast ebx) div ucast eax
     in if eax \<noteq> 0 \<and> ebx \<noteq> 0 \<and> ecx \<noteq> 0 \<and> hz \<noteq> (0 :: u64) then hz div 1000
        else let (eax, _, _) = kn_cpuid k 0x16
             in if eax \<noteq> 0 then saturating_mul (ucast eax) 1000 else FALLBACK_TSC_TICKS_PER_MS)"

definition deadline_after_ms :: "u64 \<Rightarrow> kernel \<Rightarrow> kernel \<times> u64" where
  "deadline_after_ms milliseconds k =
    (let (k, now) = read_tsc k in (k, saturating_add now (saturating_mul milliseconds (tsc_ticks_per_ms k))))"

definition deadline_reached :: "u64 \<Rightarrow> u64 \<Rightarrow> bool" where
  "deadline_reached now deadline \<longleftrightarrow> 0 \<le> sint (now - deadline)"

definition deadline_before :: "u64 \<Rightarrow> u64 \<Rightarrow> bool" where
  "deadline_before left right \<longleftrightarrow> sint (left - right) < 0"

section \<open>Timed waits\<close>

definition make_ready :: "u64 \<Rightarrow> process \<Rightarrow> process" where
  "make_ready status p = p\<lparr>proc_saved_frame := (proc_saved_frame p)\<lparr>fr_rax := status\<rparr>, proc_state := Ready\<rparr>"

fun wake_status :: "u64 \<Rightarrow> process_state \<Rightarrow> u64 option" where
  "wake_status now (Sleeping wake_tsc) = (if deadline_reached now wake_tsc then Some STATUS_OK else None)"
| "wake_status now (BlockedOnEndpoint _ _ _ _ (Some t)) = (if deadline_reached now t then Some STATUS_TIMEOUT else None)"
| "wake_status now (BlockedOnInterrupt _ (Some t)) = (if deadline_reached now t then Some STATUS_TIMEOUT else None)"
| "wake_status now _ = None"

definition wake_process :: "u64 \<Rightarrow> process \<Rightarrow> process" where
  "wake_process now p = (case wake_status now (proc_state p) of Some status \<Rightarrow> make_ready status p | None \<Rightarrow> p)"

definition wake_timed_processes :: "u64 \<Rightarrow> runtime_state \<Rightarrow> runtime_state \<times> nat" where
  "wake_timed_processes now rt =
    (let ps = pt_processes (rt_processes rt)
     in (rt\<lparr>rt_processes := (rt_processes rt)\<lparr>pt_processes := map (wake_process now) ps\<rparr>\<rparr>,
         length (filter (\<lambda>p. wake_status now (proc_state p) \<noteq> None) ps)))"

definition wake_timed :: "kernel \<Rightarrow> kernel \<times> nat" where
  "wake_timed k =
    (let (k, now) = read_tsc k; (rt, woke) = wake_timed_processes now (kn_rt k) in (k\<lparr>kn_rt := rt\<rparr>, woke))"

fun deadline_of :: "process_state \<Rightarrow> u64 option" where
  "deadline_of (Sleeping wake_tsc) = Some wake_tsc"
| "deadline_of (BlockedOnEndpoint _ _ _ _ t) = t"
| "deadline_of (BlockedOnInterrupt _ t) = t"
| "deadline_of _ = None"

definition earlier :: "u64 option \<Rightarrow> process \<Rightarrow> u64 option" where
  "earlier next p =
    (case deadline_of (proc_state p) of
       None \<Rightarrow> next
     | Some deadline \<Rightarrow>
        if (case next of Some current \<Rightarrow> deadline_before deadline current | None \<Rightarrow> True) then Some deadline else next)"

definition next_deadline_tsc :: "runtime_state \<Rightarrow> u64 option" where
  "next_deadline_tsc rt = foldl earlier None (pt_processes (rt_processes rt))"

section \<open>Interrupts\<close>

definition blocked_interrupt_waiter_index :: "object_id \<Rightarrow> runtime_state \<Rightarrow> nat option" where
  "blocked_interrupt_waiter_index interrupt rt =
    first_index (\<lambda>p. case proc_state p of BlockedOnInterrupt i _ \<Rightarrow> i = interrupt | _ \<Rightarrow> False)
      (pt_processes (rt_processes rt))"

definition update_process_at :: "nat \<Rightarrow> (process \<Rightarrow> process) \<Rightarrow> runtime_state \<Rightarrow> runtime_state" where
  "update_process_at i f rt = rt\<lparr>rt_processes := update_process (rt_processes rt) i f\<rparr>"

definition interrupt_line_at :: "object_table \<Rightarrow> nat \<Rightarrow> interrupt_line_object" where
  "interrupt_line_at t j = (case ot_objects t ! j of Some (InterruptLine l) \<Rightarrow> l | _ \<Rightarrow> undefined)"

definition update_interrupt_line :: "object_id \<Rightarrow> (interrupt_line_object \<Rightarrow> interrupt_line_object) \<Rightarrow> runtime_state \<Rightarrow> runtime_state" where
  "update_interrupt_line i f rt =
    (case get_interrupt_line_mut (rt_objects rt) i of
       None \<Rightarrow> rt
     | Some j \<Rightarrow> rt\<lparr>rt_objects := set_slot (rt_objects rt) j (InterruptLine (f (interrupt_line_at (rt_objects rt) j)))\<rparr>)"

definition record_hardware_irq :: "u64 \<Rightarrow> runtime_state \<Rightarrow> runtime_state" where
  "record_hardware_irq irq_line rt =
    (case get_interrupt_line_by_number (rt_objects rt) irq_line of
       None \<Rightarrow> rt
     | Some line \<Rightarrow>
        (case blocked_interrupt_waiter_index (il_id line) rt of
           Some waiter \<Rightarrow>
             update_interrupt_line (il_id line) (\<lambda>l. l\<lparr>il_delivered_count := saturating_add (il_delivered_count l) 1\<rparr>)
               (update_process_at waiter (make_ready STATUS_OK) rt)
         | None \<Rightarrow>
             update_interrupt_line (il_id line) (\<lambda>l. l\<lparr>il_pending_count := saturating_add (il_pending_count l) 1\<rparr>) rt))"

fun interrupt_dispatch :: "interrupt \<Rightarrow> kernel \<Rightarrow> kernel" where
  "interrupt_dispatch TimerTick k = fst (wake_timed k)"
| "interrupt_dispatch (LegacyIrq line) k = fst (wake_timed (on_rt (record_hardware_irq line) k))"

text \<open>The halt ends with one or more interrupts, handled before the next instruction.\<close>

definition wait_for_interrupt :: "kernel \<Rightarrow> kernel" where
  "wait_for_interrupt k = fold interrupt_dispatch (kn_interrupts k (kn_halts k)) (k\<lparr>kn_halts := Suc (kn_halts k)\<rparr>)"

section \<open>Choosing the next process\<close>

definition ready_index :: "bool \<Rightarrow> kernel \<Rightarrow> nat option" where
  "ready_index include_current k = next_ready_index_round_robin (rt_processes (kn_rt k)) include_current"

partial_function (option) wait_until_deadline :: "u64 \<Rightarrow> bool \<Rightarrow> kernel \<Rightarrow> kernel option" where
  "wait_until_deadline deadline include_current k =
    (let (k, now) = read_tsc k
     in if deadline_reached now deadline \<or> ready_index include_current k \<noteq> None then Some k
        else let (k, woke) = wake_timed k
             in if woke \<noteq> 0 then Some k else wait_until_deadline deadline include_current (wait_for_interrupt k))"

definition switch_to :: "nat \<Rightarrow> kernel \<Rightarrow> kernel" where
  "switch_to i k =
    (let p = kn_processes k ! i; t = update_process (rt_processes (kn_rt k)) i (\<lambda>p. p\<lparr>proc_state := Running\<rparr>)
     in k\<lparr>kn_rt := (kn_rt k)\<lparr>rt_processes := t\<lparr>pt_current := Some (proc_pid p)\<rparr>\<rparr>,
          kn_frame := (if proc_has_saved_frame p then proc_saved_frame p else syscall_frame_from_context (proc_context p)),
          kn_mc := switch_address_space (kn_mc k) (ctx_cr3 (proc_context p))\<rparr>)"

definition pick_next :: "bool \<Rightarrow> kernel \<Rightarrow> kernel \<times> bool" where
  "pick_next include_current k = (case ready_index include_current k of None \<Rightarrow> (k, False) | Some i \<Rightarrow> (switch_to i k, True))"

definition schedule_next_ready_inner :: "bool \<Rightarrow> bool \<Rightarrow> kernel \<Rightarrow> (kernel \<times> bool) option" where
  "schedule_next_ready_inner include_current wait_for_deadline k =
    (let k = fst (wake_timed k)
     in if wait_for_deadline \<and> ready_index include_current k = None
        then case next_deadline_tsc (kn_rt k) of
               None \<Rightarrow> Some (pick_next include_current k)
             | Some deadline \<Rightarrow>
                (case wait_until_deadline deadline include_current k of
                   None \<Rightarrow> None
                 | Some k \<Rightarrow> Some (pick_next include_current (fst (wake_timed k))))
        else Some (pick_next include_current k))"

definition schedule_next_ready :: "kernel \<Rightarrow> (kernel \<times> bool) option" where
  "schedule_next_ready k = schedule_next_ready_inner True True k"

definition schedule_next_ready_excluding_current :: "kernel \<Rightarrow> (kernel \<times> bool) option" where
  "schedule_next_ready_excluding_current k = schedule_next_ready_inner False True k"

definition schedule_next_ready_no_wait_excluding_current :: "kernel \<Rightarrow> (kernel \<times> bool) option" where
  "schedule_next_ready_no_wait_excluding_current k = schedule_next_ready_inner False False k"

section \<open>Blocking the current process\<close>

definition on_current :: "(process \<Rightarrow> process) \<Rightarrow> kernel \<Rightarrow> kernel option" where
  "on_current f k =
    map_option (\<lambda>i. on_rt (update_process_at i f) k) (current_process_mut (rt_processes (kn_rt k)))"

definition suspend :: "syscall_frame \<Rightarrow> process_state \<Rightarrow> process \<Rightarrow> process" where
  "suspend frame st p = p\<lparr>proc_saved_frame := frame, proc_has_saved_frame := True, proc_state := st\<rparr>"

definition resume_current :: "kernel \<Rightarrow> kernel" where
  "resume_current k = (case on_current (\<lambda>p. p\<lparr>proc_state := Running\<rparr>) k of None \<Rightarrow> k | Some k \<Rightarrow> k)"

text \<open>
  The shape every blocking call has: save the frame, leave the running state,
  and switch to another process; with no process to switch to the caller runs on.
\<close>

definition block_current :: "syscall_frame \<Rightarrow> process_state \<Rightarrow> kernel \<Rightarrow> (kernel \<times> bool) option" where
  "block_current frame st k =
    (case on_current (suspend frame st) k of
       None \<Rightarrow> Some (k, False)
     | Some k \<Rightarrow>
        (case schedule_next_ready k of
           None \<Rightarrow> None
         | Some (k, True) \<Rightarrow> Some (k, True)
         | Some (k, False) \<Rightarrow> Some (resume_current k, False)))"

definition block_current_on_endpoint :: "object_id \<Rightarrow> u64 \<Rightarrow> u64 \<Rightarrow> nat \<Rightarrow> u64 option \<Rightarrow> kernel \<Rightarrow> (kernel \<times> bool) option" where
  "block_current_on_endpoint endpoint i destination max_len timeout_tsc k =
    block_current (kn_frame k) (BlockedOnEndpoint endpoint i destination max_len timeout_tsc) k"

definition sleep_ms :: "u64 \<Rightarrow> u64 \<Rightarrow> kernel \<Rightarrow> (kernel \<times> (ipc_error, unit) result) option" where
  "sleep_ms cap_slot milliseconds k =
    (case timer_from_cap (kn_rt k) cap_slot RIGHT_CONTROL of
       Inl e \<Rightarrow> Some (k, Inl e)
     | Inr _ \<Rightarrow>
        if milliseconds = 0 then Some (k\<lparr>kn_frame := (kn_frame k)\<lparr>fr_rax := STATUS_OK\<rparr>\<rparr>, Inr ())
        else let (k, wake_tsc) = deadline_after_ms milliseconds k
             in if current_process_mut (rt_processes (kn_rt k)) = None then Some (k, Inl BadCapability)
                else case block_current ((kn_frame k)\<lparr>fr_rax := STATUS_OK\<rparr>) (Sleeping wake_tsc) k of
                       None \<Rightarrow> None
                     | Some (k, switched) \<Rightarrow> Some (k, if switched then Inr () else Inl Empty))"

definition consume_pending_interrupt :: "object_id \<Rightarrow> runtime_state \<Rightarrow> runtime_state \<times> bool" where
  "consume_pending_interrupt interrupt rt =
    (case get_interrupt_line_mut (rt_objects rt) interrupt of
       None \<Rightarrow> (rt, False)
     | Some j \<Rightarrow>
        let l = interrupt_line_at (rt_objects rt) j
        in if il_pending_count l = 0 then (rt, False)
           else (rt\<lparr>rt_objects := set_slot (rt_objects rt) j (InterruptLine (l\<lparr>il_pending_count := il_pending_count l - 1,
                   il_delivered_count := saturating_add (il_delivered_count l) 1\<rparr>))\<rparr>, True))"

definition block_current_on_interrupt :: "object_id \<Rightarrow> u64 option \<Rightarrow> kernel \<Rightarrow> (kernel \<times> bool) option" where
  "block_current_on_interrupt interrupt timeout_tsc k =
    (if get_interrupt_line (rt_objects (kn_rt k)) interrupt = None then Some (k, False)
     else block_current ((kn_frame k)\<lparr>fr_rax := STATUS_OK\<rparr>) (BlockedOnInterrupt interrupt timeout_tsc) k)"

definition irq_wait :: "u64 \<Rightarrow> u64 \<Rightarrow> kernel \<Rightarrow> (kernel \<times> (ipc_error, unit) result) option" where
  "irq_wait cap_slot timeout_ms k =
    (case interrupt_line_from_cap (kn_rt k) cap_slot RIGHT_LISTEN of
       Inl e \<Rightarrow> Some (k, Inl e)
     | Inr line \<Rightarrow>
        (case consume_pending_interrupt (il_id line) (kn_rt k) of
           (rt, True) \<Rightarrow> Some (k\<lparr>kn_rt := rt, kn_frame := (kn_frame k)\<lparr>fr_rax := STATUS_OK\<rparr>\<rparr>, Inr ())
         | (rt, False) \<Rightarrow>
            if timeout_ms = 0 then Some (k\<lparr>kn_frame := (kn_frame k)\<lparr>fr_rax := STATUS_OK\<rparr>\<rparr>, Inr ())
            else let (k, timeout) = deadline_after_ms timeout_ms k
                 in case block_current_on_interrupt (il_id line) (Some timeout) k of
                      None \<Rightarrow> None
                    | Some (k, switched) \<Rightarrow> Some (k, if switched then Inr () else Inl Empty)))"

section \<open>Delivery to a blocked receiver\<close>

definition blocked_receiver_index :: "object_id \<Rightarrow> runtime_state \<Rightarrow> nat option" where
  "blocked_receiver_index endpoint rt =
    first_index (\<lambda>p. case proc_state p of
        BlockedOnEndpoint waiting _ _ _ _ \<Rightarrow> waiting = endpoint \<and>
          (case get_endpoint (rt_objects rt) endpoint of Some e \<Rightarrow> ep_has_message_for e (proc_pid p) | None \<Rightarrow> False)
      | _ \<Rightarrow> False) (pt_processes (rt_processes rt))"

definition update_endpoint :: "object_id \<Rightarrow> (ipc_endpoint \<Rightarrow> ipc_endpoint \<times> 'a) \<Rightarrow> runtime_state \<Rightarrow> (runtime_state \<times> 'a) option" where
  "update_endpoint i f rt =
    (case get_endpoint_mut (rt_objects rt) i of
       None \<Rightarrow> None
     | Some j \<Rightarrow>
        (case f (endpoint_at (rt_objects rt) j) of
           (e, r) \<Rightarrow> Some (rt\<lparr>rt_objects := set_slot (rt_objects rt) j (IpcEndpoint e)\<rparr>, r)))"

text \<open>
  The slices of a message in range: the queue holds at most 512 bytes each.
\<close>

definition message_prefix :: "ipc_message \<Rightarrow> nat \<Rightarrow> u8 list" where
  "message_prefix message max_len = take (min (msg_len message) max_len) (msg_bytes message)"

definition copy_to_process :: "u64 \<Rightarrow> u64 \<Rightarrow> u8 list \<Rightarrow> kernel \<Rightarrow> kernel \<times> bool" where
  "copy_to_process receiver_cr3 destination bytes k =
    (let current_cr3 = (case current_process (rt_processes (kn_rt k)) of
           Some p \<Rightarrow> ctx_cr3 (proc_context p) | None \<Rightarrow> active_root_table_physical (kn_mc k));
         (m, r) = copy_to_user (switch_address_space (kn_mc k) receiver_cr3) destination bytes
     in (k\<lparr>kn_mc := switch_address_space m current_cr3\<rparr>, \<not> isl r))"

definition PROTOCOL_HEALTH_V0 :: u16 where "PROTOCOL_HEALTH_V0 = 2"
definition MESSAGE_READY :: u16 where "MESSAGE_READY = 1"
definition READY_ENVELOPE_LEN :: nat where "READY_ENVELOPE_LEN = 16"

definition ready_service_name :: "ipc_message \<Rightarrow> u8 list option" where
  "ready_service_name message =
    (let payload_len = unat (read_u32_le (msg_bytes message) 4)
     in if msg_len message < READY_ENVELOPE_LEN then None
        else if read_u16_le (msg_bytes message) 0 \<noteq> PROTOCOL_HEALTH_V0 \<or> read_u16_le (msg_bytes message) 2 \<noteq> MESSAGE_READY
        then None
        else if msg_len message - READY_ENVELOPE_LEN < payload_len then None
        else Some (span (msg_bytes message) READY_ENVELOPE_LEN payload_len))"

definition record_ready_lifecycle :: "object_id \<Rightarrow> process_id \<Rightarrow> ipc_message \<Rightarrow> runtime_state \<Rightarrow> runtime_state" where
  "record_ready_lifecycle endpoint receiver message rt =
    (case (ready_service_name message, get_endpoint (rt_objects rt) endpoint, process_of (rt_processes rt) (msg_sender message)) of
       (Some name, Some e, Some sender) \<Rightarrow>
         if ep_name e \<noteq> ''readiness'' \<or> receiver \<noteq> 1 \<or> name \<noteq> as_bytes (proc_name sender) then rt
         else record_service_lifecycle rt (proc_name sender) SvcReady None
     | _ \<Rightarrow> rt)"

definition deliver_message :: "object_id \<Rightarrow> nat \<Rightarrow> u64 \<Rightarrow> nat \<Rightarrow> kernel \<Rightarrow> kernel" where
  "deliver_message endpoint i destination max_len k =
    (let p = kn_processes k ! i
     in case update_endpoint endpoint (\<lambda>e. ep_dequeue_for e (proc_pid p)) (kn_rt k) of
          None \<Rightarrow> k
        | Some (rt, None) \<Rightarrow> k\<lparr>kn_rt := rt\<rparr>
        | Some (rt, Some message) \<Rightarrow>
           (case copy_to_process (ctx_cr3 (proc_context p)) destination (message_prefix message max_len) (k\<lparr>kn_rt := rt\<rparr>) of
              (k, True) \<Rightarrow>
                on_rt (\<lambda>rt. record_ready_lifecycle endpoint (proc_pid p) message
                  (update_process_at i (make_ready (of_nat (min (msg_len message) max_len))) rt)) k
            | (k, False) \<Rightarrow> on_rt (update_process_at i (make_ready STATUS_BAD_BUFFER)) k))"

definition blocked_on_endpoint :: "process_state \<Rightarrow> bool" where
  "blocked_on_endpoint st \<longleftrightarrow> (case st of BlockedOnEndpoint _ _ _ _ _ \<Rightarrow> True | _ \<Rightarrow> False)"

lemma blocked_on_endpoint_simp [simp]: "blocked_on_endpoint (BlockedOnEndpoint a b c d e)"
  by (simp add: blocked_on_endpoint_def)

lemma first_index_bound: "first_index P xs = Some i \<Longrightarrow> i < length xs"
  by (simp add: first_index_Some)

lemma length_filter_flip:
  "i < length xs \<Longrightarrow> P (xs ! i) \<Longrightarrow> \<not> P y \<Longrightarrow> length (filter P (xs[i := y])) < length (filter P xs)"
  by (induction xs arbitrary: i) (auto simp: nth_Cons split: nat.splits)

lemma cancel_decreases:
  assumes "i < length (kn_processes k)" "blocked_on_endpoint (proc_state (kn_processes k ! i))"
  shows "length (filter (\<lambda>p. blocked_on_endpoint (proc_state p))
      (kn_processes (on_rt (\<lambda>rt. fst (cancel_blocked_endpoint_waiter_at rt i status)) k))) <
    length (filter (\<lambda>p. blocked_on_endpoint (proc_state p)) (kn_processes k))"
  using assms
  by (auto simp: on_rt_def cancel_blocked_endpoint_waiter_at_def update_process_def blocked_on_endpoint_def
      intro!: length_filter_flip split: process_state.splits)

function wake_receivers :: "object_id \<Rightarrow> kernel \<Rightarrow> kernel" where
  "wake_receivers endpoint k =
    (case blocked_receiver_index endpoint (kn_rt k) of
       None \<Rightarrow> k
     | Some i \<Rightarrow>
        (case proc_state (kn_processes k ! i) of
           BlockedOnEndpoint waiting cap destination max_len _ \<Rightarrow>
             if \<not> process_has_live_endpoint_cap (kn_rt k) (kn_processes k ! i) waiting cap RIGHT_RECEIVE
             then wake_receivers endpoint (on_rt (\<lambda>rt. fst (cancel_blocked_endpoint_waiter_at rt i STATUS_BAD_CAPABILITY)) k)
             else deliver_message endpoint i destination max_len k
         | _ \<Rightarrow> k))"
  by pat_completeness auto
termination
proof (relation "measure (\<lambda>(_, k). length (filter (\<lambda>p. blocked_on_endpoint (proc_state p)) (kn_processes k)))")
qed (auto intro!: cancel_decreases dest: first_index_bound simp: blocked_receiver_index_def)

definition wake_blocked_receiver :: "object_id \<Rightarrow> kernel \<Rightarrow> kernel" where
  "wake_blocked_receiver endpoint k = wake_receivers endpoint (fst (wake_timed k))"

end
