(* ===== verification/Vfs_Wire.thy ===== *)
theory Vfs_Wire
  imports Vfs_Tables Byte_Codec
begin

text \<open>
  The fixed-size records the file system calls copy to user memory
  (\<^verbatim>\<open>ipc/vfs_wire.rs\<close>), and that each field is read back from its
  place.  The functions that print names and flags are left out.
\<close>

definition VFS_STAT_BYTES :: nat where "VFS_STAT_BYTES = 64"
definition VFS_DIRENT_BYTES :: nat where "VFS_DIRENT_BYTES = 96"
definition VFS_WATCH_EVENT_BYTES :: nat where "VFS_WATCH_EVENT_BYTES = 96"

fun vfs_node_kind_value :: "vfs_node_kind \<Rightarrow> u64" where
  "vfs_node_kind_value RegularFile = 1"
| "vfs_node_kind_value Directory = 2"
| "vfs_node_kind_value DeviceNode = 3"
| "vfs_node_kind_value PipeNode = 4"
| "vfs_node_kind_value SyntheticNode = 5"

definition write_vfs_stat_record :: "vfs_tables \<Rightarrow> u8 list \<Rightarrow> vfs_node \<Rightarrow> u64 \<Rightarrow> u64 \<Rightarrow> u8 list" where
  "write_vfs_stat_record v stat node len rights =
    (let stat = write_u64_le stat 0 (vfs_node_kind_value (vn_kind node));
         stat = write_u64_le stat 8 len;
         stat = write_u64_le stat 16 (vfs_node_stat_identity v node);
         stat = write_u64_le stat 24 rights;
         stat = write_u64_le stat 32 (vn_metadata_version node);
         stat = write_u64_le stat 40 (vfs_node_link_count v node);
         stat = write_u64_le stat 48 0
     in write_u64_le stat 56 0)"

definition write_vfs_dirent_record :: "u8 list \<Rightarrow> vfs_node \<Rightarrow> u8 list" where
  "write_vfs_dirent_record dirent child =
    (let dirent = write_u64_le dirent 0 (vfs_node_kind_value (vn_kind child));
         dirent = write_u64_le dirent 8 (vn_id child);
         dirent = write_u64_le dirent 16 (of_nat (name_len (vn_name child)))
     in splice dirent 24 (vfs_name_as_bytes (vn_name child)))"

definition write_vfs_watch_event_record :: "u8 list \<Rightarrow> vfs_event \<Rightarrow> u8 list" where
  "write_vfs_watch_event_record record event =
    (let record = write_u64_le record 0 (ve_kind event);
         record = write_u64_le record 8 (ve_metadata_version event);
         record = write_u64_le record 16 (of_nat (name_len (ve_name event)))
     in splice record 24 (take (length record - 24) (vfs_name_as_bytes (ve_name event))))"

end
