(* ===== verification/Vfs_Transactions.thy ===== *)
theory Vfs_Transactions
  imports Scheduler Vfs_Wire Page_Cache
begin

text \<open>
  File operations that another process completes
  (\<^verbatim>\<open>ipc/vfs_transactions.rs\<close>): requests to the state service with a
  transaction id, the sector writes of a VertexFS sync sent one by one to the
  block driver, reads of the pipe and of network ports; the replies that wake
  the waiting process, and the aborts when the service is gone.  Messages on
  the serial line are left out.
\<close>

section \<open>Constants\<close>

definition BLOCK_PROTOCOL_V1 :: u16 where "BLOCK_PROTOCOL_V1 = 1"
definition BLOCK_OP_WRITE_SECTOR :: u16 where "BLOCK_OP_WRITE_SECTOR = 2"
definition BLOCK_REQUEST_LEN :: nat where "BLOCK_REQUEST_LEN = 16"
definition BLOCK_WRITE_ACK_LEN :: nat where "BLOCK_WRITE_ACK_LEN = 16"
definition VFS_STATE_TRANSACTION_ID_BYTES :: nat where "VFS_STATE_TRANSACTION_ID_BYTES = 8"
definition VFS_STATE_REQUEST_HEADER_BYTES :: nat where "VFS_STATE_REQUEST_HEADER_BYTES = 8"
definition VFS_STATE_REQUEST_VERSION :: u8 where "VFS_STATE_REQUEST_VERSION = 1"
definition VFS_SERVICE_REQUEST_VERSION :: u8 where "VFS_SERVICE_REQUEST_VERSION = 2"
definition VFS_SERVICE_SOURCE_SERVICEFS :: u8 where "VFS_SERVICE_SOURCE_SERVICEFS = 7"
definition VFS_SERVICE_REQUEST_BYTES :: nat where "VFS_SERVICE_REQUEST_BYTES = 32"

fun vfs_state_operation_code :: "vfs_state_operation \<Rightarrow> u8" where
  "vfs_state_operation_code StateRead = 0x52"
| "vfs_state_operation_code StateStat = 0x53"
| "vfs_state_operation_code StateWrite = 0x57"
| "vfs_state_operation_code StateControl = 0x43"
| "vfs_state_operation_code StateServiceRead = 0x52"

section \<open>Requests to the state service\<close>

definition next_transaction :: "runtime_state \<Rightarrow> (runtime_state \<times> u64) option" where
  "next_transaction rt =
    (let i = rt_next_vfs_state_transaction_id rt
     in if i = 0 \<or> i = u64_max then None else Some (rt\<lparr>rt_next_vfs_state_transaction_id := i + 1\<rparr>, i))"

definition restore_current_vfs_state_waiter :: "object_id \<Rightarrow> kernel \<Rightarrow> kernel" where
  "restore_current_vfs_state_waiter reply_endpoint k =
    (case current_process (rt_processes (kn_rt k)) of
       Some p \<Rightarrow>
        (case proc_state p of
           BlockedOnVfsState waiting _ _ _ _ _ _ _ _ _ \<Rightarrow> if waiting = reply_endpoint then resume_current k else k
         | _ \<Rightarrow> k)
     | None \<Rightarrow> k)"

text \<open>The part both kinds of request share: block, queue the request, wake the service and switch.\<close>

definition run_transaction :: "object_id \<Rightarrow> object_id \<Rightarrow> process_state \<Rightarrow> u64 \<Rightarrow> u8 list \<Rightarrow> nat \<Rightarrow> kernel \<Rightarrow> (kernel, unit) call" where
  "run_transaction request_endpoint reply_endpoint st transaction_id request len k =
    (case on_current (suspend (kn_frame k) st) k of
       None \<Rightarrow> Some (k, Inl VfsPermission)
     | Some k \<Rightarrow>
        (case update_endpoint request_endpoint (\<lambda>e. ep_enqueue e process_id_empty request len) (kn_rt k) of
           None \<Rightarrow> Some (k, Inl BadCapability)
         | Some (rt, Inl e) \<Rightarrow> Some (restore_current_vfs_state_waiter reply_endpoint (k\<lparr>kn_rt := rt\<rparr>), Inl e)
         | Some (rt, Inr _) \<Rightarrow>
            (case schedule_next_ready (wake_blocked_receiver request_endpoint (k\<lparr>kn_rt := rt\<rparr>)) of
               None \<Rightarrow> None
             | Some (k, True) \<Rightarrow> Some (k, Inr ())
             | Some (k, False) \<Rightarrow>
                let k = restore_current_vfs_state_waiter reply_endpoint k
                in Some (case update_endpoint request_endpoint
                            (\<lambda>e. remove_vfs_state_request e process_id_empty transaction_id) (kn_rt k) of
                          None \<Rightarrow> k | Some (rt, _) \<Rightarrow> k\<lparr>kn_rt := rt\<rparr>, Inl Empty))))"

definition state_request :: "u64 \<Rightarrow> vfs_state_operation \<Rightarrow> u8 list \<Rightarrow> u8 list \<Rightarrow> u8 list" where
  "state_request transaction_id operation state_name payload =
    (let request = write_u64_le (replicate MAX_MESSAGE_BYTES 0) 0 transaction_id;
         request = splice request 8 (as_bytes ''VS'' @ [VFS_STATE_REQUEST_VERSION, vfs_state_operation_code operation]);
         request = write_u16_le request 12 (of_nat (length state_name));
         request = write_u16_le request 14 (of_nat (length payload));
         request = splice request 16 state_name
     in splice request (16 + length state_name) payload)"

definition start_vfs_state_transaction :: "object_id \<Rightarrow> vfs_node \<Rightarrow> open_file_description \<Rightarrow> vfs_state_operation \<Rightarrow> u64 \<Rightarrow> u64
    \<Rightarrow> nat \<Rightarrow> nat \<Rightarrow> bool \<Rightarrow> u8 list \<Rightarrow> nat \<Rightarrow> kernel \<Rightarrow> (kernel, unit) call" where
  "start_vfs_state_transaction state node description operation offset destination max_len write_len update_offset
      payload payload_len k =
    (let ids = rt_ids (kn_rt k)
     in case (get_state_volume (rt_objects (kn_rt k)) state, ri_state_vfs_request_endpoint ids, ri_state_vfs_reply_endpoint ids) of
          (None, _, _) \<Rightarrow> Some (k, Inl VfsBadHandle)
        | (Some _, None, _) \<Rightarrow> Some (k, Inl VfsUnsupported)
        | (Some _, Some _, None) \<Rightarrow> Some (k, Inl VfsUnsupported)
        | (Some volume, Some request_endpoint, Some reply_endpoint) \<Rightarrow>
           let state_name = as_bytes (sv_name volume);
               request_len = VFS_STATE_TRANSACTION_ID_BYTES + VFS_STATE_REQUEST_HEADER_BYTES + length state_name + payload_len
           in if 0xffff < length state_name \<or> 0xffff < payload_len \<or> MAX_MESSAGE_BYTES < request_len
              then Some (k, Inl VfsNoSpace)
              else case next_transaction (kn_rt k) of
                     None \<Rightarrow> Some (k, Inl VfsNoSpace)
                   | Some (rt, transaction_id) \<Rightarrow>
                      run_transaction request_endpoint reply_endpoint
                        (BlockedOnVfsState reply_endpoint (vn_id node) (ofd_id description) operation transaction_id offset
                           destination max_len write_len update_offset)
                        transaction_id (state_request transaction_id operation state_name (take payload_len payload)) request_len
                        (k\<lparr>kn_rt := rt\<rparr>))"

definition service_request :: "u64 \<Rightarrow> vfs_node_id \<Rightarrow> file_description_id \<Rightarrow> u8 list" where
  "service_request transaction_id node description =
    (let request = write_u64_le (replicate MAX_MESSAGE_BYTES 0) 0 transaction_id;
         request = splice request 8 (as_bytes ''FS'' @
           [VFS_SERVICE_REQUEST_VERSION, vfs_state_operation_code StateServiceRead, VFS_SERVICE_SOURCE_SERVICEFS]);
         request = write_u64_le request 16 node
     in write_u64_le request 24 description)"

definition start_vfs_service_read_transaction :: "vfs_node \<Rightarrow> open_file_description \<Rightarrow> u64 \<Rightarrow> u64 \<Rightarrow> nat \<Rightarrow> bool \<Rightarrow> kernel
    \<Rightarrow> (kernel, unit) call" where
  "start_vfs_service_read_transaction node description offset destination max_len update_offset k =
    (let ids = rt_ids (kn_rt k)
     in case (ri_state_vfs_request_endpoint ids, ri_state_vfs_reply_endpoint ids) of
          (Some request_endpoint, Some reply_endpoint) \<Rightarrow>
           (case next_transaction (kn_rt k) of
              None \<Rightarrow> Some (k, Inl VfsNoSpace)
            | Some (rt, transaction_id) \<Rightarrow>
               run_transaction request_endpoint reply_endpoint
                 (BlockedOnVfsState reply_endpoint (vn_id node) (ofd_id description) StateServiceRead transaction_id offset
                    destination max_len 0 update_offset)
                 transaction_id (service_request transaction_id (vn_id node) (ofd_id description)) VFS_SERVICE_REQUEST_BYTES
                 (k\<lparr>kn_rt := rt\<rparr>))
        | _ \<Rightarrow> Some (k, Inl VfsUnsupported))"

section \<open>Syncs sent to the block driver\<close>

definition blocked_vertexfs_sync_waiter_index :: "object_id \<Rightarrow> runtime_state \<Rightarrow> nat option" where
  "blocked_vertexfs_sync_waiter_index endpoint rt =
    first_index (\<lambda>p. case proc_state p of
        BlockedOnVertexFsSync _ reply_endpoint _ _ _ _ _ _ \<Rightarrow> reply_endpoint = endpoint \<and>
          (case get_endpoint (rt_objects rt) endpoint of Some e \<Rightarrow> ep_has_message_for e (proc_pid p) | None \<Rightarrow> False)
      | _ \<Rightarrow> False) (pt_processes (rt_processes rt))"

definition restore_current_vertexfs_sync_waiter :: "object_id \<Rightarrow> kernel \<Rightarrow> kernel" where
  "restore_current_vertexfs_sync_waiter reply_endpoint k =
    (case current_process (rt_processes (kn_rt k)) of
       Some p \<Rightarrow>
        (case proc_state p of
           BlockedOnVertexFsSync _ waiting _ _ _ _ _ _ \<Rightarrow> if waiting = reply_endpoint then resume_current k else k
         | _ \<Rightarrow> k)
     | None \<Rightarrow> k)"

definition write_request :: "u64 \<Rightarrow> u8 list" where
  "write_request absolute_sector =
    (let request = write_u16_le (replicate MAX_MESSAGE_BYTES 0) 0 BLOCK_PROTOCOL_V1;
         request = write_u16_le request 2 BLOCK_OP_WRITE_SECTOR;
         request = write_u16_le request 4 0
     in write_u64_le request 8 absolute_sector)"

text \<open>Both messages of a write are queued, or none of the kernel's messages stays.\<close>

definition enqueue_write :: "u64 \<Rightarrow> u8 list \<Rightarrow> ipc_endpoint \<Rightarrow> ipc_endpoint \<times> (ipc_error, unit) result" where
  "enqueue_write absolute_sector bytes e =
    (case ep_enqueue e process_id_empty (write_request absolute_sector) BLOCK_REQUEST_LEN of
       (e, Inl err) \<Rightarrow> (e, Inl err)
     | (e, Inr _) \<Rightarrow>
        (case ep_enqueue e process_id_empty bytes VERTEXFS_SECTOR_SIZE of
           (e, Inl err) \<Rightarrow> (fst (ep_remove_all_from_sender e process_id_empty), Inl err)
         | (e, Inr _) \<Rightarrow> (e, Inr ())))"

definition queue_vertexfs_device_write :: "object_id \<Rightarrow> nat \<Rightarrow> runtime_state \<Rightarrow> runtime_state \<times> (ipc_error, u64) result" where
  "queue_vertexfs_device_write request_endpoint write_index rt =
    (if rt_sync_write_count rt \<le> write_index then (rt, Inl VfsBadHandle)
     else let w = rt_sync_writes rt ! write_index
          in case vertexfs_device_absolute_sector (dw_sector w) of
               Inl e \<Rightarrow> (rt, Inl e)
             | Inr absolute_sector \<Rightarrow>
                (case update_endpoint request_endpoint (enqueue_write absolute_sector (dw_bytes w)) rt of
                   None \<Rightarrow> (rt, Inl BadCapability)
                 | Some (rt, Inl e) \<Rightarrow> (rt, Inl e)
                 | Some (rt, Inr _) \<Rightarrow> (rt, Inr absolute_sector)))"

definition start_vertexfs_sync_transaction :: "nat \<Rightarrow> u32 \<Rightarrow> u32 \<Rightarrow> nat \<Rightarrow> kernel \<Rightarrow> (kernel, unit) call" where
  "start_vertexfs_sync_transaction backing inode_id checksum write_count k =
    (let ids = rt_ids (kn_rt k)
     in if write_count = 0 \<or> VERTEXFS_SYNC_MAX_DEVICE_WRITES < write_count then Some (k, Inl VfsUnsupported)
        else case (ri_vertexfs_device_request_endpoint ids, ri_vertexfs_device_reply_endpoint ids) of
               (Some request_endpoint, Some reply_endpoint) \<Rightarrow>
                if blocked_vertexfs_sync_waiter_index reply_endpoint (kn_rt k) \<noteq> None then Some (k, Inl VfsBusy)
                else (case vertexfs_device_absolute_sector (dw_sector (rt_sync_writes (kn_rt k) ! 0)) of
                        Inl e \<Rightarrow> Some (k, Inl e)
                      | Inr first_sector \<Rightarrow>
                         (case on_current (suspend (kn_frame k) (BlockedOnVertexFsSync request_endpoint reply_endpoint backing
                                 inode_id checksum write_count 1 first_sector)) k of
                            None \<Rightarrow> Some (k, Inl VfsPermission)
                          | Some k \<Rightarrow>
                             (case queue_vertexfs_device_write request_endpoint 0 (kn_rt k) of
                                (rt, Inl e) \<Rightarrow>
                                  Some (restore_current_vertexfs_sync_waiter reply_endpoint (k\<lparr>kn_rt := rt\<rparr>), Inl e)
                              | (rt, Inr _) \<Rightarrow>
                                 (case schedule_next_ready (wake_blocked_receiver request_endpoint (k\<lparr>kn_rt := rt\<rparr>)) of
                                    None \<Rightarrow> None
                                  | Some (k, True) \<Rightarrow> Some (k, Inr ())
                                  | Some (k, False) \<Rightarrow>
                                     let k = restore_current_vertexfs_sync_waiter reply_endpoint k
                                     in Some (case update_endpoint request_endpoint
                                                 (\<lambda>e. ep_remove_all_from_sender e process_id_empty) (kn_rt k) of
                                               None \<Rightarrow> k | Some (rt, _) \<Rightarrow> k\<lparr>kn_rt := rt\<rparr>, Inl Empty)))))
             | _ \<Rightarrow> Some (k, Inl VfsUnsupported))"

definition vertexfs_device_ack_ok :: "ipc_message \<Rightarrow> u64 \<Rightarrow> bool" where
  "vertexfs_device_ack_ok message expected_sector \<longleftrightarrow>
    msg_len message = BLOCK_WRITE_ACK_LEN \<and> read_u16_le (msg_bytes message) 0 = BLOCK_PROTOCOL_V1 \<and>
    read_u16_le (msg_bytes message) 2 = BLOCK_OP_WRITE_SECTOR \<and> read_u16_le (msg_bytes message) 4 = 0 \<and>
    read_u64_le (msg_bytes message) 8 = expected_sector"

definition on_vfs :: "(vfs_tables \<Rightarrow> vfs_tables) \<Rightarrow> runtime_state \<Rightarrow> runtime_state" where
  "on_vfs f rt = rt\<lparr>rt_vfs := f (rt_vfs rt)\<rparr>"

text \<open>A waiter whose sync failed: its pages are dirty again and it gets the status.\<close>

definition fail_sync :: "nat \<Rightarrow> nat \<Rightarrow> u64 \<Rightarrow> runtime_state \<Rightarrow> runtime_state" where
  "fail_sync waiter backing status rt =
    update_process_at waiter (make_ready status) (on_vfs (record_vertexfs_page_cache_writeback_error backing) rt)"

definition advance_sync :: "nat \<Rightarrow> u64 \<Rightarrow> process \<Rightarrow> process" where
  "advance_sync next_write next_sector p =
    (case proc_state p of
       BlockedOnVertexFsSync request reply backing inode_id checksum write_count _ _ \<Rightarrow>
         p\<lparr>proc_state := BlockedOnVertexFsSync request reply backing inode_id checksum write_count next_write next_sector\<rparr>
     | _ \<Rightarrow> p)"

definition wake_blocked_vertexfs_sync_reply :: "object_id \<Rightarrow> kernel \<Rightarrow> kernel" where
  "wake_blocked_vertexfs_sync_reply endpoint k =
    (case blocked_vertexfs_sync_waiter_index endpoint (kn_rt k) of
       None \<Rightarrow> k
     | Some i \<Rightarrow>
        (case proc_state (kn_processes k ! i) of
           BlockedOnVertexFsSync request_endpoint _ backing _ checksum write_count next_write expected_sector \<Rightarrow>
            (case update_endpoint endpoint (\<lambda>e. ep_dequeue_for e (proc_pid (kn_processes k ! i))) (kn_rt k) of
               None \<Rightarrow> k
             | Some (rt, None) \<Rightarrow> k\<lparr>kn_rt := rt\<rparr>
             | Some (rt, Some message) \<Rightarrow>
                if \<not> vertexfs_device_ack_ok message expected_sector
                then k\<lparr>kn_rt := fail_sync i backing STATUS_VFS_UNSUPPORTED rt\<rparr>
                else if next_write < write_count
                then (case queue_vertexfs_device_write request_endpoint next_write rt of
                        (rt, Inl _) \<Rightarrow> k\<lparr>kn_rt := fail_sync i backing STATUS_VFS_UNSUPPORTED rt\<rparr>
                      | (rt, Inr next_sector) \<Rightarrow>
                         wake_blocked_receiver request_endpoint
                           (k\<lparr>kn_rt := update_process_at i (advance_sync (next_write + 1) next_sector) rt\<rparr>))
                else (case finish_vertexfs_sync_file backing checksum (rt_vfs rt) of
                        (v, r) \<Rightarrow>
                          k\<lparr>kn_rt := update_process_at i (make_ready (if isl r then STATUS_VFS_BAD_HANDLE else STATUS_OK))
                              (rt\<lparr>rt_vfs := v\<rparr>)\<rparr>))
         | _ \<Rightarrow> k))"

section \<open>Aborts\<close>

definition drop_kernel_requests :: "object_id option \<Rightarrow> runtime_state \<Rightarrow> runtime_state" where
  "drop_kernel_requests endpoint rt =
    (case endpoint of
       None \<Rightarrow> rt
     | Some i \<Rightarrow>
        (case update_endpoint i (\<lambda>e. ep_remove_all_from_sender e process_id_empty) rt of None \<Rightarrow> rt | Some (rt, _) \<Rightarrow> rt))"

definition abort_vfs_state_transactions :: "u64 \<Rightarrow> runtime_state \<Rightarrow> runtime_state" where
  "abort_vfs_state_transactions status rt =
    (let reply = ri_state_vfs_reply_endpoint (rt_ids rt);
         rt = drop_kernel_requests (ri_state_vfs_request_endpoint (rt_ids rt)) rt
     in case reply of
          None \<Rightarrow> rt
        | Some reply_endpoint \<Rightarrow>
           rt\<lparr>rt_processes := (rt_processes rt)\<lparr>pt_processes := map (\<lambda>p. case proc_state p of
               BlockedOnVfsState waiting _ _ _ _ _ _ _ _ _ \<Rightarrow> if waiting = reply_endpoint then make_ready status p else p
             | _ \<Rightarrow> p) (pt_processes (rt_processes rt))\<rparr>\<rparr>)"

definition abort_sync_at :: "u64 \<Rightarrow> object_id \<Rightarrow> nat \<Rightarrow> runtime_state \<Rightarrow> runtime_state" where
  "abort_sync_at status reply_endpoint i rt =
    (case proc_state (pt_processes (rt_processes rt) ! i) of
       BlockedOnVertexFsSync _ waiting backing _ _ _ _ _ \<Rightarrow> if waiting = reply_endpoint then fail_sync i backing status rt else rt
     | _ \<Rightarrow> rt)"

definition abort_vertexfs_sync_transactions :: "u64 \<Rightarrow> runtime_state \<Rightarrow> runtime_state" where
  "abort_vertexfs_sync_transactions status rt =
    (let reply = ri_vertexfs_device_reply_endpoint (rt_ids rt);
         rt = drop_kernel_requests (ri_vertexfs_device_request_endpoint (rt_ids rt)) rt
     in case reply of
          None \<Rightarrow> rt
        | Some reply_endpoint \<Rightarrow>
           fold (abort_sync_at status reply_endpoint) [0 ..< length (pt_processes (rt_processes rt))] rt)"

section \<open>Pipe and network port\<close>

definition block_current_on_vfs_read :: "vfs_node_id \<Rightarrow> file_description_id \<Rightarrow> u64 \<Rightarrow> nat \<Rightarrow> kernel \<Rightarrow> (kernel \<times> bool) option" where
  "block_current_on_vfs_read node description destination max_len k =
    block_current (kn_frame k) (BlockedOnVfsRead node description destination max_len) k"

definition block_current_on_network_port :: "object_id \<Rightarrow> u64 \<Rightarrow> nat \<Rightarrow> kernel \<Rightarrow> (kernel \<times> bool) option" where
  "block_current_on_network_port port destination max_len k =
    block_current (kn_frame k) (BlockedOnNetworkPort port destination max_len) k"

text \<open>The copy to a waiting process and the status it gets.\<close>

definition wake_with_bytes :: "nat \<Rightarrow> u64 \<Rightarrow> u8 list \<Rightarrow> nat \<Rightarrow> kernel \<Rightarrow> kernel" where
  "wake_with_bytes i destination bytes max_len k =
    (case copy_to_process (ctx_cr3 (proc_context (kn_processes k ! i))) destination (take max_len bytes) k of
       (k, ok) \<Rightarrow>
         on_rt (update_process_at i (make_ready (if ok then of_nat (min (length bytes) max_len) else STATUS_BAD_BUFFER))) k)"

definition blocked_network_receiver_index :: "object_id \<Rightarrow> runtime_state \<Rightarrow> nat option" where
  "blocked_network_receiver_index port rt =
    first_index (\<lambda>p. case proc_state p of
        BlockedOnNetworkPort waiting _ _ \<Rightarrow> waiting = port \<and>
          (case get_network_port (rt_objects rt) port of Some ob \<Rightarrow> has_pending_udp ob | None \<Rightarrow> False)
      | _ \<Rightarrow> False) (pt_processes (rt_processes rt))"

definition network_port_at :: "object_table \<Rightarrow> nat \<Rightarrow> network_port_object" where
  "network_port_at t j = (case ot_objects t ! j of Some (NetworkPort ob) \<Rightarrow> ob | _ \<Rightarrow> undefined)"

definition wake_blocked_network_receiver :: "object_id \<Rightarrow> kernel \<Rightarrow> kernel" where
  "wake_blocked_network_receiver port k =
    (case blocked_network_receiver_index port (kn_rt k) of
       None \<Rightarrow> k
     | Some i \<Rightarrow>
        (case proc_state (kn_processes k ! i) of
           BlockedOnNetworkPort _ destination max_len \<Rightarrow>
            (case get_network_port_mut (rt_objects (kn_rt k)) port of
               None \<Rightarrow> k
             | Some j \<Rightarrow>
                (case dequeue_udp (network_port_at (rt_objects (kn_rt k)) j) of
                   (_, None) \<Rightarrow> k
                 | (ob, Some message) \<Rightarrow>
                    wake_with_bytes i destination (take (msg_len message) (msg_bytes message)) max_len
                      (on_rt (\<lambda>rt. rt\<lparr>rt_objects := set_slot (rt_objects rt) j (NetworkPort ob)\<rparr>) k)))
         | _ \<Rightarrow> k))"

definition blocked_vfs_pipe_reader_index :: "runtime_state \<Rightarrow> nat option" where
  "blocked_vfs_pipe_reader_index rt =
    first_index (\<lambda>p. case proc_state p of
        BlockedOnVfsRead node _ _ _ \<Rightarrow> (case vfs_node_of (rt_vfs rt) node of Some n \<Rightarrow> vn_backing n = BackedPipe | None \<Rightarrow> False)
      | _ \<Rightarrow> False) (pt_processes (rt_processes rt))"

definition wake_blocked_vfs_pipe_read :: "u8 list \<Rightarrow> kernel \<Rightarrow> kernel \<times> bool" where
  "wake_blocked_vfs_pipe_read bytes k =
    (if bytes = [] then (k, False)
     else case blocked_vfs_pipe_reader_index (kn_rt k) of
            None \<Rightarrow> (k, False)
          | Some i \<Rightarrow>
             (case proc_state (kn_processes k ! i) of
                BlockedOnVfsRead _ _ destination max_len \<Rightarrow> (wake_with_bytes i destination bytes max_len k, True)
              | _ \<Rightarrow> (k, False)))"

section \<open>Replies of the state service\<close>

definition blocked_vfs_state_waiter_index :: "object_id \<Rightarrow> runtime_state \<Rightarrow> nat option" where
  "blocked_vfs_state_waiter_index endpoint rt =
    first_index (\<lambda>p. case proc_state p of
        BlockedOnVfsState reply_endpoint _ _ _ transaction_id _ _ _ _ _ \<Rightarrow> reply_endpoint = endpoint \<and>
          (case get_endpoint (rt_objects rt) endpoint of
             Some e \<Rightarrow> has_vfs_state_reply_for e (proc_pid p) transaction_id | None \<Rightarrow> False)
      | _ \<Rightarrow> False) (pt_processes (rt_processes rt))"

definition set_description_offset :: "file_description_id \<Rightarrow> u64 \<Rightarrow> runtime_state \<Rightarrow> runtime_state option" where
  "set_description_offset description offset rt =
    (case file_description_mut (rt_vfs rt) description of
       None \<Rightarrow> None
     | Some j \<Rightarrow>
        Some (on_vfs (\<lambda>v. v\<lparr>vt_descriptions := (vt_descriptions v)[j := map_option (\<lambda>d. d\<lparr>ofd_offset := offset\<rparr>) (vt_descriptions v ! j)]\<rparr>) rt))"

definition advance_offset :: "bool \<Rightarrow> file_description_id \<Rightarrow> u64 \<Rightarrow> nat \<Rightarrow> kernel \<Rightarrow> kernel \<times> u64" where
  "advance_offset update_offset description offset len k =
    (if \<not> update_offset then (k, of_nat len)
     else case checked_add offset (of_nat len) of
            None \<Rightarrow> (k, STATUS_VFS_UNSUPPORTED)
          | Some new_offset \<Rightarrow>
             (case set_description_offset description new_offset (kn_rt k) of
                None \<Rightarrow> (k, STATUS_VFS_BAD_HANDLE)
              | Some rt \<Rightarrow> (k\<lparr>kn_rt := rt\<rparr>, of_nat len)))"

definition wake_blocked_vfs_state_read :: "u64 \<Rightarrow> u64 \<Rightarrow> nat \<Rightarrow> u64 \<Rightarrow> file_description_id \<Rightarrow> bool \<Rightarrow> ipc_message \<Rightarrow> kernel
    \<Rightarrow> kernel \<times> u64" where
  "wake_blocked_vfs_state_read receiver_cr3 destination max_len offset description update_offset message k =
    (let payload_len = msg_len message - VFS_STATE_TRANSACTION_ID_BYTES;
         start = min (unat offset) payload_len;
         copy_len = min (payload_len - start) max_len
     in if msg_len message < VFS_STATE_TRANSACTION_ID_BYTES then (k, STATUS_VFS_UNSUPPORTED)
        else case copy_to_process receiver_cr3 destination
                    (span (msg_bytes message) (VFS_STATE_TRANSACTION_ID_BYTES + start) copy_len) k of
               (k, False) \<Rightarrow> (k, STATUS_BAD_BUFFER)
             | (k, True) \<Rightarrow> advance_offset update_offset description offset copy_len k)"

definition wake_blocked_vfs_state_stat :: "u64 \<Rightarrow> u64 \<Rightarrow> nat \<Rightarrow> file_description_id \<Rightarrow> vfs_node_id \<Rightarrow> ipc_message \<Rightarrow> kernel
    \<Rightarrow> kernel \<times> u64" where
  "wake_blocked_vfs_state_stat receiver_cr3 destination max_len description node_id message k =
    (if max_len < VFS_STAT_BYTES \<or> msg_len message \<noteq> VFS_STATE_TRANSACTION_ID_BYTES + 8 then (k, STATUS_VFS_UNSUPPORTED)
     else let v = rt_vfs (kn_rt k)
          in case (vfs_node_of v node_id, file_description v description) of
               (Some node, Some d) \<Rightarrow>
                (case copy_to_process receiver_cr3 destination
                        (write_vfs_stat_record v (replicate VFS_STAT_BYTES 0) node
                           (read_u64_le (msg_bytes message) VFS_STATE_TRANSACTION_ID_BYTES) (ofd_rights d)) k of
                   (k, False) \<Rightarrow> (k, STATUS_BAD_BUFFER)
                 | (k, True) \<Rightarrow> (k, of_nat VFS_STAT_BYTES))
             | _ \<Rightarrow> (k, STATUS_VFS_BAD_HANDLE))"

definition wake_blocked_vfs_state_write :: "u64 \<Rightarrow> file_description_id \<Rightarrow> bool \<Rightarrow> nat \<Rightarrow> ipc_message \<Rightarrow> kernel \<Rightarrow> kernel \<times> u64" where
  "wake_blocked_vfs_state_write offset description update_offset write_len message k =
    (if msg_len message \<noteq> VFS_STATE_TRANSACTION_ID_BYTES + 2 \<or>
        span (msg_bytes message) VFS_STATE_TRANSACTION_ID_BYTES 2 \<noteq> as_bytes ''OK''
     then (k, STATUS_VFS_UNSUPPORTED)
     else advance_offset update_offset description offset write_len k)"

definition state_reply_result :: "process \<Rightarrow> ipc_message \<Rightarrow> kernel \<Rightarrow> kernel \<times> u64" where
  "state_reply_result p message k =
    (let cr3 = ctx_cr3 (proc_context p)
     in case proc_state p of
          BlockedOnVfsState _ node description operation _ offset destination max_len write_len update_offset \<Rightarrow>
           (case operation of
              StateStat \<Rightarrow> wake_blocked_vfs_state_stat cr3 destination max_len description node message k
            | StateWrite \<Rightarrow> wake_blocked_vfs_state_write offset description update_offset write_len message k
            | StateControl \<Rightarrow> wake_blocked_vfs_state_write offset description update_offset write_len message k
            | _ \<Rightarrow> wake_blocked_vfs_state_read cr3 destination max_len offset description update_offset message k)
        | _ \<Rightarrow> (k, STATUS_VFS_UNSUPPORTED))"

definition wake_blocked_vfs_state_reply :: "object_id \<Rightarrow> kernel \<Rightarrow> kernel" where
  "wake_blocked_vfs_state_reply endpoint k =
    (case blocked_vfs_state_waiter_index endpoint (kn_rt k) of
       None \<Rightarrow> k
     | Some i \<Rightarrow>
        let p = kn_processes k ! i
        in case update_endpoint endpoint (\<lambda>e. dequeue_vfs_state_reply_for e (proc_pid p) (bs_transaction_id (proc_state p))) (kn_rt k) of
             None \<Rightarrow> k
           | Some (rt, None) \<Rightarrow> k\<lparr>kn_rt := rt\<rparr>
           | Some (rt, Some message) \<Rightarrow>
              (case state_reply_result p message (k\<lparr>kn_rt := rt\<rparr>) of
                 (k, result) \<Rightarrow> on_rt (update_process_at i (make_ready result)) k))"

end
