(* ===== verification/Core_Syscalls.thy ===== *)
theory Core_Syscalls
  imports Vfs_Transactions
begin

text \<open>
  The message and object system calls (\<^verbatim>\<open>ipc/core_syscalls.rs\<close>):
  send and receive with the wake of blocked receivers, boot modules and
  secrets, creation of endpoints under a quota, namespace lookups, and the
  messages of network ports.
  Messages on the serial line are left out, and with them the printing part
  of \<^verbatim>\<open>log_write\<close>; \<^verbatim>\<open>runtime_inspect\<close> formats a text report and is not
  modelled.
\<close>

section \<open>Messages\<close>

definition current_pid :: "runtime_state \<Rightarrow> process_id" where
  "current_pid rt = (case current_process (rt_processes rt) of Some p \<Rightarrow> proc_pid p | None \<Rightarrow> process_id_empty)"

definition send :: "u64 \<Rightarrow> u64 \<Rightarrow> nat \<Rightarrow> kernel \<Rightarrow> kernel \<times> (ipc_error, unit) result" where
  "send cap_slot source len k =
    (if MAX_MESSAGE_BYTES < len then (k, Inl MessageTooLarge)
     else case endpoint_from_cap (kn_rt k) cap_slot RIGHT_SEND of
            Inl e \<Rightarrow> (k, Inl e)
          | Inr endpoint_id \<Rightarrow>
             (case copy_from_user (kn_mc k) (replicate MAX_MESSAGE_BYTES 0) source len of
                Inl _ \<Rightarrow> (k, Inl InvalidUserBuffer)
              | Inr message \<Rightarrow>
                 (case update_endpoint endpoint_id (\<lambda>e. ep_enqueue e (current_pid (kn_rt k)) message len) (kn_rt k) of
                    None \<Rightarrow> (k, Inl BadCapability)
                  | Some (rt, Inl e) \<Rightarrow> (k\<lparr>kn_rt := rt\<rparr>, Inl e)
                  | Some (rt, Inr _) \<Rightarrow>
                     (wake_blocked_vertexfs_sync_reply endpoint_id (wake_blocked_vfs_state_reply endpoint_id
                        (wake_blocked_receiver endpoint_id (k\<lparr>kn_rt := rt\<rparr>))), Inr ()))))"

definition receive_with_timeout :: "u64 \<Rightarrow> u64 \<Rightarrow> nat \<Rightarrow> u64 option \<Rightarrow> kernel \<Rightarrow> (kernel, unit) call" where
  "receive_with_timeout cap_slot destination max_len timeout_tsc k =
    (case endpoint_cap_from_slot (kn_rt k) cap_slot RIGHT_RECEIVE of
       Inl e \<Rightarrow> Some (k, Inl e)
     | Inr endpoint_cap \<Rightarrow>
        if isl (validate_user_buffer (kn_mc k) destination max_len WriteAccess) then Some (k, Inl InvalidUserBuffer)
        else case update_endpoint (cap_object endpoint_cap) (\<lambda>e. ep_dequeue_for e (current_pid (kn_rt k))) (kn_rt k) of
               None \<Rightarrow> Some (k, Inl BadCapability)
             | Some (rt, None) \<Rightarrow>
                (case block_current_on_endpoint (cap_object endpoint_cap) (cap_id endpoint_cap) destination max_len timeout_tsc
                        (k\<lparr>kn_rt := rt\<rparr>) of
                   None \<Rightarrow> None
                 | Some (k, switched) \<Rightarrow> Some (k, if switched then Inr () else Inl Empty))
             | Some (rt, Some message) \<Rightarrow>
                (case copy_to_user (kn_mc k) destination (message_prefix message max_len) of
                   (m, Inl _) \<Rightarrow> Some (k\<lparr>kn_rt := rt, kn_mc := m\<rparr>, Inl InvalidUserBuffer)
                 | (m, Inr _) \<Rightarrow>
                    Some (k\<lparr>kn_rt := record_ready_lifecycle (cap_object endpoint_cap) (current_pid rt) message rt, kn_mc := m,
                            kn_frame := (kn_frame k)\<lparr>fr_rax := of_nat (min (msg_len message) max_len)\<rparr>\<rparr>, Inr ())))"

definition receive :: "u64 \<Rightarrow> u64 \<Rightarrow> nat \<Rightarrow> kernel \<Rightarrow> (kernel, unit) call" where
  "receive cap_slot destination max_len k = receive_with_timeout cap_slot destination max_len None k"

definition receive_timeout :: "u64 \<Rightarrow> u64 \<Rightarrow> nat \<Rightarrow> u64 \<Rightarrow> kernel \<Rightarrow> (kernel, unit) call" where
  "receive_timeout cap_slot destination max_len timeout_ms k =
    (let (k, deadline) = deadline_after_ms timeout_ms k in receive_with_timeout cap_slot destination max_len (Some deadline) k)"

definition log_write :: "u64 \<Rightarrow> u64 \<Rightarrow> nat \<Rightarrow> kernel \<Rightarrow> kernel \<times> (ipc_error, unit) result" where
  "log_write cap_slot source len k =
    (if MAX_MESSAGE_BYTES < len then (k, Inl MessageTooLarge)
     else case serial_log_endpoint_from_cap (kn_rt k) cap_slot RIGHT_SEND of
            Inl e \<Rightarrow> (k, Inl e)
          | Inr _ \<Rightarrow>
             (case copy_from_user (kn_mc k) (replicate MAX_MESSAGE_BYTES 0) source len of
                Inl _ \<Rightarrow> (k, Inl InvalidUserBuffer)
              | Inr message \<Rightarrow> (fst (wake_blocked_vfs_pipe_read (take len message) k), Inr ())))"

section \<open>Reading objects\<close>

definition MAX_BOOT_READ_BYTES :: nat where "MAX_BOOT_READ_BYTES = 128 * 1024"

definition copy_result :: "kernel \<Rightarrow> u64 \<Rightarrow> u8 list \<Rightarrow> kernel \<times> (ipc_error, nat) result" where
  "copy_result k destination bytes =
    (case copy_to_user (kn_mc k) destination bytes of
       (m, Inl _) \<Rightarrow> (k\<lparr>kn_mc := m\<rparr>, Inl InvalidUserBuffer)
     | (m, Inr _) \<Rightarrow> (k\<lparr>kn_mc := m\<rparr>, Inr (length bytes)))"

definition read_boot_module :: "u64 \<Rightarrow> u64 \<Rightarrow> nat \<Rightarrow> kernel \<Rightarrow> kernel \<times> (ipc_error, nat) result" where
  "read_boot_module cap_slot destination max_len k =
    (if MAX_BOOT_READ_BYTES < max_len then (k, Inl MessageTooLarge)
     else case boot_module_from_cap (kn_rt k) cap_slot RIGHT_READ of
            Inl e \<Rightarrow> (k, Inl e)
          | Inr module \<Rightarrow>
             let len = unat (bm_length module)
             in if max_len < len then (k, Inl MessageTooLarge)
                else copy_result k destination (load_bytes (kn_mc k) (bm_base module) len))"

definition secret_read :: "u64 \<Rightarrow> u64 \<Rightarrow> nat \<Rightarrow> kernel \<Rightarrow> kernel \<times> (ipc_error, nat) result" where
  "secret_read cap_slot destination max_len k =
    (case secret_from_cap (kn_rt k) cap_slot RIGHT_READ of
       Inl e \<Rightarrow> (k, Inl e)
     | Inr secret \<Rightarrow> copy_result k destination (take (min (length (sec_value secret)) max_len) (sec_value secret)))"

section \<open>Endpoints, quotas and namespaces\<close>

definition endpoint_create :: "u64 \<Rightarrow> u64 \<Rightarrow> runtime_state \<Rightarrow> runtime_state \<times> (ipc_error, unit) result" where
  "endpoint_create control_slot cap_slot rt =
    (case process_control_from_cap rt control_slot RIGHT_ALLOCATE of
       Inl e \<Rightarrow> (rt, Inl e)
     | Inr _ \<Rightarrow>
        (case current_process (rt_processes rt) of
           None \<Rightarrow> (rt, Inl BadCapability)
         | Some process \<Rightarrow>
            let own = proc_pid process; quota = proc_quota process
            in if q_max_endpoints quota \<le> q_used_endpoints quota \<or> \<not> cspace_can_grant (proc_caps process) cap_slot \<or>
                  \<not> can_allocate_capability rt
               then (rt, Inl BadCapability)
               else case add_endpoint_owned (rt_objects rt) ''dynamic-endpoint'' own of
                      (ot, Inl _) \<Rightarrow> (rt\<lparr>rt_objects := ot\<rparr>, Inl BadCapability)
                    | (ot, Inr endpoint_id) \<Rightarrow>
                       let undo = (\<lambda>rt. rt\<lparr>rt_objects := fst (remove_owned_endpoint (rt_objects rt) endpoint_id own)\<rparr>)
                       in case new_capability (rt\<lparr>rt_objects := ot\<rparr>) endpoint_id (RIGHT_SEND OR RIGHT_RECEIVE) own 0 own of
                            (rt, Inl e) \<Rightarrow> (undo rt, Inl e)
                          | (rt, Inr cap) \<Rightarrow>
                             (case grant_current rt cap_slot cap of
                                (rt, Inl _) \<Rightarrow> (undo (rollback_last_capability rt cap), Inl BadCapability)
                              | (rt, Inr _) \<Rightarrow>
                                 (case current_process_mut (rt_processes rt) of
                                    None \<Rightarrow> (rt, Inr ())
                                  | Some i \<Rightarrow>
                                     (update_process_at i (\<lambda>p. p\<lparr>proc_quota := (proc_quota p)\<lparr>q_used_endpoints :=
                                        saturating_add (q_used_endpoints (proc_quota p)) 1\<rparr>\<rparr>) rt, Inr ())))))"

definition delegate_quota :: "u64 \<Rightarrow> process \<Rightarrow> process" where
  "delegate_quota max_endpoints p =
    (let q = (proc_quota p)\<lparr>q_max_endpoints := max_endpoints\<rparr>
     in if proc_state p = Declared
        then p\<lparr>proc_quota := q\<lparr>q_used_endpoints := 0\<rparr>,
               proc_initial_quota := (proc_initial_quota p)\<lparr>q_max_endpoints := max_endpoints, q_used_endpoints := 0\<rparr>\<rparr>
        else p\<lparr>proc_quota := q\<rparr>)"

definition quota_delegate :: "u64 \<Rightarrow> u64 \<Rightarrow> u64 \<Rightarrow> runtime_state \<Rightarrow> runtime_state \<times> (ipc_error, unit) result" where
  "quota_delegate control_slot target_pid max_endpoints rt =
    (case process_control_from_cap rt control_slot RIGHT_DELEGATE of
       Inl e \<Rightarrow> (rt, Inl e)
     | Inr _ \<Rightarrow>
        (case current_process (rt_processes rt) of
           None \<Rightarrow> (rt, Inl BadCapability)
         | Some caller \<Rightarrow>
            if q_max_endpoints (proc_quota caller) < max_endpoints then (rt, Inl BadCapability)
            else case process_mut (rt_processes rt) target_pid of
                   None \<Rightarrow> (rt, Inl BadCapability)
                 | Some i \<Rightarrow> (update_process_at i (delegate_quota max_endpoints) rt, Inr ())))"

definition namespace_resolve :: "u64 \<Rightarrow> u64 \<Rightarrow> nat \<Rightarrow> u64 \<Rightarrow> kernel \<Rightarrow> kernel \<times> (ipc_error, unit) result" where
  "namespace_resolve cap_slot path len target_slot k =
    (if 128 < len then (k, Inl MessageTooLarge)
     else case namespace_from_cap (kn_rt k) cap_slot RIGHT_RESOLVE of
            Inl e \<Rightarrow> (k, Inl e)
          | Inr namespace \<Rightarrow>
             (case copy_from_user (kn_mc k) (replicate 128 0) path len of
                Inl _ \<Rightarrow> (k, Inl InvalidUserBuffer)
              | Inr name \<Rightarrow>
                 (case namespace_resolve_entry namespace (take len name) of
                    None \<Rightarrow> (k, Inl BadCapability)
                  | Some entry \<Rightarrow>
                     (case lookup_capability (kn_rt k) cap_slot RIGHT_RESOLVE of
                        Inl e \<Rightarrow> (k, Inl e)
                      | Inr namespace_cap \<Rightarrow>
                         (case current_process (rt_processes (kn_rt k)) of
                            None \<Rightarrow> (k, Inl BadCapability)
                          | Some process \<Rightarrow>
                             if \<not> cspace_can_grant (proc_caps process) target_slot then (k, Inl BadCapability)
                             else case new_capability (kn_rt k) (ne_object entry) (ne_rights entry) (proc_pid process)
                                         (cap_id namespace_cap) (proc_pid process) of
                                    (rt, Inl e) \<Rightarrow> (k\<lparr>kn_rt := rt\<rparr>, Inl e)
                                  | (rt, Inr cap) \<Rightarrow>
                                     (case grant_current rt target_slot cap of (rt, r) \<Rightarrow> (k\<lparr>kn_rt := rt\<rparr>, r)))))))"

section \<open>Network ports\<close>

text \<open>Sends and receives on a network port (\<^verbatim>\<open>ipc/device_syscalls.rs\<close>).\<close>

definition set_network_port :: "nat \<Rightarrow> network_port_object \<Rightarrow> runtime_state \<Rightarrow> runtime_state" where
  "set_network_port j ob rt = rt\<lparr>rt_objects := set_slot (rt_objects rt) j (NetworkPort ob)\<rparr>"

definition network_send_udp :: "u64 \<Rightarrow> u64 \<Rightarrow> nat \<Rightarrow> kernel \<Rightarrow> kernel \<times> (ipc_error, unit) result" where
  "network_send_udp cap_slot source len k =
    (if MAX_MESSAGE_BYTES < len then (k, Inl MessageTooLarge)
     else case network_port_from_cap (kn_rt k) cap_slot (RIGHT_BIND OR RIGHT_LISTEN) of
            Inl e \<Rightarrow> (k, Inl e)
          | Inr port \<Rightarrow>
             (case copy_from_user (kn_mc k) (replicate MAX_MESSAGE_BYTES 0) source len of
                Inl _ \<Rightarrow> (k, Inl InvalidUserBuffer)
              | Inr payload \<Rightarrow>
                 (case (current_process (rt_processes (kn_rt k)), get_network_port_mut (rt_objects (kn_rt k)) (np_id port)) of
                    (Some p, Some j) \<Rightarrow>
                     (case enqueue_udp (network_port_at (rt_objects (kn_rt k)) j) (proc_pid p) payload len of
                        (ob, Inl e) \<Rightarrow> (on_rt (set_network_port j ob) k, Inl e)
                      | (ob, Inr _) \<Rightarrow> (wake_blocked_network_receiver (np_id port) (on_rt (set_network_port j ob) k), Inr ()))
                  | _ \<Rightarrow> (k, Inl BadCapability))))"

definition network_recv_udp :: "u64 \<Rightarrow> u64 \<Rightarrow> nat \<Rightarrow> kernel \<Rightarrow> (kernel, unit) call" where
  "network_recv_udp cap_slot destination max_len k =
    (case network_port_from_cap (kn_rt k) cap_slot RIGHT_CONTROL of
       Inl e \<Rightarrow> Some (k, Inl e)
     | Inr port \<Rightarrow>
        if isl (validate_user_buffer (kn_mc k) destination max_len WriteAccess) then Some (k, Inl InvalidUserBuffer)
        else case get_network_port_mut (rt_objects (kn_rt k)) (np_id port) of
               None \<Rightarrow> Some (k, Inl BadCapability)
             | Some j \<Rightarrow>
                (case dequeue_udp (network_port_at (rt_objects (kn_rt k)) j) of
                   (ob, None) \<Rightarrow>
                     (case block_current_on_network_port (np_id port) destination max_len (on_rt (set_network_port j ob) k) of
                        None \<Rightarrow> None
                      | Some (k, switched) \<Rightarrow> Some (k, if switched then Inr () else Inl Empty))
                 | (ob, Some message) \<Rightarrow>
                     (case copy_to_user (kn_mc k) destination (message_prefix message max_len) of
                        (m, Inl _) \<Rightarrow> Some ((on_rt (set_network_port j ob) k)\<lparr>kn_mc := m\<rparr>, Inl InvalidUserBuffer)
                      | (m, Inr _) \<Rightarrow>
                         Some ((on_rt (set_network_port j ob) k)\<lparr>kn_mc := m,
                                 kn_frame := (kn_frame k)\<lparr>fr_rax := of_nat (min (msg_len message) max_len)\<rparr>\<rparr>, Inr ()))))"

end
