(* ===== verification/Scheduler_Safety.thy ===== *)
theory Scheduler_Safety
  imports Core_Syscalls
begin

text \<open>
  What every call of the scheduler keeps: one process runs, it is the current
  one, and its page tables are the active ones.  The calls that only wake
  processes keep the view of the process table defined here.
\<close>

section \<open>The view of the process table\<close>

text \<open>A process that neither runs nor has ended.\<close>

definition parked :: "process_state \<Rightarrow> bool" where
  "parked s \<longleftrightarrow> s \<noteq> Running \<and> s \<noteq> Exited"

definition proc_view :: "process \<Rightarrow> process_id \<times> process_context \<times> bool \<times> bool" where
  "proc_view p = (proc_pid p, proc_context p, proc_state p = Running, proc_state p = Exited)"

definition table_view :: "process_table \<Rightarrow> process_id option \<times> u64 \<times> (process_id \<times> process_context \<times> bool \<times> bool) list" where
  "table_view t = (pt_current t, pt_next_id t, map proc_view (pt_processes t))"

definition rt_view :: "runtime_state \<Rightarrow> process_id option \<times> u64 \<times> (process_id \<times> process_context \<times> bool \<times> bool) list" where
  "rt_view rt = table_view (rt_processes rt)"

text \<open>The active page tables are those of the current process.\<close>

definition current_at :: "nat \<Rightarrow> kernel \<Rightarrow> bool" where
  "current_at i k \<longleftrightarrow> i < length (kn_processes k) \<and> pt_current (rt_processes (kn_rt k)) = Some (proc_pid (kn_processes k ! i)) \<and>
    mc_cr3 (kn_mc k) = ctx_cr3 (proc_context (kn_processes k ! i))"

definition own_space :: "kernel \<Rightarrow> bool" where
  "own_space k \<longleftrightarrow> pt_inv (rt_processes (kn_rt k)) \<and> (\<exists>i. current_at i k)"

text \<open>Nothing runs, or exactly the current process does.\<close>

definition none_runs :: "kernel \<Rightarrow> bool" where
  "none_runs k \<longleftrightarrow> own_space k \<and> (\<forall>j < length (kn_processes k). proc_state (kn_processes k ! j) \<noteq> Running)"

definition current_runs :: "kernel \<Rightarrow> bool" where
  "current_runs k \<longleftrightarrow> pt_inv (rt_processes (kn_rt k)) \<and>
    (\<exists>i. current_at i k \<and> (\<forall>j < length (kn_processes k). proc_state (kn_processes k ! j) = Running \<longleftrightarrow> j = i))"

definition calm :: "kernel \<Rightarrow> kernel \<Rightarrow> bool" where
  "calm k k' \<longleftrightarrow> rt_view (kn_rt k') = rt_view (kn_rt k) \<and> mc_cr3 (kn_mc k') = mc_cr3 (kn_mc k)"

lemma parked_simps [simp]:
  "parked Ready" "parked (Sleeping n)" "parked (BlockedOnEndpoint o1 n d l t)" "parked (BlockedOnInterrupt o1 t)"
  "parked (BlockedOnVfsRead v f d l)" "parked (BlockedOnVfsState o1 v f op n a d l w b)" "parked (BlockedOnNetworkPort o1 d l)"
  "parked (BlockedOnVertexFsSync o1 o2 m c c' l l' n)" "\<not> parked Running" "\<not> parked Exited"
  by (simp_all add: parked_def)

lemma calm_refl [simp, intro]: "calm k k"
  by (simp add: calm_def)

lemma calm_trans: "calm k1 k2 \<Longrightarrow> calm k2 k3 \<Longrightarrow> calm k1 k3"
  by (simp add: calm_def)

lemma view_procs:
  assumes "rt_view rt' = rt_view rt"
  shows "length (pt_processes (rt_processes rt')) = length (pt_processes (rt_processes rt))"
    and "pt_current (rt_processes rt') = pt_current (rt_processes rt)"
    and "i < length (pt_processes (rt_processes rt)) \<Longrightarrow>
      proc_view (pt_processes (rt_processes rt') ! i) = proc_view (pt_processes (rt_processes rt) ! i)"
    and "pt_inv (rt_processes rt') \<longleftrightarrow> pt_inv (rt_processes rt)"
proof -
  let ?ps = "pt_processes (rt_processes rt)" and ?qs = "pt_processes (rt_processes rt')"
  have eq: "map proc_view ?qs = map proc_view ?ps" "pt_next_id (rt_processes rt') = pt_next_id (rt_processes rt)"
    using assms by (simp_all add: rt_view_def table_view_def)
  then show len: "length ?qs = length ?ps"
    by (auto dest: map_eq_imp_length_eq)
  show "pt_current (rt_processes rt') = pt_current (rt_processes rt)"
    using assms by (simp add: rt_view_def table_view_def)
  show "proc_view (?qs ! i) = proc_view (?ps ! i)" if "i < length ?ps"
    using arg_cong [OF eq(1), of "\<lambda>xs. xs ! i"] that len by simp
  have "map proc_pid ?qs = map proc_pid ?ps"
    using arg_cong [OF eq(1), of "map fst"] by (simp add: proc_view_def comp_def)
  then show "pt_inv (rt_processes rt') \<longleftrightarrow> pt_inv (rt_processes rt)"
    unfolding pt_inv_pids eq(2) by simp
qed

lemma calm_current_at: "calm k k' \<Longrightarrow> current_at i k \<Longrightarrow> current_at i k'"
  using view_procs [of "kn_rt k'" "kn_rt k"] by (auto simp: calm_def current_at_def proc_view_def)

lemma calm_own_space: "calm k k' \<Longrightarrow> own_space k \<Longrightarrow> own_space k'"
  using calm_current_at view_procs(4) [of "kn_rt k'" "kn_rt k"] by (auto simp: own_space_def calm_def)

lemma calm_state:
  assumes "calm k k'" "i < length (kn_processes k)"
  shows "proc_state (kn_processes k' ! i) = Running \<longleftrightarrow> proc_state (kn_processes k ! i) = Running"
    and "proc_state (kn_processes k' ! i) = Exited \<longleftrightarrow> proc_state (kn_processes k ! i) = Exited"
    and "parked (proc_state (kn_processes k' ! i)) \<longleftrightarrow> parked (proc_state (kn_processes k ! i))"
  using view_procs(3) [of "kn_rt k'" "kn_rt k" i] assms by (auto simp: calm_def proc_view_def parked_def)

lemma calm_length: "calm k k' \<Longrightarrow> length (kn_processes k') = length (kn_processes k)"
  using view_procs(1) [of "kn_rt k'" "kn_rt k"] by (simp add: calm_def)

lemma calm_pid: "calm k k' \<Longrightarrow> i < length (kn_processes k) \<Longrightarrow> proc_pid (kn_processes k' ! i) = proc_pid (kn_processes k ! i)"
  using view_procs(3) [of "kn_rt k'" "kn_rt k" i] by (simp add: calm_def proc_view_def)

lemma calm_none_runs: "calm k k' \<Longrightarrow> none_runs k \<Longrightarrow> none_runs k'"
  using calm_own_space [of k k'] calm_state [of k k'] calm_length [of k k'] by (simp add: none_runs_def)

lemma calm_current_runs:
  assumes "calm k k'" "current_runs k"
  shows "current_runs k'"
proof -
  obtain i where i: "current_at i k" "\<forall>j < length (kn_processes k). proc_state (kn_processes k ! j) = Running \<longleftrightarrow> j = i"
    using assms(2) by (auto simp: current_runs_def)
  have "\<forall>j < length (kn_processes k'). proc_state (kn_processes k' ! j) = Running \<longleftrightarrow> j = i"
    using i(2) calm_state [OF assms(1)] calm_length [OF assms(1)] by simp
  then show ?thesis
    using calm_current_at [OF assms(1) i(1)] assms view_procs(4) [of "kn_rt k'" "kn_rt k"]
    by (auto simp: current_runs_def calm_def)
qed

lemma current_runs_own_space: "current_runs k \<Longrightarrow> own_space k"
  by (auto simp: current_runs_def own_space_def)

lemma none_runs_own_space: "none_runs k \<Longrightarrow> own_space k"
  by (simp add: none_runs_def)

section \<open>Wakes keep the view\<close>

lemma rt_view_simps [simp]:
  "rt_view (rt\<lparr>rt_objects := ot\<rparr>) = rt_view rt" "rt_view (rt\<lparr>rt_vfs := v\<rparr>) = rt_view rt"
  "rt_view (rt\<lparr>rt_lifecycle := l\<rparr>) = rt_view rt" "rt_view (rt\<lparr>rt_next_vfs_state_transaction_id := n\<rparr>) = rt_view rt"
  by (simp_all add: rt_view_def)

lemma calm_simps [simp]:
  "calm k (k\<lparr>kn_reads := n\<rparr>)" "calm k (k\<lparr>kn_halts := n\<rparr>)" "calm k (k\<lparr>kn_frame := f\<rparr>)"
  by (simp_all add: calm_def)

lemma calm_rt: "rt_view rt = rt_view (kn_rt k) \<Longrightarrow> calm k (k\<lparr>kn_rt := rt\<rparr>)"
  by (simp add: calm_def)

lemma calm_on_rt: "rt_view (f (kn_rt k)) = rt_view (kn_rt k) \<Longrightarrow> calm k (on_rt f k)"
  by (simp add: calm_def on_rt_def)

lemma update_process_view:
  assumes "proc_view (f (pt_processes (rt_processes rt) ! i)) = proc_view (pt_processes (rt_processes rt) ! i)"
  shows "rt_view (update_process_at i f rt) = rt_view rt"
proof -
  have "map proc_view (xs[i := y]) = map proc_view xs" if "proc_view y = proc_view (xs ! i)" for xs y
    using that by (simp add: map_update list_update_same_conv) (metis list_update_id map_update)
  then show ?thesis
    using assms by (simp add: rt_view_def table_view_def update_process_at_def update_process_def)
qed

lemma make_ready_view: "parked (proc_state p) \<Longrightarrow> proc_view (make_ready s p) = proc_view p"
  by (simp add: proc_view_def make_ready_def parked_def)

lemma wake_process_view: "proc_view (wake_process now p) = proc_view p"
proof (cases "wake_status now (proc_state p)")
  case (Some s)
  then have "parked (proc_state p)"
    by (cases "proc_state p") auto
  then show ?thesis
    using Some make_ready_view by (simp add: wake_process_def)
qed (simp add: wake_process_def)

lemma calm_wake_timed: "calm k (fst (wake_timed k))"
  by (simp add: calm_def wake_timed_def read_tsc_def wake_timed_processes_def Let_def rt_view_def table_view_def
      wake_process_view comp_def)

lemma update_interrupt_line_view [simp]: "rt_view (update_interrupt_line i f rt) = rt_view rt"
  by (simp add: update_interrupt_line_def split: option.split)

lemma record_hardware_irq_view: "rt_view (record_hardware_irq line rt) = rt_view rt"
proof -
  have "rt_view (update_process_at i (make_ready s) rt) = rt_view rt"
    if "blocked_interrupt_waiter_index l rt = Some i" for i l s
    using that
    by (intro update_process_view make_ready_view)
      (auto simp: blocked_interrupt_waiter_index_def first_index_Some split: process_state.splits)
  then show ?thesis
    by (simp add: record_hardware_irq_def split: option.split)
qed

lemma calm_interrupt: "calm k (interrupt_dispatch irq k)"
proof (cases irq)
  case (LegacyIrq line)
  have "calm k (on_rt (record_hardware_irq line) k)"
    by (rule calm_on_rt) (rule record_hardware_irq_view)
  then show ?thesis
    using LegacyIrq calm_trans [OF _ calm_wake_timed] by simp
qed (simp add: calm_wake_timed)

lemma calm_wait_for_interrupt: "calm k (wait_for_interrupt k)"
proof -
  have "calm k (fold interrupt_dispatch irqs k)" for irqs k
    by (induction irqs arbitrary: k) (auto intro: calm_trans calm_interrupt)
  then show ?thesis
    by (auto simp: wait_for_interrupt_def intro: calm_trans [OF calm_simps(2)])
qed

lemma calm_wait_until_deadline:
  assumes "wait_until_deadline deadline inc k = Some k'"
  shows "calm k k'"
proof (rule wait_until_deadline.raw_induct [where P = "\<lambda>_ _ k k'. calm k k'", OF _ assms])
  fix wait deadline inc k k'
  assume IH: "\<And>deadline inc k k'. wait deadline inc k = Some k' \<Longrightarrow> calm k k'"
    and step: "(let (k, now) = read_tsc k
     in if deadline_reached now deadline \<or> ready_index inc k \<noteq> None then Some k
        else let (k, woke) = wake_timed k in if woke \<noteq> 0 then Some k else wait deadline inc (wait_for_interrupt k)) = Some k'"
  let ?k1 = "k\<lparr>kn_reads := Suc (kn_reads k)\<rparr>"
  obtain k2 woke where k2: "wake_timed ?k1 = (k2, woke)"
    by (cases "wake_timed ?k1")
  then have calm2: "calm k k2"
    using calm_trans [OF calm_simps(1) calm_wake_timed] by (metis fst_conv)
  have "k' = ?k1 \<or> k' = k2 \<or> wait deadline inc (wait_for_interrupt k2) = Some k'"
    using step by (auto simp: read_tsc_def Let_def k2 split: if_splits)
  then consider "k' = ?k1" | "k' = k2" | "wait deadline inc (wait_for_interrupt k2) = Some k'"
    by fast
  then show "calm k k'"
  proof cases
    case 3
    show ?thesis
      by (rule calm_trans [OF calm2 calm_trans [OF calm_wait_for_interrupt IH [OF 3]]])
  qed (simp_all add: calm2)
qed

section \<open>Scheduling\<close>

lemma own_space_current:
  assumes "pt_inv (rt_processes (kn_rt k))" "current_at i k"
  shows "current_process (rt_processes (kn_rt k)) = Some (kn_processes k ! i)"
    and "current_process_mut (rt_processes (kn_rt k)) = Some i"
  using assms process_index_nth [OF assms(1), of i]
  by (simp_all add: current_at_def current_process_def current_process_mut_def process_mut_def process_of_index)

lemma set_running_at:
  assumes "none_runs k" "i < length (kn_processes k)" "kn_rt k' = (kn_rt k)\<lparr>rt_processes := t'\<rparr>"
    and "t' = (update_process (rt_processes (kn_rt k)) i (\<lambda>p. p\<lparr>proc_state := Running\<rparr>))\<lparr>pt_current := Some (proc_pid (kn_processes k ! i))\<rparr>"
    and "mc_cr3 (kn_mc k') = ctx_cr3 (proc_context (kn_processes k ! i))"
  shows "current_runs k'"
proof -
  have inv: "pt_inv (rt_processes (kn_rt k))" "\<forall>j < length (kn_processes k). proc_state (kn_processes k ! j) \<noteq> Running"
    using assms(1) by (simp_all add: none_runs_def own_space_def)
  have "pt_inv (update_process (rt_processes (kn_rt k)) i (\<lambda>p. p\<lparr>proc_state := Running\<rparr>))"
    by (rule update_process_inv [OF inv(1)]) simp
  then have "pt_inv t'"
    using assms(4) by (simp add: pt_inv_def)
  moreover have "current_at i k'" "\<forall>j < length (kn_processes k'). proc_state (kn_processes k' ! j) = Running \<longleftrightarrow> j = i"
    using assms inv(2) by (auto simp: current_at_def update_process_def nth_list_update)
  ultimately show ?thesis
    using assms(3) by (auto simp: current_runs_def)
qed

lemma switch_to_runs:
  assumes "none_runs k" "ready_index inc k = Some i"
  shows "current_runs (switch_to i k)"
proof (rule set_running_at [OF assms(1)])
  show "i < length (kn_processes k)"
    using next_ready_first(1) [of "rt_processes (kn_rt k)" inc i] assms(2) by (simp add: ready_index_def eligible_index_def)
qed (simp_all add: switch_to_def Let_def switch_address_space_def)

lemma resume_current_runs:
  assumes "none_runs k"
  shows "current_runs (resume_current k)"
proof -
  obtain i where i: "current_at i k" "pt_inv (rt_processes (kn_rt k))"
    using assms by (auto simp: none_runs_def own_space_def)
  have "resume_current k = on_rt (update_process_at i (\<lambda>p. p\<lparr>proc_state := Running\<rparr>)) k"
    using own_space_current(2) [OF i(2,1)] by (simp add: resume_current_def on_current_def)
  then show ?thesis
    using i(1) by (intro set_running_at [OF assms, of i]) (auto simp: current_at_def on_rt_def update_process_at_def update_process_def)
qed

text \<open>The outcome of a scheduling decision.\<close>

definition scheduled :: "kernel \<Rightarrow> bool \<Rightarrow> bool" where
  "scheduled k switched \<longleftrightarrow> (if switched then current_runs k else none_runs k)"

lemma schedule_picks:
  assumes "schedule_next_ready_inner inc wait k = Some r"
  shows "\<exists>k2. calm k k2 \<and> r = pick_next inc k2"
proof -
  let ?k1 = "fst (wake_timed k)"
  consider "r = pick_next inc ?k1" | d k2 where "wait_until_deadline d inc ?k1 = Some k2" "r = pick_next inc (fst (wake_timed k2))"
    using assms by (auto simp: schedule_next_ready_inner_def Let_def split: if_splits option.splits)
  then show ?thesis
  proof cases
    case 2
    then show ?thesis
      using calm_trans [OF calm_wake_timed calm_trans [OF calm_wait_until_deadline calm_wake_timed]] by blast
  qed (use calm_wake_timed in blast)
qed

lemma schedule_outcome:
  assumes "none_runs k" "schedule_next_ready_inner inc wait k = Some (k', switched)"
  shows "scheduled k' switched"
proof -
  obtain k2 where k2: "calm k k2" "(k', switched) = pick_next inc k2"
    using schedule_picks [OF assms(2)] by blast
  show ?thesis
    using calm_none_runs [OF k2(1) assms(1)] switch_to_runs [of k2 inc] k2(2)
    by (auto simp: scheduled_def pick_next_def split: option.splits)
qed

lemma suspended_none_runs:
  assumes "current_runs k" "on_current f k = Some k'" "\<And>p. proc_state (f p) \<noteq> Running"
    "\<And>p. proc_pid (f p) = proc_pid p \<and> proc_context (f p) = proc_context p"
  shows "none_runs k'"
proof -
  obtain i where i: "current_at i k" "pt_inv (rt_processes (kn_rt k))"
      "\<forall>j < length (kn_processes k). proc_state (kn_processes k ! j) = Running \<longleftrightarrow> j = i"
    using assms(1) by (auto simp: current_runs_def)
  have k': "k' = on_rt (update_process_at i f) k"
    using assms(2) own_space_current(2) [OF i(2,1)] by (simp add: on_current_def)
  have "pt_inv (update_process (rt_processes (kn_rt k)) i f)"
    by (rule update_process_inv [OF i(2)]) (simp add: assms(4))
  moreover have "current_at i k'"
    using i(1) assms(4) by (simp add: k' current_at_def on_rt_def update_process_at_def update_process_def)
  moreover have "\<forall>j < length (kn_processes k'). proc_state (kn_processes k' ! j) \<noteq> Running"
    using i(3) assms(3) by (auto simp: k' on_rt_def update_process_at_def update_process_def nth_list_update)
  ultimately show ?thesis
    by (auto simp: none_runs_def own_space_def k' on_rt_def update_process_at_def)
qed

lemma block_current_outcome:
  assumes "current_runs k" "block_current frame st k = Some (k', switched)" "st \<noteq> Running"
  shows "current_runs k'"
proof (cases "on_current (suspend frame st) k")
  case None
  then show ?thesis
    using assms by (simp add: block_current_def)
next
  case (Some k1)
  have n: "none_runs k1"
    using suspended_none_runs [OF assms(1) Some] assms(3) by (simp add: suspend_def)
  consider "schedule_next_ready k1 = Some (k', True)" | k2 where "schedule_next_ready k1 = Some (k2, False)" "k' = resume_current k2"
    using assms(2) Some by (auto simp: block_current_def split: option.splits bool.splits)
  then show ?thesis
    using schedule_outcome [OF n] resume_current_runs by cases (auto simp: schedule_next_ready_def scheduled_def)
qed

section \<open>Deliveries keep the view\<close>

lemma calm_copy_to_process:
  assumes "own_space k" "copy_to_process cr3 destination bytes k = (k', ok)"
  shows "calm k k' \<and> kn_rt k' = kn_rt k"
proof -
  obtain i where i: "current_at i k" "pt_inv (rt_processes (kn_rt k))"
    using assms(1) by (auto simp: own_space_def)
  obtain m r where m: "copy_to_user (switch_address_space (kn_mc k) cr3) destination bytes = (m, r)"
    by fastforce
  then show ?thesis
    using assms(2) own_space_current(1) [OF i(2,1)] i(1)
    by (auto simp: copy_to_process_def Let_def calm_def current_at_def switch_address_space_def)
qed

lemma update_endpoint_view: "update_endpoint i f rt = Some (rt', r) \<Longrightarrow> rt_view rt' = rt_view rt"
  by (auto simp: update_endpoint_def split: option.splits prod.splits)

lemma lifecycle_view [simp]: "rt_view (record_service_lifecycle rt name st status) = rt_view rt"
  by (simp add: record_service_lifecycle_def Let_def)

lemma ready_lifecycle_view [simp]: "rt_view (record_ready_lifecycle endpoint receiver message rt) = rt_view rt"
  by (simp add: record_ready_lifecycle_def split: option.split)

text \<open>A status for a waiting process, after steps that kept the view.\<close>

lemma calm_make_ready:
  assumes "calm k k'" "parked (proc_state (kn_processes k ! i))"
  shows "calm k (on_rt (update_process_at i (make_ready s)) k')"
proof (cases "i < length (kn_processes k)")
  case True
  then have "parked (proc_state (kn_processes k' ! i))"
    using calm_state [OF assms(1)] assms(2) by simp
  then show ?thesis
    by (intro calm_trans [OF assms(1)] calm_on_rt update_process_view make_ready_view)
next
  case False
  then have "update_process_at i (make_ready s) (kn_rt k') = kn_rt k'"
    using calm_length [OF assms(1)] by (simp add: update_process_at_def update_process_def list_update_beyond)
  then show ?thesis
    using assms(1) by (simp add: calm_def on_rt_def)
qed

lemma calm_deliver_message:
  assumes "own_space k" "parked (proc_state (kn_processes k ! i))"
  shows "calm k (deliver_message endpoint i destination max_len k)"
proof (cases "update_endpoint endpoint (\<lambda>e. ep_dequeue_for e (proc_pid (kn_processes k ! i))) (kn_rt k)")
  case None
  then show ?thesis
    by (simp add: deliver_message_def Let_def)
next
  case (Some q)
  obtain rt r where q: "q = (rt, r)"
    by fastforce
  have k1: "calm k (k\<lparr>kn_rt := rt\<rparr>)"
    using Some update_endpoint_view by (intro calm_rt) (simp add: q)
  show ?thesis
  proof (cases r)
    case None
    then show ?thesis
      using k1 by (simp add: deliver_message_def Let_def Some q)
  next
    case message: (Some message)
    obtain k2 ok where copy: "copy_to_process (ctx_cr3 (proc_context (kn_processes k ! i))) destination
        (message_prefix message max_len) (k\<lparr>kn_rt := rt\<rparr>) = (k2, ok)"
      by fastforce
    have k2: "calm k k2"
      using calm_trans [OF k1] calm_copy_to_process [OF calm_own_space [OF k1 assms(1)] copy] by simp
    have ready: "calm k (on_rt (update_process_at i (make_ready s)) k2)" for s
      by (rule calm_make_ready [OF k2 assms(2)])
    have "calm k (on_rt (\<lambda>rt. record_ready_lifecycle endpoint pid message (update_process_at i (make_ready s) rt)) k2)" for s pid
      using ready [of s] by (simp add: calm_def on_rt_def)
    then show ?thesis
      using ready by (simp add: deliver_message_def Let_def Some q message copy split: bool.split)
  qed
qed

lemma calm_wake_receivers: "own_space k \<Longrightarrow> calm k (wake_receivers endpoint k)"
proof (induction endpoint k rule: wake_receivers.induct)
  case (1 endpoint k)
  show ?case
  proof (cases "blocked_receiver_index endpoint (kn_rt k)")
    case None
    then show ?thesis
      by (subst wake_receivers.simps) simp
  next
    case (Some i)
    then obtain w c d n t where st: "proc_state (kn_processes k ! i) = BlockedOnEndpoint w c d n t"
      by (auto simp: blocked_receiver_index_def first_index_Some split: process_state.splits)
    let ?k1 = "on_rt (\<lambda>rt. fst (cancel_blocked_endpoint_waiter_at rt i STATUS_BAD_CAPABILITY)) k"
    have "rt_view (update_process_at i (make_ready STATUS_BAD_CAPABILITY) (kn_rt k)) = rt_view (kn_rt k)"
      using st by (intro update_process_view make_ready_view) simp
    then have k1: "calm k ?k1"
      using st by (intro calm_on_rt) (simp add: cancel_blocked_endpoint_waiter_at_def update_process_at_def make_ready_def [abs_def])
    show ?thesis
    proof (cases "process_has_live_endpoint_cap (kn_rt k) (kn_processes k ! i) w c RIGHT_RECEIVE")
      case True
      then show ?thesis
        using calm_deliver_message [OF 1(2)] by (subst wake_receivers.simps) (simp add: Some st)
    next
      case False
      then show ?thesis
        using calm_trans [OF k1 1(1) [OF Some st _ calm_own_space [OF k1 1(2)]]]
        by (subst wake_receivers.simps) (simp add: Some st)
    qed
  qed
qed

lemma calm_wake_blocked_receiver: "own_space k \<Longrightarrow> calm k (wake_blocked_receiver endpoint k)"
  unfolding wake_blocked_receiver_def
  by (rule calm_trans [OF calm_wake_timed calm_wake_receivers [OF calm_own_space [OF calm_wake_timed]]])

section \<open>Replies keep the view\<close>

lemma on_vfs_view [simp]: "rt_view (on_vfs f rt) = rt_view rt"
  by (simp add: on_vfs_def)

lemma set_description_offset_view: "set_description_offset d n rt = Some rt' \<Longrightarrow> rt_view rt' = rt_view rt"
  by (auto simp: set_description_offset_def split: option.splits)

lemma calm_advance_offset: "calm k (fst (advance_offset update description offset len k))"
  by (auto simp: advance_offset_def split: option.split intro!: calm_rt dest: set_description_offset_view)

lemma calm_state_read:
  assumes "own_space k"
  shows "calm k (fst (wake_blocked_vfs_state_read cr3 destination max_len offset description update message k))"
  using calm_copy_to_process [OF assms] calm_trans [OF _ calm_advance_offset]
  by (auto simp: wake_blocked_vfs_state_read_def Let_def split: prod.split bool.split)

lemma calm_state_stat:
  assumes "own_space k"
  shows "calm k (fst (wake_blocked_vfs_state_stat cr3 destination max_len description node message k))"
  using calm_copy_to_process [OF assms]
  by (auto simp: wake_blocked_vfs_state_stat_def Let_def split: option.split prod.split bool.split)

lemma calm_state_reply_result: "own_space k \<Longrightarrow> calm k (fst (state_reply_result p message k))"
  by (auto simp: state_reply_result_def Let_def wake_blocked_vfs_state_write_def calm_state_read calm_state_stat
      calm_advance_offset split: process_state.split vfs_state_operation.split)

lemma calm_vfs_state_reply:
  assumes "own_space k"
  shows "calm k (wake_blocked_vfs_state_reply endpoint k)"
proof (cases "blocked_vfs_state_waiter_index endpoint (kn_rt k)")
  case None
  then show ?thesis
    by (simp add: wake_blocked_vfs_state_reply_def)
next
  case (Some i)
  then have st: "parked (proc_state (kn_processes k ! i))"
    by (auto simp: blocked_vfs_state_waiter_index_def first_index_Some split: process_state.splits)
  let ?p = "kn_processes k ! i"
  show ?thesis
  proof (cases "update_endpoint endpoint (\<lambda>e. dequeue_vfs_state_reply_for e (proc_pid ?p) (bs_transaction_id (proc_state ?p))) (kn_rt k)")
    case None
    then show ?thesis
      by (simp add: wake_blocked_vfs_state_reply_def Some Let_def)
  next
    case q: (Some q)
    obtain rt r where q2: "q = (rt, r)"
      by fastforce
    have k1: "calm k (k\<lparr>kn_rt := rt\<rparr>)"
      using q update_endpoint_view by (intro calm_rt) (simp add: q2)
    have "calm k (on_rt (update_process_at i (make_ready s)) (fst (state_reply_result ?p message (k\<lparr>kn_rt := rt\<rparr>))))" for message s
      by (rule calm_make_ready [OF calm_trans [OF k1 calm_state_reply_result [OF calm_own_space [OF k1 assms]]] st])
    then show ?thesis
      using k1 by (auto simp: wake_blocked_vfs_state_reply_def Some Let_def q q2 case_prod_unfold split: option.split)
  qed
qed

lemma queue_write_view: "queue_vertexfs_device_write request n rt = (rt', r) \<Longrightarrow> rt_view rt' = rt_view rt"
  using update_endpoint_view
  by (fastforce simp: queue_vertexfs_device_write_def Let_def split: if_splits sum.splits option.splits prod.splits)

lemma fail_sync_view:
  "parked (proc_state (pt_processes (rt_processes rt) ! i)) \<Longrightarrow> rt_view (fail_sync i backing s rt) = rt_view rt"
  by (simp add: fail_sync_def update_process_view make_ready_view on_vfs_def)

lemma advance_sync_view: "proc_view (advance_sync n s p) = proc_view p"
  by (simp add: advance_sync_def proc_view_def split: process_state.split)

lemma view_not_running:
  assumes "rt_view rt' = rt_view rt" "parked (proc_state (pt_processes (rt_processes rt) ! i))" "i < length (pt_processes (rt_processes rt))"
  shows "parked (proc_state (pt_processes (rt_processes rt') ! i))"
  using view_procs(3) [OF assms(1,3)] assms(2) by (simp add: proc_view_def parked_def)

lemma calm_sync_reply:
  assumes "own_space k"
  shows "calm k (wake_blocked_vertexfs_sync_reply endpoint k)"
proof (cases "blocked_vertexfs_sync_waiter_index endpoint (kn_rt k)")
  case None
  then show ?thesis
    by (simp add: wake_blocked_vertexfs_sync_reply_def)
next
  case (Some i)
  then obtain req rep backing ino ck count n sector where
    st: "proc_state (kn_processes k ! i) = BlockedOnVertexFsSync req rep backing ino ck count n sector"
    and i: "i < length (kn_processes k)"
    by (auto simp: blocked_vertexfs_sync_waiter_index_def first_index_Some split: process_state.splits)
  show ?thesis
  proof (cases "update_endpoint endpoint (\<lambda>e. ep_dequeue_for e (proc_pid (kn_processes k ! i))) (kn_rt k)")
    case None
    then show ?thesis
      by (simp add: wake_blocked_vertexfs_sync_reply_def Some st)
  next
    case q: (Some q)
    obtain rt r where q2: "q = (rt, r)"
      by fastforce
    have v1: "rt_view rt = rt_view (kn_rt k)"
      using q update_endpoint_view by (simp add: q2)
    obtain rt2 w where w: "queue_vertexfs_device_write req n rt = (rt2, w)"
      by fastforce
    have v2: "rt_view rt2 = rt_view (kn_rt k)"
      using queue_write_view [OF w] v1 by simp
    have ready: "rt_view (update_process_at i (make_ready s) rt') = rt_view (kn_rt k)"
      and failed: "rt_view (fail_sync i backing s rt') = rt_view (kn_rt k)" if "rt_view rt' = rt_view (kn_rt k)" for rt' s
      using that view_not_running [OF that _ i] st by (simp_all add: update_process_view make_ready_view fail_sync_view)
    have "calm k (k\<lparr>kn_rt := update_process_at i (advance_sync (n + 1) s) rt2\<rparr>)" for s
      by (rule calm_rt) (simp add: v2 update_process_view advance_sync_view)
    then have "calm k (wake_blocked_receiver req (k\<lparr>kn_rt := update_process_at i (advance_sync (n + 1) s) rt2\<rparr>))" for s
      using calm_trans calm_wake_blocked_receiver calm_own_space [OF _ assms] by blast
    then show ?thesis
      using ready failed v1 v2
      by (auto simp: wake_blocked_vertexfs_sync_reply_def Some st q q2 w intro!: calm_rt
          split: option.split if_split sum.split prod.split)
  qed
qed

lemma calm_wake_with_bytes:
  assumes "own_space k" "parked (proc_state (kn_processes k ! i))"
  shows "calm k (wake_with_bytes i destination bytes max_len k)"
  using calm_copy_to_process [OF assms(1)] calm_make_ready [OF _ assms(2)]
  by (auto simp: wake_with_bytes_def split: prod.split)

lemma calm_pipe_read: "own_space k \<Longrightarrow> calm k (fst (wake_blocked_vfs_pipe_read bytes k))"
  by (auto simp: wake_blocked_vfs_pipe_read_def calm_wake_with_bytes split: option.split process_state.split)

lemma calm_network:
  assumes "own_space k"
  shows "calm k (wake_blocked_network_receiver port k)"
proof -
  have "calm k (wake_with_bytes i destination bytes max_len (on_rt (\<lambda>rt. rt\<lparr>rt_objects := f rt\<rparr>) k))"
    if "parked (proc_state (kn_processes k ! i))" for i destination bytes max_len f
  proof -
    have k1: "calm k (on_rt (\<lambda>rt. rt\<lparr>rt_objects := f rt\<rparr>) k)"
      by (rule calm_on_rt) simp
    show ?thesis
      using that by (intro calm_trans [OF k1] calm_wake_with_bytes calm_own_space [OF k1 assms]) (simp add: on_rt_def)
  qed
  then show ?thesis
    by (auto simp: wake_blocked_network_receiver_def split: option.split process_state.split prod.split)
qed

end
