(* ===== verification/Service_Waits.thy ===== *)
theory Service_Waits
  imports Scheduler_Safety
begin

text \<open>
  Processes that wait for a service: while a request is queued and the
  scheduler looks for another process, nothing wakes the caller, so a request
  that finds no process to switch to restores the caller and returns to it.
\<close>

section \<open>Nothing on the way wakes a service wait\<close>

fun service_wait :: "process_state \<Rightarrow> bool" where
  "service_wait (BlockedOnVfsState _ _ _ _ _ _ _ _ _ _) = True"
| "service_wait (BlockedOnVertexFsSync _ _ _ _ _ _ _ _) = True"
| "service_wait _ = False"

definition waits_kept :: "kernel \<Rightarrow> kernel \<Rightarrow> bool" where
  "waits_kept k k' \<longleftrightarrow>
    list_all2 (\<lambda>p p'. service_wait (proc_state p) \<longrightarrow> proc_state p' = proc_state p) (kn_processes k) (kn_processes k')"

lemma waits_kept_same: "kn_processes k' = kn_processes k \<Longrightarrow> waits_kept k k'"
  by (simp add: waits_kept_def list_all2_same)

lemma waits_kept_refl [simp]: "waits_kept k k"
  by (simp add: waits_kept_same)

lemma waits_kept_trans: "waits_kept k1 k2 \<Longrightarrow> waits_kept k2 k3 \<Longrightarrow> waits_kept k1 k3"
  by (simp add: waits_kept_def list_all2_conv_all_nth)

lemma waits_kept_update:
  assumes "\<not> service_wait (proc_state (kn_processes k ! i))" "kn_processes k' = (kn_processes k)[i := p]"
  shows "waits_kept k k'"
  unfolding waits_kept_def assms(2)
proof (rule list_all2_all_nthI)
  fix n
  assume "n < length (kn_processes k)"
  then show "service_wait (proc_state (kn_processes k ! n)) \<longrightarrow> proc_state ((kn_processes k)[i := p] ! n) = proc_state (kn_processes k ! n)"
    using assms(1) by (cases "n = i") auto
qed simp

lemma wake_process_waits: "service_wait (proc_state p) \<Longrightarrow> wake_process now p = p"
  by (cases "proc_state p") (simp_all add: wake_process_def)

lemma waits_wake_timed: "waits_kept k (fst (wake_timed k))"
  by (simp add: waits_kept_def wake_timed_def read_tsc_def wake_timed_processes_def Let_def list_all2_conv_all_nth wake_process_waits)

lemma irq_processes:
  "\<exists>i s. pt_processes (rt_processes (record_hardware_irq line rt)) = pt_processes (rt_processes rt) \<or>
    \<not> service_wait (proc_state (pt_processes (rt_processes rt) ! i)) \<and>
    pt_processes (rt_processes (record_hardware_irq line rt)) = (pt_processes (rt_processes rt))[i := s]"
proof -
  have "\<not> service_wait (proc_state (pt_processes (rt_processes rt) ! i))" if "blocked_interrupt_waiter_index l rt = Some i" for i l
    using that by (auto simp: blocked_interrupt_waiter_index_def first_index_Some split: process_state.splits)
  then show ?thesis
    by (auto simp: record_hardware_irq_def update_interrupt_line_def update_process_at_def update_process_def split: option.split)
qed

lemma waits_interrupt: "waits_kept k (interrupt_dispatch irq k)"
proof (cases irq)
  case (LegacyIrq line)
  have "waits_kept k (on_rt (record_hardware_irq line) k)"
    using irq_processes [of line "kn_rt k"] waits_kept_update [of k] waits_kept_same [of _ k] by (auto simp: on_rt_def)
  then show ?thesis
    using LegacyIrq waits_kept_trans [OF _ waits_wake_timed] by simp
qed (simp add: waits_wake_timed)

lemma waits_wait_for_interrupt: "waits_kept k (wait_for_interrupt k)"
proof -
  have steps: "waits_kept k (fold interrupt_dispatch irqs k)" for irqs k
    by (induction irqs arbitrary: k) (auto intro: waits_kept_trans waits_interrupt)
  show ?thesis
    unfolding wait_for_interrupt_def by (rule waits_kept_trans [OF waits_kept_same steps]) simp
qed

lemma waits_wait_until_deadline:
  assumes "wait_until_deadline deadline inc k = Some k'"
  shows "waits_kept k k'"
proof (rule wait_until_deadline.raw_induct [where P = "\<lambda>_ _ k k'. waits_kept k k'", OF _ assms])
  fix wait deadline inc k k'
  assume IH: "\<And>deadline inc k k'. wait deadline inc k = Some k' \<Longrightarrow> waits_kept k k'"
    and step: "(let (k, now) = read_tsc k
     in if deadline_reached now deadline \<or> ready_index inc k \<noteq> None then Some k
        else let (k, woke) = wake_timed k in if woke \<noteq> 0 then Some k else wait deadline inc (wait_for_interrupt k)) = Some k'"
  let ?k1 = "k\<lparr>kn_reads := Suc (kn_reads k)\<rparr>"
  obtain k2 woke where k2: "wake_timed ?k1 = (k2, woke)"
    by (cases "wake_timed ?k1")
  have 1: "waits_kept k ?k1"
    by (rule waits_kept_same) simp
  then have 2: "waits_kept k k2"
    using waits_kept_trans waits_wake_timed [of ?k1] k2 by (metis fst_conv)
  have "k' = ?k1 \<or> k' = k2 \<or> wait deadline inc (wait_for_interrupt k2) = Some k'"
    using step by (auto simp: read_tsc_def Let_def k2 split: if_splits)
  then consider "k' = ?k1" | "k' = k2" | "wait deadline inc (wait_for_interrupt k2) = Some k'"
    by fast
  then show "waits_kept k k'"
  proof cases
    case 3
    show ?thesis
      by (rule waits_kept_trans [OF 2 waits_kept_trans [OF waits_wait_for_interrupt IH [OF 3]]])
  qed (simp_all add: 1 2)
qed

text \<open>A scheduler that found nothing changed no service wait.\<close>

lemma waits_schedule:
  assumes "schedule_next_ready k = Some (k', False)"
  shows "waits_kept k k'"
proof -
  let ?k1 = "fst (wake_timed k)"
  have pick: "x = k'" if "pick_next inc x = (k', False)" for inc x
    using that by (auto simp: pick_next_def split: option.splits)
  consider "k' = ?k1" | d inc k2 where "wait_until_deadline d inc ?k1 = Some k2" "k' = fst (wake_timed k2)"
    using assms by (auto simp: schedule_next_ready_def schedule_next_ready_inner_def Let_def dest!: pick split: if_splits option.splits)
  then show ?thesis
  proof cases
    case 2
    then show ?thesis
      using waits_kept_trans [OF waits_wake_timed waits_kept_trans [OF waits_wait_until_deadline waits_wake_timed]] by blast
  qed (simp add: waits_wake_timed)
qed

section \<open>Deliveries\<close>

lemma rt_processes_ready [simp]: "rt_processes (record_ready_lifecycle e p msg rt) = rt_processes rt"
  by (simp add: record_ready_lifecycle_def record_service_lifecycle_def Let_def split: option.split)

lemma update_endpoint_processes: "update_endpoint e f rt = Some (rt', r) \<Longrightarrow> rt_processes rt' = rt_processes rt"
  by (auto simp: update_endpoint_def split: option.splits prod.splits)

lemma queue_write_processes:
  "queue_vertexfs_device_write request n rt = (rt', r) \<Longrightarrow> rt_processes rt' = rt_processes rt"
  by (auto simp: queue_vertexfs_device_write_def Let_def dest: update_endpoint_processes split: if_splits sum.splits option.splits)

lemma copy_to_process_rt: "copy_to_process cr3 destination bytes k = (k', ok) \<Longrightarrow> kn_rt k' = kn_rt k"
  by (auto simp: copy_to_process_def Let_def split: prod.splits)

lemma waits_deliver_message:
  assumes "\<not> service_wait (proc_state (kn_processes k ! i))"
  shows "waits_kept k (deliver_message endpoint i destination max_len k)"
proof (cases "update_endpoint endpoint (\<lambda>e. ep_dequeue_for e (proc_pid (kn_processes k ! i))) (kn_rt k)")
  case None
  then show ?thesis
    by (simp add: deliver_message_def Let_def)
next
  case (Some q)
  obtain rt r where q: "q = (rt, r)"
    by fastforce
  have ps: "rt_processes rt = rt_processes (kn_rt k)"
    by (rule update_endpoint_processes [OF Some [unfolded q]])
  show ?thesis
  proof (cases r)
    case None
    then show ?thesis
      by (intro waits_kept_same) (simp add: deliver_message_def Let_def Some q ps)
  next
    case message: (Some message)
    obtain k2 ok where copy: "copy_to_process (ctx_cr3 (proc_context (kn_processes k ! i))) destination
        (message_prefix message max_len) (k\<lparr>kn_rt := rt\<rparr>) = (k2, ok)"
      by fastforce
    then have "kn_processes k2 = kn_processes k"
      using copy_to_process_rt [OF copy] ps by simp
    then show ?thesis
      by (intro waits_kept_update [OF assms, of _ "make_ready (if ok then of_nat (min (msg_len message) max_len) else STATUS_BAD_BUFFER) (kn_processes k ! i)"])
        (simp add: deliver_message_def Let_def Some q message copy on_rt_def update_process_at_def update_process_def split: bool.split)
  qed
qed

lemma waits_wake_receivers: "waits_kept k (wake_receivers endpoint k)"
proof (induction endpoint k rule: wake_receivers.induct)
  case (1 endpoint k)
  show ?case
  proof (cases "blocked_receiver_index endpoint (kn_rt k)")
    case None
    then show ?thesis
      by (subst wake_receivers.simps) simp
  next
    case (Some i)
    then obtain w c d n t where st: "proc_state (kn_processes k ! i) = BlockedOnEndpoint w c d n t"
      by (auto simp: blocked_receiver_index_def first_index_Some split: process_state.splits)
    show ?thesis
    proof (cases "process_has_live_endpoint_cap (kn_rt k) (kn_processes k ! i) w c RIGHT_RECEIVE")
      case True
      then show ?thesis
        using waits_deliver_message [of k i] by (subst wake_receivers.simps) (simp add: Some st)
    next
      case False
      let ?k1 = "on_rt (\<lambda>rt. fst (cancel_blocked_endpoint_waiter_at rt i STATUS_BAD_CAPABILITY)) k"
      have "waits_kept k ?k1"
        by (rule waits_kept_update [of k i]) (simp_all add: st on_rt_def cancel_blocked_endpoint_waiter_at_def update_process_def)
      from waits_kept_trans [OF this 1 [OF Some st]] False show ?thesis
        by (subst wake_receivers.simps) (simp add: Some st)
    qed
  qed
qed

lemma waits_wake_blocked_receiver: "waits_kept k (wake_blocked_receiver endpoint k)"
  unfolding wake_blocked_receiver_def by (rule waits_kept_trans [OF waits_wake_timed waits_wake_receivers])

section \<open>The caller of a request\<close>

definition current_waits :: "process_state \<Rightarrow> kernel \<Rightarrow> bool" where
  "current_waits st k \<longleftrightarrow> none_runs k \<and> (\<exists>i. current_at i k \<and> proc_state (kn_processes k ! i) = st)"

lemma current_waits_kept:
  assumes "current_waits st k" "service_wait st" "calm k k'" "waits_kept k k'"
  shows "current_waits st k'"
proof -
  obtain i where i: "current_at i k" "proc_state (kn_processes k ! i) = st"
    using assms(1) by (auto simp: current_waits_def)
  then have "proc_state (kn_processes k' ! i) = st"
    using assms(2,4) by (auto simp: waits_kept_def list_all2_conv_all_nth current_at_def)
  then show ?thesis
    using assms(1) calm_none_runs [OF assms(3)] calm_current_at [OF assms(3) i(1)] by (auto simp: current_waits_def)
qed

lemma current_waits_rt:
  assumes "current_waits st k" "service_wait st" "update_endpoint i f (kn_rt k) = Some (rt, r)"
  shows "current_waits st (k\<lparr>kn_rt := rt\<rparr>)"
proof (rule current_waits_kept [OF assms(1,2)])
  show "calm k (k\<lparr>kn_rt := rt\<rparr>)"
    by (intro calm_rt update_endpoint_view [OF assms(3)])
  show "waits_kept k (k\<lparr>kn_rt := rt\<rparr>)"
    by (rule waits_kept_same) (simp add: update_endpoint_processes [OF assms(3)])
qed

lemma suspended_waits:
  assumes "current_runs k" "on_current (suspend frame st) k = Some k'" "st \<noteq> Running"
  shows "current_waits st k'"
proof -
  obtain i where i: "current_at i k" "pt_inv (rt_processes (kn_rt k))"
    using assms(1) by (auto simp: current_runs_def)
  have k': "k' = on_rt (update_process_at i (suspend frame st)) k"
    using assms(2) own_space_current(2) [OF i(2,1)] by (simp add: on_current_def)
  have "current_at i k'" "proc_state (kn_processes k' ! i) = st"
    using i(1) by (simp_all add: k' current_at_def on_rt_def update_process_at_def update_process_def suspend_def)
  then show ?thesis
    using suspended_none_runs [OF assms(1,2)] assms(3) by (auto simp: current_waits_def suspend_def)
qed

lemma current_waits_process:
  assumes "current_waits st k"
  shows "\<exists>p. current_process (rt_processes (kn_rt k)) = Some p \<and> proc_state p = st"
  using assms own_space_current(1) by (fastforce simp: current_waits_def none_runs_def own_space_def)

lemma restore_state_runs:
  assumes "current_waits (BlockedOnVfsState reply node d op tx off dst len wl up) k"
  shows "current_runs (restore_current_vfs_state_waiter reply k)"
  using current_waits_process [OF assms] resume_current_runs assms
  by (auto simp: restore_current_vfs_state_waiter_def current_waits_def)

lemma restore_sync_runs:
  assumes "current_waits (BlockedOnVertexFsSync request reply backing inode checksum n nx sector) k"
  shows "current_runs (restore_current_vertexfs_sync_waiter reply k)"
  using current_waits_process [OF assms] resume_current_runs assms
  by (auto simp: restore_current_vertexfs_sync_waiter_def current_waits_def)

text \<open>After the request is queued: a switch, or the caller is where it was.\<close>

lemma request_scheduled:
  assumes "current_waits st k" "service_wait st"
    and "schedule_next_ready (wake_blocked_receiver endpoint k) = Some (k', switched)"
  shows "if switched then current_runs k' else current_waits st k'"
proof -
  let ?k1 = "wake_blocked_receiver endpoint k"
  have k1: "calm k ?k1"
    using assms(1) none_runs_own_space by (intro calm_wake_blocked_receiver) (auto simp: current_waits_def)
  have w: "current_waits st ?k1"
    by (rule current_waits_kept [OF assms(1,2) k1 waits_wake_blocked_receiver])
  show ?thesis
  proof (cases switched)
    case True
    then show ?thesis
      using schedule_outcome [of ?k1] w assms(3) by (auto simp: schedule_next_ready_def scheduled_def current_waits_def)
  next
    case False
    obtain k2 where "calm ?k1 k2" "(k', False) = pick_next True k2"
      using schedule_picks [of True True ?k1] assms(3) False by (auto simp: schedule_next_ready_def)
    then have "calm ?k1 k'"
      by (auto simp: pick_next_def split: option.splits)
    then show ?thesis
      using current_waits_kept [OF w assms(2) _ waits_schedule] assms(3) False by simp
  qed
qed

section \<open>The requests\<close>

lemma update_endpoint_runs:
  "current_runs k \<Longrightarrow> update_endpoint i f (kn_rt k) = Some (rt, r) \<Longrightarrow> current_runs (k\<lparr>kn_rt := rt\<rparr>)"
  by (erule calm_current_runs [OF calm_rt, rotated]) (rule update_endpoint_view)

text \<open>
  A request to the state service leaves a process running, unless the
  endpoint it goes to is gone.  Then the caller has been suspended already and
  is not restored: the error is returned to a process that is marked as
  blocked (lemma \<^verbatim>\<open>run_transaction_lost\<close>).
\<close>

lemma run_transaction_runs:
  assumes "current_runs k" "st = BlockedOnVfsState reply node d op tx off dst n wl up"
    and "run_transaction request reply st tx bytes len k = Some (k', r)" "r \<noteq> Inl BadCapability"
  shows "current_runs k'"
proof (cases "on_current (suspend (kn_frame k) st) k")
  case None
  then show ?thesis
    using assms by (simp add: run_transaction_def)
next
  case (Some k1)
  have st: "service_wait st" "st \<noteq> Running"
    by (simp_all add: assms(2))
  have w: "current_waits st k1"
    by (rule suspended_waits [OF assms(1) Some st(2)])
  obtain rt q where q: "update_endpoint request (\<lambda>e. ep_enqueue e process_id_empty bytes len) (kn_rt k1) = Some (rt, q)"
    using assms(3,4) Some by (auto simp: run_transaction_def split: option.splits)
  note w1 = current_waits_rt [OF w st(1) q]
  show ?thesis
  proof (cases q)
    case (Inl e)
    then show ?thesis
      using assms(3) Some q restore_state_runs [of reply] w1 assms(2) by (auto simp: run_transaction_def)
  next
    case (Inr u)
    let ?k2 = "wake_blocked_receiver request (k1\<lparr>kn_rt := rt\<rparr>)"
    obtain k3 switched where k3: "schedule_next_ready ?k2 = Some (k3, switched)"
      using assms(3) Some q Inr by (auto simp: run_transaction_def split: option.splits)
    note o = request_scheduled [OF w1 st(1) k3]
    show ?thesis
    proof (cases switched)
      case True
      then show ?thesis
        using assms(3) Some q Inr k3 o by (simp add: run_transaction_def)
    next
      case False
      then have "current_runs (restore_current_vfs_state_waiter reply k3)"
        using o restore_state_runs [of reply] assms(2) by simp
      then show ?thesis
        using assms(3) Some q Inr k3 False update_endpoint_runs
        by (auto simp: run_transaction_def Let_def split: option.splits)
    qed
  qed
qed

lemma run_transaction_lost:
  assumes "current_runs k" "st = BlockedOnVfsState reply node d op tx off dst n wl up"
    and "get_endpoint_mut (rt_objects (kn_rt k)) request = None"
  shows "\<exists>k'. run_transaction request reply st tx bytes len k = Some (k', Inl BadCapability) \<and> current_waits st k'"
proof -
  obtain i where i: "current_at i k" "pt_inv (rt_processes (kn_rt k))"
    using assms(1) by (auto simp: current_runs_def)
  then have s: "on_current (suspend (kn_frame k) st) k = Some (on_rt (update_process_at i (suspend (kn_frame k) st)) k)"
    using own_space_current(2) [OF i(2,1)] by (simp add: on_current_def)
  then have "run_transaction request reply st tx bytes len k =
      Some (on_rt (update_process_at i (suspend (kn_frame k) st)) k, Inl BadCapability)"
    using assms(3) by (simp add: run_transaction_def update_endpoint_def on_rt_def update_process_at_def)
  then show ?thesis
    using suspended_waits [OF assms(1) s] assms(2) by simp
qed

lemma next_transaction_runs:
  "current_runs k \<Longrightarrow> next_transaction (kn_rt k) = Some (rt, tx) \<Longrightarrow> current_runs (k\<lparr>kn_rt := rt\<rparr>)"
  by (erule calm_current_runs [OF calm_rt, rotated]) (auto simp: next_transaction_def Let_def split: if_splits)

lemma state_transaction_runs:
  assumes "current_runs k" "r \<noteq> Inl BadCapability"
    and "start_vfs_state_transaction state node d op off dst n wl up payload len k = Some (k', r)"
  shows "current_runs k'"
proof -
  have "current_runs k2"
    if "next_transaction (kn_rt k) = Some (rt, tx)"
      "run_transaction request reply (BlockedOnVfsState reply i j op tx off dst n wl up) tx bytes l (k\<lparr>kn_rt := rt\<rparr>) = Some (k2, r)"
    for rt tx request reply i j bytes l k2
    using run_transaction_runs [OF next_transaction_runs [OF assms(1) that(1)] refl that(2) assms(2)] .
  then show ?thesis
    using assms(1,3) by (auto simp: start_vfs_state_transaction_def Let_def split: option.splits if_splits prod.splits)
qed

lemma service_read_runs:
  assumes "current_runs k" "r \<noteq> Inl BadCapability"
    and "start_vfs_service_read_transaction node d off dst n up k = Some (k', r)"
  shows "current_runs k'"
proof -
  have "current_runs k2"
    if "next_transaction (kn_rt k) = Some (rt, tx)"
      "run_transaction request reply (BlockedOnVfsState reply i j op tx off dst n wl up) tx bytes l (k\<lparr>kn_rt := rt\<rparr>) = Some (k2, r)"
    for rt tx request reply i j op wl bytes l k2
    using run_transaction_runs [OF next_transaction_runs [OF assms(1) that(1)] refl that(2) assms(2)] .
  then show ?thesis
    using assms(1,3) by (auto simp: start_vfs_service_read_transaction_def Let_def split: option.splits prod.splits)
qed

text \<open>A sync restores the caller on every path.\<close>

lemma sync_transaction_runs:
  assumes "current_runs k" "start_vertexfs_sync_transaction backing inode checksum n k = Some (k', r)"
  shows "current_runs k'"
proof -
  consider "k' = k"
    | request reply sector k1 where
      "on_current (suspend (kn_frame k) (BlockedOnVertexFsSync request reply backing inode checksum n 1 sector)) k = Some k1"
      "(case queue_vertexfs_device_write request 0 (kn_rt k1) of
         (rt, Inl e) \<Rightarrow> Some (restore_current_vertexfs_sync_waiter reply (k1\<lparr>kn_rt := rt\<rparr>), Inl e)
       | (rt, Inr _) \<Rightarrow>
          (case schedule_next_ready (wake_blocked_receiver request (k1\<lparr>kn_rt := rt\<rparr>)) of
             None \<Rightarrow> None
           | Some (k, True) \<Rightarrow> Some (k, Inr ())
           | Some (k, False) \<Rightarrow>
              let k = restore_current_vertexfs_sync_waiter reply k
              in Some (case update_endpoint request (\<lambda>e. ep_remove_all_from_sender e process_id_empty) (kn_rt k) of
                        None \<Rightarrow> k | Some (rt, _) \<Rightarrow> k\<lparr>kn_rt := rt\<rparr>, Inl Empty))) = Some (k', r)"
    using assms(2) unfolding start_vertexfs_sync_transaction_def Let_def
    by (auto split: if_splits option.splits sum.splits)
  then show ?thesis
  proof cases
    case 2
    let ?st = "BlockedOnVertexFsSync request reply backing inode checksum n 1 sector"
    have w: "current_waits ?st k1"
      by (rule suspended_waits [OF assms(1) 2(1)]) simp
    obtain rt q where q: "queue_vertexfs_device_write request 0 (kn_rt k1) = (rt, q)"
      by fastforce
    have w1: "current_waits ?st (k1\<lparr>kn_rt := rt\<rparr>)"
      using q by (intro current_waits_kept [OF w _ calm_rt waits_kept_same])
        (auto simp: queue_write_view queue_write_processes)
    show ?thesis
    proof (cases q)
      case (Inl e)
      then show ?thesis
        using 2(2) q restore_sync_runs [OF w1] by auto
    next
      case (Inr u)
      obtain k3 switched where k3: "schedule_next_ready (wake_blocked_receiver request (k1\<lparr>kn_rt := rt\<rparr>)) = Some (k3, switched)"
        using 2(2) q Inr by (auto split: option.splits)
      note o = request_scheduled [OF w1 _ k3]
      show ?thesis
        using 2(2) q Inr k3 o
        by (cases switched) (auto simp: Let_def intro: restore_sync_runs update_endpoint_runs split: option.splits)
    qed
  qed (simp add: assms(1))
qed

end
