(* ===== verification/Device_Memory.thy ===== *)
theory Device_Memory
  imports Core_Syscalls
begin

text \<open>
  Device memory in user address spaces (\<^verbatim>\<open>ipc/memory_mapping.rs\<close> and the
  mapping calls of \<^verbatim>\<open>ipc/device_syscalls.rs\<close>): MMIO windows, the
  framebuffer, DMA regions with their exclusive owner, and their release.
  Port writes and messages on the serial line are left out.
\<close>

section \<open>Mapping a physical range\<close>

definition page_align_up :: "u64 \<Rightarrow> u64 option" where
  "page_align_up n = map_option (\<lambda>e. e AND NOT (FRAME_SIZE - 1)) (checked_add n (FRAME_SIZE - 1))"

definition page_count :: "u64 \<Rightarrow> nat" where
  "page_count len = unat len div unat FRAME_SIZE"

fun unmap_pages :: "u64 \<Rightarrow> u64 \<Rightarrow> nat \<Rightarrow> page_mem \<Rightarrow> page_mem" where
  "unmap_pages root va 0 m = m"
| "unmap_pages root va (Suc n) m = unmap_pages root (va + FRAME_SIZE) n (fst (unmap_page_in_root m root va))"

fun prune_pages :: "u64 \<Rightarrow> u64 \<Rightarrow> nat \<Rightarrow> page_mem \<times> frame_allocator \<Rightarrow> page_mem \<times> frame_allocator" where
  "prune_pages root va 0 s = s"
| "prune_pages root va (Suc n) (m, a) =
    (case prune_empty_user_page_tables m a root va of
       (s, _) \<Rightarrow> prune_pages root (va + FRAME_SIZE) n (rc_mem s, rc_alloc s))"

definition rollback_pages :: "u64 \<Rightarrow> u64 \<Rightarrow> nat \<Rightarrow> page_mem \<times> frame_allocator \<Rightarrow> page_mem \<times> frame_allocator" where
  "rollback_pages root va n s = prune_pages root va n (unmap_pages root va n (fst s), snd s)"

text \<open>The pages mapped so far are counted; a failure takes all of them back.\<close>

fun map_pages :: "u64 \<Rightarrow> u64 \<Rightarrow> u64 \<Rightarrow> u64 \<Rightarrow> nat \<Rightarrow> nat \<Rightarrow> page_mem \<times> frame_allocator
    \<Rightarrow> (page_mem \<times> frame_allocator) \<times> bool" where
  "map_pages root flags virtual_base physical_base mapped 0 s = (s, True)"
| "map_pages root flags virtual_base physical_base mapped (Suc n) (m, a) =
    (case map_page_in_root m a root (virtual_base + of_nat mapped * FRAME_SIZE) (physical_base + of_nat mapped * FRAME_SIZE) flags of
       (m, a, Inl _) \<Rightarrow> (rollback_pages root virtual_base mapped (m, a), False)
     | (m, a, Inr _) \<Rightarrow> map_pages root flags virtual_base physical_base (Suc mapped) n (m, a))"

definition set_memory :: "page_mem \<times> frame_allocator \<Rightarrow> kernel \<Rightarrow> kernel" where
  "set_memory s k = k\<lparr>kn_mc := (kn_mc k)\<lparr>mc_tables := fst s\<rparr>, kn_alloc := Some (snd s)\<rparr>"

definition map_current_process_physical_range :: "u64 \<Rightarrow> u64 \<Rightarrow> u64 \<Rightarrow> u64 \<Rightarrow> kernel \<Rightarrow> kernel \<times> (ipc_error, unit) result" where
  "map_current_process_physical_range virtual_base physical_base len flags k =
    (if len = 0 \<or> len mod FRAME_SIZE \<noteq> 0 \<or> virtual_base mod FRAME_SIZE \<noteq> 0 \<or> physical_base mod FRAME_SIZE \<noteq> 0
     then (k, Inl BadCapability)
     else case checked_add virtual_base len of
            None \<Rightarrow> (k, Inl BadCapability)
          | Some virtual_end \<Rightarrow>
             if USER_CANONICAL_LIMIT \<le> virtual_base \<or> USER_CANONICAL_LIMIT < virtual_end \<or>
                checked_add physical_base len = None \<or> mc_hhdm (kn_mc k) = None
             then (k, Inl BadCapability)
             else case (current_process (rt_processes (kn_rt k)), kn_alloc k) of
                    (Some process, Some a) \<Rightarrow>
                      let root = ctx_cr3 (proc_context process)
                      in if user_range_is_unmapped (mc_tables (kn_mc k)) root virtual_base len \<noteq> Inr True
                         then (k, Inl BadCapability)
                         else (case map_pages root flags virtual_base physical_base 0 (page_count len) (mc_tables (kn_mc k), a) of
                                 (s, ok) \<Rightarrow> (set_memory s k, if ok then Inr () else Inl BadCapability))
                  | _ \<Rightarrow> (k, Inl BadCapability))"

definition unmap_current_process_physical_range :: "u64 \<Rightarrow> u64 \<Rightarrow> kernel \<Rightarrow> kernel" where
  "unmap_current_process_physical_range virtual_base len k =
    (case (mc_hhdm (kn_mc k), current_process (rt_processes (kn_rt k)), kn_alloc k) of
       (Some _, Some process, Some a) \<Rightarrow>
         set_memory (rollback_pages (ctx_cr3 (proc_context process)) virtual_base (page_count len) (mc_tables (kn_mc k), a)) k
     | _ \<Rightarrow> k)"

definition USER_DEVICE_MAPPING_STRIDE :: u64 where "USER_DEVICE_MAPPING_STRIDE = push_bit 30 1"
definition USER_MMIO_MAPPING_BASE :: u64 where "USER_MMIO_MAPPING_BASE = 0x500000000000"
definition USER_DMA_MAPPING_BASE :: u64 where "USER_DMA_MAPPING_BASE = 0x600000000000"
definition USER_FRAMEBUFFER_MAPPING_BASE :: u64 where "USER_FRAMEBUFFER_MAPPING_BASE = 0x700000000000"

definition device_user_mapping_base :: "u64 \<Rightarrow> object_id \<Rightarrow> u64 \<Rightarrow> (ipc_error, u64) result" where
  "device_user_mapping_base window_base object len =
    (if len = 0 \<or> USER_DEVICE_MAPPING_STRIDE < len then Inl BadCapability
     else case checked_mul object USER_DEVICE_MAPPING_STRIDE of
            None \<Rightarrow> Inl BadCapability
          | Some offset \<Rightarrow>
             (case checked_add window_base offset of
                None \<Rightarrow> Inl BadCapability
              | Some base \<Rightarrow>
                 (case checked_add base len of
                    None \<Rightarrow> Inl BadCapability
                  | Some e \<Rightarrow>
                     if USER_CANONICAL_LIMIT \<le> base \<or> USER_CANONICAL_LIMIT < e then Inl BadCapability else Inr base)))"

section \<open>MMIO windows and the framebuffer\<close>

text \<open>Both map whole pages around the device range and answer the address of its first byte.\<close>

definition map_device :: "u64 \<Rightarrow> object_id \<Rightarrow> u64 \<Rightarrow> u64 \<Rightarrow> kernel \<Rightarrow> kernel \<times> (ipc_error, u64) result" where
  "map_device window object base len k =
    (let physical_base = page_align_down base; page_offset = base - physical_base
     in case Option.bind (checked_add len page_offset) page_align_up of
          None \<Rightarrow> (k, Inl BadCapability)
        | Some map_len \<Rightarrow>
           (case device_user_mapping_base window object map_len of
              Inl e \<Rightarrow> (k, Inl e)
            | Inr virtual_base \<Rightarrow>
               (case checked_add virtual_base page_offset of
                  None \<Rightarrow> (k, Inl BadCapability)
                | Some user_base \<Rightarrow>
                   (case map_current_process_physical_range virtual_base physical_base map_len flags_user_device k of
                      (k, Inl e) \<Rightarrow> (k, Inl e)
                    | (k, Inr _) \<Rightarrow> (k, Inr user_base)))))"

definition mmio_map :: "u64 \<Rightarrow> kernel \<Rightarrow> kernel \<times> (ipc_error, u64) result" where
  "mmio_map cap_slot k =
    (case mmio_region_from_cap (kn_rt k) cap_slot RIGHT_MAP of
       Inl e \<Rightarrow> (k, Inl e)
     | Inr region \<Rightarrow> map_device USER_MMIO_MAPPING_BASE (mmio_id region) (mmio_base region) (mmio_length region) k)"

definition FRAMEBUFFER_INFO_BYTES :: nat where "FRAMEBUFFER_INFO_BYTES = 64"

definition framebuffer_record :: "framebuffer_object \<Rightarrow> u64 \<Rightarrow> u8 list" where
  "framebuffer_record fb user_base =
    (let info = write_u64_le (replicate FRAMEBUFFER_INFO_BYTES 0) 0 user_base;
         info = write_u64_le info 8 (fb_length fb);
         info = write_u64_le info 16 (fb_width fb);
         info = write_u64_le info 24 (fb_height fb);
         info = write_u64_le info 32 (fb_pitch fb);
         info = write_u64_le info 40 (ucast (fb_bpp fb));
         info = write_u64_le info 48 (ucast (fb_red_mask_size fb) OR push_bit 8 (ucast (fb_red_mask_shift fb)) OR
           push_bit 16 (ucast (fb_green_mask_size fb)) OR push_bit 24 (ucast (fb_green_mask_shift fb)) OR
           push_bit 32 (ucast (fb_blue_mask_size fb)) OR push_bit 40 (ucast (fb_blue_mask_shift fb)))
     in write_u64_le info 56 0)"

definition write_framebuffer_info :: "u64 \<Rightarrow> nat \<Rightarrow> framebuffer_object \<Rightarrow> u64 \<Rightarrow> kernel \<Rightarrow> kernel \<times> (ipc_error, nat) result" where
  "write_framebuffer_info destination max_len fb user_base k =
    (if max_len < FRAMEBUFFER_INFO_BYTES \<or> isl (validate_user_buffer (kn_mc k) destination FRAMEBUFFER_INFO_BYTES WriteAccess)
     then (k, Inl InvalidUserBuffer)
     else copy_result k destination (framebuffer_record fb user_base))"

definition framebuffer_info :: "u64 \<Rightarrow> u64 \<Rightarrow> nat \<Rightarrow> kernel \<Rightarrow> kernel \<times> (ipc_error, nat) result" where
  "framebuffer_info cap_slot destination max_len k =
    (case framebuffer_from_cap (kn_rt k) cap_slot RIGHT_READ of
       Inl e \<Rightarrow> (k, Inl e)
     | Inr fb \<Rightarrow> write_framebuffer_info destination max_len fb 0 k)"

definition framebuffer_map :: "u64 \<Rightarrow> u64 \<Rightarrow> nat \<Rightarrow> kernel \<Rightarrow> kernel \<times> (ipc_error, nat) result" where
  "framebuffer_map cap_slot destination max_len k =
    (case framebuffer_from_cap (kn_rt k) cap_slot (RIGHT_WRITE OR RIGHT_MAP) of
       Inl e \<Rightarrow> (k, Inl e)
     | Inr fb \<Rightarrow>
        (case map_device USER_FRAMEBUFFER_MAPPING_BASE (fb_id fb) (fb_physical_base fb) (fb_length fb) k of
           (k, Inl e) \<Rightarrow> (k, Inl e)
         | (k, Inr user_base) \<Rightarrow> write_framebuffer_info destination max_len fb user_base k))"

section \<open>DMA regions\<close>

definition DMA_MAPPING_INFO_BYTES :: nat where "DMA_MAPPING_INFO_BYTES = 24"

definition write_dma_mapping_info :: "u8 list \<Rightarrow> dma_user_mapping \<Rightarrow> u8 list" where
  "write_dma_mapping_info buffer mapping =
    write_u64_le (write_u64_le (write_u64_le buffer 0 (dm_virtual_base mapping)) 8 (dm_physical_base mapping)) 16 (dm_length mapping)"

definition dma_region_at :: "object_table \<Rightarrow> nat \<Rightarrow> dma_region_object" where
  "dma_region_at t j = (case ot_objects t ! j of Some (DmaRegion d) \<Rightarrow> d | _ \<Rightarrow> undefined)"

definition set_dma_region :: "nat \<Rightarrow> dma_region_object \<Rightarrow> runtime_state \<Rightarrow> runtime_state" where
  "set_dma_region j d rt = rt\<lparr>rt_objects := set_slot (rt_objects rt) j (DmaRegion d)\<rparr>"

definition claim_dma_region :: "object_id \<Rightarrow> process_id \<Rightarrow> runtime_state \<Rightarrow> runtime_state \<times> (ipc_error, unit) result" where
  "claim_dma_region region_id own rt =
    (case get_dma_region (rt_objects rt) region_id of
       None \<Rightarrow> (rt, Inl BadCapability)
     | Some region \<Rightarrow>
        if dma_mapped_by region \<noteq> process_id_empty \<and> dma_mapped_by region \<noteq> own then (rt, Inl BadCapability)
        else if dma_mapped_by region = process_id_empty
        then (case get_dma_region_mut (rt_objects rt) region_id of
                None \<Rightarrow> (rt, Inl BadCapability)
              | Some j \<Rightarrow>
                 (let d = dma_region_at (rt_objects rt) j
                  in (set_dma_region j (d\<lparr>dma_mapped_by := own, dma_map_count := saturating_add (dma_map_count d) 1\<rparr>) rt, Inr ())))
        else (rt, Inr ()))"

definition release_dma_region_claim :: "object_id \<Rightarrow> process_id \<Rightarrow> runtime_state \<Rightarrow> runtime_state" where
  "release_dma_region_claim region_id own rt =
    (case get_dma_region_mut (rt_objects rt) region_id of
       None \<Rightarrow> rt
     | Some j \<Rightarrow>
        (let d = dma_region_at (rt_objects rt) j
         in if dma_mapped_by d = own
            then set_dma_region j (d\<lparr>dma_mapped_by := process_id_empty, dma_release_count := saturating_add (dma_release_count d) 1\<rparr>) rt
            else rt))"

text \<open>The write goes through the direct map, so it reaches the physical bytes of the range.\<close>

definition zero_dma_physical_range :: "u64 \<Rightarrow> u64 \<Rightarrow> machine \<Rightarrow> machine \<times> bool" where
  "zero_dma_physical_range physical_base len m =
    (if len = 0 then (m, True)
     else case mc_hhdm m of
            None \<Rightarrow> (m, False)
          | Some hhdm_offset \<Rightarrow>
             (case checked_add hhdm_offset physical_base of
                None \<Rightarrow> (m, False)
              | Some _ \<Rightarrow> (m\<lparr>mc_bytes := (\<lambda>a. if a - physical_base < len then 0 else mc_bytes m a)\<rparr>, True)))"

text \<open>The part of the mapping call after the claim; every failure gives the claim back.\<close>

definition map_claimed_dma :: "dma_region_object \<Rightarrow> process_id \<Rightarrow> u64 \<Rightarrow> u64 \<Rightarrow> u64 \<Rightarrow> kernel \<Rightarrow> kernel \<times> (ipc_error, unit) result" where
  "map_claimed_dma region own virtual_base map_len destination k =
    (let release = on_rt (release_dma_region_claim (dma_id region) own);
         undo = (\<lambda>k. release (unmap_current_process_physical_range virtual_base map_len k));
         mapping = \<lparr>dm_region = dma_id region, dm_virtual_base = virtual_base, dm_physical_base = dma_base region,
                    dm_length = dma_length region\<rparr>
     in case zero_dma_physical_range (dma_base region) (dma_length region) (kn_mc k) of
          (m, False) \<Rightarrow> (release (k\<lparr>kn_mc := m\<rparr>), Inl BadCapability)
        | (m, True) \<Rightarrow>
           (case map_current_process_physical_range virtual_base (dma_base region) map_len (flags_user True False) (k\<lparr>kn_mc := m\<rparr>) of
              (k, Inl e) \<Rightarrow> (release k, Inl e)
            | (k, Inr _) \<Rightarrow>
               (case copy_result k destination (write_dma_mapping_info (replicate DMA_MAPPING_INFO_BYTES 0) mapping) of
                  (k, Inl _) \<Rightarrow> (undo k, Inl InvalidUserBuffer)
                | (k, Inr _) \<Rightarrow>
                   (case current_process_mut (rt_processes (kn_rt k)) of
                      None \<Rightarrow> (undo k, Inl BadCapability)
                    | Some i \<Rightarrow>
                       (case add_dma_mapping (kn_processes k ! i) mapping of
                          (_, Inl _) \<Rightarrow> (undo k, Inl BadCapability)
                        | (p, Inr _) \<Rightarrow> (on_rt (update_process_at i (\<lambda>_. p)) k, Inr ()))))))"

definition dma_map :: "u64 \<Rightarrow> u64 \<Rightarrow> nat \<Rightarrow> kernel \<Rightarrow> kernel \<times> (ipc_error, unit) result" where
  "dma_map cap_slot destination max_len k =
    (if max_len < DMA_MAPPING_INFO_BYTES then (k, Inl InvalidUserBuffer)
     else case dma_region_from_cap (kn_rt k) cap_slot (RIGHT_READ OR RIGHT_WRITE OR RIGHT_MAP) of
            Inl e \<Rightarrow> (k, Inl e)
          | Inr region \<Rightarrow>
             (case current_process (rt_processes (kn_rt k)) of
                None \<Rightarrow> (k, Inl BadCapability)
              | Some process \<Rightarrow>
                 if destination AND 7 \<noteq> 0 \<or> isl (validate_user_buffer (kn_mc k) destination DMA_MAPPING_INFO_BYTES WriteAccess)
                 then (k, Inl InvalidUserBuffer)
                 else case page_align_up (dma_length region) of
                   None \<Rightarrow> (k, Inl BadCapability)
                 | Some map_len \<Rightarrow>
                    (case device_user_mapping_base USER_DMA_MAPPING_BASE (dma_id region) map_len of
                       Inl e \<Rightarrow> (k, Inl e)
                     | Inr virtual_base \<Rightarrow>
                        (case dma_mapping process (dma_id region) of
                           Some mapping \<Rightarrow>
                             map_prod id (map_sum id (\<lambda>_. ()))
                               (copy_result k destination (write_dma_mapping_info (replicate DMA_MAPPING_INFO_BYTES 0) mapping))
                         | None \<Rightarrow>
                            (case claim_dma_region (dma_id region) (proc_pid process) (kn_rt k) of
                               (rt, Inl e) \<Rightarrow> (k\<lparr>kn_rt := rt\<rparr>, Inl e)
                             | (rt, Inr _) \<Rightarrow> map_claimed_dma region (proc_pid process) virtual_base map_len destination (k\<lparr>kn_rt := rt\<rparr>))))))"

section \<open>Release\<close>

definition release_dma_mapping :: "process_id \<Rightarrow> dma_user_mapping \<Rightarrow> kernel \<Rightarrow> kernel" where
  "release_dma_mapping own mapping k =
    on_rt (release_dma_region_claim (dm_region mapping) own)
      (k\<lparr>kn_mc := fst (zero_dma_physical_range (dm_physical_base mapping) (dm_length mapping) (kn_mc k))\<rparr>)"

definition release_dma_slot :: "process_id \<Rightarrow> nat \<Rightarrow> kernel \<Rightarrow> kernel" where
  "release_dma_slot pid slot k =
    (case process_mut (rt_processes (kn_rt k)) pid of
       None \<Rightarrow> k
     | Some i \<Rightarrow>
        (case take_dma_mapping (kn_processes k ! i) slot of
           (p, None) \<Rightarrow> on_rt (update_process_at i (\<lambda>_. p)) k
         | (p, Some mapping) \<Rightarrow> release_dma_mapping pid mapping (on_rt (update_process_at i (\<lambda>_. p)) k)))"

definition release_process_dma_mappings :: "process_id \<Rightarrow> kernel \<Rightarrow> kernel" where
  "release_process_dma_mappings pid k = fold (release_dma_slot pid) [0 ..< MAX_OBJECTS] k"

definition release_process_kernel_virtio_ownership :: "process_id \<Rightarrow> kernel \<Rightarrow> kernel" where
  "release_process_kernel_virtio_ownership pid k =
    (let failed = (\<lambda>q. q\<lparr>vq_last_error := ''owner-release''\<rparr>);
         rng = kn_rng k; net = kn_net k;
         rng' = rng\<lparr>rng_initialized := False, rng_owner := process_id_empty, rng_reset_count := saturating_add (rng_reset_count rng) 1,
                    rng_last_error := ''owner-release'', rng_queue := failed (rng_queue rng)\<rparr>;
         net' = net\<lparr>net_initialized := False, net_rx_posted := False, net_owner := process_id_empty,
                    net_reset_count := saturating_add (net_reset_count net) 1, net_last_error := ''owner-release'',
                    net_rx := failed (net_rx net), net_tx := failed (net_tx net)\<rparr>
     in k\<lparr>kn_rng := (if rng_owner rng = pid then rng' else rng), kn_net := (if net_owner net = pid then net' else net)\<rparr>)"

definition release_all_runtime_dma_mappings :: "kernel \<Rightarrow> kernel" where
  "release_all_runtime_dma_mappings k = fold (\<lambda>p. release_process_dma_mappings (proc_pid p)) (kn_processes k) k"

definition release_process_virtio_ownership :: "process_id \<Rightarrow> kernel \<Rightarrow> kernel" where
  "release_process_virtio_ownership pid k =
    on_rt (\<lambda>rt. rt\<lparr>rt_objects := (rt_objects rt)\<lparr>ot_objects := map (\<lambda>x. case x of
          Some (VirtioDevice d) \<Rightarrow> Some (VirtioDevice (if vio_owner d = pid then d\<lparr>vio_owner := process_id_empty\<rparr> else d))
        | _ \<Rightarrow> x) (ot_objects (rt_objects rt))\<rparr>\<rparr>)
      (release_process_kernel_virtio_ownership pid k)"

section \<open>Mounts of a process\<close>

definition remove_vfs_mount_id :: "object_id \<Rightarrow> runtime_ids \<Rightarrow> runtime_ids" where
  "remove_vfs_mount_id i ids =
    (let tbl = map (\<lambda>j. if j < ri_vfs_mount_count ids \<and> ri_vfs_mount_ids ids ! j = Some i then None else ri_vfs_mount_ids ids ! j)
           [0 ..< length (ri_vfs_mount_ids ids)]
     in ids\<lparr>ri_vfs_mount_ids := tbl, ri_vfs_mount_count := trim_count (\<lambda>n. tbl ! n = None) (ri_vfs_mount_count ids)\<rparr>)"

definition owned_bind_mount :: "bool \<Rightarrow> process_id \<Rightarrow> kernel_object option \<Rightarrow> bool" where
  "owned_bind_mount dynamic own x \<longleftrightarrow>
    (case x of Some (VfsMount v) \<Rightarrow> vm_dynamic v = dynamic \<and> vm_owner v = own \<and> vm_flags v AND VFS_MOUNT_BIND \<noteq> 0 | _ \<Rightarrow> False)"

definition remove_owned_bind_mounts :: "bool \<Rightarrow> process_id \<Rightarrow> runtime_state \<Rightarrow> runtime_state" where
  "remove_owned_bind_mounts dynamic own rt =
    (let objs = ot_objects (rt_objects rt); gone = filter (owned_bind_mount dynamic own) objs
     in rt\<lparr>rt_objects := trim_empty_tail ((rt_objects rt)\<lparr>ot_objects :=
             map (\<lambda>x. if owned_bind_mount dynamic own x then None else x) objs\<rparr>),
           rt_ids := fold (\<lambda>x. remove_vfs_mount_id (kernel_object_id (the x))) gone (rt_ids rt)\<rparr>)"

definition remove_owned_dynamic_bind_mounts :: "process_id \<Rightarrow> runtime_state \<Rightarrow> runtime_state" where
  "remove_owned_dynamic_bind_mounts own rt = remove_owned_bind_mounts True own rt"

definition remove_owned_declared_bind_mounts :: "process_id \<Rightarrow> runtime_state \<Rightarrow> runtime_state" where
  "remove_owned_declared_bind_mounts own rt = remove_owned_bind_mounts False own rt"

section \<open>Reaping a process\<close>

definition clear_context :: "process \<Rightarrow> process" where
  "clear_context p = p\<lparr>proc_context := \<lparr>ctx_cr3 = 0, ctx_entry = 0, ctx_stack_top = 0\<rparr>, proc_context_reaped := True\<rparr>"

text \<open>Everything of a process but its page tables.\<close>

definition release_process_resources :: "process_id \<Rightarrow> kernel \<Rightarrow> kernel" where
  "release_process_resources pid k =
    (let k = release_process_dma_mappings pid (release_process_virtio_ownership pid k)
     in on_rt (\<lambda>rt.
          let rt = (case process_mut (rt_processes rt) pid of Some i \<Rightarrow> update_process_at i clear_file_handles rt | None \<Rightarrow> rt);
              rt = on_vfs (\<lambda>v. release_process_file_descriptions v pid) rt
          in release_unreferenced_derived_vfs_roots
               (remove_owned_declared_bind_mounts pid (remove_owned_dynamic_bind_mounts pid rt))) k)"

definition reap_address_space :: "process_id \<Rightarrow> u64 \<Rightarrow> kernel \<Rightarrow> kernel \<times> (ipc_error, unit) result" where
  "reap_address_space pid cr3 k =
    (case (mc_hhdm (kn_mc k), kn_alloc k) of
       (Some _, Some a) \<Rightarrow>
        (case reclaim_user_address_space (mc_tables (kn_mc k)) a cr3 of
           (s, Inl _) \<Rightarrow> (set_memory (rc_mem s, rc_alloc s) k, Inl BadCapability)
         | (s, Inr _) \<Rightarrow>
            (on_rt (\<lambda>rt. case process_mut (rt_processes rt) pid of Some i \<Rightarrow> update_process_at i clear_context rt | None \<Rightarrow> rt)
               (set_memory (rc_mem s, rc_alloc s) k), Inr ()))
     | _ \<Rightarrow> (k, Inl BadCapability))"

definition reap_process_context :: "process_id \<Rightarrow> kernel \<Rightarrow> kernel \<times> (ipc_error, unit) result" where
  "reap_process_context pid k =
    (let k = on_rt (\<lambda>rt. fst (cancel_blocked_receivers_for_endpoint_owner pid STATUS_BAD_CAPABILITY rt)) k;
         k = on_rt (\<lambda>rt. rt\<lparr>rt_objects := fst (remove_owned_endpoints (rt_objects rt) pid)\<rparr>) k
     in case process_of (rt_processes (kn_rt k)) pid of
          None \<Rightarrow> (k, Inl BadCapability)
        | Some process \<Rightarrow>
           let k = release_process_resources pid k; cr3 = ctx_cr3 (proc_context process)
           in if proc_context_reaped process \<or> cr3 = 0 then (k, Inr ()) else reap_address_space pid cr3 k)"

end
