(* ===== verification/Process_Syscalls.thy ===== *)
theory Process_Syscalls
  imports Device_Memory
begin

text \<open>
  The end of a process, and the calls that give up the processor
  (\<^verbatim>\<open>ipc/process_syscalls.rs\<close>): exit, fault, kill, wait, yield and
  preemption, with everything a dead process leaves behind.  The creation of
  processes from the boot configuration is not modelled; on a clean halt the
  generation is also recorded as good, which the boot manager does.
\<close>

datatype schedule_result = Continue | Switched | Halt bool

definition VERTEX_STATE_PROCESS_NAME :: string where "VERTEX_STATE_PROCESS_NAME = ''vertex-state''"
definition BLOCK_DRIVER_PROCESS_NAME :: string where "BLOCK_DRIVER_PROCESS_NAME = ''block-driver''"

section \<open>Ending a process\<close>

definition mark_exited :: "u64 \<Rightarrow> process \<Rightarrow> process" where
  "mark_exited status p =
    clear_file_handles (p\<lparr>proc_state := Exited, proc_has_saved_frame := False, proc_exit_status := status, proc_has_exited := True\<rparr>)"

definition abort_transactions_of :: "string \<Rightarrow> runtime_state \<Rightarrow> runtime_state" where
  "abort_transactions_of name rt =
    (let rt = (if name = VERTEX_STATE_PROCESS_NAME then abort_vfs_state_transactions STATUS_VFS_UNSUPPORTED rt else rt)
     in if name = BLOCK_DRIVER_PROCESS_NAME then abort_vertexfs_sync_transactions STATUS_VFS_UNSUPPORTED rt else rt)"

text \<open>What exit, fault and kill have in common; the lifecycle event is recorded by the first two.\<close>

definition end_process :: "nat \<Rightarrow> u64 \<Rightarrow> (string \<times> service_lifecycle_state) option \<Rightarrow> runtime_state \<Rightarrow> runtime_state" where
  "end_process i status event rt =
    (let p = pt_processes (rt_processes rt) ! i;
         rt = update_process_at i (mark_exited status) rt;
         rt = on_vfs (\<lambda>v. release_process_file_descriptions v (proc_pid p)) rt;
         rt = fst (cancel_blocked_receivers_for_endpoint_owner (proc_pid p) STATUS_BAD_CAPABILITY rt);
         rt = release_unreferenced_derived_vfs_roots rt;
         rt = (case event of Some (service, st) \<Rightarrow> record_service_lifecycle rt service st (Some status) | None \<Rightarrow> rt)
     in abort_transactions_of (proc_name p) rt)"

definition exit_event :: "u64 \<Rightarrow> process \<Rightarrow> (string \<times> service_lifecycle_state) option" where
  "exit_event status p =
    (if proc_pid p = 1 then None else Some (proc_name p, if status = 0 then SvcExited else SvcFailed))"

definition exit_current_process :: "u64 \<Rightarrow> kernel \<Rightarrow> (kernel \<times> schedule_result) option" where
  "exit_current_process status k =
    (case current_process_mut (rt_processes (kn_rt k)) of
       None \<Rightarrow>
        (let k = on_rt release_unreferenced_derived_vfs_roots k
         in if status \<noteq> 0 then Some (k, Halt False)
            else case schedule_next_ready k of
                   None \<Rightarrow> None
                 | Some (k, True) \<Rightarrow> Some (k, Switched)
                 | Some (k, False) \<Rightarrow> Some (k, Halt (all_exited_successfully (rt_processes (kn_rt k)))))
     | Some i \<Rightarrow>
        (let p = kn_processes k ! i; k = on_rt (end_process i status (exit_event status p)) k
         in if proc_pid p = 1 \<and> status \<noteq> 0 then Some (k, Halt False)
            else case schedule_next_ready k of
                   None \<Rightarrow> None
                 | Some (k, True) \<Rightarrow> Some (fst (reap_process_context (proc_pid p) k), Switched)
                 | Some (k, False) \<Rightarrow> Some (k, Halt (all_exited_successfully (rt_processes (kn_rt k))))))"

definition fault_current_process :: "kernel \<Rightarrow> (kernel \<times> schedule_result) option" where
  "fault_current_process k =
    (case current_process_mut (rt_processes (kn_rt k)) of
       None \<Rightarrow> Some (k, Halt False)
     | Some i \<Rightarrow>
        (let p = kn_processes k ! i;
             k = on_rt (end_process i STATUS_PROCESS_FAULT (if proc_pid p = 1 then None else Some (proc_name p, SvcFailed))) k
         in if proc_pid p = 1 then Some (k, Halt False)
            else case schedule_next_ready k of
                   None \<Rightarrow> None
                 | Some (k, True) \<Rightarrow> Some (fst (reap_process_context (proc_pid p) k), Switched)
                 | Some (k, False) \<Rightarrow> Some (k, Halt (all_exited_successfully (rt_processes (kn_rt k))))))"

definition kill_process :: "u64 \<Rightarrow> process_id \<Rightarrow> kernel \<Rightarrow> kernel \<times> (ipc_error, unit) result" where
  "kill_process cap_slot pid k =
    (case process_control_from_cap (kn_rt k) cap_slot RIGHT_KILL of
       Inl e \<Rightarrow> (k, Inl e)
     | Inr _ \<Rightarrow>
        if (case current_process (rt_processes (kn_rt k)) of Some p \<Rightarrow> proc_pid p = pid | None \<Rightarrow> False)
        then (k, Inl BadCapability)
        else case process_mut (rt_processes (kn_rt k)) pid of
               None \<Rightarrow> (k, Inl BadCapability)
             | Some i \<Rightarrow>
                if proc_pid (kn_processes k ! i) = 1 then (k, Inl BadCapability)
                else reap_process_context pid (on_rt (end_process i (u64_max - 11) None) k))"

definition process_wait :: "u64 \<Rightarrow> process_id \<Rightarrow> kernel \<Rightarrow> kernel \<times> (ipc_error, u64) result" where
  "process_wait cap_slot pid k =
    (let k = fst (wake_timed k)
     in case process_control_from_cap (kn_rt k) cap_slot RIGHT_WAIT of
          Inl e \<Rightarrow> (k, Inl e)
        | Inr _ \<Rightarrow>
           (case process_of (rt_processes (kn_rt k)) pid of
              None \<Rightarrow> (k, Inl BadCapability)
            | Some process \<Rightarrow>
               if proc_state process = Exited
               then map_prod id (map_sum id (\<lambda>_. proc_exit_status process)) (reap_process_context pid k)
               else (k, Inr (u64_max - 8))))"

definition process_attempt :: "kernel \<Rightarrow> (ipc_error, u64) result" where
  "process_attempt k =
    (case current_process (rt_processes (kn_rt k)) of Some p \<Rightarrow> Inr (proc_start_count p) | None \<Rightarrow> Inl BadCapability)"

section \<open>Giving up the processor\<close>

definition yield_current_process :: "kernel \<Rightarrow> (kernel \<times> schedule_result) option" where
  "yield_current_process k =
    (case on_current (suspend (kn_frame k) Ready) k of
       None \<Rightarrow> Some (k, Halt False)
     | Some k \<Rightarrow>
        (case schedule_next_ready_excluding_current k of
           None \<Rightarrow> None
         | Some (k, True) \<Rightarrow> Some (k, Switched)
         | Some (k, False) \<Rightarrow> Some (resume_current k, Continue)))"

definition preempt_current_process :: "kernel \<Rightarrow> (kernel \<times> schedule_result) option" where
  "preempt_current_process k =
    (let k = fst (wake_timed k)
     in if ready_index False k = None then Some (k, Continue)
        else case current_process (rt_processes (kn_rt k)) of
               None \<Rightarrow> Some (k, Halt False)
             | Some p \<Rightarrow>
                if proc_state p \<noteq> Running then Some (k, Continue)
                else (case on_current (suspend (kn_frame k) Ready) k of
                        None \<Rightarrow> Some (k, Halt False)
                      | Some k \<Rightarrow>
                         (case schedule_next_ready_no_wait_excluding_current k of
                            None \<Rightarrow> None
                          | Some (k, True) \<Rightarrow> Some (k, Switched)
                          | Some (k, False) \<Rightarrow> Some (resume_current k, Continue))))"

text \<open>Interrupts that arrive while a process runs preempt it.\<close>

fun user_interrupt :: "interrupt \<Rightarrow> kernel \<Rightarrow> (kernel \<times> schedule_result) option" where
  "user_interrupt TimerTick k = preempt_current_process k"
| "user_interrupt (LegacyIrq line) k = preempt_current_process (on_rt (record_hardware_irq line) k)"

end
