(* ===== verification/Kernel_Steps.thy ===== *)
theory Kernel_Steps
  imports Service_Waits Process_Syscalls Cap_Steps
begin

text \<open>
  The kernel as a step relation: the system calls, interrupts and faults of a
  running machine.  Every step leaves exactly one process running, the current
  one, with its own page tables active.
\<close>

section \<open>Ending processes keeps the others\<close>

lemma cancel_waiter_view: "rt_view (fst (cancel_blocked_endpoint_waiter_at rt i status)) = rt_view rt"
proof (cases "blocked_on_endpoint (proc_state (pt_processes (rt_processes rt) ! i))")
  case True
  then have "fst (cancel_blocked_endpoint_waiter_at rt i status) = update_process_at i (make_ready status) rt"
    by (auto simp: cancel_blocked_endpoint_waiter_at_def update_process_at_def make_ready_def [abs_def] blocked_on_endpoint_def
        split: process_state.splits)
  then show ?thesis
    using True by (auto simp: blocked_on_endpoint_def intro!: update_process_view make_ready_view split: process_state.splits)
next
  case False
  then show ?thesis
    by (auto simp: cancel_blocked_endpoint_waiter_at_def blocked_on_endpoint_def split: process_state.split)
qed

lemma cancel_waiters_view: "rt_view (fst (cancel_waiters c status rt)) = rt_view rt"
proof -
  let ?f = "\<lambda>(rt, canceled) index. if c rt (pt_processes (rt_processes rt) ! index)
        then case cancel_blocked_endpoint_waiter_at rt index status of
               (rt, True) \<Rightarrow> (rt, canceled + 1) | (rt, False) \<Rightarrow> (rt, canceled)
        else (rt, canceled)"
  have step: "rt_view (fst (?f (s, n) i)) = rt_view s" for s i and n :: nat
    using cancel_waiter_view [of s i status] by (auto split: prod.splits bool.splits)
  have "rt_view (fst (foldl ?f (s, n) is)) = rt_view s" for s and n :: nat and "is" :: "nat list"
  proof (induction "is" arbitrary: s n)
    case (Cons i "is")
    obtain s' n' where "?f (s, n) i = (s', n')"
      by fastforce
    then show ?case
      using Cons.IH [of s' n'] step [of s n i] by simp
  qed simp
  then show ?thesis
    by (simp add: cancel_waiters_def)
qed

lemma release_roots_view: "rt_view (release_roots_from index rt) = rt_view rt"
proof (induction index rt rule: release_roots_from.induct)
  case (1 index rt)
  then show ?case
    by (subst release_roots_from.simps) (auto split: option.split prod.split bool.split)
qed

lemma tail_views [simp]:
  "rt_view (fst (cancel_blocked_receivers_for_endpoint_owner own status rt)) = rt_view rt"
  "rt_view (fst (cancel_unauthorized_blocked_receivers status rt)) = rt_view rt"
  "rt_view (release_unreferenced_derived_vfs_roots rt) = rt_view rt"
  by (simp_all add: cancel_blocked_receivers_for_endpoint_owner_def cancel_unauthorized_blocked_receivers_def
      cancel_waiters_view release_unreferenced_derived_vfs_roots_def release_roots_view)

lemma rt_ids_view [simp]: "rt_view (rt\<lparr>rt_ids := ids\<rparr>) = rt_view rt" "rt_view (rt\<lparr>rt_objects := ot, rt_ids := ids\<rparr>) = rt_view rt"
  by (simp_all add: rt_view_def)

lemma drop_requests_view [simp]: "rt_view (drop_kernel_requests e rt) = rt_view rt"
  using update_endpoint_view by (fastforce simp: drop_kernel_requests_def split: option.split prod.split)

lemma abort_state_view: "rt_view (abort_vfs_state_transactions status rt) = rt_view rt"
proof -
  let ?f = "\<lambda>reply p. case proc_state p of
      BlockedOnVfsState waiting _ _ _ _ _ _ _ _ _ \<Rightarrow> if waiting = reply then make_ready status p else p | _ \<Rightarrow> p"
  have "proc_view (?f reply p) = proc_view p" for reply p
    by (auto simp: make_ready_view split: process_state.split)
  then have "rt_view (rt\<lparr>rt_processes := (rt_processes rt)\<lparr>pt_processes := map (?f reply) (pt_processes (rt_processes rt))\<rparr>\<rparr>) = rt_view rt" for rt reply
    by (simp add: rt_view_def table_view_def comp_def)
  then show ?thesis
    by (simp add: abort_vfs_state_transactions_def Let_def split: option.split)
qed

lemma abort_sync_view: "rt_view (abort_vertexfs_sync_transactions status rt) = rt_view rt"
proof -
  have "rt_view (abort_sync_at status reply i rt) = rt_view rt" for reply i rt
    by (auto simp: abort_sync_at_def fail_sync_view split: process_state.split)
  then have "rt_view (fold (abort_sync_at status reply) is rt) = rt_view rt" for reply "is" rt
    by (induction "is" arbitrary: rt) simp_all
  then show ?thesis
    by (simp add: abort_vertexfs_sync_transactions_def Let_def split: option.split)
qed

lemma end_process_view:
  "rt_view (end_process i status event rt) = rt_view (update_process_at i (mark_exited status) rt)"
  by (simp add: end_process_def Let_def abort_transactions_of_def abort_state_view abort_sync_view split: option.split prod.split)

lemma current_runs_at:
  assumes "current_runs k" "current_process_mut (rt_processes (kn_rt k)) = Some i"
  shows "current_at i k" "i < length (kn_processes k)"
    "j < length (kn_processes k) \<Longrightarrow> proc_state (kn_processes k ! j) = Running \<longleftrightarrow> j = i"
proof -
  obtain c where c: "current_at c k" "\<forall>j < length (kn_processes k). proc_state (kn_processes k ! j) = Running \<longleftrightarrow> j = c"
      "pt_inv (rt_processes (kn_rt k))"
    using assms(1) by (auto simp: current_runs_def)
  moreover have "c = i"
    using own_space_current(2) [OF c(3,1)] assms(2) by simp
  ultimately show "current_at i k" "i < length (kn_processes k)"
      "j < length (kn_processes k) \<Longrightarrow> proc_state (kn_processes k ! j) = Running \<longleftrightarrow> j = i"
    by (auto simp: current_at_def)
qed

lemma ended_none_runs:
  assumes "current_runs k" "current_process_mut (rt_processes (kn_rt k)) = Some i"
  shows "none_runs (on_rt (end_process i status event) k)"
    and "proc_state (kn_processes (on_rt (end_process i status event) k) ! i) = Exited"
    and "i < length (kn_processes (on_rt (end_process i status event) k))"
    and "proc_pid (kn_processes (on_rt (end_process i status event) k) ! i) = proc_pid (kn_processes k ! i)"
proof -
  let ?k = "on_rt (update_process_at i (mark_exited status)) k"
  have i: "i < length (kn_processes k)"
    using current_runs_at [OF assms] by simp
  have n: "none_runs ?k"
    using suspended_none_runs [OF assms(1), of "mark_exited status" ?k] assms(2)
    by (simp add: on_current_def mark_exited_def clear_file_handles_def)
  have c: "calm ?k (on_rt (end_process i status event) k)"
    by (simp add: calm_def on_rt_def end_process_view)
  have e: "proc_state (kn_processes ?k ! i) = Exited" "i < length (kn_processes ?k)" "proc_pid (kn_processes ?k ! i) = proc_pid (kn_processes k ! i)"
    using i by (simp_all add: on_rt_def update_process_at_def update_process_def mark_exited_def clear_file_handles_def)
  show "none_runs (on_rt (end_process i status event) k)"
    by (rule calm_none_runs [OF c n])
  show "proc_state (kn_processes (on_rt (end_process i status event) k) ! i) = Exited"
      "i < length (kn_processes (on_rt (end_process i status event) k))"
    using calm_state(2) [OF c e(2)] calm_length [OF c] e by simp_all
  show "proc_pid (kn_processes (on_rt (end_process i status event) k) ! i) = proc_pid (kn_processes k ! i)"
    using calm_pid [OF c e(2)] e(3) by simp
qed

text \<open>The scheduler never picks a process that has ended.\<close>

lemma schedule_leaves_exited:
  assumes "none_runs k" "i < length (kn_processes k)" "proc_state (kn_processes k ! i) = Exited"
    and "schedule_next_ready_inner inc wait k = Some (k', True)"
  shows "current_runs k'" "pt_current (rt_processes (kn_rt k')) \<noteq> Some (proc_pid (kn_processes k ! i))"
proof -
  show runs: "current_runs k'"
    using schedule_outcome [OF assms(1,4)] by (simp add: scheduled_def)
  obtain k2 where k2: "calm k k2" "(k', True) = pick_next inc k2"
    using schedule_picks [OF assms(4)] by blast
  obtain j where j: "ready_index inc k2 = Some j" "k' = switch_to j k2"
    using k2(2) by (auto simp: pick_next_def split: option.splits)
  have "j < length (kn_processes k2)" "proc_state (kn_processes k2 ! j) = Ready"
    using next_ready_first(1) [of "rt_processes (kn_rt k2)" inc j] j(1) by (simp_all add: ready_index_def eligible_index_def)
  moreover have "i < length (kn_processes k2)" "proc_state (kn_processes k2 ! i) = Exited" "proc_pid (kn_processes k2 ! i) = proc_pid (kn_processes k ! i)"
    using calm_state(2) [OF k2(1) assms(2)] calm_length [OF k2(1)] calm_pid [OF k2(1) assms(2)] assms(2,3) by simp_all
  moreover have "pt_inv (rt_processes (kn_rt k2))"
    using calm_none_runs [OF k2(1) assms(1)] by (simp add: none_runs_def own_space_def)
  ultimately have "proc_pid (kn_processes k2 ! j) \<noteq> proc_pid (kn_processes k ! i)"
    by (metis process_index_nth option.inject process_state.distinct)
  then show "pt_current (rt_processes (kn_rt k')) \<noteq> Some (proc_pid (kn_processes k ! i))"
    by (simp add: j(2) switch_to_def Let_def)
qed

section \<open>Reaping another process\<close>

lemma update_other_runs:
  assumes "current_runs k" "process_mut (rt_processes (kn_rt k)) pid = Some j" "pt_current (rt_processes (kn_rt k)) \<noteq> Some pid"
    and f: "\<And>p. proc_pid (f p) = proc_pid p" "\<And>p. proc_state (f p) = Running \<Longrightarrow> proc_state p = Running"
  shows "current_runs (on_rt (update_process_at j f) k)"
proof -
  obtain i where i: "current_at i k" "pt_inv (rt_processes (kn_rt k))"
      "\<And>n. n < length (kn_processes k) \<Longrightarrow> proc_state (kn_processes k ! n) = Running \<longleftrightarrow> n = i"
    using assms(1) by (auto simp: current_runs_def)
  have "j < length (kn_processes k)" "proc_pid (kn_processes k ! j) = pid"
    using assms(2) by (auto simp: process_mut_def process_index_def first_index_Some)
  then have "j \<noteq> i"
    using i(1) assms(3) by (auto simp: current_at_def)
  have "current_at i (on_rt (update_process_at j f) k)"
    using i(1) \<open>j \<noteq> i\<close> by (simp add: current_at_def on_rt_def update_process_at_def update_process_def)
  moreover have "pt_inv (update_process (rt_processes (kn_rt k)) j f)"
    by (rule update_process_inv [OF i(2)]) (simp add: f)
  moreover have "proc_state (f (kn_processes k ! j)) \<noteq> Running"
    using f(2) i(3) \<open>j < length (kn_processes k)\<close> \<open>j \<noteq> i\<close> by blast
  then have "proc_state ((kn_processes k)[j := f (kn_processes k ! j)] ! n) = Running \<longleftrightarrow> n = i" if "n < length (kn_processes k)" for n
    using i(3) that \<open>j \<noteq> i\<close> by (cases "n = j") simp_all
  ultimately show ?thesis
    by (auto simp: current_runs_def on_rt_def update_process_at_def update_process_def)
qed

lemma calm_pt_current: "calm k k' \<Longrightarrow> pt_current (rt_processes (kn_rt k')) = pt_current (rt_processes (kn_rt k))"
  using view_procs(2) [of "kn_rt k'" "kn_rt k"] by (simp add: calm_def)

lemma set_dma_region_view [simp]: "rt_view (set_dma_region j d rt) = rt_view rt"
  by (simp add: set_dma_region_def)

lemma release_dma_region_claim_view [simp]: "rt_view (release_dma_region_claim region own rt) = rt_view rt"
  by (simp add: release_dma_region_claim_def Let_def split: option.split)

lemma zero_dma_cr3: "mc_cr3 (fst (zero_dma_physical_range base len m)) = mc_cr3 m"
  by (simp add: zero_dma_physical_range_def split: option.split)

lemma calm_release_dma_mapping: "calm k (release_dma_mapping own mapping k)"
  by (simp add: release_dma_mapping_def calm_def on_rt_def zero_dma_cr3)

lemma calm_release_dma_slot: "calm k (release_dma_slot pid slot k)"
proof (cases "process_mut (rt_processes (kn_rt k)) pid")
  case (Some i)
  let ?p = "kn_processes k ! i"
  have "calm k (on_rt (update_process_at i (\<lambda>_. fst (take_dma_mapping ?p slot))) k)"
    by (intro calm_on_rt update_process_view) (simp add: proc_view_def take_dma_mapping_def)
  then show ?thesis
    using Some calm_trans [OF _ calm_release_dma_mapping] by (auto simp: release_dma_slot_def split: prod.split option.split)
qed (simp add: release_dma_slot_def)

lemma calm_release_dma: "calm k (release_process_dma_mappings pid k)"
proof -
  have "calm k (fold (release_dma_slot pid) slots k)" for slots
    by (induction slots arbitrary: k) (auto intro: calm_trans calm_release_dma_slot)
  then show ?thesis
    by (simp add: release_process_dma_mappings_def)
qed

lemma calm_release_virtio: "calm k (release_process_virtio_ownership pid k)"
  by (simp add: release_process_virtio_ownership_def release_process_kernel_virtio_ownership_def calm_def on_rt_def Let_def)

lemma bind_mounts_view [simp]:
  "rt_view (remove_owned_dynamic_bind_mounts pid rt) = rt_view rt" "rt_view (remove_owned_declared_bind_mounts pid rt) = rt_view rt"
  by (simp_all add: remove_owned_dynamic_bind_mounts_def remove_owned_declared_bind_mounts_def remove_owned_bind_mounts_def Let_def)

lemma calm_release_resources: "calm k (release_process_resources pid k)"
proof -
  have "rt_view (update_process_at i clear_file_handles rt) = rt_view rt" for i rt
    by (rule update_process_view) (simp add: proc_view_def clear_file_handles_def)
  then show ?thesis
    unfolding release_process_resources_def Let_def
    by (intro calm_trans [OF calm_trans [OF calm_release_virtio calm_release_dma] calm_on_rt]) (simp split: option.split)
qed

lemma calm_set_memory [simp]: "calm k (set_memory s k)"
  by (simp add: calm_def set_memory_def)

lemma reap_address_space_runs:
  assumes "current_runs k" "pt_current (rt_processes (kn_rt k)) \<noteq> Some pid"
  shows "current_runs (fst (reap_address_space pid cr3 k))"
proof -
  have mem: "current_runs (set_memory s k)" for s
    by (rule calm_current_runs [OF calm_set_memory assms(1)])
  have "current_runs (on_rt (update_process_at i clear_context) (set_memory s k))"
    if "process_mut (rt_processes (kn_rt k)) pid = Some i" for s i
    using that assms(2) by (intro update_other_runs [OF mem, where pid = pid]) (simp_all add: set_memory_def clear_context_def)
  then have "current_runs (on_rt (\<lambda>rt. case process_mut (rt_processes rt) pid of
        Some i \<Rightarrow> update_process_at i clear_context rt | None \<Rightarrow> rt) (set_memory s k))" for s
    using mem by (cases "process_mut (rt_processes (kn_rt k)) pid") (simp_all add: set_memory_def on_rt_def)
  then show ?thesis
    using assms(1) mem by (simp add: reap_address_space_def split: option.split prod.split sum.split)
qed

lemma reap_process_runs:
  assumes "current_runs k" "pt_current (rt_processes (kn_rt k)) \<noteq> Some pid"
  shows "current_runs (fst (reap_process_context pid k))"
proof -
  let ?k1 = "on_rt (\<lambda>rt. rt\<lparr>rt_objects := fst (remove_owned_endpoints (rt_objects rt) pid)\<rparr>)
      (on_rt (\<lambda>rt. fst (cancel_blocked_receivers_for_endpoint_owner pid STATUS_BAD_CAPABILITY rt)) k)"
  have k1: "calm k ?k1"
    by (simp add: calm_def on_rt_def)
  have k2: "calm k (release_process_resources pid ?k1)"
    by (rule calm_trans [OF k1 calm_release_resources])
  have "current_runs (fst (reap_address_space pid cr3 (release_process_resources pid ?k1)))" for cr3
    using calm_pt_current [OF k2] assms(2) by (intro reap_address_space_runs calm_current_runs [OF k2 assms(1)]) simp
  then show ?thesis
    using calm_current_runs [OF k1 assms(1)] calm_current_runs [OF k2 assms(1)]
    by (simp add: reap_process_context_def Let_def split: option.split)
qed

section \<open>Capability calls keep the view\<close>

lemma rt_caps_view [simp]:
  "rt_view (rt\<lparr>rt_next_cap_id := n\<rparr>) = rt_view rt" "rt_view (rt\<lparr>rt_cap_lineage := l\<rparr>) = rt_view rt"
  "rt_view (rt\<lparr>rt_revoked_caps := r\<rparr>) = rt_view rt"
  by (simp_all add: rt_view_def)

lemma caps_view: "rt_view (rt\<lparr>rt_processes := update_process (rt_processes rt) i (\<lambda>p. p\<lparr>proc_caps := cs\<rparr>)\<rparr>) = rt_view rt"
  "rt_view (rt\<lparr>rt_processes := update_process (rt_processes rt) i (\<lambda>p. p\<lparr>proc_caps := cs, proc_initial_caps := cs'\<rparr>)\<rparr>) = rt_view rt"
  using update_process_view [of "\<lambda>p. p\<lparr>proc_caps := cs\<rparr>" rt i]
    update_process_view [of "\<lambda>p. p\<lparr>proc_caps := cs, proc_initial_caps := cs'\<rparr>" rt i]
  by (simp_all add: update_process_at_def proc_view_def)

lemma new_capability_view: "rt_view (fst (new_capability rt ob rs own parent by)) = rt_view rt"
  by (auto simp: new_capability_def record_cap_lineage_def Let_def split: prod.split sum.split)

lemma grant_current_view: "rt_view (fst (grant_current rt slot cap)) = rt_view rt"
  by (simp add: grant_current_def caps_view split: option.split prod.split sum.split)

lemma new_granted_view:
  "rt_view (fst (case new_capability rt ob rs own parent by of
      (rt, Inl e) \<Rightarrow> (rt, Inl e) | (rt, Inr cap) \<Rightarrow> grant_current rt slot cap)) = rt_view rt"
  using new_capability_view [of rt ob rs own parent "by"] grant_current_view by (auto split: prod.split sum.split)

lemma flag_view: "rt_view (flag_all ids rt) = rt_view rt"
  by (simp add: flag_all_def rt_view_def table_view_def flag_process_def proc_view_def comp_def)

lemma add_revoked_view: "rt_view (fst (add_revoked_cap rt i)) = rt_view rt"
  by (simp add: add_revoked_cap_def)

lemma revoke_loop_view: "rt_view (fst (revoke_loop rt)) = rt_view rt"
proof (induction rt rule: revoke_loop.induct)
  case (1 rt)
  obtain rt' r where p: "revoke_pass (rt_cap_lineage rt) rt False = (rt', r)"
    by fastforce
  have "rt_view rt' = rt_view rt"
    using arg_cong [OF conjunct1 [OF revoke_pass_cases [OF p]], of rt_view] by simp
  then show ?case
    using 1 p by (subst revoke_loop.simps) (auto split: sum.split bool.split)
qed

lemma revoke_cap_id_view: "rt_view (fst (revoke_cap_id rt i)) = rt_view rt"
proof -
  obtain rt1 r1 where a: "add_revoked_cap rt i = (rt1, r1)"
    by fastforce
  obtain rt2 r2 where l: "revoke_loop rt1 = (rt2, r2)"
    by fastforce
  show ?thesis
    using add_revoked_view [of rt i] revoke_loop_view [of rt1]
    by (simp add: a l revoke_cap_id_def mark_all_revoked_caps_eq flag_view split: sum.split)
qed

lemma cap_calls_view:
  "rt_view (fst (cap_derive rt a b m)) = rt_view rt"
  "rt_view (fst (cap_copy rt a b m)) = rt_view rt"
  "rt_view (fst (cap_move rt a b)) = rt_view rt"
  "rt_view (fst (cap_drop rt a)) = rt_view rt"
  subgoal by (simp add: cap_derive_def new_granted_view split: sum.split option.split)
  subgoal by (simp add: cap_copy_def new_granted_view split: sum.split option.split)
  subgoal by (simp add: cap_move_def Let_def caps_view split: sum.split option.split prod.split)
  subgoal by (simp add: cap_drop_def release_unreferenced_derived_vfs_root_def caps_view split: sum.split option.split prod.split)
  done

lemma cap_revoke_view: "rt_view (fst (cap_revoke rt a)) = rt_view rt"
proof (cases "lookup_capability rt a 0")
  case (Inr cap)
  obtain rt1 r1 where "revoke_cap_id rt (cap_id cap) = (rt1, r1)"
    by fastforce
  then show ?thesis
    using revoke_cap_id_view [of rt "cap_id cap"] Inr by (simp add: cap_revoke_def split: sum.split)
qed (simp add: cap_revoke_def)

lemma transfer_into_view: "rt_view (fst (transfer_into rt i slot cap persist)) = rt_view rt"
  by (simp add: transfer_into_def Let_def caps_view split: sum.split prod.split)

lemma cap_transfer_view: "rt_view (fst (cap_transfer rt c pid packed)) = rt_view rt"
proof -
  have "rt_view (fst (case new_capability rt ob rs own parent by of (rt, Inl e) \<Rightarrow> (rt, Inl e)
      | (rt, Inr cap) \<Rightarrow> (case process_mut (rt_processes rt) pid of None \<Rightarrow> (rt, Inl BadCapability)
          | Some i \<Rightarrow> transfer_into rt i slot cap persist))) = rt_view rt" for ob rs own parent "by" slot persist
    using new_capability_view [of rt ob rs own parent "by"] transfer_into_view
    by (auto split: prod.split sum.split option.split)
  then show ?thesis
    by (simp add: cap_transfer_def Let_def split: sum.split option.split)
qed

section \<open>Calls that return to the caller\<close>

lemma copy_to_user_cr3: "copy_to_user m p bytes = (m', r) \<Longrightarrow> mc_cr3 m' = mc_cr3 m"
  using arg_cong [OF store_bytes_frame [of p bytes m], of mc_cr3] by (auto simp: copy_to_user_def split: sum.splits)

lemma calm_copy_result: "calm k (fst (copy_result k destination bytes))"
  by (auto simp: copy_result_def calm_def dest: copy_to_user_cr3 split: prod.split sum.split)

lemma calm_map_range: "calm k (fst (map_current_process_physical_range v p len flags k))"
  by (simp add: map_current_process_physical_range_def Let_def split: option.split prod.split)

lemma calm_unmap_range: "calm k (unmap_current_process_physical_range v len k)"
  by (simp add: unmap_current_process_physical_range_def split: option.split)

lemma calm_map_device: "calm k (fst (map_device window object base len k))"
proof -
  have "calm k (fst (case map_current_process_physical_range v p n flags k of
      (k, Inl e) \<Rightarrow> (k, Inl e :: (ipc_error, u64) result) | (k, Inr _) \<Rightarrow> (k, Inr u)))" for v p n flags u
    using calm_map_range [of k v p n flags] by (auto split: prod.split sum.split)
  then show ?thesis
    by (simp add: map_device_def Let_def split: option.split sum.split)
qed

lemma calm_framebuffer_info: "calm k (fst (write_framebuffer_info destination max_len fb base k))"
  by (simp add: write_framebuffer_info_def calm_copy_result)

lemma calm_framebuffer_map: "calm k (fst (framebuffer_map cap_slot destination max_len k))"
proof (cases "framebuffer_from_cap (kn_rt k) cap_slot (RIGHT_WRITE OR RIGHT_MAP)")
  case (Inr fb)
  obtain k1 r where m: "map_device USER_FRAMEBUFFER_MAPPING_BASE (fb_id fb) (fb_physical_base fb) (fb_length fb) k = (k1, r)"
    by fastforce
  have "calm k k1"
    using calm_map_device [of k USER_FRAMEBUFFER_MAPPING_BASE "fb_id fb" "fb_physical_base fb" "fb_length fb"] m by simp
  then show ?thesis
    using calm_trans [OF _ calm_framebuffer_info] by (auto simp: framebuffer_map_def Inr m split: sum.split)
qed (simp add: framebuffer_map_def)

lemma calm_release_claim: "calm k (on_rt (release_dma_region_claim region own) k)"
  by (rule calm_on_rt) simp

lemma calm_map_claimed: "calm k (fst (map_claimed_dma region own virtual_base map_len destination k))"
proof -
  obtain m ok where z: "zero_dma_physical_range (dma_base region) (dma_length region) (kn_mc k) = (m, ok)"
    by fastforce
  have k1: "calm k (k\<lparr>kn_mc := m\<rparr>)"
    using zero_dma_cr3 [of "dma_base region" "dma_length region" "kn_mc k"] z by (simp add: calm_def)
  obtain k2 r where m: "map_current_process_physical_range virtual_base (dma_base region) map_len (flags_user True False) (k\<lparr>kn_mc := m\<rparr>) = (k2, r)"
    by fastforce
  have k2: "calm k k2"
    using calm_trans [OF k1 calm_map_range [of "k\<lparr>kn_mc := m\<rparr>" virtual_base "dma_base region" map_len "flags_user True False"]] m by simp
  obtain k3 r3 where c: "copy_result k2 destination (write_dma_mapping_info (replicate DMA_MAPPING_INFO_BYTES 0)
      \<lparr>dm_region = dma_id region, dm_virtual_base = virtual_base, dm_physical_base = dma_base region, dm_length = dma_length region\<rparr>) = (k3, r3)"
    by fastforce
  have k3: "calm k k3"
    using calm_trans [OF k2 calm_copy_result] c by (metis fst_conv)
  have undo: "calm k (on_rt (release_dma_region_claim region_id own) (unmap_current_process_physical_range virtual_base map_len k3))" for region_id
    by (rule calm_trans [OF calm_trans [OF k3 calm_unmap_range] calm_release_claim])
  have "calm k (on_rt (update_process_at i (\<lambda>_. p)) k3)" if "add_dma_mapping (kn_processes k3 ! i) mapping = (p, r)" for i mapping p r
    using that by (intro calm_trans [OF k3] calm_on_rt update_process_view)
      (auto simp: add_dma_mapping_def proc_view_def split: if_splits option.splits)
  then show ?thesis
    using undo calm_trans [OF k1 calm_release_claim] calm_trans [OF k2 calm_release_claim]
    by (auto simp: map_claimed_dma_def Let_def z m c split: bool.split sum.split option.split prod.split)
qed

lemma calm_dma_map: "calm k (fst (dma_map cap_slot destination max_len k))"
proof -
  have "calm k (k\<lparr>kn_rt := rt\<rparr>)" if "claim_dma_region region own (kn_rt k) = (rt, r)" for region own rt r
    using that by (intro calm_rt) (auto simp: claim_dma_region_def Let_def split: option.splits if_splits)
  then show ?thesis
    using calm_trans [OF _ calm_map_claimed] calm_copy_result
    by (auto simp: dma_map_def split: option.split sum.split prod.split)
qed

lemma calm_own: "calm k k' \<Longrightarrow> current_runs k \<Longrightarrow> own_space k'"
  using calm_own_space current_runs_own_space by blast

lemma calm_send:
  assumes "own_space k"
  shows "calm k (fst (send cap_slot source len k))"
proof -
  have rt: "calm k (k\<lparr>kn_rt := rt\<rparr>)" if "update_endpoint e f (kn_rt k) = Some (rt, r)" for e f rt and r :: "(ipc_error, unit) result"
    by (intro calm_rt) (rule update_endpoint_view [OF that])
  have "calm k (wake_blocked_vertexfs_sync_reply e (wake_blocked_vfs_state_reply e (wake_blocked_receiver e k')))"
    if "calm k k'" for e k'
  proof -
    note k1 = calm_trans [OF that calm_wake_blocked_receiver [OF calm_own_space [OF that assms]], of e]
    note k2 = calm_trans [OF k1 calm_vfs_state_reply [OF calm_own_space [OF k1 assms]], of e]
    show ?thesis
      by (rule calm_trans [OF k2 calm_sync_reply [OF calm_own_space [OF k2 assms]]])
  qed
  then show ?thesis
    using rt by (auto simp: send_def split: sum.split option.split prod.split)
qed

lemma receive_runs:
  assumes "current_runs k" "receive_with_timeout cap_slot destination max_len timeout k = Some (k', r)"
  shows "current_runs k'"
proof (cases "endpoint_cap_from_slot (kn_rt k) cap_slot RIGHT_RECEIVE")
  case (Inr cap)
  show ?thesis
  proof (cases "update_endpoint (cap_object cap) (\<lambda>e. ep_dequeue_for e (current_pid (kn_rt k))) (kn_rt k)")
    case (Some x)
    obtain rt m where x: "x = (rt, m)"
      by fastforce
    have k1: "calm k (k\<lparr>kn_rt := rt\<rparr>)"
      by (intro calm_rt) (rule update_endpoint_view [OF Some [unfolded x]])
    have "current_runs k2" if "block_current_on_endpoint (cap_object cap) i d n t (k\<lparr>kn_rt := rt\<rparr>) = Some (k2, sw)" for i d n t k2 sw
      using block_current_outcome [OF calm_current_runs [OF k1 assms(1)], of _ _ k2 sw] that
      by (auto simp: block_current_on_endpoint_def split: if_splits)
    moreover have "current_runs (k\<lparr>kn_rt := rt, kn_mc := mc\<rparr>)" if "copy_to_user (kn_mc k) destination bytes = (mc, y)" for mc bytes y
      using copy_to_user_cr3 [OF that] k1 by (intro calm_current_runs [OF _ assms(1)]) (simp add: calm_def)
    moreover have "current_runs (k\<lparr>kn_rt := record_ready_lifecycle e p msg rt, kn_mc := mc, kn_frame := fr\<rparr>)"
      if "copy_to_user (kn_mc k) destination bytes = (mc, y)" for mc bytes y e p msg fr
      using copy_to_user_cr3 [OF that] k1 by (intro calm_current_runs [OF _ assms(1)]) (simp add: calm_def)
    ultimately show ?thesis
      using assms Inr Some x by (auto simp: receive_with_timeout_def split: if_splits option.splits prod.splits sum.splits)
  qed (use assms Inr in \<open>auto simp: receive_with_timeout_def split: if_splits\<close>)
qed (use assms in \<open>simp add: receive_with_timeout_def\<close>)

lemma calm_deadline: "deadline_after_ms ms k = (k', d) \<Longrightarrow> calm k k'"
  by (auto simp: deadline_after_ms_def read_tsc_def Let_def split: prod.splits)

lemma sleep_runs:
  assumes "current_runs k" "sleep_ms cap_slot ms k = Some (k', r)"
  shows "current_runs k'"
proof -
  obtain k1 d where d: "deadline_after_ms ms k = (k1, d)"
    by fastforce
  note k1 = calm_current_runs [OF calm_deadline [OF d] assms(1)]
  have "current_runs k2" if "block_current fr (Sleeping t) k1 = Some (k2, sw)" for fr t k2 sw
    using block_current_outcome [OF k1 that] by simp
  then show ?thesis
    using assms k1 d calm_current_runs [OF calm_simps(3) assms(1)]
    by (auto simp: sleep_ms_def split: sum.splits if_splits option.splits)
qed

lemma irq_wait_runs:
  assumes "current_runs k" "irq_wait cap_slot ms k = Some (k', r)"
  shows "current_runs k'"
proof -
  obtain k1 d where d: "deadline_after_ms ms k = (k1, d)"
    by fastforce
  note k1 = calm_current_runs [OF calm_deadline [OF d] assms(1)]
  have "current_runs k2" if "block_current_on_interrupt i t k1 = Some (k2, sw)" for i t k2 sw
    using block_current_outcome [OF k1] k1 that by (auto simp: block_current_on_interrupt_def split: if_splits)
  moreover have "current_runs (k\<lparr>kn_rt := rt, kn_frame := fr\<rparr>)" if "consume_pending_interrupt i (kn_rt k) = (rt, b)" for i rt b fr
    using that by (intro calm_current_runs [OF _ assms(1)])
      (auto simp: calm_def consume_pending_interrupt_def Let_def split: option.splits if_splits)
  ultimately show ?thesis
    using assms d calm_current_runs [OF calm_simps(3) assms(1)]
    by (auto simp: irq_wait_def split: sum.splits if_splits option.splits prod.splits bool.splits)
qed

lemma calm_log_write: "own_space k \<Longrightarrow> calm k (fst (log_write cap_slot source len k))"
  by (auto simp: log_write_def calm_pipe_read split: sum.split)

lemma calm_reads:
  "calm k (fst (read_boot_module cap_slot destination max_len k))" "calm k (fst (secret_read cap_slot destination max_len k))"
  by (simp_all add: read_boot_module_def secret_read_def Let_def calm_copy_result split: sum.split)

lemma quota_delegate_view: "rt_view (fst (quota_delegate control_slot pid n rt)) = rt_view rt"
proof -
  have "rt_view (update_process_at i (delegate_quota n) rt) = rt_view rt" for i
    by (rule update_process_view) (simp add: delegate_quota_def Let_def proc_view_def)
  then show ?thesis
    by (simp add: quota_delegate_def split: sum.split option.split)
qed

lemma rollback_view: "rt_view (rollback_last_capability rt cap) = rt_view rt"
  by (simp add: rollback_last_capability_def Let_def)

lemma endpoint_create_view: "rt_view (fst (endpoint_create control_slot cap_slot rt)) = rt_view rt"
proof -
  have quota: "rt_view (update_process_at i (\<lambda>p. p\<lparr>proc_quota := f p\<rparr>) rt) = rt_view rt" for i f rt
    by (rule update_process_view) (simp add: proc_view_def)
  have new: "rt_view rt2 = rt_view rt" if "new_capability (rt\<lparr>rt_objects := ot\<rparr>) ob rs own parent by = (rt2, r)" for ot ob rs own parent "by" rt2 r
    using new_capability_view [of "rt\<lparr>rt_objects := ot\<rparr>" ob rs own parent "by"] that by simp
  have grant: "rt_view rt3 = rt_view rt2" if "grant_current rt2 slot cap = (rt3, r)" for rt2 rt3 slot cap r
    using grant_current_view [of rt2 slot cap] that by simp
  show ?thesis
    using new grant by (auto simp: endpoint_create_def Let_def quota rollback_view dest!: new grant
        split: sum.split option.split prod.split)
qed

lemma calm_namespace_resolve: "calm k (fst (namespace_resolve cap_slot path len target_slot k))"
proof -
  have new: "rt_view rt2 = rt_view (kn_rt k)" if "new_capability (kn_rt k) ob rs own parent by = (rt2, r)" for ob rs own parent "by" rt2 r
    using new_capability_view [of "kn_rt k" ob rs own parent "by"] that by simp
  have grant: "rt_view rt3 = rt_view rt2" if "grant_current rt2 slot cap = (rt3, r)" for rt2 rt3 slot cap r
    using grant_current_view [of rt2 slot cap] that by simp
  show ?thesis
    by (auto simp: namespace_resolve_def dest!: new grant intro!: calm_rt split: sum.split option.split prod.split)
qed

section \<open>Calls that give up the processor\<close>

lemma suspended_schedule_runs:
  assumes "current_runs k" "on_current (suspend fr Ready) k = Some k1" "schedule_next_ready_inner inc wait k1 = Some (k2, sw)"
  shows "current_runs (if sw then k2 else resume_current k2)"
proof -
  have "none_runs k1"
    using suspended_none_runs [OF assms(1,2)] by (simp add: suspend_def)
  then show ?thesis
    using schedule_outcome [OF _ assms(3)] resume_current_runs by (auto simp: scheduled_def)
qed

lemma yield_runs:
  assumes "current_runs k" "yield_current_process k = Some (k', r)"
  shows "current_runs k'"
  using assms suspended_schedule_runs [OF assms(1)]
  by (fastforce simp: yield_current_process_def schedule_next_ready_excluding_current_def split: option.splits prod.splits bool.splits)

lemma preempt_runs:
  assumes "current_runs k" "preempt_current_process k = Some (k', r)"
  shows "current_runs k'"
proof -
  have k1: "current_runs (fst (wake_timed k))"
    by (rule calm_current_runs [OF calm_wake_timed assms(1)])
  show ?thesis
    using assms(2) k1 suspended_schedule_runs [OF k1]
    by (fastforce simp: preempt_current_process_def schedule_next_ready_no_wait_excluding_current_def Let_def
        split: option.splits prod.splits bool.splits if_splits)
qed

lemma user_interrupt_runs:
  assumes "current_runs k" "user_interrupt irq k = Some (k', r)"
  shows "current_runs k'"
proof (cases irq)
  case (LegacyIrq line)
  have "calm k (on_rt (record_hardware_irq line) k)"
    by (rule calm_on_rt) (rule record_hardware_irq_view)
  then show ?thesis
    using preempt_runs [OF calm_current_runs [OF _ assms(1)]] assms(2) LegacyIrq by simp
qed (use preempt_runs assms in simp)

text \<open>After the end of the current process another one runs, or the machine halts.\<close>

lemma ended_schedule_runs:
  assumes "current_runs k" "current_process_mut (rt_processes (kn_rt k)) = Some i"
    and "schedule_next_ready (on_rt (end_process i status event) k) = Some (k1, True)"
  shows "current_runs (fst (reap_process_context (proc_pid (kn_processes k ! i)) k1))"
proof -
  let ?k = "on_rt (end_process i status event) k"
  note e = ended_none_runs [OF assms(1,2), of status event]
  have "schedule_next_ready_inner True True ?k = Some (k1, True)"
    using assms(3) by (simp add: schedule_next_ready_def)
  note s = schedule_leaves_exited [OF e(1,3,2) this]
  show ?thesis
    using reap_process_runs [OF s(1)] s(2) e(4) by simp
qed

lemma exit_runs:
  assumes "current_runs k" "exit_current_process status k = Some (k', Switched)"
  shows "current_runs k'"
proof -
  obtain i where i: "current_process_mut (rt_processes (kn_rt k)) = Some i"
    using assms(1) own_space_current(2) by (auto simp: current_runs_def)
  then obtain k1 where k1: "schedule_next_ready (on_rt (end_process i status (exit_event status (kn_processes k ! i))) k) = Some (k1, True)"
      "k' = fst (reap_process_context (proc_pid (kn_processes k ! i)) k1)"
    using assms(2) by (auto simp: exit_current_process_def Let_def split: if_splits option.splits bool.splits)
  show ?thesis
    unfolding k1(2) by (rule ended_schedule_runs [OF assms(1) i k1(1)])
qed

lemma fault_runs:
  assumes "current_runs k" "fault_current_process k = Some (k', Switched)"
  shows "current_runs k'"
proof -
  obtain i where i: "current_process_mut (rt_processes (kn_rt k)) = Some i"
    using assms(1) own_space_current(2) by (auto simp: current_runs_def)
  then obtain event k1 where k1: "schedule_next_ready (on_rt (end_process i STATUS_PROCESS_FAULT event) k) = Some (k1, True)"
      "k' = fst (reap_process_context (proc_pid (kn_processes k ! i)) k1)"
    using assms(2) by (auto simp: fault_current_process_def Let_def split: if_splits option.splits bool.splits)
  show ?thesis
    unfolding k1(2) by (rule ended_schedule_runs [OF assms(1) i k1(1)])
qed

lemma current_pid_of:
  assumes "current_runs k"
  obtains i where "current_at i k" "current_process (rt_processes (kn_rt k)) = Some (kn_processes k ! i)"
    "proc_state (kn_processes k ! i) = Running" "pt_current (rt_processes (kn_rt k)) = Some (proc_pid (kn_processes k ! i))"
proof -
  obtain i where i: "current_at i k" "pt_inv (rt_processes (kn_rt k))"
      "\<forall>j < length (kn_processes k). proc_state (kn_processes k ! j) = Running \<longleftrightarrow> j = i"
    using assms by (auto simp: current_runs_def)
  have at: "i < length (kn_processes k)" "pt_current (rt_processes (kn_rt k)) = Some (proc_pid (kn_processes k ! i))"
    using i(1) by (simp_all add: current_at_def)
  show thesis
    using i(3) at(1) by (intro that [OF i(1) own_space_current(1) [OF i(2,1)] _ at(2)]) simp
qed

lemma kill_runs:
  assumes "current_runs k"
  shows "current_runs (fst (kill_process cap_slot pid k))"
proof (cases "process_mut (rt_processes (kn_rt k)) pid")
  case None
  then show ?thesis
    using assms by (simp add: kill_process_def split: sum.split)
next
  case (Some j)
  obtain c where c: "current_process (rt_processes (kn_rt k)) = Some (kn_processes k ! c)"
      "pt_current (rt_processes (kn_rt k)) = Some (proc_pid (kn_processes k ! c))"
    using current_pid_of [OF assms] by metis
  let ?k = "on_rt (end_process j (u64_max - 11) None) k"
  have "current_runs ?k \<and> pt_current (rt_processes (kn_rt ?k)) \<noteq> Some pid" if "proc_pid (kn_processes k ! c) \<noteq> pid"
  proof -
    let ?m = "on_rt (update_process_at j (mark_exited (u64_max - 11))) k"
    have m: "current_runs ?m"
      using that c(2) by (intro update_other_runs [OF assms Some]) (simp_all add: mark_exited_def clear_file_handles_def)
    have mk: "calm ?m ?k"
      by (simp add: calm_def on_rt_def end_process_view)
    have "pt_current (rt_processes (kn_rt ?m)) \<noteq> Some pid"
      using that c(2) by (simp add: on_rt_def update_process_at_def update_process_def)
    then show ?thesis
      using calm_current_runs [OF mk m] calm_pt_current [OF mk] by simp
  qed
  then show ?thesis
    using assms reap_process_runs by (auto simp: kill_process_def Some c(1) split: sum.split)
qed

lemma process_wait_runs:
  assumes "current_runs k"
  shows "current_runs (fst (process_wait cap_slot pid k))"
proof -
  let ?k = "fst (wake_timed k)"
  have k: "current_runs ?k"
    by (rule calm_current_runs [OF calm_wake_timed assms])
  obtain c where c: "current_process (rt_processes (kn_rt ?k)) = Some (kn_processes ?k ! c)" "proc_state (kn_processes ?k ! c) = Running"
      "pt_current (rt_processes (kn_rt ?k)) = Some (proc_pid (kn_processes ?k ! c))"
    using current_pid_of [OF k] by metis
  have "current_runs (fst (reap_process_context pid ?k))"
    if "process_of (rt_processes (kn_rt ?k)) pid = Some p" "proc_state p = Exited" for p
    using that c by (intro reap_process_runs [OF k]) (auto simp: current_process_def)
  then show ?thesis
    using k by (auto simp: process_wait_def Let_def split: sum.split option.split)
qed

section \<open>Steps of the machine\<close>

text \<open>
  Between two entries of the kernel the current process computes: it writes
  memory and loads its registers.  The calls that answer a result leave it
  current; the calls that end or suspend it are steps when they switch.
\<close>

text \<open>
  The steps: user computation, interrupts and faults; the message, sleep,
  interrupt, object, device-memory, capability and process-control calls; the
  calls on network ports; and the parts of the VFS calls that change which
  process runs: waiting for the pipe and its wake-up, requests to the state
  and file services, and syncs sent to the block driver.  A request that finds
  its endpoint gone (the result \<^term>\<open>Inl BadCapability\<close>) is not a step: it
  returns to the caller with the caller marked as blocked.  Not covered are
  the remaining work of the VFS calls, the creation and start of processes,
  generation changes, and port and virtio access.
\<close>

inductive kernel_step :: "kernel \<Rightarrow> kernel \<Rightarrow> bool" where
  step_user: "kernel_step k (k\<lparr>kn_mc := (kn_mc k)\<lparr>mc_bytes := b\<rparr>, kn_frame := f\<rparr>)"
| step_interrupt: "user_interrupt irq k = Some (k', r) \<Longrightarrow> kernel_step k k'"
| step_fault: "fault_current_process k = Some (k', Switched) \<Longrightarrow> kernel_step k k'"
| step_exit: "exit_current_process status k = Some (k', Switched) \<Longrightarrow> kernel_step k k'"
| step_yield: "yield_current_process k = Some (k', r) \<Longrightarrow> kernel_step k k'"
| step_send: "send c p n k = (k', r) \<Longrightarrow> kernel_step k k'"
| step_receive: "receive c p n k = Some (k', r) \<Longrightarrow> kernel_step k k'"
| step_receive_timeout: "receive_timeout c p n ms k = Some (k', r) \<Longrightarrow> kernel_step k k'"
| step_sleep: "sleep_ms c ms k = Some (k', r) \<Longrightarrow> kernel_step k k'"
| step_irq_wait: "irq_wait c ms k = Some (k', r) \<Longrightarrow> kernel_step k k'"
| step_log_write: "log_write c p n k = (k', r) \<Longrightarrow> kernel_step k k'"
| step_boot_read: "read_boot_module c p n k = (k', r) \<Longrightarrow> kernel_step k k'"
| step_secret_read: "secret_read c p n k = (k', r) \<Longrightarrow> kernel_step k k'"
| step_endpoint_create: "endpoint_create c s (kn_rt k) = (rt', r) \<Longrightarrow> kernel_step k (k\<lparr>kn_rt := rt'\<rparr>)"
| step_quota_delegate: "quota_delegate c pid n (kn_rt k) = (rt', r) \<Longrightarrow> kernel_step k (k\<lparr>kn_rt := rt'\<rparr>)"
| step_namespace_resolve: "namespace_resolve c p n s k = (k', r) \<Longrightarrow> kernel_step k k'"
| step_kill: "kill_process c pid k = (k', r) \<Longrightarrow> kernel_step k k'"
| step_wait: "process_wait c pid k = (k', r) \<Longrightarrow> kernel_step k k'"
| step_mmio_map: "mmio_map c k = (k', r) \<Longrightarrow> kernel_step k k'"
| step_framebuffer_info: "framebuffer_info c p n k = (k', r) \<Longrightarrow> kernel_step k k'"
| step_framebuffer_map: "framebuffer_map c p n k = (k', r) \<Longrightarrow> kernel_step k k'"
| step_dma_map: "dma_map c p n k = (k', r) \<Longrightarrow> kernel_step k k'"
| step_cap_derive: "cap_derive (kn_rt k) a b m = (rt', r) \<Longrightarrow> kernel_step k (k\<lparr>kn_rt := rt'\<rparr>)"
| step_cap_copy: "cap_copy (kn_rt k) a b m = (rt', r) \<Longrightarrow> kernel_step k (k\<lparr>kn_rt := rt'\<rparr>)"
| step_cap_move: "cap_move (kn_rt k) a b = (rt', r) \<Longrightarrow> kernel_step k (k\<lparr>kn_rt := rt'\<rparr>)"
| step_cap_drop: "cap_drop (kn_rt k) a = (rt', r) \<Longrightarrow> kernel_step k (k\<lparr>kn_rt := rt'\<rparr>)"
| step_cap_revoke: "cap_revoke (kn_rt k) a = (rt', r) \<Longrightarrow> kernel_step k (k\<lparr>kn_rt := rt'\<rparr>)"
| step_cap_transfer: "cap_transfer (kn_rt k) c pid packed = (rt', r) \<Longrightarrow> kernel_step k (k\<lparr>kn_rt := rt'\<rparr>)"
| step_network_send: "network_send_udp c p n k = (k', r) \<Longrightarrow> kernel_step k k'"
| step_network_recv: "network_recv_udp c p n k = Some (k', r) \<Longrightarrow> kernel_step k k'"
| step_pipe_wait: "block_current_on_vfs_read node d p n k = Some (k', r) \<Longrightarrow> kernel_step k k'"
| step_pipe_write: "wake_blocked_vfs_pipe_read bytes k = (k', r) \<Longrightarrow> kernel_step k k'"
| step_state_request: "start_vfs_state_transaction state node d op off p n wl up payload len k = Some (k', r) \<Longrightarrow>
    r \<noteq> Inl BadCapability \<Longrightarrow> kernel_step k k'"
| step_service_read: "start_vfs_service_read_transaction node d off p n up k = Some (k', r) \<Longrightarrow>
    r \<noteq> Inl BadCapability \<Longrightarrow> kernel_step k k'"
| step_sync: "start_vertexfs_sync_transaction backing inode checksum n k = Some (k', r) \<Longrightarrow> kernel_step k k'"

text \<open>A call whose result is not used by the invariant.\<close>

lemma calm_call: "calm k (fst x) \<Longrightarrow> x = (k', r) \<Longrightarrow> current_runs k \<Longrightarrow> current_runs k'"
  using calm_current_runs by fastforce

lemma view_call: "rt_view (fst x) = rt_view (kn_rt k) \<Longrightarrow> x = (rt', r) \<Longrightarrow> current_runs k \<Longrightarrow> current_runs (k\<lparr>kn_rt := rt'\<rparr>)"
  using calm_current_runs [OF calm_rt] by fastforce

lemma calm_device_calls: "calm k (fst (mmio_map c k))" "calm k (fst (framebuffer_info c p n k))"
  by (simp_all add: mmio_map_def framebuffer_info_def calm_map_device calm_framebuffer_info split: sum.split)

lemma calm_network_send: "own_space k \<Longrightarrow> calm k (fst (network_send_udp c p n k))"
proof -
  assume own: "own_space k"
  have set: "calm k (on_rt (set_network_port j ob) k)" for j ob
    by (rule calm_on_rt) (simp add: set_network_port_def)
  then have "calm k (wake_blocked_network_receiver port (on_rt (set_network_port j ob) k))" for port j ob
    using calm_trans [OF set calm_network [OF calm_own_space [OF set own]]] by blast
  then show ?thesis
    using set by (auto simp: network_send_udp_def split: sum.split option.split prod.split)
qed

lemma network_recv_runs:
  assumes "current_runs k" "network_recv_udp c p n k = Some (k', r)"
  shows "current_runs k'"
proof -
  have set: "calm k (on_rt (set_network_port j ob) k)" for j ob
    by (rule calm_on_rt) (simp add: set_network_port_def)
  have "current_runs k2" if "block_current_on_network_port port p n (on_rt (set_network_port j ob) k) = Some (k2, sw)" for port j ob k2 sw
    using block_current_outcome [OF calm_current_runs [OF set assms(1)], of _ _ j ob k2 sw] that
    by (auto simp: block_current_on_network_port_def)
  moreover have "current_runs ((on_rt (set_network_port j ob) k)\<lparr>kn_mc := mc\<rparr>)"
      "current_runs ((on_rt (set_network_port j ob) k)\<lparr>kn_mc := mc, kn_frame := fr\<rparr>)"
    if "copy_to_user (kn_mc k) p bytes = (mc, y)" for mc bytes y j ob fr
    using copy_to_user_cr3 [OF that] set [of j ob] by (auto intro!: calm_current_runs [OF _ assms(1)] simp: calm_def)
  ultimately show ?thesis
    using assms by (auto simp: network_recv_udp_def split: sum.splits if_splits option.splits prod.splits)
qed

lemmas call_runs = user_interrupt_runs fault_runs exit_runs yield_runs sleep_runs irq_wait_runs
  calm_call [OF calm_reads(1)] calm_call [OF calm_reads(2)] calm_call [OF calm_namespace_resolve]
  calm_call [OF calm_device_calls(1)] calm_call [OF calm_device_calls(2)] calm_call [OF calm_framebuffer_map] calm_call [OF calm_dma_map]
  view_call [OF endpoint_create_view] view_call [OF quota_delegate_view] view_call [OF cap_calls_view(1)] view_call [OF cap_calls_view(2)]
  view_call [OF cap_calls_view(3)] view_call [OF cap_calls_view(4)] view_call [OF cap_revoke_view] view_call [OF cap_transfer_view]

lemma kernel_step_runs:
  assumes "kernel_step k k'" "current_runs k"
  shows "current_runs k'"
  using assms
proof (induction rule: kernel_step.induct)
  case (step_network_send c p n k k' r)
  from step_network_send.prems show ?case
    by (rule calm_call [OF calm_network_send [OF current_runs_own_space [OF step_network_send.prems]] step_network_send.hyps])
next
  case (step_network_recv c p n k k' r)
  from step_network_recv.prems step_network_recv.hyps show ?case
    by (rule network_recv_runs)
next
  case (step_pipe_wait node d p n k k' r)
  from step_pipe_wait.prems step_pipe_wait.hyps show ?case
    unfolding block_current_on_vfs_read_def by (rule block_current_outcome) simp
next
  case (step_pipe_write bytes k k' r)
  from step_pipe_write.prems show ?case
    by (rule calm_call [OF calm_pipe_read [OF current_runs_own_space [OF step_pipe_write.prems]] step_pipe_write.hyps])
next
  case (step_state_request state node d op off p n wl up payload len k k' r)
  from step_state_request.prems step_state_request.hyps(2,1) show ?case
    by (rule state_transaction_runs)
next
  case (step_service_read node d off p n up k k' r)
  from step_service_read.prems step_service_read.hyps(2,1) show ?case
    by (rule service_read_runs)
next
  case (step_sync backing inode checksum n k k' r)
  from step_sync.prems step_sync.hyps show ?case
    by (rule sync_transaction_runs)
next
  case (step_user k b f)
  then show ?case
    by (rule calm_current_runs [rotated]) (simp add: calm_def)
next
  case (step_receive_timeout c p n ms k k' r)
  obtain k1 d where d: "deadline_after_ms ms k = (k1, d)"
    by fastforce
  then show ?case
    using receive_runs [OF calm_current_runs [OF calm_deadline [OF d] step_receive_timeout.prems]] step_receive_timeout.hyps
    by (simp add: receive_timeout_def)
next
  case (step_kill c pid k k' r)
  then show ?case
    using kill_runs [of k c pid] by simp
next
  case (step_wait c pid k k' r)
  then show ?case
    using process_wait_runs [of k c pid] by simp
next
  case (step_send c p n k k' r)
  from step_send.prems show ?case
    by (rule calm_call [OF calm_send [OF current_runs_own_space [OF step_send.prems]] step_send.hyps])
next
  case (step_log_write c p n k k' r)
  from step_log_write.prems show ?case
    by (rule calm_call [OF calm_log_write [OF current_runs_own_space [OF step_log_write.prems]] step_log_write.hyps])
next
  case (step_receive c p n k k' r)
  then show ?case
    using receive_runs [of k c p n None k' r] by (simp add: receive_def)
qed (rule call_runs, assumption, assumption)+

end
