(* ===== verification/Scheduler_Liveness.thy ===== *)
theory Scheduler_Liveness
  imports Scheduler_Safety
begin

text \<open>
  The idle loop of the scheduler ends.  While it waits the processes either
  keep their state or become ready and the clock is read further; once the
  clock has passed the earliest deadline a process is ready.
\<close>

section \<open>Waiting only makes processes ready\<close>

definition kept_or_ready :: "process \<Rightarrow> process \<Rightarrow> bool" where
  "kept_or_ready p p' \<longleftrightarrow> proc_state p' = proc_state p \<or> proc_state p' = Ready"

definition woken :: "kernel \<Rightarrow> kernel \<Rightarrow> bool" where
  "woken k k' \<longleftrightarrow> list_all2 kept_or_ready (kn_processes k) (kn_processes k') \<and> kn_clock k' = kn_clock k \<and> kn_reads k \<le> kn_reads k'"

definition some_ready :: "kernel \<Rightarrow> bool" where
  "some_ready k \<longleftrightarrow> (\<exists>p \<in> set (kn_processes k). proc_state p = Ready)"

lemma kept_or_ready_refl [simp, intro]: "kept_or_ready p p"
  by (simp add: kept_or_ready_def)

lemma kept_or_ready_trans: "kept_or_ready p q \<Longrightarrow> kept_or_ready q r \<Longrightarrow> kept_or_ready p r"
  by (auto simp: kept_or_ready_def)

lemma woken_refl [simp, intro]: "woken k k"
  by (simp add: woken_def list_all2_same)

lemma woken_trans: "woken k1 k2 \<Longrightarrow> woken k2 k3 \<Longrightarrow> woken k1 k3"
  by (auto simp: woken_def intro: list_all2_trans [OF kept_or_ready_trans])

lemma some_ready_index: "some_ready k \<Longrightarrow> ready_index True k \<noteq> None"
  by (auto simp: some_ready_def ready_index_def next_ready_None eligible_index_def in_set_conv_nth)

lemma ready_index_some: "ready_index inc k = Some i \<Longrightarrow> some_ready k"
  using next_ready_first(1) [of "rt_processes (kn_rt k)" inc i] by (auto simp: some_ready_def ready_index_def eligible_index_def)

lemma woken_some_ready: "woken k k' \<Longrightarrow> some_ready k \<Longrightarrow> some_ready k'"
  by (fastforce simp: woken_def some_ready_def kept_or_ready_def list_all2_conv_all_nth in_set_conv_nth)

lemma wake_process_state: "proc_state (wake_process now p) = (if wake_status now (proc_state p) = None then proc_state p else Ready)"
  by (simp add: wake_process_def make_ready_def split: option.split)

lemma wake_timed_simps [simp]:
  "kn_processes (fst (wake_timed k)) = map (wake_process (kn_clock k (kn_reads k))) (kn_processes k)"
  "kn_clock (fst (wake_timed k)) = kn_clock k" "kn_reads (fst (wake_timed k)) = Suc (kn_reads k)"
  by (simp_all add: wake_timed_def read_tsc_def wake_timed_processes_def Let_def)

lemma wake_timed_woken: "woken k (fst (wake_timed k))"
  by (simp add: woken_def kept_or_ready_def wake_process_state list_all2_map2 list_all2_same)

lemma wake_timed_count: "snd (wake_timed k) \<noteq> 0 \<Longrightarrow> some_ready (fst (wake_timed k))"
  by (auto simp: some_ready_def wake_timed_def read_tsc_def wake_timed_processes_def Let_def wake_process_state filter_empty_conv)
    (metis option.distinct(1))

lemma update_line_processes [simp]: "rt_processes (update_interrupt_line i f rt) = rt_processes rt"
  by (simp add: update_interrupt_line_def split: option.split)

lemma record_irq_woken: "woken k (on_rt (record_hardware_irq line) k)"
proof -
  have "list_all2 kept_or_ready ps (ps[i := make_ready s (ps ! i)])" for ps i s
  proof (rule list_all2_all_nthI)
    fix n
    assume "n < length ps"
    then show "kept_or_ready (ps ! n) (ps[i := make_ready s (ps ! i)] ! n)"
      by (cases "n = i") (simp_all add: kept_or_ready_def make_ready_def)
  qed simp
  then show ?thesis
    by (simp add: woken_def on_rt_def record_hardware_irq_def update_process_at_def update_process_def list_all2_same split: option.split)
qed

lemma interrupt_woken: "woken k (interrupt_dispatch irq k)"
  by (cases irq) (auto intro: wake_timed_woken woken_trans [OF record_irq_woken])

lemma wait_for_interrupt_woken: "woken k (wait_for_interrupt k)"
proof -
  have "woken k (fold interrupt_dispatch irqs k)" for irqs k
    by (induction irqs arbitrary: k) (auto intro: woken_trans interrupt_woken)
  moreover have "woken k (k\<lparr>kn_halts := n\<rparr>)" for n
    by (simp add: woken_def list_all2_same)
  ultimately show ?thesis
    unfolding wait_for_interrupt_def by (rule woken_trans [rotated])
qed

section \<open>The loop ends\<close>

text \<open>The clock readings before the deadline are exactly the first ones.\<close>

definition passes :: "(nat \<Rightarrow> u64) \<Rightarrow> u64 \<Rightarrow> bool" where
  "passes clock d \<longleftrightarrow> (\<exists>n. \<forall>m. deadline_reached (clock m) d \<longleftrightarrow> n \<le> m)"

text \<open>A process waits for the deadline, or one is ready already.\<close>

definition pending :: "u64 \<Rightarrow> kernel \<Rightarrow> bool" where
  "pending d k \<longleftrightarrow> some_ready k \<or> (\<exists>p \<in> set (kn_processes k). deadline_of (proc_state p) = Some d)"

lemma woken_pending:
  assumes "woken k k'" "pending d k"
  shows "pending d k'"
proof (cases "some_ready k")
  case True
  then show ?thesis
    using woken_some_ready [OF assms(1)] by (simp add: pending_def)
next
  case False
  then obtain i where i: "i < length (kn_processes k)" "deadline_of (proc_state (kn_processes k ! i)) = Some d"
    using assms(2) by (auto simp: pending_def in_set_conv_nth)
  then have "kept_or_ready (kn_processes k ! i) (kn_processes k' ! i)" "i < length (kn_processes k')"
    using assms(1) by (auto simp: woken_def list_all2_conv_all_nth)
  then have "kn_processes k' ! i \<in> set (kn_processes k')"
      "proc_state (kn_processes k' ! i) = Ready \<or> deadline_of (proc_state (kn_processes k' ! i)) = Some d"
    using i(2) by (auto simp: kept_or_ready_def)
  then show ?thesis
    unfolding pending_def some_ready_def by blast
qed

lemma deadline_wakes: "deadline_of st = Some d \<Longrightarrow> deadline_reached now d \<Longrightarrow> wake_status now st \<noteq> None"
  by (cases st) (auto split: option.splits)

lemma pending_reached:
  assumes "pending d k" "deadline_reached (kn_clock k (kn_reads k)) d"
  shows "some_ready (fst (wake_timed k))"
proof (cases "some_ready k")
  case True
  then show ?thesis
    by (rule woken_some_ready [OF wake_timed_woken])
next
  case False
  then obtain p where "p \<in> set (kn_processes k)" "deadline_of (proc_state p) = Some d"
    using assms(1) by (auto simp: pending_def)
  moreover from this(2) have "wake_status (kn_clock k (kn_reads k)) (proc_state p) \<noteq> None"
    by (rule deadline_wakes) (rule assms(2))
  ultimately show ?thesis
    unfolding some_ready_def by (intro bexI [of _ "wake_process (kn_clock k (kn_reads k)) p"]) (auto simp: wake_process_state)
qed

lemma wait_returns:
  assumes "pending d k" "\<forall>m. deadline_reached (kn_clock k m) d \<longleftrightarrow> n \<le> m"
  shows "\<exists>k'. wait_until_deadline d True k = Some k' \<and> some_ready (fst (wake_timed k'))"
  using assms
proof (induction "n - kn_reads k" arbitrary: k rule: less_induct)
  case less
  let ?k1 = "k\<lparr>kn_reads := Suc (kn_reads k)\<rparr>"
  let ?k2 = "fst (wake_timed ?k1)"
  have w1: "woken k ?k1"
    by (simp add: woken_def list_all2_same)
  have w2: "woken k ?k2"
    by (rule woken_trans [OF w1 wake_timed_woken])
  have w3: "woken k (wait_for_interrupt ?k2)"
    by (rule woken_trans [OF w2 wait_for_interrupt_woken])
  show ?case
  proof (cases "deadline_reached (kn_clock k (kn_reads k)) d \<or> ready_index True ?k1 \<noteq> None")
    case True
    have "some_ready (fst (wake_timed ?k1))"
    proof (cases "ready_index True ?k1")
      case None
      then have "n \<le> kn_reads k"
        using True less.prems(2) by simp
      then show ?thesis
        using less.prems(2) by (intro pending_reached [OF woken_pending [OF w1 less.prems(1)]]) simp
    qed (rule woken_some_ready [OF wake_timed_woken ready_index_some])
    then show ?thesis
      using True by (subst wait_until_deadline.simps) (auto simp: read_tsc_def)
  next
    case False
    then have early: "kn_reads k < n"
      using less.prems(2) by simp
    show ?thesis
    proof (cases "snd (wake_timed ?k1) = 0")
      case True
      have "kn_clock (wait_for_interrupt ?k2) = kn_clock k" "Suc (kn_reads k) \<le> kn_reads (wait_for_interrupt ?k2)"
        using w3 wait_for_interrupt_woken [of ?k2] by (simp_all add: woken_def)
      then have "\<exists>k'. wait_until_deadline d True (wait_for_interrupt ?k2) = Some k' \<and> some_ready (fst (wake_timed k'))"
        using early less.prems(2) by (intro less.hyps [OF _ woken_pending [OF w3 less.prems(1)]]) simp_all
      then show ?thesis
        using False True by (subst wait_until_deadline.simps) (simp add: read_tsc_def case_prod_beta)
    next
      case woke: False
      then have "some_ready (fst (wake_timed ?k2))"
        using wake_timed_count woken_some_ready [OF wake_timed_woken] by blast
      then show ?thesis
        using False woke by (subst wait_until_deadline.simps) (simp add: read_tsc_def case_prod_beta)
    qed
  qed
qed

section \<open>Work is found\<close>

lemma earlier_some: "x \<noteq> None \<or> (\<exists>p \<in> set ps. deadline_of (proc_state p) \<noteq> None) \<Longrightarrow> foldl earlier x ps \<noteq> None"
  by (induction ps arbitrary: x) (force simp: earlier_def split: option.splits)+

lemma earlier_from:
  "foldl earlier x ps = Some d \<Longrightarrow> x = Some d \<or> (\<exists>p \<in> set ps. deadline_of (proc_state p) = Some d)"
proof (induction ps arbitrary: x)
  case (Cons p ps)
  from Cons.IH [of "earlier x p"] Cons.prems
  have "earlier x p = Some d \<or> (\<exists>p \<in> set ps. deadline_of (proc_state p) = Some d)"
    by simp
  moreover have "x = Some d \<or> deadline_of (proc_state p) = Some d" if "earlier x p = Some d"
    using that by (auto simp: earlier_def split: option.splits if_splits)
  ultimately show ?case
    by auto
qed simp

lemma pick_ready: "some_ready k \<Longrightarrow> \<exists>k'. pick_next True k = (k', True)"
  using some_ready_index by (force simp: pick_next_def)

lemma woken_deadlines:
  assumes "woken k k'" "q \<in> set (kn_processes k')" "deadline_of (proc_state q) = Some d"
  shows "\<exists>p \<in> set (kn_processes k). deadline_of (proc_state p) = Some d"
proof -
  obtain i where i: "i < length (kn_processes k')" "q = kn_processes k' ! i"
    using assms(2) by (auto simp: in_set_conv_nth)
  then have "kept_or_ready (kn_processes k ! i) q" "i < length (kn_processes k)"
    using assms(1) by (auto simp: woken_def list_all2_conv_all_nth)
  then have "kn_processes k ! i \<in> set (kn_processes k)" "deadline_of (proc_state (kn_processes k ! i)) = Some d"
    using assms(3) by (auto simp: kept_or_ready_def)
  then show ?thesis
    by blast
qed

lemma schedule_switches:
  assumes "p \<in> set (kn_processes k)" "proc_state p = Ready \<or> deadline_of (proc_state p) \<noteq> None"
    and clock: "\<And>q d. q \<in> set (kn_processes k) \<Longrightarrow> deadline_of (proc_state q) = Some d \<Longrightarrow> passes (kn_clock k) d"
  shows "\<exists>k'. schedule_next_ready k = Some (k', True)"
proof -
  let ?k1 = "fst (wake_timed k)"
  have w: "woken k ?k1"
    by (rule wake_timed_woken)
  show ?thesis
  proof (cases "some_ready ?k1")
    case True
    then show ?thesis
      using pick_ready [OF True] some_ready_index [OF True]
      by (auto simp: schedule_next_ready_def schedule_next_ready_inner_def Let_def)
  next
    case idle: False
    obtain d0 where "pending d0 k"
      using assms(1,2) by (auto simp: pending_def some_ready_def)
    then have "\<exists>q \<in> set (kn_processes ?k1). deadline_of (proc_state q) = Some d0"
      using woken_pending [OF w] idle by (simp add: pending_def)
    then obtain d where d: "next_deadline_tsc (kn_rt ?k1) = Some d"
      using earlier_some [of None "kn_processes ?k1"] unfolding next_deadline_tsc_def by (metis not_None_eq)
    then obtain q where q: "q \<in> set (kn_processes ?k1)" "deadline_of (proc_state q) = Some d"
      using earlier_from [of None "kn_processes ?k1" d] by (auto simp: next_deadline_tsc_def)
    have "passes (kn_clock k) d"
      using woken_deadlines [OF w q] clock by blast
    then obtain n where "\<forall>m. deadline_reached (kn_clock ?k1 m) d \<longleftrightarrow> n \<le> m"
      by (auto simp: passes_def)
    moreover have "pending d ?k1"
      using q by (auto simp: pending_def)
    ultimately obtain k2 where k2: "wait_until_deadline d True ?k1 = Some k2" "some_ready (fst (wake_timed k2))"
      using wait_returns by blast
    have "ready_index True ?k1 = None"
      using ready_index_some [of True ?k1] idle by (cases "ready_index True ?k1") auto
    then show ?thesis
      using pick_ready [OF k2(2)] k2(1) d by (simp add: schedule_next_ready_def schedule_next_ready_inner_def Let_def)
  qed
qed

section \<open>Deadlines\<close>

lemma unat_saturating_mul: "unat (saturating_mul a b :: 'a::len word) = min (unat a * unat b) (2 ^ LENGTH('a) - 1)"
  using unat_mult_lem [of a b] by (auto simp: saturating_mul_def unat_all_ones)

lemma ticks_read [simp]: "tsc_ticks_per_ms (k\<lparr>kn_reads := n\<rparr>) = tsc_ticks_per_ms k"
  by (simp add: tsc_ticks_per_ms_def Let_def split: prod.split)

lemma unat_deadline:
  "unat (snd (deadline_after_ms ms k)) = min (unat (kn_clock k (kn_reads k)) + unat ms * unat (tsc_ticks_per_ms k)) (2 ^ 64 - 1)"
  by (simp add: deadline_after_ms_def read_tsc_def unat_saturating_add unat_saturating_mul min_def)

lemma sint_of_int: "- (2 ^ 63) \<le> i \<Longrightarrow> i < 2 ^ 63 \<Longrightarrow> sint (of_int i :: u64) = i"
  by (simp add: int_word_sint)

lemma deadline_reached_iff:
  assumes "d \<le> u + 2 ^ 63" "u < d + 2 ^ 63"
  shows "deadline_reached (of_nat u) (of_nat d) \<longleftrightarrow> d \<le> u"
proof -
  have "(of_nat u :: u64) - of_nat d = of_int (int u - int d)"
    by simp
  then have "sint ((of_nat u :: u64) - of_nat d) = int u - int d"
    using assms sint_of_int [of "int u - int d"] by simp
  then show ?thesis
    by (simp add: deadline_reached_def)
qed

end
