(* ===== verification/Kernel_Properties.thy ===== *)
theory Kernel_Properties
  imports Kernel_Steps Scheduler_Liveness User_Copy
begin

text \<open>
  What the running kernel guarantees: one process runs, in its own address
  space; the idle loop ends with a process; deadlines are exact in the range
  the comparison covers; a message for a waiting receiver lands in the memory
  of that receiver.
\<close>

text \<open>
  C6: From a state in which exactly one process is running, the current
  process of the table with its own page tables active, every state reached by
  the steps of \<^const>\<open>kernel_step\<close> is such a state again.  The steps are user
  computation, interrupts, faults, the modelled system calls, and the blocking
  parts of the VFS calls: waiting for and waking a pipe reader, requests to
  the state and file services, and syncs.  One outcome is excluded: a request
  to the state or file service whose endpoint no longer exists returns
  \<^verbatim>\<open>BadCapability\<close> with the running caller marked as blocked, which
  breaks the invariant (lemma \<^verbatim>\<open>run_transaction_lost\<close>).  The rest of the
  VFS calls, process creation and start, generation changes and port and
  virtio access are not steps.
\<close>

theorem one_process_runs_in_its_own_space:
  assumes "current_runs k" "kernel_step\<^sup>*\<^sup>* k k'"
  shows "\<exists>i < length (kn_processes k'). pt_current (rt_processes (kn_rt k')) = Some (proc_pid (kn_processes k' ! i)) \<and>
    mc_cr3 (kn_mc k') = ctx_cr3 (proc_context (kn_processes k' ! i)) \<and>
    (\<forall>j < length (kn_processes k'). proc_state (kn_processes k' ! j) = Running \<longleftrightarrow> j = i)"
proof -
  have "current_runs k'"
    using assms(2,1) by (induction rule: rtranclp_induct) (auto intro: kernel_step_runs)
  then show ?thesis
    by (auto simp: current_runs_def current_at_def)
qed

text \<open>
  C10: A scheduler called while a process is ready, asleep or waits with a
  timeout returns and switches to a process, whatever interrupts arrive, as
  long as the clock passes the deadlines; if nothing ran before, the process
  switched to is the one that runs.
\<close>

theorem scheduler_finds_work:
  assumes "p \<in> set (kn_processes k)" "proc_state p = Ready \<or> deadline_of (proc_state p) \<noteq> None"
    and "\<And>q d. q \<in> set (kn_processes k) \<Longrightarrow> deadline_of (proc_state q) = Some d \<Longrightarrow> passes (kn_clock k) d"
    and "none_runs k"
  shows "\<exists>k'. schedule_next_ready k = Some (k', True) \<and> current_runs k'"
proof -
  have "\<exists>k'. schedule_next_ready k = Some (k', True)"
    by (rule schedule_switches [OF assms(1,2)]) (rule assms(3))
  then obtain k' where k': "schedule_next_ready k = Some (k', True)" ..
  then have "scheduled k' True"
    using schedule_outcome [OF assms(4)] by (simp add: schedule_next_ready_def)
  then show ?thesis
    using k' by (simp add: scheduled_def)
qed

text \<open>
  C30: A deadline computed for a number of milliseconds is reached exactly when
  that time has passed, when the sum of the clock reading and the ticks does
  not saturate, for timeouts of at most half the range of the counter
  (2^63 ticks) and readings less than half the range after the call.  A longer
  timeout is not covered: the signed comparison would find it reached at once.
\<close>

theorem deadline_exact:
  fixes k ms e
  defines "now \<equiv> kn_clock k (kn_reads k)" and "ticks \<equiv> unat ms * unat (tsc_ticks_per_ms k)"
  assumes "unat now + ticks < 2 ^ 64" "ticks \<le> 2 ^ 63" "e < 2 ^ 63"
  shows "deadline_reached (now + of_nat e) (snd (deadline_after_ms ms k)) \<longleftrightarrow> ticks \<le> e"
proof -
  have "unat (snd (deadline_after_ms ms k)) = unat now + ticks"
    using assms unat_deadline [of ms k] by simp
  from arg_cong [OF this, of "of_nat :: nat \<Rightarrow> u64"]
  have d: "snd (deadline_after_ms ms k) = of_nat (unat now + ticks)"
    by simp
  have n: "now + of_nat e = of_nat (unat now + e)"
    by simp
  show ?thesis
    unfolding d n using assms by (subst deadline_reached_iff) simp_all
qed

text \<open>
  C32: A timeout so long that the deadline saturates expires at the next look
  at the clock: a process asleep until it is made ready although no time has
  passed, while the counter is in the lower half of its range.
\<close>

theorem saturated_timeout_expires_at_once:
  assumes "2 ^ 64 \<le> unat (kn_clock k (kn_reads k)) + unat ms * unat (tsc_ticks_per_ms k)" "now < 0x7FFFFFFFFFFFFFFF"
  shows "proc_state (wake_process now (p\<lparr>proc_state := Sleeping (snd (deadline_after_ms ms k))\<rparr>)) = Ready"
proof -
  have "unat (snd (deadline_after_ms ms k)) = 2 ^ 64 - 1"
    using assms(1) unat_deadline [of ms k] by simp
  then have d: "snd (deadline_after_ms ms k) = - 1"
    by (simp add: word_unat_eq_iff unat_all_ones)
  have "- (2 ^ 63) \<le> uint now + 1" "uint now + 1 < 2 ^ 63"
    using assms(2) uint_ge_0 [of now] by (simp_all add: word_less_def)
  then have "sint (now - - 1) = uint now + 1"
    using sint_of_int [of "uint now + 1"] by simp
  then show ?thesis
    by (simp add: wake_process_state d deadline_reached_def)
qed

section \<open>Delivery\<close>

lemma copy_to_process_effect:
  assumes "own_space k" "copy_to_user (switch_address_space (kn_mc k) cr3) destination bytes = (m, r)"
  shows "copy_to_process cr3 destination bytes k = (k\<lparr>kn_mc := switch_address_space m (mc_cr3 (kn_mc k))\<rparr>, \<not> isl r)"
proof -
  obtain i where i: "current_at i k" "pt_inv (rt_processes (kn_rt k))"
    using assms(1) by (auto simp: own_space_def)
  then show ?thesis
    using own_space_current(1) [OF i(2,1)] assms(2) by (simp add: copy_to_process_def current_at_def)
qed

lemma failed_copy_keeps: "copy_to_user m p src = (m', Inl e) \<Longrightarrow> m' = m"
  by (auto simp: copy_to_user_def split: sum.splits)

text \<open>
  C12: When a message is queued for a process that waits on an endpoint, the
  delivery makes that process ready, the page tables of the sender stay active
  and no other process changes.  If the copy into the buffer of the receiver
  is accepted, under the page tables of the receiver, its result is the length
  of the message, cut to the buffer, and the buffer then holds those bytes
  when its own page tables are active, provided no two of its bytes share a
  physical address.  If the copy is refused, its result is the bad-buffer
  status and no byte of memory changed.  The length of the buffer is a
  \<^verbatim>\<open>usize\<close>, below 2^64.
\<close>

theorem delivery_reaches_receiver:
  fixes k i
  defines "p \<equiv> kn_processes k ! i" and "cr3 \<equiv> ctx_cr3 (proc_context (kn_processes k ! i))"
  assumes "own_space k" "i < length (kn_processes k)" "max_len < 2 ^ 64"
    and "update_endpoint endpoint (\<lambda>e. ep_dequeue_for e (proc_pid p)) (kn_rt k) = Some (rt, Some message)"
    and "k' = deliver_message endpoint i destination max_len k"
  shows "proc_state (kn_processes k' ! i) = Ready \<and> mc_cr3 (kn_mc k') = mc_cr3 (kn_mc k) \<and>
    kn_processes k' = (kn_processes k)[i := kn_processes k' ! i] \<and>
    (case snd (copy_to_user (switch_address_space (kn_mc k) cr3) destination (message_prefix message max_len)) of
       Inl _ \<Rightarrow> fr_rax (proc_saved_frame (kn_processes k' ! i)) = STATUS_BAD_BUFFER \<and> mc_bytes (kn_mc k') = mc_bytes (kn_mc k)
     | Inr _ \<Rightarrow> fr_rax (proc_saved_frame (kn_processes k' ! i)) = of_nat (min (msg_len message) max_len) \<and>
        (inj_on (\<lambda>n. byte_address (switch_address_space (kn_mc k) cr3) (destination + of_nat n))
            {..< length (message_prefix message max_len)} \<longrightarrow>
          load_bytes (switch_address_space (kn_mc k') cr3) destination (length (message_prefix message max_len)) =
            message_prefix message max_len))"
proof -
  let ?bytes = "message_prefix message max_len" and ?k = "k\<lparr>kn_rt := rt\<rparr>"
  have k1: "calm k ?k"
    by (intro calm_rt) (rule update_endpoint_view [OF assms(6)])
  obtain m r where c: "copy_to_user (switch_address_space (kn_mc k) cr3) destination ?bytes = (m, r)"
    by fastforce
  have copy: "copy_to_process cr3 destination ?bytes ?k = (?k\<lparr>kn_mc := switch_address_space m (mc_cr3 (kn_mc k))\<rparr>, \<not> isl r)"
    using copy_to_process_effect [OF calm_own_space [OF k1 assms(3)], of cr3 destination ?bytes m r] c by simp
  have ps: "rt_processes rt = rt_processes (kn_rt k)"
    by (rule update_endpoint_processes [OF assms(6)])
  define rax where "rax = (if isl r then STATUS_BAD_BUFFER else of_nat (min (msg_len message) max_len))"
  have k': "k' = on_rt (\<lambda>rt. (if isl r then id else record_ready_lifecycle endpoint (proc_pid p) message) (update_process_at i (make_ready rax) rt))
      (?k\<lparr>kn_mc := switch_address_space m (mc_cr3 (kn_mc k))\<rparr>)"
    using assms(6) copy unfolding assms(7) p_def cr3_def rax_def by (simp add: deliver_message_def)
  have "kn_processes k' = (kn_processes k)[i := make_ready rax (kn_processes k ! i)]"
    by (simp add: k' on_rt_def update_process_at_def update_process_def ps)
  then have at: "kn_processes k' ! i = make_ready rax (kn_processes k ! i)" "kn_processes k' = (kn_processes k)[i := kn_processes k' ! i]"
    using assms(4) by simp_all
  have "mc_cr3 m = cr3"
    using copy_to_user_cr3 [OF c] by (simp add: switch_address_space_def)
  then have mc: "switch_address_space (kn_mc k') cr3 = m" "mc_cr3 (kn_mc k') = mc_cr3 (kn_mc k)" "mc_bytes (kn_mc k') = mc_bytes m"
    by (simp_all add: k' on_rt_def switch_address_space_def)
  have "length ?bytes < 2 ^ 64"
    using assms(5) by (simp add: message_prefix_def)
  moreover have "mc_bytes m = mc_bytes (kn_mc k)" if "r = Inl e" for e
    using failed_copy_keeps c that by (fastforce simp: switch_address_space_def)
  ultimately show ?thesis
    using c copied_bytes [of _ destination ?bytes m] at mc by (cases r) (auto simp: make_ready_def rax_def)
qed

section \<open>A sample machine\<close>

definition task :: "process_id \<Rightarrow> u64 \<Rightarrow> process_state \<Rightarrow> process" where
  "task pid cr3 st = process_new pid ''task'' \<lparr>ctx_cr3 = cr3, ctx_entry = 0, ctx_stack_top = 0\<rparr> 0 0 st cspace_new vfs_path_empty"

lemma task_fields [simp]:
  "proc_pid (task pid cr3 st) = pid" "proc_state (task pid cr3 st) = st" "ctx_cr3 (proc_context (task pid cr3 st)) = cr3"
  "proc_has_saved_frame (task pid cr3 st) = False"
  by (simp_all add: task_def process_new_def Let_def)

definition queued :: message_queue where
  "queued = fst (mq_enqueue message_queue_empty 1 [7] 1)"

text \<open>Two processes, the first current; an endpoint holds a message of the first.\<close>

definition two_tasks :: "process_state \<Rightarrow> process_state \<Rightarrow> kernel" where
  "two_tasks st1 st2 =
    \<lparr>kn_rt = runtime_state_new\<lparr>
        rt_objects := \<lparr>ot_objects = [Some (IpcEndpoint ((ipc_endpoint_new 9 ''log'' 1)\<lparr>ep_queue := queued\<rparr>))], ot_next_id = 10\<rparr>,
        rt_processes := \<lparr>pt_processes = [task 1 0x1000 st1, task 2 0x300000 st2], pt_current = Some 1, pt_next_id = 3\<rparr>\<rparr>,
     kn_mc = \<lparr>mc_tables = sample_tables, mc_cr3 = 0x1000, mc_hhdm = Some 0, mc_bytes = (\<lambda>_. 0)\<rparr>, kn_alloc = None,
     kn_rng = virtio_rng_state_new, kn_net = virtio_net_state_new, kn_frame = syscall_frame_empty, kn_clock = (\<lambda>n. if n < 3 then 0 else 5), kn_reads = 0,
     kn_cpuid = (\<lambda>_. (0, 0, 0)), kn_interrupts = (\<lambda>_. []), kn_halts = 0\<rparr>"

lemma two_tasks_fields [simp]:
  "rt_processes (kn_rt (two_tasks st1 st2)) = \<lparr>pt_processes = [task 1 0x1000 st1, task 2 0x300000 st2], pt_current = Some 1, pt_next_id = 3\<rparr>"
  "mc_cr3 (kn_mc (two_tasks st1 st2)) = 0x1000" "kn_reads (two_tasks st1 st2) = 0" "kn_clock (two_tasks st1 st2) = (\<lambda>n. if n < 3 then 0 else 5)"
  by (simp_all add: two_tasks_def)

lemma two_tasks_inv: "pt_inv (rt_processes (kn_rt (two_tasks st1 st2)))"
  by (simp add: pt_inv_def MAX_PROCESSES_def)

lemma two_tasks_runs: "st2 \<noteq> Running \<Longrightarrow> current_runs (two_tasks Running st2)"
  using two_tasks_inv [of Running st2] by (auto simp: current_runs_def current_at_def less_Suc_eq intro!: exI [of _ 0])

lemma two_tasks_none: "st1 \<noteq> Running \<Longrightarrow> st2 \<noteq> Running \<Longrightarrow> none_runs (two_tasks st1 st2)"
  using two_tasks_inv [of st1 st2] by (auto simp: none_runs_def own_space_def current_at_def less_Suc_eq intro!: exI [of _ 0])

lemma two_tasks_yield:
  "\<exists>k'. yield_current_process (two_tasks Running Ready) = Some (k', Switched)"
proof -
  let ?k = "two_tasks Running Ready"
  have "current_process_mut (rt_processes (kn_rt ?k)) = Some 0"
    by (simp add: current_process_mut_def process_mut_def process_index_def)
  then obtain k1 where k1: "on_current (suspend (kn_frame ?k) Ready) ?k = Some k1"
      "k1 = on_rt (update_process_at 0 (suspend (kn_frame ?k) Ready)) ?k"
    by (simp add: on_current_def)
  let ?k2 = "fst (wake_timed k1)"
  have "kn_processes ?k2 ! 1 = task 2 0x300000 Ready" "pt_current (rt_processes (kn_rt ?k2)) = Some 1" "length (kn_processes ?k2) = 2"
      "proc_pid (kn_processes ?k2 ! 0) = 1"
    using calm_pt_current [OF calm_wake_timed [of k1]]
    by (simp_all add: k1(2) on_rt_def update_process_at_def update_process_def wake_process_def suspend_def)
  then have "eligible_index (rt_processes (kn_rt ?k2)) False 1"
    by (auto simp: eligible_index_def current_index_def process_index_def first_index_Some)
  then obtain i where "ready_index False ?k2 = Some i"
    using next_ready_None [of "rt_processes (kn_rt ?k2)" False] unfolding ready_index_def by blast
  then show ?thesis
    by (simp add: yield_current_process_def k1(1) schedule_next_ready_excluding_current_def schedule_next_ready_inner_def
        pick_next_def Let_def)
qed

theorem one_process_runs_in_its_own_space_witness:
  "\<exists>k' i. yield_current_process (two_tasks Running Ready) = Some (k', Switched) \<and>
    pt_current (rt_processes (kn_rt k')) = Some (proc_pid (kn_processes k' ! i)) \<and>
    mc_cr3 (kn_mc k') = ctx_cr3 (proc_context (kn_processes k' ! i)) \<and> proc_state (kn_processes k' ! i) = Running"
proof -
  obtain k' where k': "yield_current_process (two_tasks Running Ready) = Some (k', Switched)"
    using two_tasks_yield by blast
  have "kernel_step\<^sup>*\<^sup>* (two_tasks Running Ready) k'"
    by (rule r_into_rtranclp) (rule step_yield [OF k'])
  from one_process_runs_in_its_own_space [OF two_tasks_runs this] show ?thesis
    using k' by auto
qed

theorem scheduler_finds_work_witness:
  "\<exists>k'. schedule_next_ready (two_tasks Exited (Sleeping 5)) = Some (k', True) \<and> current_runs k'"
proof (rule scheduler_finds_work [of "task 2 0x300000 (Sleeping 5)"])
  fix q d
  assume "q \<in> set (kn_processes (two_tasks Exited (Sleeping 5)))" "deadline_of (proc_state q) = Some d"
  then have "d = 5"
    by auto
  then show "passes (kn_clock (two_tasks Exited (Sleeping 5))) d"
    by (auto simp: passes_def deadline_reached_def intro!: exI [of _ 3])
qed (auto intro: two_tasks_none)

lemma two_tasks_ticks: "tsc_ticks_per_ms (two_tasks st1 st2) = 1000000"
  by (simp add: tsc_ticks_per_ms_def two_tasks_def FALLBACK_TSC_TICKS_PER_MS_def)

theorem deadline_exact_witness:
  "deadline_reached 3000000 (snd (deadline_after_ms 3 (two_tasks Running Ready))) \<and>
   \<not> deadline_reached 2999999 (snd (deadline_after_ms 3 (two_tasks Running Ready)))"
  using deadline_exact [of "two_tasks Running Ready" 3 3000000] deadline_exact [of "two_tasks Running Ready" 3 2999999]
  by (simp add: two_tasks_ticks)

theorem saturated_timeout_expires_at_once_witness:
  "proc_state (wake_process 0 ((task 1 0 Running)\<lparr>proc_state := Sleeping (snd (deadline_after_ms u64_max (two_tasks Running Ready)))\<rparr>)) = Ready"
  by (rule saturated_timeout_expires_at_once) (simp_all add: two_tasks_ticks u64_max_def unat_all_ones)

definition waiting_receiver :: kernel where
  "waiting_receiver = two_tasks Running (BlockedOnEndpoint 9 0 0x400000 8 None)"

lemma queued_message: "snd (dequeue_for queued 2) = Some (make_message 1 [7] 1)"
  by (simp add: queued_def dequeue_for_def remove_first_def remove_at_def mq_enqueue_def message_queue_empty_def MESSAGE_QUEUE_CAPACITY_def
      live_messages_def numeral_eq_Suc make_message_def)

lemma waiting_receiver_message:
  "\<exists>rt. update_endpoint 9 (\<lambda>e. ep_dequeue_for e 2) (kn_rt waiting_receiver) = Some (rt, Some (make_message 1 [7] 1))"
proof -
  have o: "ot_objects (rt_objects (kn_rt waiting_receiver)) = [Some (IpcEndpoint ((ipc_endpoint_new 9 ''log'' 1)\<lparr>ep_queue := queued\<rparr>))]"
    by (simp add: waiting_receiver_def two_tasks_def)
  then have "get_endpoint_mut (rt_objects (kn_rt waiting_receiver)) 9 = Some 0"
    by (simp add: get_endpoint_mut_def ipc_endpoint_new_def)
  moreover have "snd (ep_dequeue_for (endpoint_at (rt_objects (kn_rt waiting_receiver)) 0) 2) = Some (make_message 1 [7] 1)"
    using queued_message by (simp add: endpoint_at_def o ep_dequeue_for_def case_prod_beta)
  ultimately show ?thesis
    by (simp add: update_endpoint_def case_prod_beta)
qed

theorem delivery_reaches_receiver_witness:
  "proc_state (kn_processes (deliver_message 9 1 0x400000 8 waiting_receiver) ! 1) = Ready \<and>
   fr_rax (proc_saved_frame (kn_processes (deliver_message 9 1 0x400000 8 waiting_receiver) ! 1)) = 1 \<and>
   load_bytes (switch_address_space (kn_mc (deliver_message 9 1 0x400000 8 waiting_receiver)) 0x300000) 0x400000 1 = [7] \<and>
   mc_cr3 (kn_mc (deliver_message 9 1 0x400000 8 waiting_receiver)) = 0x1000"
proof -
  have m: "switch_address_space (kn_mc waiting_receiver) 0x300000 = sample_machine"
    by (simp add: waiting_receiver_def two_tasks_def switch_address_space_def sample_machine_def)
  have ps: "kn_processes waiting_receiver = [task 1 0x1000 Running, task 2 0x300000 (BlockedOnEndpoint 9 0 0x400000 8 None)]"
      "mc_cr3 (kn_mc waiting_receiver) = 0x1000" "own_space waiting_receiver"
    by (simp_all add: waiting_receiver_def current_runs_own_space [OF two_tasks_runs])
  have prefix: "message_prefix (make_message 1 [7] (Suc 0)) 8 = [7]" "msg_len (make_message 1 [7] (Suc 0)) = 1"
    by (simp_all add: message_prefix_def make_message_def)
  have "snd (copy_to_user sample_machine 0x400000 [7]) = Inr ()"
    by code_simp
  moreover obtain rt where "update_endpoint 9 (\<lambda>e. ep_dequeue_for e 2) (kn_rt waiting_receiver) = Some (rt, Some (make_message 1 [7] 1))"
    using waiting_receiver_message by blast
  ultimately show ?thesis
    using delivery_reaches_receiver [of waiting_receiver 1 8 9 rt "make_message 1 [7] 1" "deliver_message 9 1 0x400000 8 waiting_receiver" "0x400000"]
    by (simp add: ps m prefix lessThan_Suc)
qed

end
