(* ===== verification/Spec2Isabelle.thy ===== *)
theory Spec2Isabelle
  imports Arena Vfs_Safety Page_Properties Cap_Properties VertexFs_Properties Page_Cache_Properties Kernel_Properties
begin

text \<open>
  A verification development of the vertex-os repository: the krust kernel
  under \<^verbatim>\<open>src/kernel/krust/src\<close>, a capability-secure operating
  system kernel.  File names below are relative to that directory.

  \<^bold>\<open>The program.\<close>  One kernel state holds the object table, the process table
  with a capability space per process, the capability lineage and revocation
  list, the tables of the virtual file system, and the VertexFS image in
  memory.  A process names objects through slots of its capability space;
  system calls look the slot up, check the right, and act on the object.
  Messages go through endpoints with bounded queues; a receiver blocks until a
  send, a timeout or the loss of its authority wakes it, and the scheduler
  then switches page tables with the process.  File operations run on tables
  of nodes, open descriptions and locks, through a page cache in front of
  VertexFS files; a sync records the sectors to write and sends them one by
  one to a block driver in another process.  Physical memory is handed out
  frame by frame with an owner, and mapped through four-level page tables.

  \<^bold>\<open>Conventions.\<close>  Rust's \<^verbatim>\<open>u64\<close>, \<^verbatim>\<open>u32\<close>, \<^verbatim>\<open>u16\<close> and
  \<^verbatim>\<open>u8\<close> are words of that width, with checked, saturating and wrapping
  operations as in the source; \<^verbatim>\<open>usize\<close> is \<^typ>\<open>nat\<close>.  An array with a
  count is the list of its first count entries.  A \<^verbatim>\<open>&mut\<close> reference is
  the index it borrows.  An operation returns the state it leaves behind on
  every path with a sum: \<^verbatim>\<open>Inl\<close> the error, \<^verbatim>\<open>Inr\<close> the result; an
  operation that can stop the kernel (an index out of range) or fail to
  return is an option of that.  Output on the serial line is left out.

  \<^bold>\<open>Shared interfaces.\<close>
  \<^item> \<^verbatim>\<open>Krust_Prelude\<close>: the integer types, Rust arithmetic, table scans.
  \<^item> \<^verbatim>\<open>Slot_Table\<close>, \<^verbatim>\<open>Keyed_Slots\<close>: arrays of options with first-fit
    allocation (a locale, interpreted by the arena and the file-handle tables)
    and lookup by a key.
  \<^item> \<^verbatim>\<open>Fifo_Queue\<close>: bounded queues with selective receive (a locale,
    interpreted three times by the message queue).
  \<^item> \<^verbatim>\<open>Id_Map\<close>: tables with ever-increasing ids (a locale, interpreted by
    both ways the object table adds objects).

  \<^bold>\<open>Memory.\<close>
  \<^item> \<^verbatim>\<open>Arena\<close>: \<^verbatim>\<open>arena.rs\<close>.  Stale handles stay rejected until the
    generation saturates; heap regions are disjoint.
  \<^item> \<^verbatim>\<open>Frame_Memory\<close>: \<^verbatim>\<open>memory.rs\<close>.  No frame is handed out twice;
    frees check the owner; a failed contiguous request strands free frames.
  \<^item> \<^verbatim>\<open>Paging\<close>: \<^verbatim>\<open>paging.rs\<close>.  \<^verbatim>\<open>Page_Walk\<close>,
    \<^verbatim>\<open>Page_Safety\<close>, \<^verbatim>\<open>Page_Reclaim\<close>, \<^verbatim>\<open>Page_Properties\<close>: mapping and
    unmapping refine the update of a partial function from pages to entries;
    user ranges are accepted exactly when every byte is open to user mode; a
    new address space is isolated; reclaiming frees exactly what is owned.
  \<^item> \<^verbatim>\<open>User_Memory\<close>, \<^verbatim>\<open>User_Copy\<close>: \<^verbatim>\<open>usercopy.rs\<close>.  Copies stay
    inside the validated range and are read back.

  \<^bold>\<open>Objects, processes and capabilities.\<close>
  \<^item> \<^verbatim>\<open>Kernel_Types\<close>, \<^verbatim>\<open>Kernel_Objects\<close>, \<^verbatim>\<open>Object_Table\<close>:
    \<^verbatim>\<open>kernel/error.rs\<close>, \<^verbatim>\<open>kernel/object.rs\<close>, \<^verbatim>\<open>device/object.rs\<close>,
    \<^verbatim>\<open>vfs/namespace.rs\<close>, \<^verbatim>\<open>kernel/object_table.rs\<close>.  The table is a
    finite map with fresh ids; the most specific mount is found.
  \<^item> \<^verbatim>\<open>Transport\<close>: \<^verbatim>\<open>kernel/transport.rs\<close>.  The four-slot queue with
    its shift loop refines a list; delivery is first in, first out.
  \<^item> \<^verbatim>\<open>Process_Runtime\<close>: \<^verbatim>\<open>kernel/process_runtime.rs\<close>.  Process ids are
    unique; round-robin selection starves nobody; closed file handles stay
    dead.
  \<^item> \<^verbatim>\<open>Runtime_State\<close>, \<^verbatim>\<open>Cap_Lookup\<close>, \<^verbatim>\<open>Cap_Syscalls\<close>:
    \<^verbatim>\<open>ipc/runtime_state.rs\<close>, \<^verbatim>\<open>ipc/object_lookup.rs\<close>,
    \<^verbatim>\<open>ipc/capability_syscalls.rs\<close>.  \<^verbatim>\<open>Cap_Safety\<close>,
    \<^verbatim>\<open>Cap_Steps\<close>, \<^verbatim>\<open>Cap_Properties\<close>: an invariant of identities,
    lineage and revocation marks; lookups are exact, climbs along parents
    end, a revocation reaches exactly the descendants and is permanent,
    authority is never amplified, failed calls change nothing.

  \<^bold>\<open>Files.\<close>
  \<^item> \<^verbatim>\<open>Vfs_Path\<close>: \<^verbatim>\<open>vfs/path.rs\<close>, \<^verbatim>\<open>ipc/vfs_paths.rs\<close>.  The
    validators accept exactly canonical paths; resolution stays under the root.
  \<^item> \<^verbatim>\<open>Vfs_Types\<close>, \<^verbatim>\<open>Vfs_Tables\<close>, \<^verbatim>\<open>Vfs_Safety\<close>: the node,
    description, lock and event tables of \<^verbatim>\<open>ipc/runtime_state.rs\<close> as a
    transition system; exclusive locks exclude, open files survive the loss of
    their name, the last close reclaims everything.
  \<^item> \<^verbatim>\<open>Byte_Codec\<close>, \<^verbatim>\<open>Vfs_Wire\<close>: little-endian fields and the records
    copied to user memory.
  \<^item> \<^verbatim>\<open>VertexFs_Image\<close>, \<^verbatim>\<open>VertexFs_Sync\<close>: \<^verbatim>\<open>vfs/vertexfs.rs\<close> and
    the commit of \<^verbatim>\<open>ipc/runtime_state.rs\<close>.  \<^verbatim>\<open>VertexFs_Safety\<close>,
    \<^verbatim>\<open>VertexFs_Crash\<close>, \<^verbatim>\<open>VertexFs_Sample\<close>,
    \<^verbatim>\<open>VertexFs_Properties\<close>: after any prefix of the device writes of a
    sync of \<^verbatim>\<open>app/a\<close> the image mounts with the old or the new contents; a
    sync of another file can leave an image that does not mount.
  \<^item> \<^verbatim>\<open>Page_Cache\<close>, \<^verbatim>\<open>Page_Cache_Safety\<close>,
    \<^verbatim>\<open>Page_Cache_Properties\<close>: reads through the cache give the bytes of the
    file, and fail for want of room only when no page can be evicted.

  \<^bold>\<open>The running kernel.\<close>
  \<^item> \<^verbatim>\<open>Scheduler\<close>: \<^verbatim>\<open>ipc/scheduler.rs\<close> and the interrupt entries of
    \<^verbatim>\<open>exceptions.rs\<close>.  The kernel record adds to the state the machine
    (page tables, CR3, bytes), the frame allocator, the saved frame, and the
    hardware as parameters: the readings of the time-stamp counter, the CPUID
    leaves, the interrupts that end each halt.
  \<^item> \<^verbatim>\<open>Vfs_Transactions\<close>, \<^verbatim>\<open>Core_Syscalls\<close>, \<^verbatim>\<open>Device_Memory\<close>,
    \<^verbatim>\<open>Process_Syscalls\<close>: \<^verbatim>\<open>ipc/vfs_transactions.rs\<close>,
    \<^verbatim>\<open>ipc/core_syscalls.rs\<close>, \<^verbatim>\<open>ipc/memory_mapping.rs\<close>, the mapping and
    network-port calls of \<^verbatim>\<open>ipc/device_syscalls.rs\<close>,
    \<^verbatim>\<open>ipc/process_syscalls.rs\<close>.
  \<^item> \<^verbatim>\<open>Scheduler_Safety\<close>, \<^verbatim>\<open>Service_Waits\<close>, \<^verbatim>\<open>Kernel_Steps\<close>,
    \<^verbatim>\<open>Scheduler_Liveness\<close>, \<^verbatim>\<open>Kernel_Properties\<close>: each call keeps one
    process running in its own address space; the idle loop ends; deadlines
    are exact where the comparison can be; a message reaches its receiver.

  \<^bold>\<open>Loops.\<close>  Loops over tables are structural or have a measure.  Four loops
  have no bound of their own and are partial functions into option: the two
  climbs along parent capabilities, shown to return in every state the
  capability calls reach; the wait of the idle loop, shown to return when the
  clock passes the deadlines; and the climb along parent nodes that unmounting
  uses, about which no termination is claimed.  No fuel is used.

  \<^bold>\<open>Hypotheses on the environment.\<close>  The boot loader's usable memory ranges do
  not overlap; physical addresses fit in 52 bits; the clock passes every
  deadline (for the scheduler to find work); a copied user buffer is not
  mapped twice onto one frame (for reading it back).  Each theorem that needs
  one of these states it.

  \<^bold>\<open>Not modelled.\<close>  The boot manifest and the construction of the runtime from
  it (\<^verbatim>\<open>boot_manifest.rs\<close>, \<^verbatim>\<open>ipc/boot_runtime.rs\<close>,
  \<^verbatim>\<open>kernel/runtime_config.rs\<close>), and with it generations
  (\<^verbatim>\<open>ipc/generation.rs\<close>): they run before or between the states
  considered here.  The creation and start of processes and the ELF loader
  (\<^verbatim>\<open>elf.rs\<close>, \<^verbatim>\<open>userspace.rs\<close>).  The entry points of the VFS calls
  (\<^verbatim>\<open>ipc/vfs_syscalls.rs\<close>, \<^verbatim>\<open>ipc/vfs_nodes.rs\<close>), which compose the
  modelled operations.  Virtio queues, PCI and port access, the serial line,
  descriptor tables and interrupt controllers: input and output whose answers
  no source of the repository defines.  The inspection report
  (\<^verbatim>\<open>ipc/inspect_report.rs\<close>) formats text.  The host tools under
  \<^verbatim>\<open>src/crates\<close> and the user programs do not run in the kernel; what a
  user program computes is an arbitrary step of the machine.  Invalidation of
  the translation cache has no counterpart.
\<close>

end
